(* ===== verification/Prelude.thy ===== *)
theory Prelude
  imports Complex_Main "HOL-Library.List_Lexorder" "HOL-Library.Char_ord" "HOL-Library.AList"
    "HOL-Library.Code_Target_Nat"
begin

text \<open>
  What the components share: the result of a request (a value or the HTTP error the code
  throws), loops that stop at the first error, the JavaScript operations on strings, lists and
  insertion-ordered maps the code uses, and tables of rows addressed by their primary key.

  Collections of lemmas: \<open>result_simps\<close> turns a successful run into the conditions and the
  intermediate values it went through; \<open>table_simps\<close> rewrites lookups in and sums over an
  updated table.
\<close>

named_theorems result_simps
named_theorems table_simps

section \<open>Results: a value or the error the code throws\<close>

text \<open>
  The NestJS exceptions, with the error code of their body. The human-readable message is not
  modelled. \<open>DbError\<close> is a statement the database itself refuses (a CHECK constraint, a unique
  index, the balance trigger) and \<open>Crash\<close> is an exception of the language (a property of \<open>undefined\<close>);
  both reach the client as an internal error.
\<close>

datatype api_error =
    BadRequest string
  | NotFound string
  | Conflict string
  | Unprocessable string
  | Forbidden string
  | Unauthorized string
  | DbError string
  | Crash string

type_synonym 'a result = "api_error + 'a"

definition bindE :: "'a result \<Rightarrow> ('a \<Rightarrow> 'b result) \<Rightarrow> 'b result" where
  "bindE m f = (case m of Inl e \<Rightarrow> Inl e | Inr x \<Rightarrow> f x)"

definition throw_if :: "bool \<Rightarrow> api_error \<Rightarrow> 'a result \<Rightarrow> 'a result" where
  "throw_if c e k = (if c then Inl e else k)"

definition some_or :: "'a option \<Rightarrow> api_error \<Rightarrow> ('a \<Rightarrow> 'b result) \<Rightarrow> 'b result" where
  "some_or x e k = (case x of None \<Rightarrow> Inl e | Some v \<Rightarrow> k v)"

lemma bindE_Inr [result_simps]: "bindE m f = Inr y \<longleftrightarrow> (\<exists>x. m = Inr x \<and> f x = Inr y)"
  by (cases m) (auto simp: bindE_def)

lemma throw_if_Inr [result_simps]: "throw_if c e k = Inr y \<longleftrightarrow> \<not> c \<and> k = Inr y"
  by (simp add: throw_if_def)

lemma some_or_Inr [result_simps]: "some_or x e k = Inr y \<longleftrightarrow> (\<exists>v. x = Some v \<and> k v = Inr y)"
  by (cases x) (auto simp: some_or_def)

lemma map_sum_Inr [result_simps]: "map_sum id f r = Inr y \<longleftrightarrow> (\<exists>x. r = Inr x \<and> f x = y)"
  by (cases r) auto

lemma bindE_simps [simp]: "bindE (Inr x) f = f x" "bindE (Inl e) f = Inl e"
  by (simp_all add: bindE_def)

lemma throw_if_simps [simp]: "throw_if True e k = Inl e" "throw_if False e k = k"
  by (simp_all add: throw_if_def)

lemma some_or_simps [simp]: "some_or (Some v) e k = k v" "some_or None e k = Inl e"
  by (simp_all add: some_or_def)

text \<open>A loop whose body may throw: it stops at the first error.\<close>

fun foldE :: "('s \<Rightarrow> 'a \<Rightarrow> 's result) \<Rightarrow> 's \<Rightarrow> 'a list \<Rightarrow> 's result" where
  "foldE f s [] = Inr s"
| "foldE f s (x # xs) = bindE (f s x) (\<lambda>s'. foldE f s' xs)"

lemma foldE_invariant:
  assumes "foldE f s xs = Inr t" and "P s"
    and "\<And>s x s'. x \<in> set xs \<Longrightarrow> P s \<Longrightarrow> f s x = Inr s' \<Longrightarrow> P s'"
  shows "P t"
  using assms
proof (induction xs arbitrary: s)
  case Nil
  then show ?case by simp
next
  case (Cons x xs)
  from Cons.prems(1) obtain s' where s': "f s x = Inr s'" "foldE f s' xs = Inr t"
    by (auto simp: bindE_Inr)
  have "P s'"
    using Cons.prems(2,3) s'(1) by (meson list.set_intros(1))
  with s'(2) show ?case
    using Cons.IH Cons.prems(3) by (meson list.set_intros(2))
qed

lemma foldE_append:
  "foldE f s (xs @ ys) = bindE (foldE f s xs) (\<lambda>t. foldE f t ys)"
  by (induction xs arbitrary: s) (auto simp: bindE_def split: sum.splits)

section \<open>JavaScript strings\<close>

text \<open>\<open>String(n)\<close> of a whole number, \<open>padStart\<close> and the reading of a run of digits.\<close>

definition digit_char :: "nat \<Rightarrow> char" where
  "digit_char d = char_of (48 + d)"

definition is_digit :: "char \<Rightarrow> bool" where
  "is_digit c \<longleftrightarrow> 48 \<le> (of_char c :: nat) \<and> (of_char c :: nat) \<le> 57"

definition digit_val :: "char \<Rightarrow> nat" where
  "digit_val c = of_char c - 48"

fun show_nat :: "nat \<Rightarrow> string" where
  "show_nat n = (if n < 10 then [digit_char n] else show_nat (n div 10) @ [digit_char (n mod 10)])"

declare show_nat.simps [simp del]

definition read_nat :: "string \<Rightarrow> nat" where
  "read_nat s = foldl (\<lambda>n c. 10 * n + digit_val c) 0 s"

definition padStart :: "nat \<Rightarrow> char \<Rightarrow> string \<Rightarrow> string" where
  "padStart n c s = replicate (n - length s) c @ s"

lemma digit_val_char [simp]: "d < 10 \<Longrightarrow> digit_val (digit_char d) = d"
  by (simp add: digit_val_def digit_char_def)

lemma is_digit_char [simp]: "d < 10 \<Longrightarrow> is_digit (digit_char d)"
  by (simp add: is_digit_def digit_char_def)

lemma read_nat_append1 [simp]: "read_nat (s @ [c]) = 10 * read_nat s + digit_val c"
  by (simp add: read_nat_def)

lemma read_nat_Nil [simp]: "read_nat [] = 0"
  by (simp add: read_nat_def)

lemma read_show_nat [simp]: "read_nat (show_nat n) = n"
proof (induction n rule: show_nat.induct)
  case (1 n)
  show ?case
  proof (cases "n < 10")
    case True
    then show ?thesis by (simp add: show_nat.simps [of n] read_nat_def)
  next
    case False
    with 1 show ?thesis by (simp add: show_nat.simps [of n])
  qed
qed

lemma show_nat_nonempty [simp]: "show_nat n \<noteq> []"
  by (simp add: show_nat.simps [of n])

lemma show_nat_digits: "list_all is_digit (show_nat n)"
proof (induction n rule: show_nat.induct)
  case (1 n)
  then show ?case by (cases "n < 10") (simp_all add: show_nat.simps [of n])
qed

lemma show_nat_inj: "show_nat m = show_nat n \<longleftrightarrow> m = n"
  by (metis read_show_nat)

lemma read_nat_zeros [simp]: "read_nat (replicate k (CHR ''0'') @ s) = read_nat s"
proof -
  have "foldl (\<lambda>n c. 10 * n + digit_val c) 0 (replicate k (CHR ''0'')) = 0"
    by (induction k) (simp_all add: digit_val_def)
  then show ?thesis by (simp add: read_nat_def)
qed

lemma read_padStart [simp]: "read_nat (padStart n (CHR ''0'') s) = read_nat s"
  by (simp add: padStart_def)

lemma padStart_show_inj:
  "padStart n (CHR ''0'') (show_nat a) = padStart n (CHR ''0'') (show_nat b) \<longleftrightarrow> a = b"
  by (metis read_padStart read_show_nat)

lemma length_padStart: "length (padStart n c s) = max n (length s)"
  by (simp add: padStart_def)

lemma read_nat_bound: "list_all is_digit s \<Longrightarrow> read_nat s < 10 ^ length s"
proof (induction s rule: rev_induct)
  case Nil
  then show ?case by simp
next
  case (snoc c s)
  then have "read_nat s + 1 \<le> 10 ^ length s" and "digit_val c \<le> 9"
    by (auto simp: is_digit_def digit_val_def)
  then show ?case by simp
qed

lemma show_nat_length_ge: "0 < n \<Longrightarrow> 10 ^ length (show_nat n) \<le> 10 * n"
proof (induction n rule: show_nat.induct)
  case (1 n)
  show ?case
  proof (cases "n < 10")
    case True
    with "1.prems" show ?thesis by (simp add: show_nat.simps [of n])
  next
    case False
    then have "10 ^ length (show_nat (n div 10)) \<le> 10 * (n div 10)"
      using "1.IH" by simp
    with False show ?thesis by (simp add: show_nat.simps [of n])
  qed
qed

lemma show_nat_length_le: "n < 10 ^ length (show_nat n)"
  using read_nat_bound [OF show_nat_digits, of n] by simp

lemma show_nat_length_bound:
  assumes "n < 10 ^ k" and "0 < k"
  shows "length (show_nat n) \<le> k"
proof (cases "n = 0")
  case True
  with assms show ?thesis by (simp add: show_nat.simps [of 0])
next
  case False
  then have "(10::nat) ^ length (show_nat n) < 10 ^ Suc k"
    using show_nat_length_ge [of n] assms(1) by simp
  then have "length (show_nat n) < Suc k" by (rule power_less_imp_less_exp [rotated]) simp
  then show ?thesis by simp
qed

lemma digit_val_inj: "is_digit c \<Longrightarrow> is_digit d \<Longrightarrow> digit_val c = digit_val d \<Longrightarrow> c = d"
  unfolding is_digit_def digit_val_def by (metis eq_diff_iff of_char_eq_iff)

lemma read_nat_Cons: "read_nat (c # s) = digit_val c * 10 ^ length s + read_nat s"
  by (induction s rule: rev_induct) (simp_all add: read_nat_def algebra_simps)

lemma digits_inj:
  assumes "length s = length t" and "list_all is_digit s" and "list_all is_digit t"
    and "read_nat s = read_nat t"
  shows "s = t"
  using assms
proof (induction s arbitrary: t rule: rev_induct)
  case Nil
  then show ?case by simp
next
  case (snoc c s)
  then obtain d u where t: "t = u @ [d]" by (cases t rule: rev_cases) auto
  have v: "digit_val c \<le> 9" "digit_val d \<le> 9"
    using snoc.prems t by (auto simp: is_digit_def digit_val_def)
  have eq: "10 * read_nat s + digit_val c = 10 * read_nat u + digit_val d"
    using snoc.prems t by simp
  then have "digit_val c = digit_val d" and "read_nat s = read_nat u" using v by presburger+
  moreover from this(1) have "c = d"
    using snoc.prems t by (intro digit_val_inj) simp_all
  ultimately show ?case using snoc t by simp
qed

lemma list_all_padStart: "list_all is_digit s \<Longrightarrow> list_all is_digit (padStart n (CHR ''0'') s)"
  by (auto simp: padStart_def is_digit_def list_all_iff)

lemma pad_show_read:
  assumes "list_all is_digit t" and "0 < length t"
  shows "padStart (length t) (CHR ''0'') (show_nat (read_nat t)) = t"
proof (rule digits_inj)
  show "length (padStart (length t) (CHR ''0'') (show_nat (read_nat t))) = length t"
    using show_nat_length_bound [OF read_nat_bound] assms by (simp add: length_padStart max_absorb1)
qed (simp_all add: assms list_all_padStart show_nat_digits)

lemma digit_less: "is_digit c \<Longrightarrow> is_digit d \<Longrightarrow> c < d \<longleftrightarrow> digit_val c < digit_val d"
  by (auto simp: is_digit_def digit_val_def less_char_def)

lemma digit_eq: "is_digit c \<Longrightarrow> is_digit d \<Longrightarrow> c = d \<longleftrightarrow> digit_val c = digit_val d"
  using digit_val_inj by blast

text \<open>Digit strings of one length compare as the numbers they write.\<close>

lemma digits_less:
  "length s = length t \<Longrightarrow> list_all is_digit s \<Longrightarrow> list_all is_digit t \<Longrightarrow>
   s < t \<longleftrightarrow> read_nat s < read_nat t"
proof (induction s t rule: list_induct2)
  case Nil
  then show ?case by simp
next
  case (Cons c s d t)
  define B where "B = (10::nat) ^ length s"
  have bounds: "read_nat s < B" "read_nat t < B"
    using Cons read_nat_bound [of s] read_nat_bound [of t] by (simp_all add: B_def)
  have lt: "digit_val x * B + read_nat u < digit_val y * B + read_nat v"
    if "digit_val x < digit_val y" "read_nat u < B" for x y u v
  proof -
    have "digit_val x * B + read_nat u < (digit_val x + 1) * B" using that by simp
    also have "\<dots> \<le> digit_val y * B" using that(1) by (intro mult_right_mono) simp_all
    finally show ?thesis by simp
  qed
  have "c # s < d # t \<longleftrightarrow> c < d \<or> c = d \<and> s < t" by simp
  also have "\<dots> \<longleftrightarrow> digit_val c < digit_val d \<or> digit_val c = digit_val d \<and> read_nat s < read_nat t"
    using Cons by (simp add: digit_less digit_eq)
  also have "\<dots> \<longleftrightarrow> digit_val c * B + read_nat s < digit_val d * B + read_nat t"
    using lt [of c d s t] lt [of d c t s] bounds by (cases "digit_val c" "digit_val d" rule: linorder_cases) auto
  finally show ?case using Cons.hyps by (simp add: read_nat_Cons B_def)
qed

lemma append_less:
  "length a = length b \<Longrightarrow> a @ x < b @ y \<longleftrightarrow> a < b \<or> a = b \<and> (x::string) < y"
  for a b :: string
  by (induction a b rule: list_induct2) auto

text \<open>\<open>slice(i, j)\<close> for indices counted from the front.\<close>

definition slice :: "nat \<Rightarrow> nat \<Rightarrow> 'a list \<Rightarrow> 'a list" where
  "slice i j xs = take (j - i) (drop i xs)"

text \<open>\<open>s.startsWith(p)\<close>.\<close>

definition starts_with :: "string \<Rightarrow> string \<Rightarrow> bool" where
  "starts_with s p \<longleftrightarrow> take (length p) s = p"

text \<open>\<open>join(sep)\<close> of an array of strings.\<close>

fun join :: "string \<Rightarrow> string list \<Rightarrow> string" where
  "join sep [] = []"
| "join sep [x] = x"
| "join sep (x # xs) = x @ sep @ join sep xs"

section \<open>Insertion-ordered collections\<close>

text \<open>
  \<open>[...new Set(xs)]\<close> keeps the first occurrence of each value. A JavaScript \<open>Map\<close> iterates in
  insertion order and a \<open>set\<close> on an existing key keeps its place, which is what \<open>AList.update\<close>
  does.
\<close>

definition uniq :: "'a list \<Rightarrow> 'a list" where
  "uniq xs = rev (remdups (rev xs))"

lemma set_uniq [simp]: "set (uniq xs) = set xs"
  by (simp add: uniq_def)

lemma distinct_uniq [simp]: "distinct (uniq xs)"
  by (simp add: uniq_def)

lemma length_uniq [simp]: "length (uniq xs) = card (set xs)"
  by (metis distinct_card distinct_uniq set_uniq)

definition add_at :: "'k \<Rightarrow> rat \<Rightarrow> ('k \<times> rat) list \<Rightarrow> ('k \<times> rat) list" where
  "add_at k d m = AList.update k ((case map_of m k of None \<Rightarrow> 0 | Some v \<Rightarrow> v) + d) m"

definition at0 :: "('k \<times> rat) list \<Rightarrow> 'k \<Rightarrow> rat" where
  "at0 m k = (case map_of m k of None \<Rightarrow> 0 | Some v \<Rightarrow> v)"

lemma at0_add_at: "at0 (add_at k d m) j = at0 m j + (if j = k then d else 0)"
  by (auto simp: at0_def add_at_def update_conv')

lemma dom_add_at: "fst ` set (add_at k d m) = insert k (fst ` set m)"
  by (simp add: add_at_def dom_update)

lemma distinct_add_at: "distinct (map fst m) \<Longrightarrow> distinct (map fst (add_at k d m))"
  by (simp add: add_at_def distinct_update)

lemma at0_empty [simp]: "at0 [] k = 0"
  by (simp add: at0_def)

lemma at0_foldl_add_at:
  "at0 (foldl (\<lambda>m x. add_at (f x) (g x) m) m0 xs) k
   = at0 m0 k + (\<Sum>x\<leftarrow>xs. if f x = k then g x else 0)"
  by (induction xs arbitrary: m0) (auto simp: at0_add_at)

lemma distinct_foldl_add_at:
  "distinct (map fst m0) \<Longrightarrow> distinct (map fst (foldl (\<lambda>m x. add_at (f x) (g x) m) m0 xs))"
  by (induction xs arbitrary: m0) (auto simp: distinct_add_at)

lemma dom_foldl_add_at:
  "fst ` set (foldl (\<lambda>m x. add_at (f x) (g x) m) m0 xs) = fst ` set m0 \<union> f ` set xs"
  by (induction xs arbitrary: m0) (auto simp: dom_add_at)

lemma set_map_filter: "set (List.map_filter f xs) = {y. \<exists>x \<in> set xs. f x = Some y}"
  by (induction xs) (auto simp: map_filter_simps split: option.splits)

section \<open>Tables\<close>

text \<open>
  A table is the list of its rows in the order they were inserted. \<open>row_with key i\<close> finds the row
  with primary key \<open>i\<close>; \<open>update_row key i f\<close> is an UPDATE of that row.
\<close>

definition row_with :: "('r \<Rightarrow> nat) \<Rightarrow> nat \<Rightarrow> 'r list \<Rightarrow> 'r option" where
  "row_with key i t = find (\<lambda>r. key r = i) t"

definition update_row :: "('r \<Rightarrow> nat) \<Rightarrow> nat \<Rightarrow> ('r \<Rightarrow> 'r) \<Rightarrow> 'r list \<Rightarrow> 'r list" where
  "update_row key i f t = map (\<lambda>r. if key r = i then f r else r) t"

lemma row_with_Some:
  "row_with key i t = Some r \<Longrightarrow> r \<in> set t \<and> key r = i"
  by (auto simp: row_with_def find_Some_iff)

lemma row_with_None: "row_with key i t = None \<longleftrightarrow> i \<notin> key ` set t"
  by (auto simp: row_with_def find_None_iff)

lemma row_with_distinct:
  "distinct (map key t) \<Longrightarrow> r \<in> set t \<Longrightarrow> row_with key (key r) t = Some r"
  by (induction t) (auto simp: row_with_def)

lemma row_with_mapped:
  "(\<And>x. key (f x) = base x) \<Longrightarrow> row_with key k (map f xs) = map_option f (row_with base k xs)"
  by (induction xs) (auto simp: row_with_def)

lemma row_with_update [table_simps]:
  "(\<And>r. key (f r) = key r) \<Longrightarrow>
   row_with key j (update_row key i f t) = map_option (\<lambda>r. if j = i then f r else r) (row_with key j t)"
  by (induction t) (auto simp: row_with_def update_row_def)

lemma keys_update_row [simp]:
  "(\<And>r. key (f r) = key r) \<Longrightarrow> map key (update_row key i f t) = map key t"
  by (induction t) (auto simp: update_row_def)

lemma length_update_row [simp]: "length (update_row key i f t) = length t"
  by (simp add: update_row_def)

lemma map_update_row:
  "(\<And>r. g (f r) = g r) \<Longrightarrow> map g (update_row key i f t) = map g t"
  by (induction t) (auto simp: update_row_def)

lemma set_update_row:
  "r \<in> set (update_row key i f t) \<Longrightarrow>
   (\<exists>q \<in> set t. (key q = i \<and> r = f q) \<or> (key q \<noteq> i \<and> r = q))"
  by (auto simp: update_row_def)

lemma update_row_absent: "i \<notin> key ` set t \<Longrightarrow> update_row key i f t = t"
  by (induction t) (auto simp: update_row_def)

lemma sum_update_row:
  fixes g :: "'r \<Rightarrow> 'b::ab_group_add"
  assumes "distinct (map key t)" and "row_with key i t = Some r"
  shows "(\<Sum>x\<leftarrow>update_row key i f t. g x) = (\<Sum>x\<leftarrow>t. g x) - g r + g (f r)"
  using assms
proof (induction t)
  case Nil
  then show ?case by (simp add: row_with_def)
next
  case (Cons a t)
  show ?case
  proof (cases "key a = i")
    case True
    with Cons.prems have "a = r" and "update_row key i f t = t"
      by (auto simp: row_with_def intro!: update_row_absent)
    with True show ?thesis by (simp add: update_row_def)
  next
    case False
    with Cons.prems have "row_with key i t = Some r" by (simp add: row_with_def)
    with Cons False show ?thesis by (simp add: update_row_def algebra_simps)
  qed
qed

section \<open>Sums\<close>

lemma sum_replaced:
  fixes f :: "'r \<Rightarrow> rat"
  shows "distinct (map key xs) \<Longrightarrow> v \<in> set xs \<Longrightarrow>
   (\<Sum>w\<leftarrow>update_row key (key v) (\<lambda>_. v') xs. f w) = (\<Sum>w\<leftarrow>xs. f w) - f v + f v'"
proof (induction xs)
  case (Cons x xs)
  show ?case
  proof (cases "key x = key v")
    case True
    then have fresh: "\<forall>w \<in> set xs. key w \<noteq> key v" using Cons.prems(1) by (auto simp: image_iff)
    then have "x = v" using Cons.prems(2) by auto
    moreover have "update_row key (key v) (\<lambda>_. v') xs = xs"
      using fresh unfolding update_row_def by (intro map_idI) auto
    ultimately show ?thesis by (simp add: update_row_def)
  next
    case False
    then have "v \<in> set xs" using Cons.prems by auto
    then show ?thesis using Cons False by (simp add: update_row_def)
  qed
qed simp

lemma sum_removed:
  fixes f :: "'r \<Rightarrow> rat"
  shows "distinct (map key xs) \<Longrightarrow> v \<in> set xs \<Longrightarrow> (\<Sum>w\<leftarrow>filter (\<lambda>w. key w \<noteq> key v) xs. f w) = (\<Sum>w\<leftarrow>xs. f w) - f v"
proof (induction xs)
  case (Cons x xs)
  show ?case
  proof (cases "key x = key v")
    case True
    then have fresh: "\<forall>w \<in> set xs. key w \<noteq> key v" using Cons.prems(1) by (auto simp: image_iff)
    then have "x = v" using Cons.prems(2) by auto
    moreover have "filter (\<lambda>w. key w \<noteq> key v) xs = xs" using fresh by (auto simp: filter_id_conv)
    ultimately show ?thesis by simp
  next
    case False
    then have "v \<in> set xs" using Cons.prems by auto
    then show ?thesis using Cons False by simp
  qed
qed simp

lemma sum_list_swap:
  fixes f g :: "'a \<Rightarrow> rat"
  shows "(\<Sum>x\<leftarrow>xs. f x - g x) = (\<Sum>x\<leftarrow>xs. f x) - (\<Sum>x\<leftarrow>xs. g x)"
  by (rule sum_list_subtractf)

lemma foldl_plus_sum:
  fixes f :: "'a \<Rightarrow> rat"
  shows "foldl (\<lambda>acc x. acc + f x) a xs = a + (\<Sum>x\<leftarrow>xs. f x)"
  by (induction xs arbitrary: a) auto

lemma sum_list_if_filter:
  fixes f :: "'a \<Rightarrow> 'b::comm_monoid_add"
  shows "(\<Sum>x\<leftarrow>xs. if P x then f x else 0) = (\<Sum>x\<leftarrow>filter P xs. f x)"
  by (induction xs) auto

lemma sum_if_absent:
  "\<forall>l \<in> set ls. k l \<noteq> i \<Longrightarrow> (\<Sum>l\<leftarrow>ls. if k l = i then f l else 0) = (0 :: 'b::comm_monoid_add)"
  by (induction ls) auto

end
