(* ===== verification/Dates.thy ===== *)
theory Dates
  imports Prelude
begin

text \<open>
  Calendar days: \<^verbatim>\<open>src/common/utils/business-date.util.ts\<close>, \<^verbatim>\<open>date.util.ts\<close>,
  \<^verbatim>\<open>statement.util.ts\<close> and \<^verbatim>\<open>src/modules/reports/fiscal-year.ts\<close>.

  A date is the text \<open>YYYY-MM-DD\<close>, compared as text (\<open>List_Lexorder\<close> over \<open>Char_ord\<close>, the order of
  JavaScript's \<open><\<close> on such strings). \<open>Date.UTC\<close> and \<open>toISOString\<close> are the ECMAScript day
  arithmetic, in whole days since 1970-01-01. Inputs are well-formed dates (\<open>iso_date\<close>), as the
  request validation and the \<open>date\<close> columns guarantee; on other texts the code works on \<open>NaN\<close>,
  which is not modelled.
\<close>

type_synonym date = string

section \<open>ECMAScript day arithmetic\<close>

definition leap :: "int \<Rightarrow> bool" where
  "leap y \<longleftrightarrow> y mod 4 = 0 \<and> (y mod 100 \<noteq> 0 \<or> y mod 400 = 0)"

definition day_from_year :: "int \<Rightarrow> int" where
  "day_from_year y = 365 * (y - 1970) + (y - 1969) div 4 - (y - 1901) div 100 + (y - 1601) div 400"

definition year_length :: "int \<Rightarrow> int" where
  "year_length y = (if leap y then 366 else 365)"

text \<open>Days of the year before the first of month \<open>m\<close> (0 for January).\<close>

definition month_start :: "bool \<Rightarrow> int \<Rightarrow> int" where
  "month_start l m =
     (let s = [0, 31, 59, 90, 120, 151, 181, 212, 243, 273, 304, 334, 365] ! nat m
      in if l \<and> 2 \<le> m then s + 1 else s)"

definition month_of_yday :: "bool \<Rightarrow> int \<Rightarrow> int" where
  "month_of_yday l k = int (length (takeWhile (\<lambda>m. month_start l m \<le> k) [1, 2, 3, 4, 5, 6, 7, 8, 9, 10, 11]))"

text \<open>
  \<open>Date.UTC(y, m, d)\<close>: months and days out of range carry over, and a year from 0 to 99 is read as
  19xx.
\<close>

definition make_day :: "int \<Rightarrow> int \<Rightarrow> int \<Rightarrow> int" where
  "make_day y m d = day_from_year (y + m div 12) + month_start (leap (y + m div 12)) (m mod 12) + d - 1"

definition date_utc :: "int \<Rightarrow> int \<Rightarrow> int \<Rightarrow> int" where
  "date_utc y m d = make_day (if 0 \<le> y \<and> y \<le> 99 then 1900 + y else y) m d"

lemma div_succ:
  fixes x k :: int
  assumes "0 < k"
  shows "(x + 1) div k = x div k + (if (x + 1) mod k = 0 then 1 else 0)"
proof -
  define q r where "q = x div k" and "r = x mod k"
  have x: "x = k * q + r" and r: "0 \<le> r" "r < k" using assms by (simp_all add: q_def r_def)
  show ?thesis
  proof (cases "r + 1 = k")
    case True
    then have "x + 1 = k * (q + 1) + 0" using x by (simp add: algebra_simps)
    then have "(x + 1) div k = q + 1" and "(x + 1) mod k = 0"
      using assms by (auto intro: int_div_pos_eq int_mod_pos_eq)
    then show ?thesis by (simp add: q_def)
  next
    case False
    then have "x + 1 = k * q + (r + 1)" and "r + 1 < k" using x r by simp_all
    then have "(x + 1) div k = q" and "(x + 1) mod k = r + 1"
      using r by (auto intro: int_div_pos_eq int_mod_pos_eq)
    then show ?thesis using r by (simp add: q_def)
  qed
qed

lemma div_pred:
  fixes z y k c :: int
  assumes "0 < k" and "z + c * k = y"
  shows "z div k = (z - 1) div k + (if y mod k = 0 then 1 else 0)"
proof -
  have "z mod k = y mod k" using assms(2) by (metis mod_mult_self1)
  moreover have "z - 1 + 1 = z" by simp
  ultimately show ?thesis using div_succ [OF assms(1), of "z - 1"] by (simp only:)
qed

lemma leap_count_step:
  fixes y a b c a' b' c' :: int
  assumes "a' = a + (if P then 1 else 0)" and "b' = b + (if Q then 1 else 0)"
    and "c' = c + (if R then 1 else 0)" and "R \<Longrightarrow> Q" and "Q \<Longrightarrow> P"
  shows "365 * (y + 1 - 1970) + a' - b' + c' =
         365 * (y - 1970) + a - b + c + (if P \<and> (\<not> Q \<or> R) then 366 else 365)"
  using assms by (cases P; cases Q; cases R) simp_all

lemma mod_0_dvd: "(a::int) dvd b \<Longrightarrow> y mod b = 0 \<Longrightarrow> y mod a = 0"
  by (meson dvd_trans mod_eq_0_iff_dvd)

lemma day_from_year_Suc: "day_from_year (y + 1) = day_from_year y + year_length y"
proof -
  have z: "y - 1968 - 1 = y - 1969" "y - 1900 - 1 = y - 1901" "y - 1600 - 1 = y - 1601"
    "y + 1 - 1969 = y - 1968" "y + 1 - 1901 = y - 1900" "y + 1 - 1601 = y - 1600" by linarith+
  have "(y - 1968) div 4 = (y - 1969) div 4 + (if y mod 4 = 0 then 1 else 0)"
    using div_pred [of 4 "y - 1968" 492 y] by (simp only: z)
  moreover have "(y - 1900) div 100 = (y - 1901) div 100 + (if y mod 100 = 0 then 1 else 0)"
    using div_pred [of 100 "y - 1900" 19 y] by (simp only: z)
  moreover have "(y - 1600) div 400 = (y - 1601) div 400 + (if y mod 400 = 0 then 1 else 0)"
    using div_pred [of 400 "y - 1600" 4 y] by (simp only: z)
  moreover have "y mod 400 = 0 \<Longrightarrow> y mod 100 = 0" and "y mod 100 = 0 \<Longrightarrow> y mod 4 = 0"
    using mod_0_dvd [of 100 400 y] mod_0_dvd [of 4 100 y] by simp_all
  ultimately show ?thesis
    unfolding day_from_year_def year_length_def leap_def z by (rule leap_count_step)
qed

lemma year_length_bounds: "365 \<le> year_length y" "year_length y \<le> 366"
  by (simp_all add: year_length_def)

lemma day_from_year_add: "day_from_year y + 365 * int n \<le> day_from_year (y + int n)
    \<and> day_from_year (y + int n) \<le> day_from_year y + 366 * int n"
proof (induction n)
  case 0
  then show ?case by simp
next
  case (Suc n)
  then show ?case
    using day_from_year_Suc [of "y + int n"] year_length_bounds [of "y + int n"]
    by (simp add: algebra_simps)
qed

lemma day_from_year_mono: "x \<le> y \<Longrightarrow> day_from_year x + 365 * (y - x) \<le> day_from_year y"
  using day_from_year_add [of x "nat (y - x)"] by simp

lemma day_from_year_upper: "x \<le> y \<Longrightarrow> day_from_year y \<le> day_from_year x + 366 * (y - x)"
  using day_from_year_add [of x "nat (y - x)"] by simp

lemma day_from_1970 [simp]: "day_from_year 1970 = 0"
  by (simp add: day_from_year_def)

text \<open>The year of a day: start from an estimate that is never late and step forward.\<close>

function year_search :: "int \<Rightarrow> int \<Rightarrow> int" where
  "year_search y k = (if day_from_year (y + 1) \<le> k then year_search (y + 1) k else y)"
  by pat_completeness auto
termination
proof (relation "measure (\<lambda>(y, k). nat (k - day_from_year y))")
  fix y k
  assume "day_from_year (y + 1) \<le> k"
  then show "((y + 1, k), (y, k)) \<in> measure (\<lambda>(y, k). nat (k - day_from_year y))"
    using day_from_year_Suc [of y] year_length_bounds [of y] by simp
qed simp

declare year_search.simps [simp del]

definition year_from_day :: "int \<Rightarrow> int" where
  "year_from_day k = year_search (1970 + (if 0 \<le> k then k div 366 else k div 365)) k"

lemma year_search_spec:
  "day_from_year y \<le> k \<Longrightarrow>
   day_from_year (year_search y k) \<le> k \<and> k < day_from_year (year_search y k + 1)"
proof (induction y k rule: year_search.induct)
  case (1 y k)
  then show ?case
    by (cases "day_from_year (y + 1) \<le> k") (simp_all add: year_search.simps [of y k])
qed

lemma year_from_day_spec:
  "day_from_year (year_from_day k) \<le> k \<and> k < day_from_year (year_from_day k + 1)"
  unfolding year_from_day_def
proof (rule year_search_spec)
  show "day_from_year (1970 + (if 0 \<le> k then k div 366 else k div 365)) \<le> k"
  proof (cases "0 \<le> k")
    case True
    then have "day_from_year (1970 + k div 366) \<le> 366 * (k div 366)"
      using day_from_year_upper [of 1970 "1970 + k div 366"] by (simp add: pos_imp_zdiv_nonneg_iff)
    also have "\<dots> \<le> k" by presburger
    finally show ?thesis using True by simp
  next
    case False
    then have "k div 365 < 0" by (simp add: neg_imp_zdiv_neg_iff)
    then have "day_from_year (1970 + k div 365) + 365 * (- (k div 365)) \<le> 0"
      using day_from_year_mono [of "1970 + k div 365" 1970] by simp
    moreover have "365 * (k div 365) \<le> k" by presburger
    ultimately show ?thesis using False by simp
  qed
qed

lemma year_from_day_unique:
  assumes "day_from_year y \<le> k" and "k < day_from_year (y + 1)"
  shows "year_from_day k = y"
proof (rule ccontr)
  let ?z = "year_from_day k"
  assume "?z \<noteq> y"
  then consider "?z + 1 \<le> y" | "y + 1 \<le> ?z" by linarith
  then show False
    using assms year_from_day_spec [of k]
      day_from_year_mono [of "?z + 1" y] day_from_year_mono [of "y + 1" ?z]
    by cases auto
qed

lemma month_start_year_end: "month_start l 12 = (if l then 366 else 365)"
  by (simp add: month_start_def)

lemma month_cases:
  assumes "0 \<le> (m::int)" and "m \<le> 11"
  shows "m \<in> {0, 1, 2, 3, 4, 5, 6, 7, 8, 9, 10, 11}"
  using assms unfolding insert_iff empty_iff by presburger

lemma month_of_yday_unique:
  assumes "0 \<le> m" and "m \<le> 11" and "month_start l m \<le> k" and "k < month_start l (m + 1)"
  shows "month_of_yday l k = m"
  using month_cases [OF assms(1,2)] assms(3,4)
  by (cases l; elim insertE emptyE) (simp_all add: month_of_yday_def month_start_def)

lemma month_of_yday_spec:
  assumes "0 \<le> k" and "k < (if l then 366 else 365)"
  shows "0 \<le> month_of_yday l k \<and> month_of_yday l k \<le> 11 \<and>
    month_start l (month_of_yday l k) \<le> k \<and> k < month_start l (month_of_yday l k + 1)"
proof -
  have "\<exists>m. 0 \<le> m \<and> m \<le> 11 \<and> month_start l m \<le> k \<and> k < month_start l (m + 1)"
  proof (rule ccontr)
    assume "\<not> ?thesis"
    then have step: "\<And>m. 0 \<le> m \<Longrightarrow> m \<le> 11 \<Longrightarrow> month_start l m \<le> k \<Longrightarrow> month_start l (m + 1) \<le> k"
      by force
    have "month_start l 0 \<le> k" using assms(1) by (simp add: month_start_def)
    then have "month_start l 12 \<le> k"
      using step [of 0] step [of 1] step [of 2] step [of 3] step [of 4] step [of 5] step [of 6]
        step [of 7] step [of 8] step [of 9] step [of 10] step [of 11] by simp
    with assms(2) show False by (simp add: month_start_year_end split: if_splits)
  qed
  then show ?thesis using month_of_yday_unique by metis
qed

section \<open>ISO texts\<close>

definition days_in_month :: "int \<Rightarrow> int \<Rightarrow> int" where
  "days_in_month y m = month_start (leap y) m - month_start (leap y) (m - 1)"

definition iso_year :: "date \<Rightarrow> int" where "iso_year s = int (read_nat (slice 0 4 s))"
definition iso_month :: "date \<Rightarrow> int" where "iso_month s = int (read_nat (slice 5 7 s))"
definition iso_day :: "date \<Rightarrow> int" where "iso_day s = int (read_nat (slice 8 10 s))"

definition pad2 :: "int \<Rightarrow> string" where
  "pad2 n = padStart 2 (CHR ''0'') (show_nat (nat n))"

text \<open>\<open>toISOString().slice(0, 10)\<close>: years outside 0 to 9999 are written with a sign and six digits.\<close>

definition iso_text :: "int \<Rightarrow> int \<Rightarrow> int \<Rightarrow> date" where
  "iso_text y m d =
     slice 0 10
       ((if 0 \<le> y \<and> y \<le> 9999 then padStart 4 (CHR ''0'') (show_nat (nat y))
         else (if y < 0 then ''-'' else ''+'') @ padStart 6 (CHR ''0'') (show_nat (nat \<bar>y\<bar>)))
        @ ''-'' @ pad2 m @ ''-'' @ pad2 d)"

definition iso_of_day :: "int \<Rightarrow> date" where
  "iso_of_day k =
     (let y = year_from_day k; r = k - day_from_year y; m = month_of_yday (leap y) r
      in iso_text y (m + 1) (r - month_start (leap y) m + 1))"

definition day_of_iso :: "date \<Rightarrow> int" where
  "day_of_iso s = date_utc (iso_year s) (iso_month s - 1) (iso_day s)"

text \<open>A calendar date from year 100 on (\<open>Date.UTC\<close> moves earlier years into the 20th century).\<close>

definition iso_date :: "date \<Rightarrow> bool" where
  "iso_date s \<longleftrightarrow>
     length s = 10 \<and> s ! 4 = CHR ''-'' \<and> s ! 7 = CHR ''-'' \<and>
     list_all is_digit (slice 0 4 s) \<and> list_all is_digit (slice 5 7 s) \<and> list_all is_digit (slice 8 10 s) \<and>
     100 \<le> iso_year s \<and> 1 \<le> iso_month s \<and> iso_month s \<le> 12 \<and>
     1 \<le> iso_day s \<and> iso_day s \<le> days_in_month (iso_year s) (iso_month s)"

section \<open>business-date.util.ts, date.util.ts\<close>

text \<open>
  The time-zone database behind \<open>Intl\<close> is an argument: which zone names exist and the local calendar
  day of an instant in a zone.
\<close>

record zone_data =
  zone_exists :: "string \<Rightarrow> bool"
  zone_day :: "string \<Rightarrow> int \<Rightarrow> date"

definition DEFAULT_BUSINESS_TIMEZONE :: string where
  "DEFAULT_BUSINESS_TIMEZONE = ''Asia/Karachi''"

definition is_space :: "char \<Rightarrow> bool" where
  "is_space c \<longleftrightarrow> c = CHR '' '' \<or> (9 \<le> (of_char c :: nat) \<and> (of_char c :: nat) \<le> 13)"

definition trim :: "string \<Rightarrow> string" where
  "trim s = rev (dropWhile is_space (rev (dropWhile is_space s)))"

definition upper_char :: "char \<Rightarrow> char" where
  "upper_char c = (if 97 \<le> (of_char c :: nat) \<and> (of_char c :: nat) \<le> 122
                   then char_of ((of_char c :: nat) - 32) else c)"

definition businessTimezone :: "zone_data \<Rightarrow> string option \<Rightarrow> string option \<Rightarrow> string" where
  "businessTimezone Z env preferred =
     (let zone = trim (case preferred of None \<Rightarrow> [] | Some p \<Rightarrow> p);
          fromEnv = trim (case env of None \<Rightarrow> [] | Some p \<Rightarrow> p)
      in if zone \<noteq> [] \<and> map upper_char zone \<noteq> ''UTC'' \<and> zone_exists Z zone then zone
         else if fromEnv \<noteq> [] \<and> zone_exists Z fromEnv then fromEnv
         else DEFAULT_BUSINESS_TIMEZONE)"

definition businessToday :: "zone_data \<Rightarrow> string option \<Rightarrow> string option \<Rightarrow> int \<Rightarrow> date" where
  "businessToday Z env preferred now = zone_day Z (businessTimezone Z env preferred) now"

definition addDaysIso :: "date \<Rightarrow> int \<Rightarrow> date" where
  "addDaysIso s n = iso_of_day (day_of_iso (slice 0 10 s) + n)"

definition daysBetweenIso :: "date \<Rightarrow> date \<Rightarrow> int" where
  "daysBetweenIso s t = day_of_iso (slice 0 10 t) - day_of_iso (slice 0 10 s)"

definition PAYMENT_TERMS_DAYS :: "(string \<times> int) list" where
  "PAYMENT_TERMS_DAYS =
     [(''due_on_receipt'', 0), (''net15'', 15), (''net30'', 30), (''net45'', 45), (''net60'', 60),
      (''2_10_net30'', 30), (''net_15'', 15), (''net_30'', 30), (''net_45'', 45), (''net_60'', 60)]"

definition termsDays :: "string option \<Rightarrow> int \<Rightarrow> int" where
  "termsDays terms fallback =
     (case terms of
        None \<Rightarrow> fallback
      | Some t \<Rightarrow> if t = [] then fallback
                 else case map_of PAYMENT_TERMS_DAYS t of None \<Rightarrow> fallback | Some d \<Rightarrow> d)"

definition assertNotFutureDate :: "date \<Rightarrow> date \<Rightarrow> unit result" where
  "assertNotFutureDate today d = throw_if (today < d) (BadRequest ''FUTURE_DATE'') (Inr ())"

section \<open>Day numbers and texts are inverse to each other\<close>

lemma make_day_in_range:
  "0 \<le> m \<Longrightarrow> m \<le> 11 \<Longrightarrow> make_day y m d = day_from_year y + month_start (leap y) m + d - 1"
  by (simp add: make_day_def)

lemma month_start_step:
  assumes "0 \<le> m" and "m \<le> 11"
  shows "month_start l m \<le> month_start l (m + 1)" and "month_start l (m + 1) \<le> month_start l m + 31"
  using month_cases [OF assms] by (cases l; elim insertE emptyE; simp add: month_start_def)+

lemma month_start_mono_nat: "a + n \<le> 12 \<Longrightarrow> month_start l (int a) \<le> month_start l (int (a + n))"
proof (induction n)
  case 0
  then show ?case by simp
next
  case (Suc n)
  then show ?case using month_start_step(1) [of "int (a + n)" l] by (simp add: add.commute)
qed

lemma month_start_mono:
  assumes "0 \<le> a" and "a \<le> b" and "b \<le> 12"
  shows "month_start l a \<le> month_start l b"
  using month_start_mono_nat [of "nat a" "nat (b - a)" l] assms by simp

lemma month_start_0 [simp]: "month_start l 0 = 0"
  by (simp add: month_start_def)

lemma month_start_nonneg: "0 \<le> a \<Longrightarrow> a \<le> 12 \<Longrightarrow> 0 \<le> month_start l a"
  using month_start_mono [of 0 a l] by simp

text \<open>A valid civil date lies in its own year and month.\<close>

lemma civil_in_year:
  assumes "1 \<le> m" and "m \<le> 12" and "1 \<le> d" and "d \<le> days_in_month y m"
  shows "year_from_day (make_day y (m - 1) d) = y"
    and "month_of_yday (leap y) (make_day y (m - 1) d - day_from_year y) = m - 1"
proof -
  let ?k = "make_day y (m - 1) d"
  have k: "?k - day_from_year y = month_start (leap y) (m - 1) + d - 1"
    using assms by (simp add: make_day_in_range)
  have lo: "month_start (leap y) (m - 1) \<le> ?k - day_from_year y"
    and hi: "?k - day_from_year y < month_start (leap y) m"
    using assms(3,4) unfolding k days_in_month_def by linarith+
  show "month_of_yday (leap y) (?k - day_from_year y) = m - 1"
    using lo hi assms by (intro month_of_yday_unique) simp_all
  have "0 \<le> month_start (leap y) (m - 1)" using assms by (intro month_start_nonneg) simp_all
  moreover have "month_start (leap y) m \<le> year_length y"
    using month_start_mono [of m 12 "leap y"] assms by (simp add: year_length_def month_start_year_end)
  ultimately show "year_from_day ?k = y"
    using lo hi by (intro year_from_day_unique) (simp_all add: day_from_year_Suc)
qed

lemma iso_of_make_day:
  assumes "1 \<le> m" and "m \<le> 12" and "1 \<le> d" and "d \<le> days_in_month y m"
  shows "iso_of_day (make_day y (m - 1) d) = iso_text y m d"
proof -
  have "make_day y (m - 1) d - day_from_year y - month_start (leap y) (m - 1) + 1 = d"
    using assms by (simp add: make_day_in_range)
  then show ?thesis
    unfolding iso_of_day_def Let_def civil_in_year(1) [OF assms] civil_in_year(2) [OF assms]
    by simp
qed

text \<open>The fields of a text written by \<open>iso_text\<close>.\<close>

lemma length_pad_show: "nat n < 10 ^ k \<Longrightarrow> 0 < k \<Longrightarrow> length (padStart k (CHR ''0'') (show_nat (nat n))) = k"
  using show_nat_length_bound [of "nat n" k] by (simp add: length_padStart)

lemma slice_middle: "length a = i \<Longrightarrow> length b = j - i \<Longrightarrow> slice i j (a @ b @ c) = b"
  by (simp add: slice_def)

lemma list_all_slice: "list_all P xs \<Longrightarrow> list_all P (slice i j xs)"
  by (auto simp: slice_def list_all_iff dest: in_set_takeD in_set_dropD)

lemma iso_text_fields:
  assumes y: "0 \<le> y" "y \<le> 9999" and m: "0 \<le> m" "m \<le> 99" and d: "0 \<le> d" "d \<le> 99"
  shows "length (iso_text y m d) = 10" and "iso_text y m d ! 4 = CHR ''-''" and "iso_text y m d ! 7 = CHR ''-''"
    and "slice 0 4 (iso_text y m d) = padStart 4 (CHR ''0'') (show_nat (nat y))"
    and "slice 5 7 (iso_text y m d) = pad2 m" and "slice 8 10 (iso_text y m d) = pad2 d"
proof -
  let ?Y = "padStart 4 (CHR ''0'') (show_nat (nat y))"
  have Y: "length ?Y = 4" using y by (intro length_pad_show) simp_all
  have M: "length (pad2 m) = 2" unfolding pad2_def using m by (intro length_pad_show) simp_all
  have D: "length (pad2 d) = 2" unfolding pad2_def using d by (intro length_pad_show) simp_all
  have t: "iso_text y m d = ?Y @ ''-'' @ pad2 m @ ''-'' @ pad2 d"
    using y Y M D by (simp add: iso_text_def slice_def)
  show "length (iso_text y m d) = 10" using Y M D by (simp add: t)
  show "iso_text y m d ! 4 = CHR ''-''" using Y by (simp add: t nth_append)
  show "iso_text y m d ! 7 = CHR ''-''" using Y M by (simp add: t nth_append)
  show "slice 0 4 (iso_text y m d) = ?Y" using Y by (simp add: t slice_def)
  show "slice 5 7 (iso_text y m d) = pad2 m"
    using Y M slice_middle [of "?Y @ ''-''" 5 "pad2 m" 7 "''-'' @ pad2 d"] by (simp add: t)
  show "slice 8 10 (iso_text y m d) = pad2 d"
    using Y M D slice_middle [of "?Y @ ''-'' @ pad2 m @ ''-''" 8 "pad2 d" 10 "[]"] by (simp add: t)
qed

lemma read_pad2 [simp]: "read_nat (pad2 n) = nat n"
  by (simp add: pad2_def)

lemma days_in_month_le: "1 \<le> m \<Longrightarrow> m \<le> 12 \<Longrightarrow> days_in_month y m \<le> 31"
  using month_start_step(2) [of "m - 1" "leap y"] by (simp add: days_in_month_def)

lemma iso_text_read:
  assumes "0 \<le> y" "y \<le> 9999" and "0 \<le> m" "m \<le> 99" and "0 \<le> d" "d \<le> 99"
  shows "iso_year (iso_text y m d) = y" and "iso_month (iso_text y m d) = m" and "iso_day (iso_text y m d) = d"
  using iso_text_fields(4-6) [OF assms] assms by (simp_all add: iso_year_def iso_month_def iso_day_def)

lemma iso_date_iso_text:
  assumes "100 \<le> y" "y \<le> 9999" and "1 \<le> m" "m \<le> 12" and "1 \<le> d" "d \<le> days_in_month y m"
  shows "iso_date (iso_text y m d)"
proof -
  have "d \<le> 99" using days_in_month_le [of m y] assms by simp
  then show ?thesis
    using assms iso_text_fields [of y m d] iso_text_read [of y m d]
    by (simp add: iso_date_def list_all_padStart show_nat_digits pad2_def)
qed

lemma ten_chars: "length s = 10 \<Longrightarrow> s = slice 0 4 s @ [s ! 4] @ slice 5 7 s @ [s ! 7] @ slice 8 10 s"
proof -
  assume l: "length s = 10"
  have "drop 4 s = s ! 4 # drop 5 s" and "drop 7 s = s ! 7 # drop 8 s"
    using l Cons_nth_drop_Suc [of 4 s] Cons_nth_drop_Suc [of 7 s] by simp_all
  moreover have "drop 5 s = take 2 (drop 5 s) @ drop 7 s"
    using append_take_drop_id [of 2 "drop 5 s"] by simp
  moreover have "s = take 4 s @ drop 4 s" by simp
  ultimately show ?thesis using l by (simp add: slice_def)
qed

lemma iso_split: "iso_date s \<Longrightarrow> s = slice 0 4 s @ ''-'' @ slice 5 7 s @ ''-'' @ slice 8 10 s"
  using ten_chars [of s] by (simp add: iso_date_def)

lemma iso_date_text: "iso_date s \<Longrightarrow> s = iso_text (iso_year s) (iso_month s) (iso_day s)"
proof -
  assume s: "iso_date s"
  have L: "length (slice 0 4 s) = 4" "length (slice 5 7 s) = 2" "length (slice 8 10 s) = 2"
    using s by (simp_all add: iso_date_def slice_def)
  have y: "nat (iso_year s) = read_nat (slice 0 4 s)" "nat (iso_month s) = read_nat (slice 5 7 s)"
    "nat (iso_day s) = read_nat (slice 8 10 s)"
    by (simp_all add: iso_year_def iso_month_def iso_day_def)
  have "iso_year s \<le> 9999"
    using read_nat_bound [of "slice 0 4 s"] s L by (simp add: iso_date_def iso_year_def)
  moreover have "padStart 4 (CHR ''0'') (show_nat (nat (iso_year s))) = slice 0 4 s"
    "pad2 (iso_month s) = slice 5 7 s" "pad2 (iso_day s) = slice 8 10 s"
    unfolding pad2_def y using s L pad_show_read [of "slice 0 4 s"] pad_show_read [of "slice 5 7 s"]
      pad_show_read [of "slice 8 10 s"]
    by (simp_all add: iso_date_def)
  ultimately have "iso_text (iso_year s) (iso_month s) (iso_day s)
      = slice 0 10 (slice 0 4 s @ ''-'' @ slice 5 7 s @ ''-'' @ slice 8 10 s)"
    using s by (simp add: iso_text_def iso_date_def)
  also have "\<dots> = s"
    using iso_split [OF s] s by (simp add: slice_def iso_date_def)
  finally show ?thesis by simp
qed

lemma iso_date_slice: "iso_date s \<Longrightarrow> slice 0 10 s = s"
  by (simp add: iso_date_def slice_def)

lemma iso_year_le: "iso_date s \<Longrightarrow> iso_year s \<le> 9999"
  using read_nat_bound [of "slice 0 4 s"] by (simp add: iso_date_def iso_year_def slice_def)

lemma day_of_iso_make: "iso_date s \<Longrightarrow> day_of_iso s = make_day (iso_year s) (iso_month s - 1) (iso_day s)"
  by (simp add: day_of_iso_def date_utc_def iso_date_def)

lemma iso_of_day_of_iso: "iso_date s \<Longrightarrow> iso_of_day (day_of_iso s) = s"
  using iso_of_make_day [of "iso_month s" "iso_day s" "iso_year s"] iso_date_text [of s]
  by (simp add: day_of_iso_make iso_date_def)

lemma year_from_day_of_iso: "iso_date s \<Longrightarrow> year_from_day (day_of_iso s) = iso_year s"
  using civil_in_year(1) [of "iso_month s" "iso_day s" "iso_year s"]
  by (simp add: day_of_iso_make iso_date_def)

text \<open>The day numbers of the years 100 to 9999.\<close>

definition day_in_range :: "int \<Rightarrow> bool" where
  "day_in_range k \<longleftrightarrow> day_from_year 100 \<le> k \<and> k < day_from_year 10000"

lemma day_in_range_year: "day_in_range k \<longleftrightarrow> 100 \<le> year_from_day k \<and> year_from_day k \<le> 9999"
proof -
  let ?y = "year_from_day k"
  have k: "day_from_year ?y \<le> k" "k < day_from_year (?y + 1)" using year_from_day_spec [of k] by simp_all
  have "100 \<le> ?y \<longleftrightarrow> day_from_year 100 \<le> k"
    using k day_from_year_mono [of 100 ?y] day_from_year_mono [of "?y + 1" 100] by (cases "100 \<le> ?y") auto
  moreover have "?y \<le> 9999 \<longleftrightarrow> k < day_from_year 10000"
    using k day_from_year_mono [of "?y + 1" 10000] day_from_year_mono [of 10000 ?y] by (cases "?y \<le> 9999") auto
  ultimately show ?thesis by (simp add: day_in_range_def)
qed

lemma iso_of_day_civil:
  assumes "day_in_range k"
  shows "\<exists>y m d. 100 \<le> y \<and> y \<le> 9999 \<and> 1 \<le> m \<and> m \<le> 12 \<and> 1 \<le> d \<and> d \<le> days_in_month y m \<and>
    iso_of_day k = iso_text y m d \<and> make_day y (m - 1) d = k"
proof -
  let ?y = "year_from_day k"
  let ?r = "k - day_from_year ?y"
  let ?m = "month_of_yday (leap ?y) ?r"
  have "0 \<le> ?r \<and> ?r < (if leap ?y then 366 else 365)"
    using year_from_day_spec [of k] by (auto simp: day_from_year_Suc year_length_def)
  then have m: "0 \<le> ?m" "?m \<le> 11" "month_start (leap ?y) ?m \<le> ?r" "?r < month_start (leap ?y) (?m + 1)"
    using month_of_yday_spec [of ?r "leap ?y"] by simp_all
  let ?d = "?r - month_start (leap ?y) ?m + 1"
  have "iso_of_day k = iso_text ?y (?m + 1) ?d" by (simp add: iso_of_day_def Let_def)
  moreover have "make_day ?y (?m + 1 - 1) ?d = k" using m by (simp add: make_day_in_range)
  moreover have "?d \<le> days_in_month ?y (?m + 1)" using m by (simp add: days_in_month_def)
  ultimately show ?thesis
    using m assms day_in_range_year [of k]
    by (intro exI [of _ ?y] exI [of _ "?m + 1"] exI [of _ ?d]) simp
qed

lemma iso_date_iso_of_day: "day_in_range k \<Longrightarrow> iso_date (iso_of_day k)"
  using iso_of_day_civil [of k] iso_date_iso_text by metis

lemma day_of_iso_of_day:
  assumes "day_in_range k"
  shows "day_of_iso (iso_of_day k) = k"
proof -
  obtain y m d where c: "100 \<le> y" "y \<le> 9999" "1 \<le> m" "m \<le> 12" "1 \<le> d" "d \<le> days_in_month y m"
    "iso_of_day k = iso_text y m d" "make_day y (m - 1) d = k"
    using iso_of_day_civil [OF assms] by blast
  then have "d \<le> 99" using days_in_month_le [of m y] by simp
  then show ?thesis
    using c iso_text_read [of y m d] iso_date_iso_of_day [OF assms] by (simp add: day_of_iso_make)
qed

lemma day_in_range_iso: "iso_date s \<Longrightarrow> day_in_range (day_of_iso s)"
  using year_from_day_of_iso [of s] iso_year_le [of s] by (simp add: day_in_range_year iso_date_def)

section \<open>The text order is the calendar order\<close>

definition civil_less :: "date \<Rightarrow> date \<Rightarrow> bool" where
  "civil_less s t \<longleftrightarrow> iso_year s < iso_year t \<or> iso_year s = iso_year t \<and>
     (iso_month s < iso_month t \<or> iso_month s = iso_month t \<and> iso_day s < iso_day t)"

lemma iso_less_civil:
  assumes s: "iso_date s" and t: "iso_date t"
  shows "s < t \<longleftrightarrow> civil_less s t"
proof -
  have L: "length (slice 0 4 s) = length (slice 0 4 t)" "length (slice 5 7 s) = length (slice 5 7 t)"
    "length (slice 8 10 s) = length (slice 8 10 t)"
    using s t by (simp_all add: iso_date_def slice_def)
  have D: "list_all is_digit (slice 0 4 u) \<and> list_all is_digit (slice 5 7 u) \<and> list_all is_digit (slice 8 10 u)"
    if "iso_date u" for u using that by (simp add: iso_date_def)
  have eq: "slice i j s = slice i j t \<longleftrightarrow> read_nat (slice i j s) = read_nat (slice i j t)"
    if "length (slice i j s) = length (slice i j t)" "list_all is_digit (slice i j s)"
      "list_all is_digit (slice i j t)" for i j
    using digits_inj [OF that] by auto
  have "s < t \<longleftrightarrow> slice 0 4 s @ ''-'' @ slice 5 7 s @ ''-'' @ slice 8 10 s
      < slice 0 4 t @ ''-'' @ slice 5 7 t @ ''-'' @ slice 8 10 t"
    using iso_split [OF s] iso_split [OF t] by simp
  also have "\<dots> \<longleftrightarrow> slice 0 4 s < slice 0 4 t \<or> slice 0 4 s = slice 0 4 t \<and>
      (slice 5 7 s < slice 5 7 t \<or> slice 5 7 s = slice 5 7 t \<and> slice 8 10 s < slice 8 10 t)"
    using L by (simp add: append_less)
  also have "\<dots> \<longleftrightarrow> civil_less s t"
    using L D [OF s] D [OF t]
    by (simp add: digits_less eq civil_less_def iso_year_def iso_month_def iso_day_def)
  finally show ?thesis .
qed

lemma civil_less_day:
  assumes s: "iso_date s" and t: "iso_date t" and "civil_less s t"
  shows "day_of_iso s < day_of_iso t"
proof -
  let ?y = "iso_year s" and ?z = "iso_year t" and ?m = "iso_month s" and ?n = "iso_month t"
  have fs: "1 \<le> ?m" "?m \<le> 12" "1 \<le> iso_day s" "iso_day s \<le> days_in_month ?y ?m"
    and ft: "1 \<le> ?n" "?n \<le> 12" "1 \<le> iso_day t" using s t by (simp_all add: iso_date_def)
  have ds: "day_of_iso s = day_from_year ?y + month_start (leap ?y) (?m - 1) + iso_day s - 1"
    using fs s by (simp add: day_of_iso_make make_day_in_range)
  have dt: "day_of_iso t = day_from_year ?z + month_start (leap ?z) (?n - 1) + iso_day t - 1"
    using ft t by (simp add: day_of_iso_make make_day_in_range)
  have in_month: "day_of_iso s < day_from_year ?y + month_start (leap ?y) ?m"
    using fs unfolding ds days_in_month_def by linarith
  from \<open>civil_less s t\<close> consider "?y < ?z" | "?y = ?z" "?m < ?n" | "?y = ?z" "?m = ?n" "iso_day s < iso_day t"
    by (auto simp: civil_less_def)
  then show ?thesis
  proof cases
    case 1
    have "day_of_iso s < day_from_year (?y + 1)"
      using year_from_day_spec [of "day_of_iso s"] year_from_day_of_iso [OF s] by simp
    also have "\<dots> \<le> day_from_year ?z" using 1 day_from_year_mono [of "?y + 1" ?z] by simp
    also have "\<dots> \<le> day_of_iso t"
      using year_from_day_spec [of "day_of_iso t"] year_from_day_of_iso [OF t] by simp
    finally show ?thesis .
  next
    case 2
    then have "month_start (leap ?y) ?m \<le> month_start (leap ?y) (?n - 1)"
      using fs ft by (intro month_start_mono) simp_all
    with in_month 2 ft show ?thesis by (simp add: dt)
  next
    case 3
    then show ?thesis by (simp add: ds dt)
  qed
qed

theorem iso_less_day:
  assumes "iso_date s" and "iso_date t"
  shows "s < t \<longleftrightarrow> day_of_iso s < day_of_iso t"
proof
  assume "s < t"
  then show "day_of_iso s < day_of_iso t" using assms by (simp add: iso_less_civil civil_less_day)
next
  assume l: "day_of_iso s < day_of_iso t"
  have "\<not> t < s"
    using civil_less_day [OF assms(2,1)] iso_less_civil [OF assms(2,1)] l by auto
  moreover have "s \<noteq> t" using l by auto
  ultimately show "s < t" by auto
qed

lemma iso_le_day: "iso_date s \<Longrightarrow> iso_date t \<Longrightarrow> s \<le> t \<longleftrightarrow> day_of_iso s \<le> day_of_iso t"
  using iso_less_day [of t s] by (simp add: not_less [symmetric])

end
