(* ===== verification/Money.thy ===== *)
theory Money
  imports Prelude
begin

text \<open>
  \<^verbatim>\<open>src/common/utils/money.util.ts\<close>.

  Amounts are \<^verbatim>\<open>Decimal\<close> values of the package decimal.js, which is not part of the
  repository. A \<^verbatim>\<open>Decimal\<close> is modelled by the rational number it denotes; \<open>plus\<close>, \<open>minus\<close>,
  \<open>negated\<close>, \<open>abs\<close> and the comparisons are exact on it, as they are in the package while the
  result fits its 20 significant digits (columns are \<open>numeric(18,4)\<close>). The operations that round
  are the package's: they are the fields of \<open>decimal_js\<close>, an argument of every definition that
  uses them, and the locale \<open>decimal_lib\<close> states the documented behaviour the code relies on.
\<close>

record decimal_js =
  d_prec :: "rat \<Rightarrow> rat"          \<comment> \<open>a result rounded to the configured precision (times, dividedBy)\<close>
  d_fixed :: "nat \<Rightarrow> rat \<Rightarrow> rat"  \<comment> \<open>\<open>toFixed(dp)\<close> and \<open>toDecimalPlaces(dp)\<close>, as a number\<close>

section \<open>Values with a fixed number of decimals\<close>

definition on_grid :: "nat \<Rightarrow> rat \<Rightarrow> bool" where
  "on_grid n x \<longleftrightarrow> of_int \<lfloor>x * 10 ^ n\<rfloor> = x * 10 ^ n"

lemma on_gridI: "x * 10 ^ n = of_int k \<Longrightarrow> on_grid n x"
  by (simp add: on_grid_def)

lemma on_gridE: assumes "on_grid n x" obtains k where "x * 10 ^ n = of_int k"
  using assms by (metis on_grid_def)

lemma on_grid_0 [simp]: "on_grid n 0"
  by (simp add: on_grid_def)

lemma on_grid_add: "on_grid n x \<Longrightarrow> on_grid n y \<Longrightarrow> on_grid n (x + y)"
  by (metis on_gridE on_gridI distrib_right of_int_add)

lemma on_grid_minus: "on_grid n x \<Longrightarrow> on_grid n (- x)"
  by (metis on_gridE on_gridI mult_minus_left of_int_minus)

lemma on_grid_diff: "on_grid n x \<Longrightarrow> on_grid n y \<Longrightarrow> on_grid n (x - y)"
  using on_grid_add [of n x "- y"] on_grid_minus [of n y] by simp

lemma on_grid_of_int [simp]: "on_grid n (of_int k)"
  by (rule on_gridI [where k = "k * 10 ^ n"]) simp

lemma on_grid_sum_list: "(\<And>x. x \<in> set xs \<Longrightarrow> on_grid n (f x)) \<Longrightarrow> on_grid n (\<Sum>x\<leftarrow>xs. f x)"
  by (induction xs) (auto intro: on_grid_add)

lemma on_grid_mono: "on_grid m x \<Longrightarrow> m \<le> n \<Longrightarrow> on_grid n x"
proof -
  assume x: "on_grid m x" and "m \<le> n"
  from x obtain k where "x * 10 ^ m = of_int k" by (rule on_gridE)
  moreover have "x * 10 ^ n = x * 10 ^ m * 10 ^ (n - m)"
    using \<open>m \<le> n\<close> by (simp add: power_add [symmetric])
  ultimately have "x * 10 ^ n = of_int (k * 10 ^ (n - m))" by simp
  then show ?thesis by (rule on_gridI)
qed

lemma on_grid_gap:
  assumes "on_grid n x" and "\<bar>x\<bar> * 10 ^ n < 1"
  shows "x = 0"
proof -
  from assms(1) obtain k where k: "x * 10 ^ n = of_int k" by (rule on_gridE)
  have "\<bar>x * 10 ^ n\<bar> < 1" using assms(2) by (simp add: abs_mult)
  then have "\<bar>of_int k :: rat\<bar> < 1" by (simp only: k)
  then have "k = 0" by linarith
  with k show ?thesis by simp
qed

lemmas on_grid_intros = on_grid_add on_grid_diff on_grid_minus on_grid_sum_list

section \<open>The documented behaviour of decimal.js\<close>

text \<open>
  \<open>toFixed(dp)\<close> and \<open>toDecimalPlaces(dp)\<close> round to the nearest value with \<open>dp\<close> decimals under
  the default mode \<open>ROUND_HALF_UP\<close>: a tie goes away from zero, so rounding commutes with the
  sign. A product or quotient that fits in 20 significant digits is exact.
\<close>

locale decimal_lib =
  fixes D :: decimal_js
  assumes fixed_grid: "on_grid n (d_fixed D n x)"
    and fixed_id: "on_grid n x \<Longrightarrow> d_fixed D n x = x"
    and fixed_near: "2 * 10 ^ n * \<bar>d_fixed D n x - x\<bar> \<le> 1"
    and fixed_mono: "x \<le> y \<Longrightarrow> d_fixed D n x \<le> d_fixed D n y"
    and fixed_neg: "d_fixed D n (- x) = - d_fixed D n x"
    and prec_exact: "on_grid n x \<Longrightarrow> \<bar>x\<bar> * 10 ^ n < 10 ^ 20 \<Longrightarrow> d_prec D x = x"
    and prec_neg: "d_prec D (- x) = - d_prec D x"
    and prec_near: "2 * 10 ^ 19 * \<bar>d_prec D x - x\<bar> \<le> \<bar>x\<bar>"
begin

lemma fixed_0 [simp]: "d_fixed D n 0 = 0"
  by (rule fixed_id) simp

lemma fixed_nonneg: "0 \<le> x \<Longrightarrow> 0 \<le> d_fixed D n x"
  using fixed_mono [of 0 x n] by simp

lemma fixed_le_grid: "on_grid n y \<Longrightarrow> x \<le> y \<Longrightarrow> d_fixed D n x \<le> y"
  using fixed_mono [of x y n] fixed_id [of n y] by simp

lemma fixed_ge_grid: "on_grid n y \<Longrightarrow> y \<le> x \<Longrightarrow> y \<le> d_fixed D n x"
  using fixed_mono [of y x n] fixed_id [of n y] by simp

lemma fixed_idem [simp]: "d_fixed D n (d_fixed D n x) = d_fixed D n x"
  by (rule fixed_id) (rule fixed_grid)

lemma prec_0 [simp]: "d_prec D 0 = 0"
  by (rule prec_exact [where n = 0]) simp_all

lemma prec_nonneg: "0 \<le> x \<Longrightarrow> 0 \<le> d_prec D x"
  using prec_near [of x] by (simp add: abs_if split: if_splits)

lemma fixed_4_near: "\<bar>d_fixed D 4 x - x\<bar> \<le> 1 / 20000"
  using fixed_near [of 4 x] by simp

end

section \<open>money.util.ts\<close>

definition MONEY_SCALE :: nat where "MONEY_SCALE = 4"

definition MONEY_TOLERANCE :: rat where "MONEY_TOLERANCE = 1 / 10000"

text \<open>\<open>null\<close>, \<open>undefined\<close> and the empty string are \<open>None\<close>; anything else is the number it denotes.\<close>

definition toDecimal :: "rat option \<Rightarrow> rat" where
  "toDecimal v = (case v of None \<Rightarrow> 0 | Some x \<Rightarrow> x)"

definition toMoneyString :: "decimal_js \<Rightarrow> rat option \<Rightarrow> rat" where
  "toMoneyString D v = d_fixed D MONEY_SCALE (toDecimal v)"

definition addMoney :: "rat option list \<Rightarrow> rat" where
  "addMoney vs = foldl (\<lambda>acc v. acc + toDecimal v) 0 vs"

definition subtractMoney :: "rat option \<Rightarrow> rat option \<Rightarrow> rat" where
  "subtractMoney a b = toDecimal a - toDecimal b"

definition multiplyMoney :: "decimal_js \<Rightarrow> rat option \<Rightarrow> rat option \<Rightarrow> rat" where
  "multiplyMoney D a b = d_prec D (toDecimal a * toDecimal b)"

definition moneyEquals :: "rat \<Rightarrow> rat \<Rightarrow> bool" where
  "moneyEquals a b \<longleftrightarrow> \<bar>a - b\<bar> \<le> MONEY_TOLERANCE"

definition isPositive :: "rat \<Rightarrow> bool" where
  "isPositive v \<longleftrightarrow> 0 < v"

definition isZero :: "rat \<Rightarrow> bool" where
  "isZero v \<longleftrightarrow> v = 0"

text \<open>\<open>Decimal.times\<close> and \<open>dividedBy\<close>, and \<open>toFixed(4)\<close> as the columns store it.\<close>

abbreviation times :: "decimal_js \<Rightarrow> rat \<Rightarrow> rat \<Rightarrow> rat" where
  "times D a b \<equiv> d_prec D (a * b)"

abbreviation dividedBy :: "decimal_js \<Rightarrow> rat \<Rightarrow> rat \<Rightarrow> rat" where
  "dividedBy D a b \<equiv> d_prec D (a / b)"

abbreviation fixed4 :: "decimal_js \<Rightarrow> rat \<Rightarrow> rat" where
  "fixed4 D x \<equiv> d_fixed D 4 x"

abbreviation money :: "rat \<Rightarrow> bool" where
  "money x \<equiv> on_grid 4 x"

lemma addMoney_sum: "addMoney vs = (\<Sum>v\<leftarrow>vs. toDecimal v)"
  by (simp add: addMoney_def foldl_plus_sum)

lemma moneyEquals_money:
  assumes "money a" and "money b" and "moneyEquals a b"
  shows "a = b \<or> \<bar>a - b\<bar> = 1 / 10000"
proof -
  from assms(1,2) have "money (a - b)" by (rule on_grid_diff)
  then obtain k where k: "(a - b) * 10 ^ 4 = of_int k" by (rule on_gridE)
  have "\<bar>(a - b) * 10 ^ 4\<bar> \<le> 1"
    using assms(3) unfolding moneyEquals_def MONEY_TOLERANCE_def abs_mult by simp
  then have "\<bar>of_int k :: rat\<bar> \<le> 1" by (simp only: k)
  then have "\<bar>k\<bar> \<le> 1" by linarith
  then have "k = 0 \<or> k = 1 \<or> k = -1" by linarith
  with k show ?thesis by auto
qed

section \<open>formatRupees\<close>

text \<open>
  The text of \<open>abs().toFixed(2)\<close>: the whole part in decimal digits and two digits after the point.
  The regular expression puts a comma wherever a positive multiple of three digits follows.
\<close>

fun group3 :: "string \<Rightarrow> string" where
  "group3 [] = []"
| "group3 [c] = [c]"
| "group3 (c # cs) = (if length cs mod 3 = 0 then c # CHR '','' # group3 cs else c # group3 cs)"

definition formatRupees :: "decimal_js \<Rightarrow> rat option \<Rightarrow> string" where
  "formatRupees D v =
     (let d = toDecimal v;
          cents = nat \<lfloor>d_fixed D 2 \<bar>d\<bar> * 100\<rfloor>;
          whole = show_nat (cents div 100);
          frac = padStart 2 (CHR ''0'') (show_nat (cents mod 100))
      in (if d < 0 then ''-'' else []) @ ''Rs '' @ group3 whole @ ''.'' @ frac)"

lemma group3_filter: "list_all is_digit s \<Longrightarrow> filter is_digit (group3 s) = s"
  by (induction s rule: group3.induct) (simp_all add: is_digit_def)

lemma group3_show_nat: "read_nat (filter is_digit (group3 (show_nat n))) = n"
  using show_nat_digits [of n] by (simp add: group3_filter)

section \<open>An implementation of the library's contract\<close>

text \<open>
  Rounding half away from zero to a unit, and to 20 significant digits. It shows that the contract
  can be met, and the witnesses of the development evaluate with it.
\<close>

definition round_unit :: "rat \<Rightarrow> rat \<Rightarrow> rat" where
  "round_unit u x = (if x < 0 then - (of_int \<lfloor>- x / u + 1 / 2\<rfloor> * u) else of_int \<lfloor>x / u + 1 / 2\<rfloor> * u)"

lemma round_unit_neg: "round_unit u (- x) = - round_unit u x"
  by (simp add: round_unit_def floor_eq_iff)

lemma round_unit_multiple: "0 < u \<Longrightarrow> round_unit u (of_int k * u) = of_int k * u"
proof -
  assume u: "0 < u"
  have "\<lfloor>rat_of_int k + 1 / 2\<rfloor> = k" and "\<lfloor>rat_of_int (- k) + 1 / 2\<rfloor> = - k"
    by (simp_all only: floor_eq_iff) simp_all
  with u show ?thesis by (simp add: round_unit_def)
qed

lemma round_unit_is_multiple: "\<exists>k. round_unit u x = of_int k * u"
  by (auto simp: round_unit_def simp flip: mult_minus_left of_int_minus)

lemma round_unit_near: "0 < u \<Longrightarrow> \<bar>round_unit u x - x\<bar> \<le> u / 2"
proof -
  assume u: "0 < u"
  have near: "\<bar>of_int \<lfloor>y / u + 1 / 2\<rfloor> * u - y\<bar> \<le> u / 2" for y
  proof -
    have "of_int \<lfloor>y / u + 1 / 2\<rfloor> \<le> y / u + 1 / 2" and "y / u + 1 / 2 < of_int \<lfloor>y / u + 1 / 2\<rfloor> + 1"
      by linarith+
    then have "of_int \<lfloor>y / u + 1 / 2\<rfloor> * u \<le> (y / u + 1 / 2) * u"
      and "(y / u + 1 / 2) * u < (of_int \<lfloor>y / u + 1 / 2\<rfloor> + 1) * u"
      using u by (simp_all only: mult_right_mono mult_strict_right_mono less_imp_le)
    then have "of_int \<lfloor>y / u + 1 / 2\<rfloor> * u \<le> y + u / 2"
      and "y + u / 2 < of_int \<lfloor>y / u + 1 / 2\<rfloor> * u + u"
      using u by (simp_all add: distrib_right)
    then show ?thesis unfolding abs_le_iff by linarith
  qed
  show ?thesis
  proof (cases "x < 0")
    case True
    then have "round_unit u x - x = - (of_int \<lfloor>- x / u + 1 / 2\<rfloor> * u - (- x))"
      by (simp add: round_unit_def)
    then show ?thesis using near [of "- x"] by (simp only: abs_minus_cancel)
  next
    case False
    then show ?thesis using near [of x] by (simp add: round_unit_def)
  qed
qed

lemma round_unit_mono_nonneg: "0 < u \<Longrightarrow> 0 \<le> x \<Longrightarrow> x \<le> y \<Longrightarrow> round_unit u x \<le> round_unit u y"
  by (simp add: round_unit_def floor_mono divide_right_mono)

lemma round_unit_nonneg: "0 < u \<Longrightarrow> 0 \<le> x \<Longrightarrow> 0 \<le> round_unit u x"
  by (simp add: round_unit_def)

lemma odd_mono:
  fixes f :: "rat \<Rightarrow> rat"
  assumes neg: "\<And>x. f (- x) = - f x" and nn: "\<And>x. 0 \<le> x \<Longrightarrow> 0 \<le> f x"
    and mono: "\<And>x y. 0 \<le> x \<Longrightarrow> x \<le> y \<Longrightarrow> f x \<le> f y" and "x \<le> y"
  shows "f x \<le> f y"
proof -
  have n: "f z \<le> 0" if "z \<le> 0" for z using nn [of "- z"] neg [of z] that by simp
  consider "0 \<le> x" | "x \<le> 0" "0 \<le> y" | "y \<le> 0" by linarith
  then show ?thesis
  proof cases
    case 1
    then show ?thesis using mono \<open>x \<le> y\<close> by blast
  next
    case 2
    then show ?thesis using n [of x] nn [of y] by simp
  next
    case 3
    then show ?thesis using mono [of "- y" "- x"] neg [of x] neg [of y] \<open>x \<le> y\<close> by simp
  qed
qed

lemma round_unit_mono: "0 < u \<Longrightarrow> x \<le> y \<Longrightarrow> round_unit u x \<le> round_unit u y"
  by (rule odd_mono [where f = "round_unit u"])
    (auto simp: round_unit_neg round_unit_nonneg round_unit_mono_nonneg)

text \<open>The decimal exponent of a positive value, from the digit counts of its quotient.\<close>

definition exponent10 :: "rat \<Rightarrow> int" where
  "exponent10 x =
     (let (a, b) = quotient_of x;
          e = int (length (show_nat (nat a))) - int (length (show_nat (nat b)))
      in if 10 powi e \<le> x then e else e - 1)"

definition round_sig20 :: "rat \<Rightarrow> rat" where
  "round_sig20 x = (if x = 0 then 0 else round_unit (10 powi (exponent10 \<bar>x\<bar> - 19)) x)"

definition round_places :: "nat \<Rightarrow> rat \<Rightarrow> rat" where
  "round_places n x = round_unit (1 / 10 ^ n) x"

definition decimal_half_up :: decimal_js where
  "decimal_half_up = \<lparr>d_prec = round_sig20, d_fixed = round_places\<rparr>"

text \<open>Evaluation rounds the normal form of a number, so that no argument is evaluated twice.\<close>

definition sig20_of :: "int \<times> int \<Rightarrow> rat" where
  "sig20_of q = round_sig20 (of_int (fst q) / of_int (snd q))"

lemma sig20_of_code [code]:
  "sig20_of (a, b) = (if a = 0 \<or> b = 0 then 0 else round_unit (10 powi (exponent10 \<bar>of_int a / of_int b\<bar> - 19)) (of_int a / of_int b))"
  by (simp add: sig20_of_def round_sig20_def)

lemma round_sig20_code [code]: "round_sig20 x = sig20_of (quotient_of x)"
  by (cases "quotient_of x") (simp add: sig20_of_def flip: quotient_of_div)

definition places_of :: "nat \<Rightarrow> int \<times> int \<Rightarrow> rat" where
  "places_of n q = round_places n (of_int (fst q) / of_int (snd q))"

lemma places_of_code [code]: "places_of n (a, b) = round_unit (1 / 10 ^ n) (of_int a / of_int b)"
  by (simp add: places_of_def round_places_def)

lemma round_places_code [code]: "round_places n x = places_of n (quotient_of x)"
  by (cases "quotient_of x") (simp add: places_of_def flip: quotient_of_div)

lemma digits_bounds:
  assumes "0 < a"
  shows "10 powi (int (length (show_nat (nat a))) - 1) \<le> (of_int a :: rat)"
    and "(of_int a :: rat) < 10 powi int (length (show_nat (nat a)))"
proof -
  let ?l = "length (show_nat (nat a))"
  have "int (10 ^ ?l) \<le> int (10 * nat a)"
    using show_nat_length_ge [of "nat a"] assms unfolding of_nat_le_iff by simp
  then have "(of_int (10 ^ ?l) :: rat) \<le> of_int (10 * a)"
    using assms by (simp only: of_int_le_iff) simp
  then show "10 powi (int ?l - 1) \<le> (of_int a :: rat)"
    by (simp add: power_int_diff)
  have "int (nat a) < int (10 ^ ?l)"
    using show_nat_length_le [of "nat a"] by (simp only: of_nat_less_iff)
  then have "(of_int a :: rat) < of_int (10 ^ ?l)"
    using assms by (simp only: of_int_less_iff) simp
  then show "(of_int a :: rat) < 10 powi int ?l" by simp
qed

lemma exponent10_le: assumes "0 < x" shows "10 powi exponent10 x \<le> x"
proof -
  obtain a b where q: "quotient_of x = (a, b)" by fastforce
  have b: "0 < b" using q by (rule quotient_of_denom_pos)
  have x: "x = of_int a / of_int b" using q by (rule quotient_of_div)
  with assms b have a: "0 < a" by (simp add: zero_less_divide_iff)
  let ?la = "int (length (show_nat (nat a)))" and ?lb = "int (length (show_nat (nat b)))"
  have "(10::rat) powi (?la - 1) / 10 powi ?lb \<le> x"
    unfolding x using digits_bounds(1) [OF a] digits_bounds(2) [OF b] b
    by (intro frac_le) (use a b in auto)
  then have "(10::rat) powi (?la - 1 - ?lb) \<le> x"
    by (subst power_int_diff) simp_all
  then have "(10::rat) powi (?la - ?lb - 1) \<le> x"
    by (simp only: diff_right_commute)
  with q show ?thesis by (simp add: exponent10_def Let_def)
qed

lemma sig20_unit_pos: "0 < (10::rat) powi k"
  by simp

lemma round_sig20_exact:
  assumes g: "on_grid n x" and small: "\<bar>x\<bar> * 10 ^ n < 10 ^ 20"
  shows "round_sig20 x = x"
proof (cases "x = 0")
  case True
  then show ?thesis by (simp add: round_sig20_def)
next
  case False
  let ?e = "exponent10 \<bar>x\<bar>"
  from False have "(10::rat) powi ?e \<le> \<bar>x\<bar>" by (intro exponent10_le) simp
  then have "(10::rat) powi ?e * 10 ^ n < 10 ^ 20"
    using small by (metis le_less_trans mult_right_mono zero_le_power zero_le_numeral)
  then have "(10::rat) powi (?e + int n) < 10 powi 20"
    by (simp add: power_int_add)
  then have le: "?e + int n \<le> 19"
    using power_int_increasing [of 20 "?e + int n" "10::rat"] by force
  obtain k where k: "x * 10 ^ n = of_int k" using g by (rule on_gridE)
  have "x = of_int k * 10 powi (- int n)"
    using k by (simp add: power_int_minus field_simps)
  also have "(10::rat) powi (- int n) = 10 ^ nat (19 - ?e - int n) * 10 powi (?e - 19)"
    using le by (simp flip: power_int_add power_int_of_nat)
  finally have "x = of_int (k * 10 ^ nat (19 - ?e - int n)) * 10 powi (?e - 19)" by simp
  then show ?thesis
    using False round_unit_multiple [OF sig20_unit_pos] by (metis round_sig20_def)
qed

lemma round_sig20_near: "2 * 10 ^ 19 * \<bar>round_sig20 x - x\<bar> \<le> \<bar>x\<bar>"
proof (cases "x = 0")
  case True
  then show ?thesis by (simp add: round_sig20_def)
next
  case False
  let ?e = "exponent10 \<bar>x\<bar>"
  have "\<bar>round_sig20 x - x\<bar> \<le> 10 powi (?e - 19) / 2"
    using False round_unit_near [OF sig20_unit_pos] by (simp add: round_sig20_def)
  then have "2 * 10 ^ 19 * \<bar>round_sig20 x - x\<bar> \<le> 10 ^ 19 * 10 powi (?e - 19)"
    by simp
  also have "\<dots> = 10 powi ?e"
    by (simp add: power_int_diff)
  also have "\<dots> \<le> \<bar>x\<bar>" using False by (intro exponent10_le) simp
  finally show ?thesis .
qed

interpretation half_up: decimal_lib decimal_half_up
proof unfold_locales
  fix n x y
  have u: "0 < (1 / 10 ^ n :: rat)" by simp
  show "on_grid n (d_fixed decimal_half_up n x)"
    using round_unit_is_multiple [of "1 / 10 ^ n" x] by (auto simp: decimal_half_up_def round_places_def intro: on_gridI)
  show "2 * 10 ^ n * \<bar>d_fixed decimal_half_up n x - x\<bar> \<le> 1"
    using round_unit_near [OF u, of x] by (simp add: decimal_half_up_def round_places_def field_simps)
  show "d_fixed decimal_half_up n (- x) = - d_fixed decimal_half_up n x"
    by (simp add: decimal_half_up_def round_places_def round_unit_neg)
  show "d_prec decimal_half_up (- x) = - d_prec decimal_half_up x"
    by (simp add: decimal_half_up_def round_sig20_def round_unit_neg)
  show "2 * 10 ^ 19 * \<bar>d_prec decimal_half_up x - x\<bar> \<le> \<bar>x\<bar>"
    using round_sig20_near [of x] by (simp add: decimal_half_up_def round_places_def)
  show "d_fixed decimal_half_up n x = x" if "on_grid n x"
  proof -
    from that obtain k where "x * 10 ^ n = of_int k" by (rule on_gridE)
    then have "x = of_int k * (1 / 10 ^ n)" by (simp add: field_simps)
    then show ?thesis using round_unit_multiple [OF u, of k] by (simp add: decimal_half_up_def round_places_def)
  qed
  show "d_fixed decimal_half_up n x \<le> d_fixed decimal_half_up n y" if "x \<le> y"
    using round_unit_mono [OF u that] by (simp add: decimal_half_up_def round_places_def)
  show "d_prec decimal_half_up x = x" if "on_grid n x" and "\<bar>x\<bar> * 10 ^ n < 10 ^ 20"
    using round_sig20_exact [OF that] by (simp add: decimal_half_up_def round_places_def)
qed

end
