(* ===== verification/Fiscal.thy ===== *)
theory Fiscal
  imports Dates Money
begin

text \<open>
  \<^verbatim>\<open>src/modules/reports/fiscal-year.ts\<close> (fiscal years and the comparison period) and
  \<^verbatim>\<open>src/common/utils/statement.util.ts\<close> (opening and closing balances of a statement).
\<close>

section \<open>Adding days\<close>

lemma addDaysIso_day:
  assumes "iso_date s" and "day_in_range (day_of_iso s + n)"
  shows "iso_date (addDaysIso s n)" and "day_of_iso (addDaysIso s n) = day_of_iso s + n"
  using assms by (simp_all add: addDaysIso_def iso_date_slice iso_date_iso_of_day day_of_iso_of_day)

lemma addDaysIso_0: "iso_date s \<Longrightarrow> addDaysIso s 0 = s"
  by (simp add: addDaysIso_def iso_date_slice iso_of_day_of_iso)

lemma addDaysIso_add:
  assumes "iso_date s" and "day_in_range (day_of_iso s + a)"
  shows "addDaysIso (addDaysIso s a) b = addDaysIso s (a + b)"
  using addDaysIso_day [OF assms] assms(1)
  by (simp add: addDaysIso_def [of _ b] addDaysIso_def [of s "a + b"] iso_date_slice add.assoc)

lemma daysBetweenIso_addDays:
  assumes "iso_date s" and "day_in_range (day_of_iso s + n)"
  shows "daysBetweenIso s (addDaysIso s n) = n"
  using addDaysIso_day [OF assms] assms(1) by (simp add: daysBetweenIso_def iso_date_slice)

lemma next_day_less:
  assumes "iso_date s" and "iso_date t" and "day_in_range (day_of_iso t + 1)"
  shows "s < addDaysIso t 1 \<longleftrightarrow> s \<le> t"
  using addDaysIso_day [OF assms(2,3)] assms(1,2) by (simp add: iso_less_day iso_le_day)

section \<open>fiscal-year.ts\<close>

text \<open>\<open>String(n)\<close> of a whole number, sign included.\<close>

definition show_int :: "int \<Rightarrow> string" where
  "show_int n = (if n < 0 then ''-'' else []) @ show_nat (nat \<bar>n\<bar>)"

text \<open>\<open>Number(value)\<close> of a stored month: \<open>None\<close> when it is not a finite number.\<close>

definition clampMonth :: "rat option \<Rightarrow> int" where
  "clampMonth value =
     (case value of
        None \<Rightarrow> 1
      | Some x \<Rightarrow> let n = \<lfloor>x + 1 / 2\<rfloor> in if n < 1 then 1 else min 12 n)"

definition dayBefore :: "date \<Rightarrow> date" where
  "dayBefore d = addDaysIso d (- 1)"

definition fiscalYearOf :: "rat option \<Rightarrow> date \<Rightarrow> int" where
  "fiscalYearOf startMonth asOf =
     (let m = clampMonth startMonth; y = iso_year asOf; mo = iso_month asOf
      in if m \<le> mo then y else y - 1)"

definition fiscalYearStart :: "rat option \<Rightarrow> date \<Rightarrow> date" where
  "fiscalYearStart startMonth asOf =
     show_int (fiscalYearOf startMonth asOf) @ ''-'' @ pad2 (clampMonth startMonth) @ ''-01''"

definition fiscalYearStartOf :: "rat option \<Rightarrow> int \<Rightarrow> date" where
  "fiscalYearStartOf startMonth fy = show_int fy @ ''-'' @ pad2 (clampMonth startMonth) @ ''-01''"

definition fiscalYearEndOf :: "rat option \<Rightarrow> int \<Rightarrow> date" where
  "fiscalYearEndOf startMonth fy = dayBefore (fiscalYearStartOf startMonth (fy + 1))"

definition fiscalYearEnd :: "rat option \<Rightarrow> date \<Rightarrow> date" where
  "fiscalYearEnd startMonth asOf = fiscalYearEndOf startMonth (fiscalYearOf startMonth asOf)"

record fiscal_period =
  fp_year :: int
  fp_start :: date
  fp_end :: date

definition fiscalYearsBetween :: "rat option \<Rightarrow> date \<Rightarrow> date \<Rightarrow> fiscal_period list" where
  "fiscalYearsBetween startMonth from_d to_d =
     (if to_d < from_d then []
      else map (\<lambda>fy. \<lparr>fp_year = fy, fp_start = fiscalYearStartOf startMonth fy,
                      fp_end = fiscalYearEndOf startMonth fy\<rparr>)
             [fiscalYearOf startMonth from_d .. fiscalYearOf startMonth to_d])"

text \<open>
  \<open>Date.UTC(ey, em, 0)\<close> is the last day of month \<open>em\<close> (counted from 1). \<open>Date.parse\<close> of the two days
  at midnight UTC gives their distance in days.
\<close>

definition precedingPeriod :: "date \<Rightarrow> date \<Rightarrow> date \<times> date" where
  "precedingPeriod start_d end_d =
     (let endDate = dayBefore start_d;
          ey = iso_year end_d; em = iso_month end_d;
          monthEnd = iso_of_day (date_utc ey em 0)
      in if drop 8 start_d = ''01'' \<and> end_d = monthEnd
         then let sy = iso_year start_d; sm = iso_month start_d;
                  months = (ey - sy) * 12 + (em - sm) + 1
              in (iso_of_day (date_utc sy (sm - 1 - months) 1), endDate)
         else let days = day_of_iso end_d - day_of_iso start_d + 1
              in (addDaysIso endDate (- (days - 1)), endDate))"

lemma clampMonth_range: "1 \<le> clampMonth v \<and> clampMonth v \<le> 12"
  by (auto simp: clampMonth_def Let_def split: option.splits)

lemma show_nat_4: "1000 \<le> n \<Longrightarrow> n \<le> 9999 \<Longrightarrow> padStart 4 (CHR ''0'') (show_nat n) = show_nat n"
proof -
  assume n: "1000 \<le> n" "n \<le> 9999"
  have "\<not> length (show_nat n) \<le> 3"
    using show_nat_length_le [of n] n power_increasing [of "length (show_nat n)" 3 "10::nat"] by fastforce
  moreover have "length (show_nat n) \<le> 4" using n by (intro show_nat_length_bound) simp_all
  ultimately show ?thesis by (simp add: padStart_def)
qed

text \<open>The years for which every text below has four digits in the year.\<close>

definition fiscal_range :: "int \<Rightarrow> bool" where
  "fiscal_range y \<longleftrightarrow> 1000 \<le> y \<and> y \<le> 9998"

lemma fiscalYearStartOf_text:
  assumes "1000 \<le> fy" and "fy \<le> 9999"
  shows "fiscalYearStartOf sm fy = iso_text fy (clampMonth sm) 1"
proof -
  have "padStart 4 (CHR ''0'') (show_nat (nat fy)) = show_nat (nat fy)"
    using assms by (intro show_nat_4) simp_all
  moreover have "length (show_nat (nat fy)) = 4"
    using length_pad_show [of fy 4] calculation assms by simp
  moreover have "length (pad2 (clampMonth sm)) = 2"
    unfolding pad2_def using clampMonth_range [of sm]
    by (intro length_pad_show) (simp_all add: nat_less_iff)
  moreover have "pad2 1 = ''01''" by code_simp
  ultimately show ?thesis
    using assms by (simp add: fiscalYearStartOf_def iso_text_def show_int_def slice_def)
qed

lemma days_in_month_pos: "1 \<le> m \<Longrightarrow> m \<le> 12 \<Longrightarrow> 28 \<le> days_in_month y m"
proof -
  assume m: "1 \<le> m" "m \<le> 12"
  have "0 \<le> m - 1" "m - 1 \<le> 11" using m by simp_all
  from month_cases [OF this] show ?thesis
    unfolding days_in_month_def
    by (cases "leap y"; elim insertE emptyE; simp add: month_start_def eq_diff_eq)
qed

lemma fiscalYearStartOf_day:
  assumes "1000 \<le> fy" and "fy \<le> 9999"
  shows "iso_date (fiscalYearStartOf sm fy)"
    and "iso_year (fiscalYearStartOf sm fy) = fy" and "iso_month (fiscalYearStartOf sm fy) = clampMonth sm"
    and "iso_day (fiscalYearStartOf sm fy) = 1"
  unfolding fiscalYearStartOf_text [OF assms]
  using assms clampMonth_range [of sm] days_in_month_pos [of "clampMonth sm" fy]
  by (simp_all add: iso_date_iso_text iso_text_read)

lemma fiscalYearEndOf_day:
  assumes "1000 \<le> fy" and "fy \<le> 9998"
  shows "iso_date (fiscalYearEndOf sm fy)"
    and "day_of_iso (fiscalYearEndOf sm fy) + 1 = day_of_iso (fiscalYearStartOf sm (fy + 1))"
proof -
  let ?n = "fiscalYearStartOf sm (fy + 1)"
  have n: "iso_date ?n" "iso_year ?n = fy + 1"
    using assms fiscalYearStartOf_day [of "fy + 1" sm] by simp_all
  have "day_from_year 1000 \<le> day_of_iso ?n"
    using year_from_day_spec [of "day_of_iso ?n"] year_from_day_of_iso [OF n(1)] n(2)
      day_from_year_mono [of 1000 "fy + 1"] assms by simp
  moreover have "day_from_year 100 < day_from_year 1000"
    using day_from_year_mono [of 100 1000] by simp
  ultimately have "day_in_range (day_of_iso ?n + - 1)"
    using day_in_range_iso [OF n(1)] by (simp add: day_in_range_def)
  from addDaysIso_day [OF n(1) this]
  show "iso_date (fiscalYearEndOf sm fy)" and "day_of_iso (fiscalYearEndOf sm fy) + 1 = day_of_iso ?n"
    by (simp_all add: fiscalYearEndOf_def dayBefore_def)
qed

lemma fiscalYearStart_eq: "fiscalYearStart sm asOf = fiscalYearStartOf sm (fiscalYearOf sm asOf)"
  by (simp add: fiscalYearStart_def fiscalYearStartOf_def)

lemma fiscalYearOf_bounds: "iso_year s - 1 \<le> fiscalYearOf sm s" "fiscalYearOf sm s \<le> iso_year s"
  by (simp_all add: fiscalYearOf_def Let_def)

lemma fiscalYear_contains:
  assumes s: "iso_date s" and "1001 \<le> iso_year s" and "iso_year s \<le> 9998"
  shows "fiscalYearStart sm s \<le> s" and "s \<le> fiscalYearEnd sm s"
proof -
  let ?fy = "fiscalYearOf sm s"
  have fy: "1000 \<le> ?fy" "?fy \<le> 9998" using fiscalYearOf_bounds [where s = s and sm = sm] assms by simp_all
  note st = fiscalYearStartOf_day [of ?fy sm] and nx = fiscalYearStartOf_day [of "?fy + 1" sm]
  have ls: "iso_month s \<le> 12 \<and> 1 \<le> iso_day s" using s by (simp add: iso_date_def)
  have "\<not> civil_less s (fiscalYearStartOf sm ?fy)"
    using st fy ls by (auto simp: civil_less_def fiscalYearOf_def Let_def split: if_splits)
  then show "fiscalYearStart sm s \<le> s"
    using st fy s by (simp add: fiscalYearStart_eq iso_less_civil not_less [symmetric])
  have "civil_less s (fiscalYearStartOf sm (?fy + 1))"
    using nx fy by (auto simp: civil_less_def fiscalYearOf_def Let_def split: if_splits)
  then have "day_of_iso s < day_of_iso (fiscalYearStartOf sm (?fy + 1))"
    using nx fy s by (intro civil_less_day) simp_all
  then show "s \<le> fiscalYearEnd sm s"
    using fiscalYearEndOf_day [of ?fy sm] fy s
    by (simp add: fiscalYearEnd_def iso_le_day)
qed

section \<open>statement.util.ts\<close>

record statement_move =
  sm_date :: date
  sm_amount :: rat

definition statementBalances :: "statement_move list \<Rightarrow> date \<Rightarrow> date \<Rightarrow> rat \<times> rat" where
  "statementBalances moves startDate endDate =
     (let (opening, inside) =
        foldl (\<lambda>(opening, inside) m.
                 let day = slice 0 10 (sm_date m)
                 in if day < startDate then (opening + sm_amount m, inside)
                    else if day \<le> endDate then (opening, inside + sm_amount m)
                    else (opening, inside)) (0, 0) moves
      in (opening, opening + inside))"

definition inPeriod :: "date \<Rightarrow> date \<Rightarrow> date \<Rightarrow> bool" where
  "inPeriod d startDate endDate =
     (let day = slice 0 10 d in startDate \<le> day \<and> day \<le> endDate)"

lemma statement_fold:
  "foldl (\<lambda>(opening, inside) m.
            let day = slice 0 10 (sm_date m)
            in if day < startDate then (opening + sm_amount m, inside)
               else if day \<le> endDate then (opening, inside + sm_amount m)
               else (opening, inside)) (a, b) moves
   = (a + (\<Sum>m\<leftarrow>moves. if slice 0 10 (sm_date m) < startDate then sm_amount m else 0),
      b + (\<Sum>m\<leftarrow>moves. if inPeriod (sm_date m) startDate endDate then sm_amount m else 0))"
  by (induction moves arbitrary: a b) (auto simp: inPeriod_def Let_def not_less)

lemma statementBalances_sums:
  "statementBalances moves s e =
     (\<Sum>m\<leftarrow>moves. if slice 0 10 (sm_date m) < s then sm_amount m else 0,
      (\<Sum>m\<leftarrow>moves. if slice 0 10 (sm_date m) < s then sm_amount m else 0) +
      (\<Sum>m\<leftarrow>moves. if inPeriod (sm_date m) s e then sm_amount m else 0))"
  by (simp add: statementBalances_def statement_fold)

lemma statement_closing:
  assumes "s \<le> e"
  shows "snd (statementBalances moves s e) = (\<Sum>m\<leftarrow>moves. if slice 0 10 (sm_date m) \<le> e then sm_amount m else 0)"
  using assms
  by (induction moves) (auto simp: statementBalances_sums inPeriod_def Let_def)

section \<open>Properties\<close>

lemma fiscal_starts_less:
  assumes "1000 \<le> a" and "a < b" and "b \<le> 9999"
  shows "fiscalYearStartOf sm a < fiscalYearStartOf sm b"
  using assms fiscalYearStartOf_day [of a sm] fiscalYearStartOf_day [of b sm]
  by (simp add: iso_less_civil civil_less_def)

lemma fiscal_end_less_start:
  assumes "1000 \<le> a" and "a < b" and "b \<le> 9999"
  shows "fiscalYearEndOf sm a < fiscalYearStartOf sm b"
proof -
  note e = fiscalYearEndOf_day [of a sm] and n = fiscalYearStartOf_day [of "a + 1" sm]
    and b = fiscalYearStartOf_day [of b sm]
  have "fiscalYearStartOf sm (a + 1) \<le> fiscalYearStartOf sm b"
    using assms fiscal_starts_less [of "a + 1" b sm] by (cases "a + 1 = b") auto
  then show ?thesis using e n b assms by (simp add: iso_less_day iso_le_day)
qed

text \<open>Adding days to a calendar date and counting days between dates are inverse to each
  other, and the text order the code compares dates with is the calendar order.\<close>

theorem calendar_arithmetic:
  assumes "iso_date s" and "day_in_range (day_of_iso s + n)"
  shows "iso_date (addDaysIso s n) \<and> daysBetweenIso s (addDaysIso s n) = n
    \<and> addDaysIso (addDaysIso s n) (- n) = s \<and> (s < addDaysIso s n \<longleftrightarrow> 0 < n)"
  using addDaysIso_day [OF assms] addDaysIso_add [OF assms, of "- n"] assms
  by (simp add: daysBetweenIso_addDays addDaysIso_0 iso_less_day)

theorem calendar_arithmetic_witness:
  "daysBetweenIso ''2024-02-28'' (addDaysIso ''2024-02-28'' 2) = 2 \<and> addDaysIso ''2024-02-28'' 2 = ''2024-03-01''"
proof -
  have "iso_date ''2024-02-28''" and "day_in_range (day_of_iso ''2024-02-28'' + 2)" by code_simp+
  from calendar_arithmetic [OF this] show ?thesis by (simp, code_simp)
qed

text \<open>Every calendar day lies in exactly one fiscal year, the one \<open>fiscalYearOf\<close> names,
  whatever the start month.\<close>

theorem fiscal_year_unique:
  assumes s: "iso_date s" and "1001 \<le> iso_year s" and "iso_year s \<le> 9998"
    and fy: "1000 \<le> fy" "fy \<le> 9998"
  shows "fiscalYearStartOf sm fy \<le> s \<and> s \<le> fiscalYearEndOf sm fy \<longleftrightarrow> fy = fiscalYearOf sm s"
proof -
  let ?f = "fiscalYearOf sm s"
  have f: "1000 \<le> ?f" "?f \<le> 9998" using fiscalYearOf_bounds [where s = s and sm = sm] assms by simp_all
  have c: "fiscalYearStartOf sm ?f \<le> s" "s \<le> fiscalYearEndOf sm ?f"
    using fiscalYear_contains [OF assms(1-3), of sm] by (simp_all add: fiscalYearStart_eq fiscalYearEnd_def)
  consider "fy < ?f" | "fy = ?f" | "?f < fy" by linarith
  then show ?thesis
  proof cases
    case 1
    then have "fiscalYearEndOf sm fy < s"
      using fiscal_end_less_start [of fy ?f sm] c(1) f fy by simp
    with 1 show ?thesis by auto
  next
    case 2
    with c show ?thesis by simp
  next
    case 3
    then have "s < fiscalYearStartOf sm fy"
      using fiscal_end_less_start [of ?f fy sm] c(2) f fy by simp
    with 3 show ?thesis by auto
  qed
qed

theorem fiscal_year_unique_witness:
  "fiscalYearStartOf (Some 7) 2025 \<le> ''2026-06-30'' \<and> ''2026-06-30'' \<le> fiscalYearEndOf (Some 7) 2025"
proof -
  have "iso_date ''2026-06-30''" and "1001 \<le> iso_year ''2026-06-30''" and "iso_year ''2026-06-30'' \<le> 9998"
    and "2025 = fiscalYearOf (Some 7) ''2026-06-30''" by code_simp+
  from fiscal_year_unique [OF this(1-3), of 2025 "Some 7"] this(4) show ?thesis by simp
qed

text \<open>A month index before or after the year carries into the year.\<close>

lemma make_day_carry: "make_day y m d = make_day (y + m div 12) (m mod 12) d"
  by (simp add: make_day_def)

lemma iso_of_first:
  assumes "100 \<le> y + m div 12" and "y + m div 12 \<le> 9999"
  shows "iso_date (iso_of_day (make_day y m 1))"
    and "12 * iso_year (iso_of_day (make_day y m 1)) + iso_month (iso_of_day (make_day y m 1)) = 12 * y + m + 1"
    and "iso_day (iso_of_day (make_day y m 1)) = 1"
proof -
  have "0 \<le> m mod 12" and "m mod 12 < 12" by simp_all
  then have r: "1 \<le> m mod 12 + 1" "m mod 12 + 1 \<le> 12" by linarith+
  then have "iso_of_day (make_day y m 1) = iso_text (y + m div 12) (m mod 12 + 1) 1"
    using iso_of_make_day [of "m mod 12 + 1" 1 "y + m div 12"] days_in_month_pos [OF r, of "y + m div 12"]
    by (subst make_day_carry) simp
  then show "iso_date (iso_of_day (make_day y m 1))"
    and "iso_day (iso_of_day (make_day y m 1)) = 1"
    and "12 * iso_year (iso_of_day (make_day y m 1)) + iso_month (iso_of_day (make_day y m 1)) = 12 * y + m + 1"
    using assms r days_in_month_pos [OF r, of "y + m div 12"] mult_div_mod_eq [of 12 m]
    by (simp_all add: iso_date_iso_text iso_text_read)
qed

text \<open>Whole calendar months: from a first of the month to the last day of a month.\<close>

definition whole_months :: "date \<Rightarrow> date \<Rightarrow> bool" where
  "whole_months s e \<longleftrightarrow> drop 8 s = ''01'' \<and> e = iso_of_day (date_utc (iso_year e) (iso_month e) 0)"

text \<open>The comparison period ends the day before the period starts; it has the same number
  of calendar months when the period is whole months (starting on a 1st), and the same number of
  days otherwise.\<close>

theorem preceding_period:
  assumes s: "iso_date s" and e: "iso_date e" and "s \<le> e" and "1000 \<le> iso_year s"
    and room: "day_in_range (2 * day_of_iso s - day_of_iso e - 2)" "iso_year e - iso_year s < 800"
    and pre: "precedingPeriod s e = (s', e')"
  shows "iso_date e' \<and> day_of_iso e' + 1 = day_of_iso s
    \<and> (if whole_months s e
       then iso_day s' = 1 \<and> 12 * iso_year s' + iso_month s' =
              12 * iso_year s + iso_month s - (12 * (iso_year e - iso_year s) + (iso_month e - iso_month s) + 1)
       else daysBetweenIso s' e' = daysBetweenIso s e)"
proof -
  have le: "day_of_iso s \<le> day_of_iso e" using assms(1-3) by (simp add: iso_le_day)
  have r1: "day_in_range (day_of_iso s + - 1)"
    using le room(1) day_in_range_iso [OF s] by (simp add: day_in_range_def)
  have e': "e' = dayBefore s" using pre by (auto simp: precedingPeriod_def Let_def split: if_splits)
  have d1: "iso_date e'" "day_of_iso e' = day_of_iso s - 1"
    using addDaysIso_day [OF s r1] by (simp_all add: e' dayBefore_def)
  show ?thesis
  proof (cases "whole_months s e")
    case True
    define months where "months = (iso_year e - iso_year s) * 12 + (iso_month e - iso_month s) + 1"
    have s': "s' = iso_of_day (make_day (iso_year s) (iso_month s - 1 - months) 1)"
      using pre True assms(4)
      by (simp add: precedingPeriod_def Let_def whole_months_def date_utc_def months_def)
    have f: "1 \<le> iso_month s" "iso_month s \<le> 12" "1 \<le> iso_month e" "iso_month e \<le> 12"
      using s e by (simp_all add: iso_date_def)
    have "\<not> civil_less e s"
      using \<open>s \<le> e\<close> iso_less_civil [OF e s] by auto
    then have "iso_year s + 1 \<le> iso_year e \<or> iso_year s = iso_year e \<and> iso_month s \<le> iso_month e"
      by (auto simp: civil_less_def)
    then have mm: "- 12 * 801 \<le> iso_month s - 1 - months" and mm2: "iso_month s - 1 - months \<le> 11"
      using f room(2) unfolding months_def by auto
    then have "(- 12 * 801) div 12 \<le> (iso_month s - 1 - months) div 12"
      and "(iso_month s - 1 - months) div 12 \<le> 11 div 12"
      using zdiv_mono1 [OF mm, of 12] zdiv_mono1 [OF mm2, of 12] by simp_all
    then have "100 \<le> iso_year s + (iso_month s - 1 - months) div 12"
      and "iso_year s + (iso_month s - 1 - months) div 12 \<le> 9999"
      using assms(4) iso_year_le [OF s] by simp_all
    from iso_of_first(2,3) [OF this] show ?thesis
      using True d1 by (simp add: s' months_def algebra_simps)
  next
    case False
    have s': "s' = addDaysIso e' (- (day_of_iso e - day_of_iso s))"
      using pre False by (simp add: precedingPeriod_def Let_def whole_months_def e' split: if_splits)
    have "day_in_range (day_of_iso e' + - (day_of_iso e - day_of_iso s))"
      using room(1) d1(2) le day_in_range_iso [OF s] by (simp add: day_in_range_def)
    from addDaysIso_day [OF d1(1) this] show ?thesis
      using False d1 s e by (simp add: s' daysBetweenIso_def iso_date_slice)
  qed
qed

theorem preceding_period_witness:
  "precedingPeriod ''2026-04-01'' ''2026-06-30'' = (''2026-01-01'', ''2026-03-31'')
   \<and> day_of_iso ''2026-03-31'' + 1 = day_of_iso ''2026-04-01''"
proof -
  have c: "iso_date ''2026-04-01''" "iso_date ''2026-06-30''" "''2026-04-01'' \<le> ''2026-06-30''"
    "1000 \<le> iso_year ''2026-04-01''"
    "day_in_range (2 * day_of_iso ''2026-04-01'' - day_of_iso ''2026-06-30'' - 2)"
    "iso_year ''2026-06-30'' - iso_year ''2026-04-01'' < 800"
    "precedingPeriod ''2026-04-01'' ''2026-06-30'' = (''2026-01-01'', ''2026-03-31'')" by code_simp+
  from preceding_period [OF c] c(7) show ?thesis by simp
qed

text \<open>C13: statements roll forward: the closing balance of a period is the opening balance of
  the period that starts the next day, for any set of dated moves.\<close>

theorem statement_rolls_forward:
  assumes "s \<le> e" and "iso_date e" and "day_in_range (day_of_iso e + 1)"
    and "\<forall>m \<in> set moves. iso_date (sm_date m)"
  shows "snd (statementBalances moves s e) = fst (statementBalances moves (addDaysIso e 1) f)"
proof -
  have "(\<Sum>m\<leftarrow>moves. if slice 0 10 (sm_date m) \<le> e then sm_amount m else 0)
      = (\<Sum>m\<leftarrow>moves. if slice 0 10 (sm_date m) < addDaysIso e 1 then sm_amount m else 0)"
    using assms(2-4) next_day_less [of _ e]
    by (intro arg_cong [where f = sum_list] map_cong refl) (simp add: iso_date_slice)
  then show ?thesis
    unfolding statement_closing [OF assms(1)] by (simp add: statementBalances_sums)
qed

theorem statement_rolls_forward_witness:
  "snd (statementBalances [\<lparr>sm_date = ''2026-01-31'', sm_amount = 5\<rparr>] ''2026-01-01'' ''2026-01-31'')
   = fst (statementBalances [\<lparr>sm_date = ''2026-01-31'', sm_amount = 5\<rparr>] (addDaysIso ''2026-01-31'' 1) ''2026-02-28'')"
proof -
  have c: "''2026-01-01'' \<le> ''2026-01-31''" "iso_date ''2026-01-31''" "day_in_range (day_of_iso ''2026-01-31'' + 1)"
    by code_simp+
  show ?thesis by (rule statement_rolls_forward [OF c]) (simp add: c)
qed

end
