(* ===== verification/Ledger.thy ===== *)
theory Ledger
  imports Fiscal
begin

text \<open>
  The posting engine: \<^verbatim>\<open>src/modules/journal-entries/posting.service.ts\<close>, the manual journal of
  \<^verbatim>\<open>journal-entries.service.ts\<close>, the reconciliation lock of
  \<^verbatim>\<open>src/modules/reconciliations/reconciliations.util.ts\<close>, and the constraints of migration
  \<^verbatim>\<open>LedgerIntegrityConstraints\<close>.

  The database is a record of tables; a handler takes the database and returns the new one or an
  error, in which case the transaction leaves the old one. Later components extend the record with
  their own tables, so every operation here works on any extension. A primary key (a uuid of the
  database) is a fresh number. Company rows carry only what postings read.
\<close>

section \<open>Rows\<close>

datatype acct_type = Asset | Liability | Equity | Revenue | Expense

datatype je_status = JE_draft | JE_posted | JE_void

record company =
  co_id :: nat
  co_booksLockedUntil :: "date option"
  co_salesTaxRegistered :: bool

record account =
  acc_id :: nat
  acc_company :: nat
  acc_number :: string
  acc_name :: string
  acc_type :: acct_type
  acc_subType :: string
  acc_parent :: "nat option"
  acc_description :: "string option"
  acc_openingBalance :: rat
  acc_balance :: rat
  acc_active :: bool

record je_line =
  jl_account :: nat
  jl_description :: "string option"
  jl_debit :: rat
  jl_credit :: rat
  jl_order :: nat

record journal_entry =
  je_id :: nat
  je_company :: nat
  je_reference :: string
  je_date :: date
  je_memo :: "string option"
  je_status :: je_status
  je_totalDebits :: rat
  je_totalCredits :: rat
  je_createdBy :: nat
  je_postedBy :: "nat option"
  je_postedAt :: "int option"
  je_voidReason :: "string option"
  je_reversalOf :: "nat option"
  je_lines :: "je_line list"

record gl_row =
  gl_company :: nat
  gl_date :: date
  gl_reference :: string
  gl_account :: nat
  gl_debit :: rat
  gl_credit :: rat
  gl_balance :: rat
  gl_sourceType :: string
  gl_sourceId :: nat
  gl_memo :: "string option"
  gl_cleared :: bool
  gl_reconciliation :: "nat option"

record ledger_db =
  db_companies :: "company list"
  db_accounts :: "account list"
  db_entries :: "journal_entry list"
  db_gl :: "gl_row list"
  db_fresh :: nat

text \<open>What a request reads besides the database: the decimal library, the business day and the clock.\<close>

record env =
  dec :: decimal_js
  today :: date
  now :: int

section \<open>Inputs\<close>

record posting_line =
  pl_account :: nat
  pl_description :: "string option"
  pl_debit :: rat
  pl_credit :: rat
  pl_order :: "nat option"

record posting_input =
  pi_company :: nat
  pi_date :: date
  pi_memo :: "string option"
  pi_createdBy :: nat
  pi_lines :: "posting_line list"
  pi_posted :: bool
  pi_sourceType :: "string option"
  pi_sourceId :: "nat option"
  pi_reversalOf :: "nat option"

section \<open>Reference numbers (reference-generator.util.ts)\<close>

definition formatJournalRef :: "nat \<Rightarrow> string" where
  "formatJournalRef n = ''JE-'' @ padStart 3 (CHR ''0'') (show_nat n)"

definition formatYearlyRef :: "string \<Rightarrow> nat \<Rightarrow> nat \<Rightarrow> string" where
  "formatYearlyRef prefix year n =
     prefix @ ''-'' @ show_nat year @ ''-'' @ padStart 4 (CHR ''0'') (show_nat n)"

lemma formatJournalRef_inj: "formatJournalRef m = formatJournalRef n \<longleftrightarrow> m = n"
  by (simp add: formatJournalRef_def padStart_show_inj)

section \<open>posting.service.ts\<close>

definition assertPeriodOpen :: "'a ledger_db_scheme \<Rightarrow> nat \<Rightarrow> date \<Rightarrow> unit result" where
  "assertPeriodOpen s company d =
     (case Option.bind (row_with co_id company (db_companies s)) co_booksLockedUntil of
        None \<Rightarrow> Inr ()
      | Some lock \<Rightarrow> throw_if (lock \<noteq> [] \<and> d \<le> lock) (BadRequest ''PERIOD_LOCKED'') (Inr ()))"

definition nextJournalReference :: "'a ledger_db_scheme \<Rightarrow> nat \<Rightarrow> string" where
  "nextJournalReference s company =
     formatJournalRef (length (filter (\<lambda>e. je_company e = company) (db_entries s)) + 1)"

definition signedDelta :: "acct_type \<Rightarrow> rat \<Rightarrow> rat \<Rightarrow> rat" where
  "signedDelta t debit credit = (if t = Asset \<or> t = Expense then debit - credit else credit - debit)"

text \<open>The loop over the input lines: their shape, and the running totals.\<close>

definition checkLine :: "rat \<times> rat \<Rightarrow> posting_line \<Rightarrow> (rat \<times> rat) result" where
  "checkLine tot l =
     (let d = pl_debit l; c = pl_credit l in
      throw_if ((0 < d) = (0 < c)) (BadRequest ''VALIDATION_FAILED'')
        (throw_if (d < 0 \<or> c < 0) (BadRequest ''VALIDATION_FAILED'')
          (Inr (fst tot + d, snd tot + c))))"

definition account_type :: "account list \<Rightarrow> nat \<Rightarrow> acct_type" where
  "account_type accts i = (case row_with acc_id i accts of None \<Rightarrow> Asset | Some a \<Rightarrow> acc_type a)"

definition account_balance :: "account list \<Rightarrow> nat \<Rightarrow> rat" where
  "account_balance accts i = (case row_with acc_id i accts of None \<Rightarrow> 0 | Some a \<Rightarrow> acc_balance a)"

definition lineDelta :: "account list \<Rightarrow> je_line \<Rightarrow> rat" where
  "lineDelta accts l = signedDelta (account_type accts (jl_account l)) (jl_debit l) (jl_credit l)"

definition lineDeltas :: "account list \<Rightarrow> je_line list \<Rightarrow> (nat \<times> rat) list" where
  "lineDeltas accts ls = foldl (\<lambda>m l. add_at (jl_account l) (lineDelta accts l) m) [] ls"

text \<open>\<open>UPDATE accounts SET balance = balance + delta.toFixed(4) WHERE id = account\<close>, once per account.\<close>

definition addBalance :: "decimal_js \<Rightarrow> account list \<Rightarrow> nat \<times> rat \<Rightarrow> account list" where
  "addBalance D accts kd =
     update_row acc_id (fst kd) (\<lambda>a. a\<lparr>acc_balance := acc_balance a + fixed4 D (snd kd)\<rparr>) accts"

text \<open>The general-ledger rows of an entry, each with the running balance of its account.\<close>

fun glRows :: "decimal_js \<Rightarrow> journal_entry \<Rightarrow> string \<Rightarrow> nat \<Rightarrow> account list \<Rightarrow>
    (nat \<Rightarrow> rat) \<Rightarrow> (nat \<times> rat) list \<Rightarrow> je_line list \<Rightarrow> gl_row list" where
  "glRows D e st sid accts start touched [] = []"
| "glRows D e st sid accts start touched (l # ls) =
     (let i = jl_account l;
          prior = (case map_of touched i of None \<Rightarrow> start i | Some r \<Rightarrow> r);
          running = prior + lineDelta accts l
      in \<lparr>gl_company = je_company e, gl_date = je_date e, gl_reference = je_reference e, gl_account = i,
          gl_debit = fixed4 D (jl_debit l), gl_credit = fixed4 D (jl_credit l),
          gl_balance = fixed4 D running, gl_sourceType = st, gl_sourceId = sid,
          gl_memo = je_memo e, gl_cleared = False, gl_reconciliation = None\<rparr>
         # glRows D e st sid accts start (AList.update i running touched) ls)"

definition applyPosting :: "decimal_js \<Rightarrow> 'a ledger_db_scheme \<Rightarrow> journal_entry \<Rightarrow> account list \<Rightarrow>
    string \<Rightarrow> nat \<Rightarrow> ('a ledger_db_scheme) result" where
  "applyPosting D s e accts st sid =
     throw_if (\<exists>l \<in> set (je_lines e). row_with acc_id (jl_account l) accts = None) (Crash ''TypeError'')
       (let deltas = lineDeltas accts (je_lines e);
            accts' = foldl (addBalance D) (db_accounts s) deltas;
            start = (\<lambda>i. fixed4 D (account_balance accts' i) - at0 deltas i)
        in Inr (s\<lparr>db_accounts := accts',
                 db_gl := db_gl s @ glRows D e st sid accts start [] (je_lines e)\<rparr>))"

text \<open>The CHECK constraints of \<open>journal_entry_lines\<close>, evaluated when a row is written.\<close>

definition chk_line_shape :: "je_line \<Rightarrow> bool" where
  "chk_line_shape l \<longleftrightarrow> (0 < jl_debit l \<and> jl_credit l = 0) \<or> (0 < jl_credit l \<and> jl_debit l = 0)"

definition chk_non_negative :: "je_line \<Rightarrow> bool" where
  "chk_non_negative l \<longleftrightarrow> 0 \<le> jl_debit l \<and> 0 \<le> jl_credit l"

text \<open>The unique index on \<open>(company_id, reference)\<close>.\<close>

definition reference_free :: "'a ledger_db_scheme \<Rightarrow> nat \<Rightarrow> string \<Rightarrow> bool" where
  "reference_free s company ref \<longleftrightarrow>
     (\<forall>e \<in> set (db_entries s). \<not> (je_company e = company \<and> je_reference e = ref))"

fun stored_lines :: "decimal_js \<Rightarrow> nat \<Rightarrow> posting_line list \<Rightarrow> je_line list" where
  "stored_lines D i [] = []"
| "stored_lines D i (l # ls) =
     \<lparr>jl_account = pl_account l, jl_description = pl_description l,
      jl_debit = fixed4 D (pl_debit l), jl_credit = fixed4 D (pl_credit l),
      jl_order = (case pl_order l of None \<Rightarrow> i | Some k \<Rightarrow> k)\<rparr> # stored_lines D (Suc i) ls"

definition createEntry :: "env \<Rightarrow> 'a ledger_db_scheme \<Rightarrow> posting_input \<Rightarrow>
    (journal_entry \<times> 'a ledger_db_scheme) result" where
  "createEntry E s inp =
     (let D = dec E; company = pi_company inp; lines = pi_lines inp in
      throw_if (length lines < 2) (BadRequest ''INSUFFICIENT_LINES'')
     (bindE (if pi_posted inp then assertPeriodOpen s company (pi_date inp) else Inr ()) (\<lambda>_.
      bindE (foldE checkLine (0, 0) lines) (\<lambda>tot.
      let ids = uniq (map pl_account lines);
          accts = filter (\<lambda>a. acc_id a \<in> set ids \<and> acc_company a = company) (db_accounts s)
      in throw_if (length accts \<noteq> length ids) (NotFound ''ACCOUNT_NOT_FOUND'')
     (throw_if (\<exists>a \<in> set accts. \<not> acc_active a) (BadRequest ''ACCOUNT_INACTIVE'')
     (throw_if (pi_posted inp \<and> \<not> moneyEquals (fst tot) (snd tot)) (BadRequest ''UNBALANCED_ENTRY'')
     (let ref = nextJournalReference s company;
          lns = stored_lines D 0 lines;
          e = \<lparr>je_id = db_fresh s, je_company = company, je_reference = ref, je_date = pi_date inp,
               je_memo = pi_memo inp, je_status = (if pi_posted inp then JE_posted else JE_draft),
               je_totalDebits = fixed4 D (fst tot), je_totalCredits = fixed4 D (snd tot),
               je_createdBy = pi_createdBy inp,
               je_postedBy = (if pi_posted inp then Some (pi_createdBy inp) else None),
               je_postedAt = (if pi_posted inp then Some (now E) else None),
               je_voidReason = None, je_reversalOf = pi_reversalOf inp, je_lines = lns\<rparr>;
          s1 = s\<lparr>db_entries := db_entries s @ [e], db_fresh := Suc (db_fresh s)\<rparr>
      in throw_if (\<not> reference_free s company ref) (DbError ''unique_violation'')
     (throw_if (\<exists>l \<in> set lns. \<not> chk_line_shape l \<or> \<not> chk_non_negative l) (DbError ''check_violation'')
     (if pi_posted inp
      then bindE (applyPosting D s1 e
                    accts (case pi_sourceType inp of None \<Rightarrow> ''journal_entry'' | Some t \<Rightarrow> t)
                    (case pi_sourceId inp of None \<Rightarrow> je_id e | Some i \<Rightarrow> i)) (\<lambda>s2. Inr (e, s2))
      else Inr (e, s1))))))))))"

definition postDraft :: "env \<Rightarrow> 'a ledger_db_scheme \<Rightarrow> nat \<Rightarrow> nat \<Rightarrow> nat \<Rightarrow>
    (journal_entry \<times> 'a ledger_db_scheme) result" where
  "postDraft E s company entryId postedBy =
     some_or (find (\<lambda>e. je_id e = entryId \<and> je_company e = company) (db_entries s))
       (NotFound ''NOT_FOUND'') (\<lambda>entry.
     throw_if (je_status entry \<noteq> JE_draft) (BadRequest ''CANNOT_EDIT_NON_DRAFT'')
    (bindE (assertPeriodOpen s company (je_date entry)) (\<lambda>_.
     let D = dec E;
         totalDebits = foldl (\<lambda>t l. t + jl_debit l) 0 (je_lines entry);
         totalCredits = foldl (\<lambda>t l. t + jl_credit l) 0 (je_lines entry)
     in throw_if (\<not> moneyEquals totalDebits totalCredits) (BadRequest ''UNBALANCED_ENTRY'')
    (let ids = uniq (map jl_account (je_lines entry));
         accts = filter (\<lambda>a. acc_id a \<in> set ids \<and> acc_company a = company) (db_accounts s);
         post = (\<lambda>e. e\<lparr>je_status := JE_posted, je_postedBy := Some postedBy, je_postedAt := Some (now E),
                        je_totalDebits := fixed4 D totalDebits, je_totalCredits := fixed4 D totalCredits\<rparr>);
         s1 = s\<lparr>db_entries := update_row je_id entryId post (db_entries s)\<rparr>
     in bindE (applyPosting D s1 (post entry) accts ''journal_entry'' (je_id entry))
          (\<lambda>s2. Inr (post entry, s2))))))"

section \<open>reconciliations.util.ts\<close>

definition assertNotReconciled :: "'a ledger_db_scheme \<Rightarrow> nat \<Rightarrow> nat option list \<Rightarrow> unit result" where
  "assertNotReconciled s company sourceIds =
     (let ids = concat (map (\<lambda>v. case v of None \<Rightarrow> [] | Some i \<Rightarrow> [i]) sourceIds);
          reconciled = length (filter (\<lambda>g. gl_company g = company \<and> gl_sourceId g \<in> set ids \<and>
                                           gl_reconciliation g \<noteq> None) (db_gl s))
      in if ids = [] then Inr ()
         else throw_if (0 < reconciled) (BadRequest ''TRANSACTION_RECONCILED'') (Inr ()))"

section \<open>journal-entries.service.ts\<close>

text \<open>
  The balance trigger of the migration runs at COMMIT over the rows the transaction inserted or
  changed: a non-draft entry whose stored lines do not balance exactly aborts the transaction.
\<close>

definition entry_balanced :: "journal_entry \<Rightarrow> bool" where
  "entry_balanced e \<longleftrightarrow> (\<Sum>l\<leftarrow>je_lines e. jl_debit l) = (\<Sum>l\<leftarrow>je_lines e. jl_credit l)"

definition assert_entries_balanced :: "'a ledger_db_scheme \<Rightarrow> 'a ledger_db_scheme \<Rightarrow> bool" where
  "assert_entries_balanced s t \<longleftrightarrow>
     (\<forall>e \<in> set (db_entries t). e \<in> set (db_entries s) \<or> je_status e = JE_draft \<or> entry_balanced e)"

definition transaction :: "('a ledger_db_scheme \<Rightarrow> ('r \<times> 'a ledger_db_scheme) result) \<Rightarrow>
    'a ledger_db_scheme \<Rightarrow> ('r \<times> 'a ledger_db_scheme) result" where
  "transaction f s =
     bindE (f s) (\<lambda>(r, t).
       throw_if (\<not> assert_entries_balanced s t) (DbError ''UNBALANCED_ENTRY'') (Inr (r, t)))"

record journal_dto =
  jd_date :: date
  jd_memo :: "string option"
  jd_posted :: "bool option"   \<comment> \<open>\<open>status\<close>: absent, draft or posted\<close>
  jd_lines :: "posting_line list"
  jd_isOpeningBalance :: bool

definition je_create :: "env \<Rightarrow> nat \<Rightarrow> nat \<Rightarrow> journal_dto \<Rightarrow> 'a ledger_db_scheme \<Rightarrow>
    (journal_entry \<times> 'a ledger_db_scheme) result" where
  "je_create E company user dto =
     transaction (\<lambda>s. createEntry E s
       \<lparr>pi_company = company, pi_date = jd_date dto, pi_memo = jd_memo dto, pi_createdBy = user,
        pi_lines = map (\<lambda>(i, l). l\<lparr>pl_order := Some (case pl_order l of None \<Rightarrow> i | Some k \<Rightarrow> k)\<rparr>)
                     (enumerate 0 (jd_lines dto)),
        pi_posted = (case jd_posted dto of None \<Rightarrow> False | Some p \<Rightarrow> p),
        pi_sourceType = Some (if jd_isOpeningBalance dto then ''opening_balance'' else ''journal_entry''),
        pi_sourceId = None, pi_reversalOf = None\<rparr>)"

definition je_post :: "env \<Rightarrow> nat \<Rightarrow> nat \<Rightarrow> nat \<Rightarrow> 'a ledger_db_scheme \<Rightarrow>
    (journal_entry \<times> 'a ledger_db_scheme) result" where
  "je_post E company entryId user = transaction (\<lambda>s. postDraft E s company entryId user)"

text \<open>The lines of a reversing entry: by line order, with debit and credit swapped.\<close>

definition reversalLines :: "je_line list \<Rightarrow> posting_line list" where
  "reversalLines ls =
     map (\<lambda>(i, l). \<lparr>pl_account = jl_account l, pl_description = jl_description l,
                   pl_debit = jl_credit l, pl_credit = jl_debit l, pl_order = Some i\<rparr>)
       (enumerate 0 (sort_key jl_order ls))"

definition je_void :: "env \<Rightarrow> nat \<Rightarrow> nat \<Rightarrow> nat \<Rightarrow> string \<Rightarrow> 'a ledger_db_scheme \<Rightarrow>
    (unit \<times> 'a ledger_db_scheme) result" where
  "je_void E company entryId user reason =
     transaction (\<lambda>s.
       some_or (find (\<lambda>e. je_id e = entryId \<and> je_company e = company) (db_entries s))
         (NotFound ''NOT_FOUND'') (\<lambda>entry.
       throw_if (je_status entry = JE_void) (BadRequest ''ALREADY_VOID'')
      (bindE (assertNotReconciled s company [Some (je_id entry)]) (\<lambda>_.
       bindE (if je_status entry = JE_posted
              then map_sum id snd (createEntry E s
                \<lparr>pi_company = company, pi_date = today E,
                 pi_memo = Some (''Void '' @ je_reference entry @ '': '' @ reason), pi_createdBy = user,
                 pi_lines = reversalLines (je_lines entry), pi_posted = True,
                 pi_sourceType = None, pi_sourceId = None, pi_reversalOf = Some (je_id entry)\<rparr>)
              else Inr s) (\<lambda>s1.
       Inr ((), s1\<lparr>db_entries := update_row je_id entryId
                    (\<lambda>e. e\<lparr>je_status := JE_void, je_voidReason := Some reason\<rparr>) (db_entries s1)\<rparr>))))))"

end
