(* ===== verification/LedgerLaws.thy ===== *)
theory LedgerLaws
  imports Ledger "HOL-Library.Multiset"
begin

text \<open>
  What the posting engine guarantees. The invariant \<open>ledger_ok\<close> says that the general ledger is
  exactly the lines of the entries that were ever posted, that every cached account balance is the
  signed sum of its ledger rows and equals the running balance of its last row, and that references
  run JE-001, JE-002, ... per company. Every operation of the engine keeps it, on any extension of
  the database, and the commit check adds that every entry outside draft balances exactly.
\<close>

section \<open>The invariant\<close>

definition gl_proj :: "gl_row \<Rightarrow> nat \<times> date \<times> string \<times> nat \<times> rat \<times> rat" where
  "gl_proj g = (gl_company g, gl_date g, gl_reference g, gl_account g, gl_debit g, gl_credit g)"

definition line_proj :: "journal_entry \<Rightarrow> je_line \<Rightarrow> nat \<times> date \<times> string \<times> nat \<times> rat \<times> rat" where
  "line_proj e l = (je_company e, je_date e, je_reference e, jl_account l, jl_debit l, jl_credit l)"

definition ever_posted :: "journal_entry \<Rightarrow> bool" where
  "ever_posted e \<longleftrightarrow> je_postedBy e \<noteq> None"

definition posted_lines :: "journal_entry list \<Rightarrow> (nat \<times> date \<times> string \<times> nat \<times> rat \<times> rat) multiset" where
  "posted_lines es = (\<Sum>e\<leftarrow>es. if ever_posted e then mset (map (line_proj e) (je_lines e)) else {#})"

definition account_sum :: "gl_row list \<Rightarrow> account \<Rightarrow> rat" where
  "account_sum gl a =
     (\<Sum>g\<leftarrow>gl. if gl_account g = acc_id a then signedDelta (acc_type a) (gl_debit g) (gl_credit g) else 0)"

definition last_balance :: "gl_row list \<Rightarrow> nat \<Rightarrow> rat" where
  "last_balance gl i =
     (case filter (\<lambda>g. gl_account g = i) (rev gl) of [] \<Rightarrow> 0 | g # _ \<Rightarrow> gl_balance g)"

definition company_entries :: "journal_entry list \<Rightarrow> nat \<Rightarrow> journal_entry list" where
  "company_entries es c = filter (\<lambda>e. je_company e = c) es"

definition refs_in_sequence :: "journal_entry list \<Rightarrow> bool" where
  "refs_in_sequence es \<longleftrightarrow>
     (\<forall>c. map je_reference (company_entries es c)
          = map (\<lambda>k. formatJournalRef (k + 1)) [0..<length (company_entries es c)])"

definition line_ok :: "je_line \<Rightarrow> bool" where
  "line_ok l \<longleftrightarrow> money (jl_debit l) \<and> money (jl_credit l) \<and> chk_line_shape l \<and> chk_non_negative l"

definition entry_ok :: "journal_entry \<Rightarrow> bool" where
  "entry_ok e \<longleftrightarrow> list_all line_ok (je_lines e) \<and> (je_status e = JE_posted \<longrightarrow> ever_posted e)
     \<and> (je_status e = JE_draft \<longrightarrow> \<not> ever_posted e) \<and> 2 \<le> length (je_lines e)"

text \<open>
  \<open>accounts_ok\<close>: the cached balances follow the ledger, and every ledger row is on an account of its
  company. \<open>entries_ok\<close>: the journal, and the ledger as the lines of what was posted.
\<close>

definition balance_ok :: "gl_row list \<Rightarrow> account \<Rightarrow> bool" where
  "balance_ok gl a \<longleftrightarrow>
     money (acc_balance a) \<and> acc_balance a = account_sum gl a \<and> acc_balance a = last_balance gl (acc_id a)"

definition accounts_ok :: "'a ledger_db_scheme \<Rightarrow> bool" where
  "accounts_ok s \<longleftrightarrow>
     distinct (map acc_id (db_accounts s)) \<and>
     (\<forall>a \<in> set (db_accounts s). acc_id a < db_fresh s \<and> balance_ok (db_gl s) a) \<and>
     (\<forall>g \<in> set (db_gl s). \<exists>a \<in> set (db_accounts s). acc_id a = gl_account g \<and> acc_company a = gl_company g)"

lemma accounts_ok_row:
  assumes "accounts_ok s" and "a \<in> set (db_accounts s)"
  shows "money (acc_balance a)" and "acc_balance a = account_sum (db_gl s) a"
    and "acc_balance a = last_balance (db_gl s) (acc_id a)" and "acc_id a < db_fresh s"
  using assms unfolding accounts_ok_def balance_ok_def by blast+

definition entries_ok :: "'a ledger_db_scheme \<Rightarrow> bool" where
  "entries_ok s \<longleftrightarrow>
     distinct (map je_id (db_entries s)) \<and>
     (\<forall>e \<in> set (db_entries s). je_id e < db_fresh s) \<and>
     list_all entry_ok (db_entries s) \<and>
     refs_in_sequence (db_entries s) \<and>
     mset (map gl_proj (db_gl s)) = posted_lines (db_entries s)"

definition ledger_ok :: "'a ledger_db_scheme \<Rightarrow> bool" where
  "ledger_ok s \<longleftrightarrow> accounts_ok s \<and> entries_ok s"

definition all_balanced :: "'a ledger_db_scheme \<Rightarrow> bool" where
  "all_balanced s \<longleftrightarrow> (\<forall>e \<in> set (db_entries s). je_status e = JE_draft \<or> entry_balanced e)"

section \<open>Account rows\<close>

lemma addBalance_ids [simp]: "map acc_id (addBalance D accts kd) = map acc_id accts"
  by (simp add: addBalance_def)

lemma foldl_addBalance_ids [simp]: "map acc_id (foldl (addBalance D) accts m) = map acc_id accts"
  by (induction m arbitrary: accts) simp_all

lemma foldl_addBalance_frame:
  "map (\<lambda>a. a\<lparr>acc_balance := 0\<rparr>) (foldl (addBalance D) accts m) = map (\<lambda>a. a\<lparr>acc_balance := 0\<rparr>) accts"
  by (induction m arbitrary: accts) (simp_all add: addBalance_def map_update_row)

lemma addBalance_map:
  "addBalance D accts (k, d) = map (\<lambda>a. a\<lparr>acc_balance := acc_balance a + (if acc_id a = k then fixed4 D d else 0)\<rparr>) accts"
  by (simp add: addBalance_def update_row_def)

lemma foldl_addBalance_map:
  "foldl (addBalance D) accts m =
   map (\<lambda>a. a\<lparr>acc_balance := acc_balance a + (\<Sum>(k, d)\<leftarrow>m. if acc_id a = k then fixed4 D d else 0)\<rparr>) accts"
  by (induction m arbitrary: accts) (auto simp: addBalance_map add.assoc o_def)

lemma sum_at_key:
  assumes "distinct (map fst m)" and "f 0 = 0"
  shows "(\<Sum>(k, d)\<leftarrow>m. if i = k then f d else 0) = f (at0 m i)"
  using assms
proof (induction m)
  case Nil
  then show ?case by (simp add: at0_def)
next
  case (Cons p m)
  obtain k d where p: "p = (k, d)" by (cases p)
  show ?case
  proof (cases "i = k")
    case True
    then have "map_of m i = None" using Cons.prems p by (simp add: map_of_eq_None_iff)
    then have "at0 m i = 0" by (simp add: at0_def)
    with True Cons p show ?thesis by (simp add: at0_def)
  next
    case False
    then have "at0 (p # m) i = at0 m i" by (simp add: at0_def p)
    with False Cons p show ?thesis by simp
  qed
qed

lemma row_with_map:
  "(\<And>r. key (f r) = key r) \<Longrightarrow> row_with key i (map f t) = map_option f (row_with key i t)"
  by (induction t) (auto simp: row_with_def)

lemma row_with_filter:
  assumes "distinct (map key t)" and "row_with key i (filter P t) = Some r"
  shows "row_with key i t = Some r"
proof -
  from assms(2) have "r \<in> set t" and "key r = i" by (auto dest: row_with_Some)
  with assms(1) show ?thesis using row_with_distinct by metis
qed

lemma lineDeltas_at: "at0 (lineDeltas accts ls) i = (\<Sum>l\<leftarrow>ls. if jl_account l = i then lineDelta accts l else 0)"
  by (simp add: lineDeltas_def at0_foldl_add_at)

lemma lineDeltas_distinct: "distinct (map fst (lineDeltas accts ls))"
  by (simp add: lineDeltas_def distinct_foldl_add_at)

lemma signedDelta_money: "money d \<Longrightarrow> money c \<Longrightarrow> money (signedDelta t d c)"
  by (simp add: signedDelta_def on_grid_diff)

lemma lineDelta_money: "line_ok l \<Longrightarrow> money (lineDelta accts l)"
  by (simp add: lineDelta_def line_ok_def signedDelta_money)

lemma sum_delta_money:
  "list_all line_ok ls \<Longrightarrow> money (\<Sum>l\<leftarrow>ls. if jl_account l = i then lineDelta accts l else 0)"
  by (rule on_grid_sum_list) (auto simp: list_all_iff lineDelta_money)

lemma account_type_of:
  "distinct (map acc_id accts) \<Longrightarrow> a \<in> set accts \<Longrightarrow> account_type accts (acc_id a) = acc_type a"
  by (simp add: account_type_def row_with_distinct)

lemma account_balance_of:
  "distinct (map acc_id accts) \<Longrightarrow> a \<in> set accts \<Longrightarrow> account_balance accts (acc_id a) = acc_balance a"
  by (simp add: account_balance_def row_with_distinct)

section \<open>The rows a posting writes\<close>

context decimal_lib
begin

lemma money_fixed [simp]: "money (fixed4 D x)"
  by (rule fixed_grid)

lemma posted_balance:
  assumes "list_all line_ok ls"
  shows "foldl (addBalance D) accts (lineDeltas ac ls) =
    map (\<lambda>a. a\<lparr>acc_balance := acc_balance a
              + (\<Sum>l\<leftarrow>ls. if jl_account l = acc_id a then lineDelta ac l else 0)\<rparr>) accts"
proof -
  have "(\<Sum>(k, d)\<leftarrow>lineDeltas ac ls. if i = k then fixed4 D d else 0)
      = (\<Sum>l\<leftarrow>ls. if jl_account l = i then lineDelta ac l else 0)" for i
    using sum_at_key [OF lineDeltas_distinct, of "fixed4 D" i ac ls] sum_delta_money [OF assms, of i ac]
    by (simp add: lineDeltas_at fixed_id)
  then show ?thesis by (simp add: foldl_addBalance_map)
qed

lemma glRows_proj:
  "list_all line_ok ls \<Longrightarrow> map gl_proj (glRows D e st sid ac start touched ls) = map (line_proj e) ls"
  by (induction ls arbitrary: touched)
    (simp_all add: Let_def gl_proj_def line_proj_def line_ok_def fixed_id)

lemma glRows_account_sum:
  assumes "list_all line_ok ls" and "\<And>l. l \<in> set ls \<Longrightarrow> jl_account l = acc_id a \<Longrightarrow> account_type ac (acc_id a) = acc_type a"
  shows "account_sum (glRows D e st sid ac start touched ls) a
    = (\<Sum>l\<leftarrow>ls. if jl_account l = acc_id a then lineDelta ac l else 0)"
  using assms
proof (induction ls arbitrary: touched)
  case Nil
  then show ?case by (simp add: account_sum_def)
next
  case (Cons l ls)
  from Cons.prems have "account_sum (glRows D e st sid ac start touched' ls) a
      = (\<Sum>l\<leftarrow>ls. if jl_account l = acc_id a then lineDelta ac l else 0)" for touched'
    by (intro Cons.IH) auto
  moreover have "jl_account l = acc_id a \<Longrightarrow> account_type ac (acc_id a) = acc_type a"
    using Cons.prems(2) [of l] by simp
  moreover have "fixed4 D (jl_debit l) = jl_debit l" and "fixed4 D (jl_credit l) = jl_credit l"
    using Cons.prems(1) by (simp_all add: line_ok_def fixed_id)
  ultimately show ?case by (simp add: account_sum_def Let_def lineDelta_def)
qed

text \<open>The running balance of the last row of an account is the starting balance plus every delta.\<close>

lemma glRows_last:
  assumes "list_all line_ok ls" and "money (case map_of touched i of None \<Rightarrow> start i | Some r \<Rightarrow> r)"
    and "\<exists>l \<in> set ls. jl_account l = i"
  shows "last_balance (gl @ glRows D e st sid ac start touched ls) i
    = (case map_of touched i of None \<Rightarrow> start i | Some r \<Rightarrow> r)
      + (\<Sum>l\<leftarrow>ls. if jl_account l = i then lineDelta ac l else 0)"
  using assms
proof (induction ls arbitrary: touched gl)
  case Nil
  then show ?case by simp
next
  case (Cons l ls)
  let ?k = "jl_account l"
  define prior where "prior = (case map_of touched ?k of None \<Rightarrow> start ?k | Some r \<Rightarrow> r)"
  define touched' where "touched' = AList.update ?k (prior + lineDelta ac l) touched"
  have t': "map_of touched' j = (if j = ?k then Some (prior + lineDelta ac l) else map_of touched j)" for j
    by (simp add: touched'_def update_conv')
  obtain g where g: "glRows D e st sid ac start touched (l # ls) = g # glRows D e st sid ac start touched' ls"
    and gk: "gl_account g = ?k" and gb: "gl_balance g = fixed4 D (prior + lineDelta ac l)"
    by (simp add: Let_def prior_def touched'_def)
  have ld: "money (lineDelta ac l)" using Cons.prems(1) by (simp add: lineDelta_money)
  show ?case
  proof (cases "\<exists>l' \<in> set ls. jl_account l' = i")
    case True
    have m: "money (case map_of touched' i of None \<Rightarrow> start i | Some r \<Rightarrow> r)"
      using Cons.prems(2) ld by (auto simp: t' prior_def intro: on_grid_add)
    have "last_balance ((gl @ [g]) @ glRows D e st sid ac start touched' ls) i
        = (case map_of touched' i of None \<Rightarrow> start i | Some r \<Rightarrow> r)
          + (\<Sum>l\<leftarrow>ls. if jl_account l = i then lineDelta ac l else 0)"
      using Cons.prems(1) m True by (intro Cons.IH) simp_all
    then show ?thesis unfolding g by (auto simp: t' prior_def)
  next
    case False
    with Cons.prems(3) have ik: "i = ?k" by auto
    have none: "filter (\<lambda>g. gl_account g = i) (glRows D e st sid ac start touched' ls) = []"
      using False
    proof (induction ls arbitrary: touched')
      case Nil
      then show ?case by simp
    next
      case (Cons a ls)
      then show ?case by (simp add: Let_def)
    qed
    have "last_balance (gl @ g # glRows D e st sid ac start touched' ls) i = gl_balance g"
      using none gk ik by (simp add: last_balance_def rev_filter [symmetric])
    moreover have "money (prior + lineDelta ac l)"
      using Cons.prems(2) ld unfolding prior_def ik by (rule on_grid_add)
    moreover have "(\<Sum>l\<leftarrow>ls. if jl_account l = i then lineDelta ac l else 0) = 0"
      using False by (induction ls) auto
    ultimately show ?thesis unfolding g ik by (simp add: gb fixed_id prior_def)
  qed
qed

lemma glRows_other:
  "i \<notin> jl_account ` set ls \<Longrightarrow> last_balance (gl @ glRows D e st sid ac start touched ls) i = last_balance gl i"
proof -
  assume "i \<notin> jl_account ` set ls"
  then have "filter (\<lambda>g. gl_account g = i) (glRows D e st sid ac start touched ls) = []"
    by (induction ls arbitrary: touched) (auto simp: Let_def)
  then show ?thesis by (simp add: last_balance_def rev_filter [symmetric])
qed

end

lemma account_sum_append: "account_sum (xs @ ys) a = account_sum xs a + account_sum ys a"
  by (simp add: account_sum_def)

lemma account_sum_balance [simp]: "account_sum gl (a\<lparr>acc_balance := x\<rparr>) = account_sum gl a"
  by (simp add: account_sum_def cong: if_cong)

lemma posted_lines_append: "posted_lines (xs @ ys) = posted_lines xs + posted_lines ys"
  by (simp add: posted_lines_def)

lemma posted_lines_map_update:
  assumes "\<And>e. ever_posted (f e) = ever_posted e" and "\<And>e. map (line_proj (f e)) (je_lines (f e)) = map (line_proj e) (je_lines e)"
  shows "posted_lines (update_row je_id i f es) = posted_lines es"
  using assms(2) [THEN arg_cong [where f = mset]]
  by (induction es) (auto simp: posted_lines_def update_row_def assms(1))

lemma account_sum_absent:
  assumes "\<forall>g \<in> set gl. gl_account g \<noteq> acc_id a"
  shows "account_sum gl a = 0"
  using assms by (induction gl) (auto simp: account_sum_def)

section \<open>Posting keeps the books\<close>

lemma glRows_keys:
  "g \<in> set (glRows D e st sid ac start touched ls) \<Longrightarrow>
   \<exists>l \<in> set ls. gl_account g = jl_account l \<and> gl_company g = je_company e"
  by (induction ls arbitrary: touched) (auto simp: Let_def)

context decimal_lib
begin

lemma applyPosting_Inr:
  assumes "applyPosting D s e ac st sid = Inr t"
  obtains start where
    "t = s\<lparr>db_accounts := foldl (addBalance D) (db_accounts s) (lineDeltas ac (je_lines e)),
           db_gl := db_gl s @ glRows D e st sid ac start [] (je_lines e)\<rparr>"
    and "\<And>i. start i = fixed4 D (account_balance (foldl (addBalance D) (db_accounts s) (lineDeltas ac (je_lines e))) i)
             - at0 (lineDeltas ac (je_lines e)) i"
    and "\<forall>l \<in> set (je_lines e). row_with acc_id (jl_account l) ac \<noteq> None"
  using assms by (auto simp: applyPosting_def Let_def throw_if_Inr)

lemma applyPosting_accounts_ok:
  assumes post: "applyPosting D s e ac st sid = Inr t"
    and ok: "accounts_ok s" and lines: "list_all line_ok (je_lines e)"
    and ac: "set ac \<subseteq> set (db_accounts s)" "\<forall>a \<in> set ac. acc_company a = je_company e"
  shows "accounts_ok t"
    and "map gl_proj (db_gl t) = map gl_proj (db_gl s) @ map (line_proj e) (je_lines e)"
    and "db_entries t = db_entries s" and "db_fresh t = db_fresh s" and "db_companies t = db_companies s"
    and "ledger_db.more t = ledger_db.more s"
    and "db_accounts t = map (\<lambda>a. a\<lparr>acc_balance := acc_balance a
           + (\<Sum>l\<leftarrow>je_lines e. if jl_account l = acc_id a then lineDelta ac l else 0)\<rparr>) (db_accounts s)"
proof -
  obtain start where t: "t = s\<lparr>db_accounts := foldl (addBalance D) (db_accounts s) (lineDeltas ac (je_lines e)),
           db_gl := db_gl s @ glRows D e st sid ac start [] (je_lines e)\<rparr>"
    and start: "\<And>i. start i = fixed4 D (account_balance (foldl (addBalance D) (db_accounts s) (lineDeltas ac (je_lines e))) i)
             - at0 (lineDeltas ac (je_lines e)) i"
    and found: "\<forall>l \<in> set (je_lines e). row_with acc_id (jl_account l) ac \<noteq> None"
    using applyPosting_Inr [OF post] by blast
  let ?d = "\<lambda>a. \<Sum>l\<leftarrow>je_lines e. if jl_account l = acc_id a then lineDelta ac l else 0"
  let ?f = "\<lambda>a. a\<lparr>acc_balance := acc_balance a + ?d a\<rparr>"
  have acc: "foldl (addBalance D) (db_accounts s) (lineDeltas ac (je_lines e)) = map ?f (db_accounts s)"
    by (rule posted_balance [OF lines])
  show "db_entries t = db_entries s" and "db_fresh t = db_fresh s" and "db_companies t = db_companies s"
    and "ledger_db.more t = ledger_db.more s" and "db_accounts t = map ?f (db_accounts s)"
    by (simp_all add: t acc)
  show "map gl_proj (db_gl t) = map gl_proj (db_gl s) @ map (line_proj e) (je_lines e)"
    by (simp add: t glRows_proj [OF lines])
  have dist: "distinct (map acc_id (db_accounts s))" using ok by (simp add: accounts_ok_def)
  have "acc_id (?f a) < db_fresh t \<and> money (acc_balance (?f a)) \<and> acc_balance (?f a) = account_sum (db_gl t) (?f a)
      \<and> acc_balance (?f a) = last_balance (db_gl t) (acc_id (?f a))" if a: "a \<in> set (db_accounts s)" for a
  proof -
    have a_ok: "acc_id a < db_fresh s" "money (acc_balance a)" "acc_balance a = account_sum (db_gl s) a"
      "acc_balance a = last_balance (db_gl s) (acc_id a)"
      using ok a by (auto simp: accounts_ok_def balance_ok_def)
    have ty: "account_type ac (acc_id a) = acc_type a" if "l \<in> set (je_lines e)" "jl_account l = acc_id a" for l
    proof -
      have "row_with acc_id (acc_id a) ac \<noteq> None" using found that by metis
      then obtain b where b: "row_with acc_id (acc_id a) ac = Some b" by blast
      then have "b \<in> set (db_accounts s)" "acc_id b = acc_id a" using ac(1) by (auto dest: row_with_Some)
      then have "b = a" using dist a by (metis row_with_distinct option.inject)
      with b show ?thesis by (simp add: account_type_def)
    qed
    have dm: "money (?d a)" by (rule sum_delta_money [OF lines])
    have "account_balance (map ?f (db_accounts s)) (acc_id a) = acc_balance a + ?d a"
      using row_with_distinct [OF dist a] by (simp add: account_balance_def row_with_map)
    moreover have "at0 (lineDeltas ac (je_lines e)) (acc_id a) = ?d a" by (simp add: lineDeltas_at)
    ultimately have st: "start (acc_id a) = acc_balance a"
      using dm a_ok(2) by (simp add: start acc fixed_id on_grid_add)
    have "account_sum (db_gl t) (?f a) = account_sum (db_gl s) a + ?d a"
    proof -
      have "account_sum (glRows D e st sid ac start [] (je_lines e)) a = ?d a"
        using ty by (intro glRows_account_sum lines) simp
      then show ?thesis by (simp add: t account_sum_append)
    qed
    moreover have "last_balance (db_gl t) (acc_id a) = acc_balance a + ?d a"
    proof (cases "\<exists>l \<in> set (je_lines e). jl_account l = acc_id a")
      case True
      then show ?thesis
        using glRows_last [OF lines, where touched = "[]" and i = "acc_id a" and start = start
            and gl = "db_gl s" and e = e and st = st and sid = sid and ac = ac] st a_ok(2)
        by (simp add: t)
    next
      case False
      then have "?d a = 0" by (intro sum_if_absent) simp
      moreover have "acc_id a \<notin> jl_account ` set (je_lines e)" using False by (metis imageE)
      ultimately show ?thesis using a_ok(4) by (simp add: t glRows_other)
    qed
    ultimately show ?thesis using a_ok dm by (simp add: t on_grid_add)
  qed
  note each = this
  have acct: "db_accounts t = map ?f (db_accounts s)" by (simp add: t acc)
  have ids: "distinct (map acc_id (map ?f (db_accounts s)))" using dist by (simp add: o_def)
  have rows: "acc_id b < db_fresh t \<and> money (acc_balance b) \<and> acc_balance b = account_sum (db_gl t) b
      \<and> acc_balance b = last_balance (db_gl t) (acc_id b)" if "b \<in> set (map ?f (db_accounts s))" for b
  proof -
    from that obtain a where b: "b = ?f a" and a: "a \<in> set (db_accounts s)" by auto
    show ?thesis unfolding b by (rule each [OF a])
  qed
  have rows': "acc_id b < db_fresh t \<and> balance_ok (db_gl t) b" if "b \<in> set (map ?f (db_accounts s))" for b
    unfolding balance_ok_def using rows [OF that] by blast
  have glok: "\<exists>b \<in> set (map ?f (db_accounts s)). acc_id b = gl_account g \<and> acc_company b = gl_company g"
    if "g \<in> set (db_gl t)" for g
  proof -
    have "\<exists>a \<in> set (db_accounts s). acc_id a = gl_account g \<and> acc_company a = gl_company g"
    proof (cases "g \<in> set (db_gl s)")
      case True
      then show ?thesis using ok by (auto simp: accounts_ok_def)
    next
      case False
      with that have "g \<in> set (glRows D e st sid ac start [] (je_lines e))" by (simp add: t)
      then obtain l where "l \<in> set (je_lines e)" "gl_account g = jl_account l" "gl_company g = je_company e"
        using glRows_keys by metis
      with found ac show ?thesis by (metis option.exhaust row_with_Some subsetD)
    qed
    then show ?thesis by force
  qed
  show "accounts_ok t"
    unfolding accounts_ok_def acct
    by (intro conjI ids ballI glok) (use rows' in blast)+
qed

end


section \<open>References\<close>

lemma company_entries_snoc:
  "company_entries (es @ [e]) c = company_entries es c @ (if je_company e = c then [e] else [])"
  by (simp add: company_entries_def)

lemma refs_in_sequence_snoc:
  assumes "refs_in_sequence es"
    and "je_reference e = formatJournalRef (length (company_entries es (je_company e)) + 1)"
  shows "refs_in_sequence (es @ [e])"
  using assms by (simp add: refs_in_sequence_def company_entries_snoc)

lemma nextJournalReference_eq:
  "nextJournalReference s c = formatJournalRef (length (company_entries (db_entries s) c) + 1)"
  by (simp add: nextJournalReference_def company_entries_def)

text \<open>Counting the entries is a safe way to number them: the next reference is never taken.\<close>

lemma next_reference_free:
  assumes "refs_in_sequence (db_entries s)"
  shows "reference_free s c (nextJournalReference s c)"
  unfolding reference_free_def
proof (intro ballI notI)
  fix e assume e: "e \<in> set (db_entries s)" and "je_company e = c \<and> je_reference e = nextJournalReference s c"
  then have "nextJournalReference s c \<in> set (map je_reference (company_entries (db_entries s) c))"
    by (force simp: company_entries_def)
  also have "map je_reference (company_entries (db_entries s) c)
      = map (\<lambda>k. formatJournalRef (k + 1)) [0..<length (company_entries (db_entries s) c)]"
    using assms by (simp add: refs_in_sequence_def)
  finally show False
    by (auto simp: nextJournalReference_eq formatJournalRef_inj)
qed

lemma refs_in_sequence_update:
  assumes "\<And>e. je_company (f e) = je_company e" and "\<And>e. je_reference (f e) = je_reference e"
    and "refs_in_sequence es"
  shows "refs_in_sequence (update_row je_id i f es)"
proof -
  have "map je_reference (company_entries (update_row je_id i f es) c) = map je_reference (company_entries es c)" for c
    using assms(1,2) by (induction es) (auto simp: update_row_def company_entries_def)
  moreover from this have "length (company_entries (update_row je_id i f es) c) = length (company_entries es c)" for c
    by (metis length_map)
  ultimately show ?thesis using assms(3) by (simp add: refs_in_sequence_def)
qed

lemma posted_lines_post:
  assumes "distinct (map je_id es)" and "r \<in> set es" and "je_id r = i"
    and "\<not> ever_posted r" and "ever_posted (f r)"
  shows "posted_lines (update_row je_id i f es)
    = posted_lines es + mset (map (line_proj (f r)) (je_lines (f r)))"
  using assms
proof (induction es)
  case Nil
  then show ?case by simp
next
  case (Cons e es)
  show ?case
  proof (cases "e = r")
    case True
    with Cons.prems have "update_row je_id i f es = es" by (intro update_row_absent) auto
    with True Cons.prems show ?thesis by (simp add: update_row_def posted_lines_def)
  next
    case False
    with Cons.prems have "je_id e \<noteq> i" by auto
    with Cons False show ?thesis by (simp add: update_row_def posted_lines_def)
  qed
qed

section \<open>What a created entry is\<close>

lemma length_stored_lines [simp]: "length (stored_lines D i ls) = length ls"
  by (induction ls arbitrary: i) simp_all

lemma stored_lines_map:
  "map (\<lambda>l. (jl_account l, jl_debit l, jl_credit l)) (stored_lines D i ls)
   = map (\<lambda>l. (pl_account l, fixed4 D (pl_debit l), fixed4 D (pl_credit l))) ls"
  by (induction ls arbitrary: i) simp_all

lemma stored_lines_accounts: "map jl_account (stored_lines D i ls) = map pl_account ls"
  by (induction ls arbitrary: i) simp_all

definition chosen_accounts :: "'a ledger_db_scheme \<Rightarrow> nat \<Rightarrow> nat list \<Rightarrow> account list" where
  "chosen_accounts s company ids = filter (\<lambda>a. acc_id a \<in> set ids \<and> acc_company a = company) (db_accounts s)"

lemma createEntry_Inr:
  assumes "createEntry E s inp = Inr (e, t)"
  defines "ac \<equiv> chosen_accounts s (pi_company inp) (uniq (map pl_account (pi_lines inp)))"
    and "s1 \<equiv> s\<lparr>db_entries := db_entries s @ [e], db_fresh := Suc (db_fresh s)\<rparr>"
  shows "je_id e = db_fresh s" and "je_company e = pi_company inp"
    and "je_reference e = nextJournalReference s (pi_company inp)" and "je_date e = pi_date inp"
    and "je_status e = (if pi_posted inp then JE_posted else JE_draft)"
    and "ever_posted e = pi_posted inp"
    and "je_lines e = stored_lines (dec E) 0 (pi_lines inp)" and "je_reversalOf e = pi_reversalOf inp"
    and "2 \<le> length (pi_lines inp)"
    and "\<forall>l \<in> set (je_lines e). chk_line_shape l \<and> chk_non_negative l"
    and "\<forall>a \<in> set ac. acc_active a" and "length ac = length (uniq (map pl_account (pi_lines inp)))"
    and "pi_posted inp \<Longrightarrow> assertPeriodOpen s (pi_company inp) (pi_date inp) = Inr ()"
    and "\<not> pi_posted inp \<Longrightarrow> t = s1"
    and "pi_posted inp \<Longrightarrow> applyPosting (dec E) s1 e ac
           (case pi_sourceType inp of None \<Rightarrow> ''journal_entry'' | Some x \<Rightarrow> x)
           (case pi_sourceId inp of None \<Rightarrow> je_id e | Some i \<Rightarrow> i) = Inr t"
  using assms(1) unfolding createEntry_def Let_def throw_if_Inr bindE_Inr ac_def s1_def chosen_accounts_def
  by (auto simp: ever_posted_def throw_if_Inr bindE_Inr not_less split: if_splits option.split)


section \<open>Creating an entry keeps the books\<close>

definition entry_effect :: "journal_entry \<Rightarrow> account \<Rightarrow> rat" where
  "entry_effect e a =
     (\<Sum>l\<leftarrow>je_lines e. if jl_account l = acc_id a then signedDelta (acc_type a) (jl_debit l) (jl_credit l) else 0)"

lemma account_type_chosen:
  assumes "distinct (map acc_id accts)" and "set ac \<subseteq> set accts" and "a \<in> set accts"
    and "row_with acc_id (acc_id a) ac \<noteq> None"
  shows "account_type ac (acc_id a) = acc_type a"
proof -
  obtain b where b: "row_with acc_id (acc_id a) ac = Some b" using assms(4) by blast
  then have "b \<in> set accts" "acc_id b = acc_id a" using assms(2) by (auto dest: row_with_Some)
  then have "b = a" using assms(1,3) by (metis row_with_distinct option.inject)
  with b show ?thesis by (simp add: account_type_def)
qed

lemma accounts_ok_fresh:
  "accounts_ok s \<Longrightarrow> accounts_ok (s\<lparr>db_entries := es, db_fresh := Suc (db_fresh s)\<rparr>)"
  by (auto simp: accounts_ok_def)

lemma accounts_ok_entries [simp]: "accounts_ok (s\<lparr>db_entries := es\<rparr>) = accounts_ok s"
  by (simp add: accounts_ok_def)

lemma posted_lines_single:
  "posted_lines [e] = (if ever_posted e then mset (map (line_proj e) (je_lines e)) else {#})"
  by (simp add: posted_lines_def)

lemma chosen_accounts_sub:
  "set (chosen_accounts s c ids) \<subseteq> set (db_accounts s)" "\<forall>a \<in> set (chosen_accounts s c ids). acc_company a = c"
  by (auto simp: chosen_accounts_def)

context decimal_lib
begin

lemma applyPosting_effect:
  assumes post: "applyPosting D s e ac st sid = Inr t"
    and ok: "accounts_ok s" and lines: "list_all line_ok (je_lines e)"
    and ac: "set ac \<subseteq> set (db_accounts s)" "\<forall>a \<in> set ac. acc_company a = je_company e"
  shows "db_accounts t = map (\<lambda>a. a\<lparr>acc_balance := acc_balance a + entry_effect e a\<rparr>) (db_accounts s)"
proof -
  have found: "\<forall>l \<in> set (je_lines e). row_with acc_id (jl_account l) ac \<noteq> None"
    using applyPosting_Inr [OF post] by blast
  have dist: "distinct (map acc_id (db_accounts s))" using ok by (simp add: accounts_ok_def)
  have "(\<Sum>l\<leftarrow>je_lines e. if jl_account l = acc_id a then lineDelta ac l else 0) = entry_effect e a"
    if a: "a \<in> set (db_accounts s)" for a
    unfolding entry_effect_def
  proof (intro arg_cong [where f = sum_list] map_cong refl if_cong)
    fix l assume "l \<in> set (je_lines e)" and "jl_account l = acc_id a"
    with found have "account_type ac (acc_id a) = acc_type a"
      by (intro account_type_chosen [OF dist ac(1) a]) metis
    then show "lineDelta ac l = signedDelta (acc_type a) (jl_debit l) (jl_credit l)"
      by (simp add: lineDelta_def \<open>jl_account l = acc_id a\<close>)
  qed
  then show ?thesis
    using applyPosting_accounts_ok(7) [OF post ok lines ac] by (auto intro: map_cong)
qed

lemma stored_lines_money:
  "l \<in> set (stored_lines D i ls) \<Longrightarrow> money (jl_debit l)" "l \<in> set (stored_lines D i ls) \<Longrightarrow> money (jl_credit l)"
  by (induction ls arbitrary: i) (auto simp: fixed_grid)

lemma created_lines_ok:
  assumes "dec E = D" and "createEntry E s inp = Inr (e, t)"
  shows "list_all line_ok (je_lines e)" and "entry_ok e"
proof -
  note c = createEntry_Inr [OF assms(2)]
  show l: "list_all line_ok (je_lines e)"
    using c(7) [unfolded assms(1)] c(10) by (auto simp: list_all_iff line_ok_def stored_lines_money)
  show "entry_ok e"
    using l c(5,6,7,9) by (auto simp: entry_ok_def)
qed

lemma createEntry_keeps:
  assumes D: "dec E = D" and created: "createEntry E s inp = Inr (e, t)" and ok: "ledger_ok s"
  shows "ledger_ok t" and "db_entries t = db_entries s @ [e]" and "db_fresh t = Suc (db_fresh s)"
    and "db_companies t = db_companies s" and "ledger_db.more t = ledger_db.more s"
    and "db_accounts t = map (\<lambda>a. a\<lparr>acc_balance := acc_balance a + (if pi_posted inp then entry_effect e a else 0)\<rparr>)
           (db_accounts s)"
    and "map gl_proj (db_gl t)
         = map gl_proj (db_gl s) @ (if pi_posted inp then map (line_proj e) (je_lines e) else [])"
proof -
  note c = createEntry_Inr [OF created] and e = created_lines_ok [OF D created]
  let ?ac = "chosen_accounts s (pi_company inp) (uniq (map pl_account (pi_lines inp)))"
  let ?s1 = "s\<lparr>db_entries := db_entries s @ [e], db_fresh := Suc (db_fresh s)\<rparr>"
  have a1: "accounts_ok ?s1" using ok by (simp add: ledger_ok_def accounts_ok_fresh)
  have ac: "set ?ac \<subseteq> set (db_accounts ?s1)" "\<forall>a \<in> set ?ac. acc_company a = je_company e"
    using chosen_accounts_sub [of s] c(2) by simp_all
  let ?st = "case pi_sourceType inp of None \<Rightarrow> ''journal_entry'' | Some x \<Rightarrow> x"
  let ?sid = "case pi_sourceId inp of None \<Rightarrow> je_id e | Some i \<Rightarrow> i"
  have post: "applyPosting D ?s1 e ?ac ?st ?sid = Inr t" if "pi_posted inp" using c(15) [OF that] D by simp
  note p = applyPosting_accounts_ok [OF post a1 e(1) ac] and eff = applyPosting_effect [OF post a1 e(1) ac]
  show es: "db_entries t = db_entries s @ [e]" using c(14) p(3) by (cases "pi_posted inp") simp_all
  show fr: "db_fresh t = Suc (db_fresh s)" using c(14) p(4) by (cases "pi_posted inp") simp_all
  show "db_companies t = db_companies s" using c(14) p(5) by (cases "pi_posted inp") simp_all
  show "ledger_db.more t = ledger_db.more s" using c(14) p(6) by (cases "pi_posted inp") simp_all
  show "db_accounts t = map (\<lambda>a. a\<lparr>acc_balance := acc_balance a + (if pi_posted inp then entry_effect e a else 0)\<rparr>)
           (db_accounts s)"
    using c(14) eff by (cases "pi_posted inp") simp_all
  show gl: "map gl_proj (db_gl t)
         = map gl_proj (db_gl s) @ (if pi_posted inp then map (line_proj e) (je_lines e) else [])"
    using c(14) p(2) by (cases "pi_posted inp") simp_all
  have "accounts_ok t" using c(14) p(1) a1 by (cases "pi_posted inp") simp_all
  moreover have "entries_ok t"
    unfolding entries_ok_def
  proof (intro conjI)
    have old: "entries_ok s" using ok by (simp add: ledger_ok_def)
    show "distinct (map je_id (db_entries t))"
      using old c(1) by (auto simp: entries_ok_def es)
    show "\<forall>e \<in> set (db_entries t). je_id e < db_fresh t"
      using old c(1) by (auto simp: entries_ok_def es fr less_Suc_eq)
    show "list_all entry_ok (db_entries t)" using old e(2) by (simp add: entries_ok_def es)
    show "refs_in_sequence (db_entries t)"
      unfolding es using old c(2,3) by (intro refs_in_sequence_snoc) (simp_all add: entries_ok_def nextJournalReference_eq)
    show "mset (map gl_proj (db_gl t)) = posted_lines (db_entries t)"
      using old c(6) by (simp add: gl es posted_lines_append posted_lines_single entries_ok_def)
  qed
  ultimately show "ledger_ok t" by (simp add: ledger_ok_def)
qed

end

section \<open>Posting a draft keeps the books\<close>

lemma find_Some_mem: "find P xs = Some x \<Longrightarrow> x \<in> set xs \<and> P x"
  by (auto simp: find_Some_iff)

lemma postDraft_Inr:
  assumes "postDraft E s company i user = Inr (e, t)"
  obtains r where "r \<in> set (db_entries s)" and "je_id r = i" and "je_company r = company" and "je_status r = JE_draft"
    and "assertPeriodOpen s company (je_date r) = Inr ()"
    and "e = r\<lparr>je_status := JE_posted, je_postedBy := Some user, je_postedAt := Some (now E),
                je_totalDebits := fixed4 (dec E) (\<Sum>l\<leftarrow>je_lines r. jl_debit l),
                je_totalCredits := fixed4 (dec E) (\<Sum>l\<leftarrow>je_lines r. jl_credit l)\<rparr>"
    and "moneyEquals (\<Sum>l\<leftarrow>je_lines r. jl_debit l) (\<Sum>l\<leftarrow>je_lines r. jl_credit l)"
    and "applyPosting (dec E) (s\<lparr>db_entries := update_row je_id i (\<lambda>r. r\<lparr>je_status := JE_posted, je_postedBy := Some user, je_postedAt := Some (now E),
                je_totalDebits := fixed4 (dec E) (\<Sum>l\<leftarrow>je_lines e. jl_debit l),
                je_totalCredits := fixed4 (dec E) (\<Sum>l\<leftarrow>je_lines e. jl_credit l)\<rparr>) (db_entries s)\<rparr>) e
           (chosen_accounts s company (uniq (map jl_account (je_lines e)))) ''journal_entry'' i = Inr t"
proof -
  from assms obtain r where r: "find (\<lambda>e. je_id e = i \<and> je_company e = company) (db_entries s) = Some r"
    by (auto simp: postDraft_def some_or_Inr)
  note mem = find_Some_mem [OF r]
  show thesis
    using assms mem
    by (intro that [of r])
      (auto simp: postDraft_def r Let_def throw_if_Inr bindE_Inr foldl_plus_sum chosen_accounts_def)
qed


lemma accounts_ok_update [simp]:
  "accounts_ok (s\<lparr>db_entries := es, db_accounts := db_accounts s\<rparr>) = accounts_ok s"
  by (simp add: accounts_ok_def)

context decimal_lib
begin

lemma postDraft_keeps:
  assumes D: "dec E = D" and run: "postDraft E s company i user = Inr (e, t)" and ok: "ledger_ok s"
  shows "ledger_ok t" and "db_entries t = map (\<lambda>r. if je_id r = i then e else r) (db_entries s)"
    and "db_fresh t = db_fresh s" and "db_companies t = db_companies s" and "ledger_db.more t = ledger_db.more s"
    and "db_accounts t = map (\<lambda>a. a\<lparr>acc_balance := acc_balance a + entry_effect e a\<rparr>) (db_accounts s)"
    and "map gl_proj (db_gl t) = map gl_proj (db_gl s) @ map (line_proj e) (je_lines e)"
proof -
  define f :: "journal_entry \<Rightarrow> journal_entry"
    where "f = (\<lambda>r. r\<lparr>je_status := JE_posted, je_postedBy := Some user, je_postedAt := Some (now E),
      je_totalDebits := fixed4 (dec E) (\<Sum>l\<leftarrow>je_lines e. jl_debit l),
      je_totalCredits := fixed4 (dec E) (\<Sum>l\<leftarrow>je_lines e. jl_credit l)\<rparr>)"
  let ?s1 = "s\<lparr>db_entries := update_row je_id i f (db_entries s)\<rparr>"
  define ac where "ac = chosen_accounts s company (uniq (map jl_account (je_lines e)))"
  obtain r where r: "r \<in> set (db_entries s)" "je_id r = i" "je_company r = company" "je_status r = JE_draft"
    and e': "e = r\<lparr>je_status := JE_posted, je_postedBy := Some user, je_postedAt := Some (now E),
                je_totalDebits := fixed4 (dec E) (\<Sum>l\<leftarrow>je_lines r. jl_debit l),
                je_totalCredits := fixed4 (dec E) (\<Sum>l\<leftarrow>je_lines r. jl_credit l)\<rparr>"
    and post: "applyPosting D ?s1 e ac ''journal_entry'' i = Inr t"
    unfolding f_def ac_def D [symmetric] by (rule postDraft_Inr [OF run])
  have e: "e = f r" using e' by (simp add: f_def)
  have fl [simp]: "je_lines (f x) = je_lines x" "je_id (f x) = je_id x" "je_company (f x) = je_company x"
    "je_reference (f x) = je_reference x" "ever_posted (f x)" "je_status (f x) = JE_posted" for x
    by (simp_all add: f_def ever_posted_def)
  have old: "entries_ok s" and acc: "accounts_ok ?s1" using ok by (simp_all add: ledger_ok_def)
  have r_ok: "entry_ok r" using old r(1) by (simp add: entries_ok_def list_all_iff)
  then have lines: "list_all line_ok (je_lines e)" by (simp add: e entry_ok_def)
  have acs: "set ac \<subseteq> set (db_accounts ?s1)" "\<forall>a \<in> set ac. acc_company a = je_company e"
    using chosen_accounts_sub [of s] r(3) by (simp_all add: ac_def e)
  note p = applyPosting_accounts_ok [OF post acc lines acs]
  have dist: "distinct (map je_id (db_entries s))" using old by (simp add: entries_ok_def)
  have es: "db_entries t = update_row je_id i f (db_entries s)" using p(3) by simp
  show fr: "db_fresh t = db_fresh s" and "db_companies t = db_companies s"
    and "ledger_db.more t = ledger_db.more s"
    and gl: "map gl_proj (db_gl t) = map gl_proj (db_gl s) @ map (line_proj e) (je_lines e)"
    and "db_accounts t = map (\<lambda>a. a\<lparr>acc_balance := acc_balance a + entry_effect e a\<rparr>) (db_accounts s)"
    using p(2,4,5,6) applyPosting_effect [OF post acc lines acs] by simp_all
  have unique: "x = r" if "x \<in> set (db_entries s)" "je_id x = i" for x
    using dist that r(1,2) by (metis row_with_distinct option.inject)
  then show "db_entries t = map (\<lambda>r. if je_id r = i then e else r) (db_entries s)"
    by (auto simp: es update_row_def e)
  have "entries_ok t"
    unfolding entries_ok_def es
  proof (intro conjI)
    show "distinct (map je_id (update_row je_id i f (db_entries s)))" using dist by simp
    show "\<forall>e \<in> set (update_row je_id i f (db_entries s)). je_id e < db_fresh t"
      using old by (auto simp: entries_ok_def fr dest!: set_update_row)
    have "entry_ok (f r)" using r_ok by (simp add: entry_ok_def)
    then show "list_all entry_ok (update_row je_id i f (db_entries s))"
      using old unique by (auto simp: entries_ok_def list_all_iff dest!: set_update_row)
    show "refs_in_sequence (update_row je_id i f (db_entries s))"
      using old by (intro refs_in_sequence_update) (simp_all add: entries_ok_def)
    have "\<not> ever_posted r" using r_ok r(4) by (simp add: entry_ok_def)
    then show "mset (map gl_proj (db_gl t)) = posted_lines (update_row je_id i f (db_entries s))"
      using old by (simp add: gl posted_lines_post [OF dist r(1,2)] entries_ok_def e)
  qed
  then show "ledger_ok t" using p(1) by (simp add: ledger_ok_def)
qed

end

section \<open>Voiding keeps the books\<close>

definition void_row :: "string \<Rightarrow> journal_entry \<Rightarrow> journal_entry" where
  "void_row reason e = e\<lparr>je_status := JE_void, je_voidReason := Some reason\<rparr>"

lemma void_row_simps [simp]:
  "je_lines (void_row r x) = je_lines x" "je_id (void_row r x) = je_id x" "je_company (void_row r x) = je_company x"
  "je_reference (void_row r x) = je_reference x" "ever_posted (void_row r x) = ever_posted x"
  "je_status (void_row r x) = JE_void" "line_proj (void_row r x) l = line_proj x l" "je_date (void_row r x) = je_date x"
  "entry_balanced (void_row r x) = entry_balanced x" "je_reversalOf (void_row r x) = je_reversalOf x"
  by (simp_all add: void_row_def ever_posted_def line_proj_def entry_balanced_def)

lemma void_row_ok: "entry_ok e \<Longrightarrow> entry_ok (void_row r e)"
  by (simp add: entry_ok_def)

lemma ledger_ok_void:
  assumes "ledger_ok s"
  shows "ledger_ok (s\<lparr>db_entries := update_row je_id i (void_row r) (db_entries s)\<rparr>)"
proof -
  have old: "entries_ok s" using assms by (simp add: ledger_ok_def)
  have "posted_lines (update_row je_id i (void_row r) (db_entries s)) = posted_lines (db_entries s)"
    by (rule posted_lines_map_update) simp_all
  moreover have "list_all entry_ok (update_row je_id i (void_row r) (db_entries s))"
    using old by (auto simp: entries_ok_def list_all_iff void_row_ok dest!: set_update_row)
  moreover have "refs_in_sequence (update_row je_id i (void_row r) (db_entries s))"
    using old by (intro refs_in_sequence_update) (simp_all add: entries_ok_def)
  moreover have "\<forall>e \<in> set (update_row je_id i (void_row r) (db_entries s)). je_id e < db_fresh s"
    using old by (auto simp: entries_ok_def dest!: set_update_row)
  ultimately show ?thesis using assms by (simp add: ledger_ok_def entries_ok_def)
qed

definition void_input :: "env \<Rightarrow> nat \<Rightarrow> nat \<Rightarrow> string \<Rightarrow> journal_entry \<Rightarrow> posting_input" where
  "void_input E company user reason r =
     \<lparr>pi_company = company, pi_date = today E, pi_memo = Some (''Void '' @ je_reference r @ '': '' @ reason),
      pi_createdBy = user, pi_lines = reversalLines (je_lines r), pi_posted = True,
      pi_sourceType = None, pi_sourceId = None, pi_reversalOf = Some (je_id r)\<rparr>"

lemma je_void_Inr:
  assumes "je_void E company i user reason s = Inr (u, t)"
  obtains r where "r \<in> set (db_entries s)" and "je_id r = i" and "je_company r = company" and "je_status r \<noteq> JE_void"
    and "assertNotReconciled s company [Some i] = Inr ()"
    and "assert_entries_balanced s t"
    and "je_status r = JE_draft \<and> t = s\<lparr>db_entries := update_row je_id i (void_row reason) (db_entries s)\<rparr>
      \<or> je_status r = JE_posted \<and>
        (\<exists>e s1. createEntry E s (void_input E company user reason r) = Inr (e, s1) \<and>
          t = s1\<lparr>db_entries := update_row je_id i (void_row reason) (db_entries s1)\<rparr>)"
proof -
  have vr: "(\<lambda>e. e\<lparr>je_status := JE_void, je_voidReason := Some reason\<rparr>) = void_row reason"
    by (simp add: void_row_def fun_eq_iff)
  from assms obtain r where r: "find (\<lambda>e. je_id e = i \<and> je_company e = company) (db_entries s) = Some r"
    by (auto simp: je_void_def transaction_def some_or_Inr bindE_Inr)
  note mem = find_Some_mem [OF r]
  note run = assms [unfolded je_void_def transaction_def vr]
  have rs: "je_status r \<noteq> JE_void" "assertNotReconciled s company [Some i] = Inr ()" "assert_entries_balanced s t"
    using run mem by (auto simp: r throw_if_Inr bindE_Inr)
  have "je_status r = JE_draft \<and> t = s\<lparr>db_entries := update_row je_id i (void_row reason) (db_entries s)\<rparr>
      \<or> je_status r = JE_posted \<and>
        (\<exists>e s1. createEntry E s (void_input E company user reason r) = Inr (e, s1) \<and>
          t = s1\<lparr>db_entries := update_row je_id i (void_row reason) (db_entries s1)\<rparr>)"
  proof (cases "je_status r")
    case JE_draft
    then show ?thesis using run by (auto simp: r throw_if_Inr bindE_Inr)
  next
    case JE_posted
    then have "bindE (map_sum id snd (createEntry E s (void_input E company user reason r)))
        (\<lambda>s1. Inr ((), s1\<lparr>db_entries := update_row je_id i (void_row reason) (db_entries s1)\<rparr>)) = Inr (u, t)"
      using run mem unfolding void_input_def by (simp add: r throw_if_Inr bindE_Inr)
    with JE_posted show ?thesis
      by (cases "createEntry E s (void_input E company user reason r)") auto
  next
    case JE_void
    then show ?thesis using rs(1) by simp
  qed
  then show thesis
    using mem rs by (intro that [of r]) simp_all
qed


section \<open>Trial balance and accounting equation\<close>

lemma assert_keeps_balanced:
  "all_balanced s \<Longrightarrow> assert_entries_balanced s t \<Longrightarrow> all_balanced t"
  unfolding all_balanced_def assert_entries_balanced_def by blast

lemma transaction_Inr [result_simps]:
  "transaction f s = Inr (r, t) \<longleftrightarrow> f s = Inr (r, t) \<and> assert_entries_balanced s t"
  by (auto simp: transaction_def bindE_Inr throw_if_Inr)

lemma sum_mset_sum_list_map: "(\<Sum>x\<leftarrow>xs. f x) = (\<Sum>x\<in>#mset xs. f x)" for f :: "'a \<Rightarrow> rat"
  by (simp add: sum_mset_sum_list [symmetric])

definition proj_net :: "nat \<Rightarrow> nat \<times> date \<times> string \<times> nat \<times> rat \<times> rat \<Rightarrow> rat" where
  "proj_net c p = (case p of (co, _, _, _, d, k) \<Rightarrow> if co = c then d - k else 0)"

lemma gl_net_posted:
  assumes "entries_ok s"
  shows "(\<Sum>g\<leftarrow>db_gl s. if gl_company g = c then gl_debit g - gl_credit g else 0)
    = (\<Sum>e\<leftarrow>db_entries s. if ever_posted e \<and> je_company e = c
         then (\<Sum>l\<leftarrow>je_lines e. jl_debit l) - (\<Sum>l\<leftarrow>je_lines e. jl_credit l) else 0)"
proof -
  have p: "(\<Sum>p\<in>#posted_lines es. proj_net c p)
    = (\<Sum>e\<leftarrow>es. if ever_posted e \<and> je_company e = c
         then (\<Sum>l\<leftarrow>je_lines e. jl_debit l) - (\<Sum>l\<leftarrow>je_lines e. jl_credit l) else 0)" for es
  proof (induction es)
    case Nil
    then show ?case by (simp add: posted_lines_def)
  next
    case (Cons e es)
    have l: "(\<Sum>p\<in>#mset (map (line_proj e) ls). proj_net c p)
        = (if je_company e = c then (\<Sum>l\<leftarrow>ls. jl_debit l) - (\<Sum>l\<leftarrow>ls. jl_credit l) else 0)" for ls
      by (induction ls) (auto simp: line_proj_def proj_net_def)
    have "posted_lines (e # es) = (if ever_posted e then mset (map (line_proj e) (je_lines e)) else {#}) + posted_lines es"
      by (simp add: posted_lines_def)
    then show ?case using Cons l [of "je_lines e"] by auto
  qed
  have "(\<Sum>g\<leftarrow>db_gl s. if gl_company g = c then gl_debit g - gl_credit g else 0)
    = (\<Sum>p\<leftarrow>map gl_proj (db_gl s). proj_net c p)"
    by (simp add: gl_proj_def proj_net_def o_def)
  also have "\<dots> = (\<Sum>p\<in>#mset (map gl_proj (db_gl s)). proj_net c p)" by (rule sum_mset_sum_list_map)
  also have "\<dots> = (\<Sum>p\<in>#posted_lines (db_entries s). proj_net c p)" using assms by (simp add: entries_ok_def)
  finally show ?thesis using p by simp
qed

lemma trial_balance_zero:
  assumes "ledger_ok s" and "all_balanced s"
  shows "(\<Sum>g\<leftarrow>db_gl s. if gl_company g = c then gl_debit g - gl_credit g else 0) = 0"
proof -
  have "(if ever_posted e \<and> je_company e = c
         then (\<Sum>l\<leftarrow>je_lines e. jl_debit l) - (\<Sum>l\<leftarrow>je_lines e. jl_credit l) else 0) = 0"
    if "e \<in> set (db_entries s)" for e
    using assms that by (auto simp: all_balanced_def entry_balanced_def ledger_ok_def entries_ok_def
        list_all_iff entry_ok_def)
  moreover have "entries_ok s" using assms(1) by (simp add: ledger_ok_def)
  ultimately show ?thesis by (simp add: gl_net_posted cong: map_cong)
qed

lemma account_total_gl:
  assumes "distinct (map acc_id accts)"
    and "\<forall>g \<in> set gl. \<exists>a \<in> set accts. acc_id a = gl_account g \<and> acc_company a = gl_company g"
  shows "(\<Sum>a\<leftarrow>accts. if acc_company a = c
            then (if acc_type a = Asset \<or> acc_type a = Expense then 1 else -1) * account_sum gl a else 0)
       = (\<Sum>g\<leftarrow>gl. if gl_company g = c then gl_debit g - gl_credit g else 0)"
  using assms(2)
proof (induction gl)
  case Nil
  then show ?case by (simp add: account_sum_def cong: if_cong)
next
  case (Cons g gl)
  then obtain b where b: "b \<in> set accts" "acc_id b = gl_account g" "acc_company b = gl_company g" by auto
  let ?w = "\<lambda>a. (if acc_type a = Asset \<or> acc_type a = Expense then 1 else -1) :: rat"
  let ?net = "\<lambda>a. if gl_account g = acc_id a then (if gl_company g = c then gl_debit g - gl_credit g else 0) else 0"
  have one: "(\<Sum>a\<leftarrow>xs. ?net a) = (if b \<in> set xs then (if gl_company g = c then gl_debit g - gl_credit g else 0) else 0)"
    if "distinct (map acc_id xs)" "set xs \<subseteq> set accts" for xs
    using that
  proof (induction xs)
    case Nil
    then show ?case by simp
  next
    case (Cons x xs)
    have "gl_account g = acc_id x \<longleftrightarrow> x = b"
      using Cons.prems b assms(1) by (metis list.set_intros(1) option.inject row_with_distinct subsetD)
    with Cons show ?case by auto
  qed
  have "(if acc_company a = c then ?w a * account_sum (g # gl) a else 0)
      = ?net a + (if acc_company a = c then ?w a * account_sum gl a else 0)" if "a \<in> set accts" for a
  proof (cases "gl_account g = acc_id a")
    case True
    then have "a = b" using b that assms(1) by (metis option.inject row_with_distinct)
    then show ?thesis using b by (auto simp: account_sum_def signedDelta_def algebra_simps)
  next
    case False
    then show ?thesis by (simp add: account_sum_def)
  qed
  then have "(\<Sum>a\<leftarrow>accts. if acc_company a = c then ?w a * account_sum (g # gl) a else 0)
      = (\<Sum>a\<leftarrow>accts. ?net a) + (\<Sum>a\<leftarrow>accts. if acc_company a = c then ?w a * account_sum gl a else 0)"
    by (simp add: sum_list_addf cong: map_cong)
  moreover have "(\<Sum>a\<leftarrow>accts. ?net a) = (if gl_company g = c then gl_debit g - gl_credit g else 0)"
    using one [OF assms(1)] b(1) by simp
  ultimately show ?case using Cons by auto
qed

section \<open>A reversal undoes its entry\<close>

lemma signedDelta_swap: "signedDelta t c d = - signedDelta t d c"
  by (simp add: signedDelta_def)

lemma sum_list_perm: "mset xs = mset ys \<Longrightarrow> (\<Sum>x\<leftarrow>xs. f x) = (\<Sum>x\<leftarrow>ys. f x)" for f :: "'a \<Rightarrow> rat"
  by (simp add: sum_mset_sum_list_map)

context decimal_lib
begin

lemma map_snd_enum: "map (\<lambda>x. g (snd x)) (enumerate n xs) = map g xs"
  by (induction xs arbitrary: n) simp_all

lemma reversal_stored:
  assumes "list_all line_ok ls"
  shows "map (\<lambda>l. (jl_account l, jl_debit l, jl_credit l)) (stored_lines D 0 (reversalLines ls))
    = map (\<lambda>l. (jl_account l, jl_credit l, jl_debit l)) (sort_key jl_order ls)"
proof -
  have r: "map (\<lambda>l. (pl_account l, fixed4 D (pl_debit l), fixed4 D (pl_credit l))) (reversalLines ls)
    = map (\<lambda>l. (jl_account l, fixed4 D (jl_credit l), fixed4 D (jl_debit l))) (sort_key jl_order ls)"
    using map_snd_enum [of "\<lambda>l. (jl_account l, fixed4 D (jl_credit l), fixed4 D (jl_debit l))" 0 "sort_key jl_order ls"]
    by (simp add: reversalLines_def o_def case_prod_unfold)
  show ?thesis
    unfolding stored_lines_map r
    using assms by (auto simp: list_all_iff line_ok_def fixed_id)
qed

lemma reversal_effect:
  assumes "list_all line_ok (je_lines e)" and "je_lines r = stored_lines D 0 (reversalLines (je_lines e))"
  shows "entry_effect r a = - entry_effect e a"
proof -
  let ?f = "\<lambda>(i, d, k). if i = acc_id a then signedDelta (acc_type a) d k else 0"
  have swap: "signedDelta (acc_type a) (jl_credit l) (jl_debit l) = - signedDelta (acc_type a) (jl_debit l) (jl_credit l)" for l
    by (rule signedDelta_swap)
  have neg: "(\<Sum>l\<leftarrow>ls. if P l then - f l else 0) = - (\<Sum>l\<leftarrow>ls. if P l then f l else 0)"
    for ls P and f :: "je_line \<Rightarrow> rat"
    by (induction ls) auto
  have "entry_effect r a = (\<Sum>x\<leftarrow>map (\<lambda>l. (jl_account l, jl_debit l, jl_credit l)) (je_lines r). ?f x)"
    by (simp add: entry_effect_def o_def)
  also have "\<dots> = (\<Sum>l\<leftarrow>sort_key jl_order (je_lines e).
      if jl_account l = acc_id a then - signedDelta (acc_type a) (jl_debit l) (jl_credit l) else 0)"
    unfolding assms(2) reversal_stored [OF assms(1)]
    by (simp add: o_def swap cong: if_cong)
  also have "\<dots> = (\<Sum>l\<leftarrow>je_lines e.
      if jl_account l = acc_id a then - signedDelta (acc_type a) (jl_debit l) (jl_credit l) else 0)"
    by (rule sum_list_perm) simp
  also have "\<dots> = - entry_effect e a"
    unfolding entry_effect_def by (rule neg)
  finally show ?thesis .
qed

end

end
