(* ===== verification/Accounts.thy ===== *)
theory Accounts
  imports LedgerLaws
begin

text \<open>
  The chart of accounts: \<^verbatim>\<open>accounts.service.ts\<close>, \<^verbatim>\<open>accounts.constants.ts\<close> and
  \<^verbatim>\<open>account-structure.util.ts\<close> of \<^verbatim>\<open>src/modules/accounts\<close>, and
  \<^verbatim>\<open>src/common/utils/money-account.util.ts\<close>. The shape checks of the request (class-validator) are
  not repeated here: an absent field of an update is \<open>None\<close>.
\<close>

section \<open>accounts.constants.ts\<close>

fun ACCOUNT_SUB_TYPES :: "acct_type \<Rightarrow> string list" where
  "ACCOUNT_SUB_TYPES Asset = [''Cash'', ''Bank'', ''Accounts Receivable'', ''Inventory'', ''Prepaid'',
     ''Fixed Asset'', ''Other Asset'']"
| "ACCOUNT_SUB_TYPES Liability = [''Accounts Payable'', ''Credit Card'', ''Payroll Liability'', ''Tax Payable'',
     ''Notes Payable'', ''Other Liability'']"
| "ACCOUNT_SUB_TYPES Equity = [''Owner Equity'', ''Retained Earnings'', ''Owner Draws'',
     ''Opening Balance Equity'', ''Other Equity'']"
| "ACCOUNT_SUB_TYPES Revenue = [''Sales'', ''Service'', ''Interest'', ''Other Revenue'']"
| "ACCOUNT_SUB_TYPES Expense = [''Cost of Goods'', ''Operating'', ''Payroll'', ''Tax'', ''Depreciation'',
     ''Other Expense'']"

definition isValidSubType :: "acct_type \<Rightarrow> string \<Rightarrow> bool" where
  "isValidSubType t sub \<longleftrightarrow> sub \<in> set (ACCOUNT_SUB_TYPES t)"

text \<open>The en dash of the shrinkage accounts' names, in the encoding of the database.\<close>

definition shrinkage_name :: "string \<Rightarrow> string" where
  "shrinkage_name cause = ''Inventory Shrinkage '' @ [CHR 0xE2, CHR 0x80, CHR 0x93] @ '' '' @ cause"

record account_seed =
  as_number :: string
  as_name :: string
  as_type :: acct_type
  as_subType :: string

abbreviation seed :: "string \<Rightarrow> string \<Rightarrow> acct_type \<Rightarrow> string \<Rightarrow> account_seed" where
  "seed n nm t sub \<equiv> \<lparr>as_number = n, as_name = nm, as_type = t, as_subType = sub\<rparr>"

definition DEFAULT_CHART_OF_ACCOUNTS :: "account_seed list" where
  "DEFAULT_CHART_OF_ACCOUNTS =
     [seed ''1000'' ''Cash'' Asset ''Cash'',
      seed ''1010'' ''Business Checking'' Asset ''Bank'',
      seed ''1100'' ''Accounts Receivable'' Asset ''Accounts Receivable'',
      seed ''1200'' ''Inventory'' Asset ''Inventory'',
      seed ''1250'' ''Goods in Transit'' Asset ''Inventory'',
      seed ''1300'' ''Sales Tax Recoverable (Input Tax)'' Asset ''Other Asset'',
      seed ''2000'' ''Accounts Payable'' Liability ''Accounts Payable'',
      seed ''2050'' ''Inventory Received Not Billed (GRNI)'' Liability ''Other Liability'',
      seed ''2300'' ''Sales Tax Payable'' Liability ''Tax Payable'',
      seed ''2310'' ''Payroll Liabilities'' Liability ''Other Liability'',
      seed ''3000'' ''Owner Equity'' Equity ''Owner Equity'',
      seed ''3100'' ''Retained Earnings'' Equity ''Retained Earnings'',
      seed ''3900'' ''Opening Balance Equity'' Equity ''Opening Balance Equity'',
      seed ''4000'' ''Sales Revenue'' Revenue ''Sales'',
      seed ''5000'' ''Cost of Goods Sold'' Expense ''Cost of Goods'',
      seed ''5400'' (shrinkage_name ''Damage'') Expense ''Cost of Goods'',
      seed ''5410'' (shrinkage_name ''Theft'') Expense ''Cost of Goods'',
      seed ''5420'' (shrinkage_name ''Obsolescence'') Expense ''Cost of Goods'',
      seed ''5430'' ''Inventory Count Variance'' Expense ''Cost of Goods'',
      seed ''6000'' ''Rent Expense'' Expense ''Operating'',
      seed ''6100'' ''Utilities Expense'' Expense ''Operating'',
      seed ''6200'' ''Salary Expense'' Expense ''Payroll'',
      seed ''6300'' ''Office Supplies'' Expense ''Operating'',
      seed ''6400'' ''Inventory Adjustment / Shrinkage'' Expense ''Operating'']"

definition ACCT_CASH :: string where "ACCT_CASH = ''1000''"
definition ACCT_BANK :: string where "ACCT_BANK = ''1010''"
definition ACCT_AR :: string where "ACCT_AR = ''1100''"
definition ACCT_INVENTORY :: string where "ACCT_INVENTORY = ''1200''"
definition ACCT_GOODS_IN_TRANSIT :: string where "ACCT_GOODS_IN_TRANSIT = ''1250''"
definition ACCT_INPUT_TAX :: string where "ACCT_INPUT_TAX = ''1300''"
definition ACCT_SALARY_EXPENSE :: string where "ACCT_SALARY_EXPENSE = ''6200''"
definition ACCT_GRNI :: string where "ACCT_GRNI = ''2050''"
definition ACCT_AP :: string where "ACCT_AP = ''2000''"
definition ACCT_TAX_PAYABLE :: string where "ACCT_TAX_PAYABLE = ''2300''"
definition ACCT_PAYROLL_LIABILITIES :: string where "ACCT_PAYROLL_LIABILITIES = ''2310''"
definition ACCT_CUSTOMER_ADVANCES :: string where "ACCT_CUSTOMER_ADVANCES = ''2400''"
definition ACCT_OPENING_BALANCE_EQUITY :: string where "ACCT_OPENING_BALANCE_EQUITY = ''3900''"
definition ACCT_SALES_REVENUE :: string where "ACCT_SALES_REVENUE = ''4000''"
definition ACCT_COGS :: string where "ACCT_COGS = ''5000''"
definition ACCT_SHRINKAGE_DAMAGE :: string where "ACCT_SHRINKAGE_DAMAGE = ''5400''"
definition ACCT_SHRINKAGE_THEFT :: string where "ACCT_SHRINKAGE_THEFT = ''5410''"
definition ACCT_SHRINKAGE_OBSOLESCENCE :: string where "ACCT_SHRINKAGE_OBSOLESCENCE = ''5420''"
definition ACCT_INVENTORY_COUNT_VARIANCE :: string where "ACCT_INVENTORY_COUNT_VARIANCE = ''5430''"
definition ACCT_INVENTORY_ADJUSTMENT :: string where "ACCT_INVENTORY_ADJUSTMENT = ''6400''"

lemmas ACCT_defs = ACCT_CASH_def ACCT_BANK_def ACCT_AR_def ACCT_INVENTORY_def ACCT_GOODS_IN_TRANSIT_def
  ACCT_INPUT_TAX_def ACCT_SALARY_EXPENSE_def ACCT_GRNI_def ACCT_AP_def ACCT_TAX_PAYABLE_def
  ACCT_PAYROLL_LIABILITIES_def ACCT_CUSTOMER_ADVANCES_def ACCT_OPENING_BALANCE_EQUITY_def
  ACCT_SALES_REVENUE_def ACCT_COGS_def ACCT_SHRINKAGE_DAMAGE_def ACCT_SHRINKAGE_THEFT_def
  ACCT_SHRINKAGE_OBSOLESCENCE_def ACCT_INVENTORY_COUNT_VARIANCE_def ACCT_INVENTORY_ADJUSTMENT_def

datatype adjustment_reason = R_damage | R_theft | R_obsolescence | R_physical_count | R_correction | R_other | R_reversal

fun ADJUSTMENT_REASON_ACCOUNTS :: "adjustment_reason \<Rightarrow> string" where
  "ADJUSTMENT_REASON_ACCOUNTS R_damage = ACCT_SHRINKAGE_DAMAGE"
| "ADJUSTMENT_REASON_ACCOUNTS R_theft = ACCT_SHRINKAGE_THEFT"
| "ADJUSTMENT_REASON_ACCOUNTS R_obsolescence = ACCT_SHRINKAGE_OBSOLESCENCE"
| "ADJUSTMENT_REASON_ACCOUNTS R_physical_count = ACCT_INVENTORY_COUNT_VARIANCE"
| "ADJUSTMENT_REASON_ACCOUNTS R_correction = ACCT_INVENTORY_COUNT_VARIANCE"
| "ADJUSTMENT_REASON_ACCOUNTS R_other = ACCT_INVENTORY_COUNT_VARIANCE"
| "ADJUSTMENT_REASON_ACCOUNTS R_reversal = ACCT_INVENTORY_ADJUSTMENT"

definition SYSTEM_ACCOUNT_DEFS :: "account_seed list" where
  "SYSTEM_ACCOUNT_DEFS =
     [seed ACCT_OPENING_BALANCE_EQUITY ''Opening Balance Equity'' Equity ''Opening Balance Equity'',
      seed ACCT_GRNI ''Inventory Received Not Billed (GRNI)'' Liability ''Other Liability'',
      seed ACCT_INVENTORY_ADJUSTMENT ''Inventory Adjustment / Shrinkage'' Expense ''Operating'',
      seed ACCT_SHRINKAGE_DAMAGE (shrinkage_name ''Damage'') Expense ''Cost of Goods'',
      seed ACCT_SHRINKAGE_THEFT (shrinkage_name ''Theft'') Expense ''Cost of Goods'',
      seed ACCT_SHRINKAGE_OBSOLESCENCE (shrinkage_name ''Obsolescence'') Expense ''Cost of Goods'',
      seed ACCT_INVENTORY_COUNT_VARIANCE ''Inventory Count Variance'' Expense ''Cost of Goods'',
      seed ACCT_INPUT_TAX ''Sales Tax Recoverable (Input Tax)'' Asset ''Other Asset'',
      seed ACCT_GOODS_IN_TRANSIT ''Goods in Transit'' Asset ''Inventory'',
      seed ACCT_CUSTOMER_ADVANCES ''Customer Advances (Unearned Revenue)'' Liability ''Other Liability'',
      seed ACCT_PAYROLL_LIABILITIES ''Payroll Liabilities'' Liability ''Other Liability'']"

definition SYSTEM_ACCOUNT_NUMBERS :: "string list" where
  "SYSTEM_ACCOUNT_NUMBERS =
     [ACCT_CASH, ACCT_BANK, ACCT_AR, ACCT_INVENTORY, ACCT_GOODS_IN_TRANSIT, ACCT_GRNI, ACCT_AP,
      ACCT_TAX_PAYABLE, ACCT_OPENING_BALANCE_EQUITY, ACCT_SALES_REVENUE, ACCT_COGS,
      ACCT_INVENTORY_ADJUSTMENT, ACCT_INPUT_TAX, ACCT_SALARY_EXPENSE, ACCT_CUSTOMER_ADVANCES,
      ACCT_PAYROLL_LIABILITIES, ACCT_SHRINKAGE_DAMAGE, ACCT_SHRINKAGE_THEFT,
      ACCT_SHRINKAGE_OBSOLESCENCE, ACCT_INVENTORY_COUNT_VARIANCE]"

definition isSystemAccountNumber :: "string \<Rightarrow> bool" where
  "isSystemAccountNumber n \<longleftrightarrow> n \<in> set SYSTEM_ACCOUNT_NUMBERS"

section \<open>account-structure.util.ts\<close>

record account_usage =
  us_postings :: nat
  us_draftJournalLines :: nat
  us_documentLines :: nat
  us_payments :: nat
  us_other :: nat
  us_children :: nat

definition usageTotal :: "account_usage \<Rightarrow> nat" where
  "usageTotal u = us_postings u + us_draftJournalLines u + us_documentLines u + us_payments u + us_other u"

text \<open>\<open>toLocaleString('en-US')\<close> groups the digits by three, as \<open>formatRupees\<close> does.\<close>

definition plural :: "nat \<Rightarrow> string \<Rightarrow> string \<Rightarrow> string" where
  "plural n one many = group3 (show_nat n) @ '' '' @ (if n = 1 then one else many)"

definition describeUsage :: "account_usage \<Rightarrow> string" where
  "describeUsage u =
     (let parts = filter (\<lambda>p. p \<noteq> [])
            [if 0 < us_postings u then plural (us_postings u) ''posting'' ''postings'' else [],
             if 0 < us_draftJournalLines u
               then plural (us_draftJournalLines u) ''draft journal line'' ''draft journal lines'' else [],
             if 0 < us_documentLines u then plural (us_documentLines u) ''document line'' ''document lines'' else [],
             if 0 < us_payments u then plural (us_payments u) ''payment'' ''payments'' else [],
             if 0 < us_other u
               then plural (us_other u) ''budget, reconciliation or vendor default''
                      ''budgets, reconciliations or vendor defaults'' else []]
      in if length parts \<le> 1 then (case parts of [] \<Rightarrow> [] | p # _ \<Rightarrow> p)
         else join '', '' (butlast parts) @ '' and '' @ last parts)"

definition structureOf :: "bool \<Rightarrow> account_usage \<Rightarrow> bool \<times> string option" where
  "structureOf sys u =
     (if sys then
        (False, Some (''A system account '' @ [CHR 0xE2, CHR 0x80, CHR 0x94] @
           '' automatic posting finds it by its number and type, so both are fixed.''))
      else if 0 < usageTotal u then
        (False, Some (''Already in use ('' @ describeUsage u @ ''), so its type and number are fixed.''))
      else if 0 < us_children u then
        (False, Some (''It has '' @ plural (us_children u) ''sub-account'' ''sub-accounts'' @ ''. Move '' @
           (if us_children u = 1 then ''it'' else ''them'') @ '' first to change its type.''))
      else (True, None))"

section \<open>money-account.util.ts\<close>

definition MONEY_ACCOUNT_SUB_TYPES :: "string list" where
  "MONEY_ACCOUNT_SUB_TYPES = [''Cash'', ''Bank'']"

definition assertMoneyAccount :: "account \<Rightarrow> unit result" where
  "assertMoneyAccount a =
     throw_if (acc_type a \<noteq> Asset \<or> acc_subType a \<notin> set MONEY_ACCOUNT_SUB_TYPES)
       (BadRequest ''INVALID_PAYMENT_ACCOUNT'')
       (throw_if (\<not> acc_active a) (BadRequest ''INVALID_PAYMENT_ACCOUNT'') (Inr ()))"

section \<open>accounts.service.ts\<close>

definition acc_getById :: "'a ledger_db_scheme \<Rightarrow> nat \<Rightarrow> nat \<Rightarrow> account result" where
  "acc_getById s company i =
     some_or (find (\<lambda>a. acc_id a = i \<and> acc_company a = company) (db_accounts s))
       (NotFound ''ACCOUNT_NOT_FOUND'') Inr"

definition by_number :: "'a ledger_db_scheme \<Rightarrow> nat \<Rightarrow> string \<Rightarrow> account option" where
  "by_number s company n = find (\<lambda>a. acc_company a = company \<and> acc_number a = n) (db_accounts s)"

definition getByNumberOrFail :: "'a ledger_db_scheme \<Rightarrow> nat \<Rightarrow> string \<Rightarrow> account result" where
  "getByNumberOrFail s company n =
     some_or (by_number s company n) (NotFound ''ACCOUNT_NOT_FOUND'') (\<lambda>a.
       throw_if (\<not> acc_active a) (BadRequest ''ACCOUNT_INACTIVE'') (Inr a))"

definition resolveMoneyAccount :: "'a ledger_db_scheme \<Rightarrow> nat \<Rightarrow> nat option \<Rightarrow> string \<Rightarrow> account result" where
  "resolveMoneyAccount s company i fallback =
     (case i of
        None \<Rightarrow> getByNumberOrFail s company fallback
      | Some i \<Rightarrow> some_or (find (\<lambda>a. acc_id a = i \<and> acc_company a = company) (db_accounts s))
          (NotFound ''ACCOUNT_NOT_FOUND'') (\<lambda>a. bindE (assertMoneyAccount a) (\<lambda>_. Inr a)))"

definition new_account :: "'a ledger_db_scheme \<Rightarrow> nat \<Rightarrow> account_seed \<Rightarrow> nat option \<Rightarrow> string option \<Rightarrow> rat \<Rightarrow> account" where
  "new_account s company d parent descr opening =
     \<lparr>acc_id = db_fresh s, acc_company = company, acc_number = as_number d, acc_name = as_name d,
      acc_type = as_type d, acc_subType = as_subType d, acc_parent = parent, acc_description = descr,
      acc_openingBalance = opening, acc_balance = 0, acc_active = True\<rparr>"

definition save_account :: "account \<Rightarrow> 'a ledger_db_scheme \<Rightarrow> 'a ledger_db_scheme" where
  "save_account a s = s\<lparr>db_accounts := db_accounts s @ [a], db_fresh := Suc (db_fresh s)\<rparr>"

definition getOrCreateSystemAccount :: "nat \<Rightarrow> string \<Rightarrow> 'a ledger_db_scheme \<Rightarrow>
    (account \<times> 'a ledger_db_scheme) result" where
  "getOrCreateSystemAccount company n s =
     (case by_number s company n of
        Some a \<Rightarrow>
          if acc_active a then Inr (a, s)
          else Inr (a\<lparr>acc_active := True\<rparr>,
                    s\<lparr>db_accounts := update_row acc_id (acc_id a) (\<lambda>a. a\<lparr>acc_active := True\<rparr>) (db_accounts s)\<rparr>)
      | None \<Rightarrow> some_or (find (\<lambda>d. as_number d = n) SYSTEM_ACCOUNT_DEFS) (NotFound ''ACCOUNT_NOT_FOUND'') (\<lambda>d.
          let a = new_account s company d None None 0 in Inr (a, save_account a s)))"

record account_dto =
  ad_accountNumber :: string
  ad_name :: string
  ad_type :: acct_type
  ad_subType :: string
  ad_parentId :: "nat option"
  ad_description :: "string option"
  ad_openingBalance :: "rat option"

text \<open>
  The two lines of the opening entry: a debit-normal account with a positive opening balance (or a
  credit-normal one with a negative) is debited, and Opening Balance Equity takes the other side.
\<close>

definition openingLines :: "decimal_js \<Rightarrow> account \<Rightarrow> rat \<Rightarrow> account \<Rightarrow> posting_line list" where
  "openingLines D account opening obe =
     (let debitNormal = (acc_type account = Asset \<or> acc_type account = Expense);
          magnitude = fixed4 D \<bar>opening\<bar>;
          accountDebits = (debitNormal = (0 < opening));
          line = (\<lambda>i a debits. \<lparr>pl_account = acc_id a, pl_description = None,
                    pl_debit = (if debits then magnitude else 0),
                    pl_credit = (if debits then 0 else magnitude), pl_order = Some i\<rparr>)
      in [line 0 account accountDebits, line 1 obe (\<not> accountDebits)])"

definition acc_create :: "env \<Rightarrow> nat \<Rightarrow> account_dto \<Rightarrow> nat \<Rightarrow> 'a ledger_db_scheme \<Rightarrow>
    (account \<times> 'a ledger_db_scheme) result" where
  "acc_create E company dto user s =
     throw_if (\<not> isValidSubType (ad_type dto) (ad_subType dto)) (BadRequest ''INVALID_SUB_TYPE'')
    (throw_if (by_number s company (ad_accountNumber dto) \<noteq> None) (Conflict ''DUPLICATE_ACCOUNT_NUMBER'')
    (bindE (case ad_parentId dto of None \<Rightarrow> Inr () | Some p \<Rightarrow> bindE (acc_getById s company p) (\<lambda>_. Inr ())) (\<lambda>_.
     let opening = toDecimal (ad_openingBalance dto);
         account = new_account s company
           (seed (ad_accountNumber dto) (ad_name dto) (ad_type dto) (ad_subType dto))
           (ad_parentId dto) (ad_description dto) (fixed4 (dec E) opening)
     in bindE (transaction (\<lambda>s.
          let s1 = save_account account s in
          if opening \<noteq> 0 \<and> ad_accountNumber dto \<noteq> ACCT_OPENING_BALANCE_EQUITY then
            bindE (getOrCreateSystemAccount company ACCT_OPENING_BALANCE_EQUITY s1) (\<lambda>(obe, s2).
            bindE (createEntry E s2
                 \<lparr>pi_company = company, pi_date = today E,
                  pi_memo = Some (''Opening balance for '' @ acc_number account @ '' '' @ acc_name account),
                  pi_createdBy = user, pi_lines = openingLines (dec E) account opening obe,
                  pi_posted = True, pi_sourceType = Some ''opening_balance'',
                  pi_sourceId = Some (acc_id account), pi_reversalOf = None\<rparr>) (\<lambda>(_, t). Inr ((), t)))
          else Inr ((), s1)) s)
        (\<lambda>(_, t). bindE (acc_getById t company (acc_id account)) (\<lambda>a. Inr (a, t))))))"

text \<open>
  \<open>ACCOUNT_USAGE_SQL\<close>. The counts over the tables of the document modules (document lines, payments,
  and budgets, reconciliations or vendor defaults) are an argument, by account.
\<close>

type_synonym document_usage = "nat \<Rightarrow> nat \<times> nat \<times> nat"

definition account_usage_of :: "document_usage \<Rightarrow> 'a ledger_db_scheme \<Rightarrow> nat \<Rightarrow> nat \<Rightarrow> account_usage" where
  "account_usage_of docs s company i =
     \<lparr>us_postings = length (filter (\<lambda>g. gl_company g = company \<and> gl_account g = i) (db_gl s)),
      us_draftJournalLines = (\<Sum>e\<leftarrow>filter (\<lambda>e. je_company e = company \<and> je_status e = JE_draft) (db_entries s).
         length (filter (\<lambda>l. jl_account l = i) (je_lines e))),
      us_documentLines = fst (docs i), us_payments = fst (snd (docs i)), us_other = snd (snd (docs i)),
      us_children = length (filter (\<lambda>a. acc_company a = company \<and> acc_parent a = Some i) (db_accounts s))\<rparr>"

definition assertCanDeactivate :: "account \<Rightarrow> unit result" where
  "assertCanDeactivate a =
     throw_if (isSystemAccountNumber (acc_number a)) (BadRequest ''SYSTEM_ACCOUNT_REQUIRED'')
       (throw_if (acc_balance a \<noteq> 0) (BadRequest ''ACCOUNT_HAS_BALANCE'') (Inr ()))"

record account_update =
  au_accountNumber :: "string option"
  au_name :: "string option"
  au_type :: "acct_type option"
  au_subType :: "string option"
  au_parentId :: "nat option option"   \<comment> \<open>\<open>Some None\<close>: an empty parent clears it\<close>
  au_description :: "string option"
  au_isActive :: "bool option"

abbreviation default_to :: "'a \<Rightarrow> 'a option \<Rightarrow> 'a" where
  "default_to d v \<equiv> (case v of None \<Rightarrow> d | Some x \<Rightarrow> x)"

text \<open>The parent an update leaves the account with, or why the chosen one is refused.\<close>

definition next_parent :: "'a ledger_db_scheme \<Rightarrow> nat \<Rightarrow> account \<Rightarrow> account_update \<Rightarrow> acct_type \<Rightarrow> (nat option) result" where
  "next_parent s company account dto nextType =
     (case default_to (acc_parent account) (au_parentId dto) of
        None \<Rightarrow> Inr None
      | Some p \<Rightarrow>
          throw_if (p = acc_id account) (BadRequest ''VALIDATION_FAILED'')
         (some_or (find (\<lambda>a. acc_id a = p \<and> acc_company a = company) (db_accounts s))
            (NotFound ''ACCOUNT_NOT_FOUND'') (\<lambda>parent.
          if acc_type parent \<noteq> nextType then
            throw_if (au_parentId dto \<noteq> None \<and> au_parentId dto \<noteq> Some (acc_parent account))
              (BadRequest ''PARENT_TYPE_MISMATCH'') (Inr None)
          else Inr (Some p))))"

definition acc_update :: "document_usage \<Rightarrow> nat \<Rightarrow> nat \<Rightarrow> account_update \<Rightarrow> 'a ledger_db_scheme \<Rightarrow>
    (account \<times> 'a ledger_db_scheme) result" where
  "acc_update docs company i dto s =
     bindE (acc_getById s company i) (\<lambda>account.
     let nextNumber = (case au_accountNumber dto of None \<Rightarrow> acc_number account | Some n \<Rightarrow> trim n);
         nextType = default_to (acc_type account) (au_type dto);
         nextSubType = default_to (acc_subType account) (au_subType dto);
         typeChanges = (nextType \<noteq> acc_type account);
         numberChanges = (nextNumber \<noteq> acc_number account);
         usage = account_usage_of docs s company i
     in throw_if (isSystemAccountNumber (acc_number account) \<and>
                  (typeChanges \<or> numberChanges \<or> nextSubType \<noteq> acc_subType account))
          (BadRequest ''SYSTEM_ACCOUNT_FIXED'')
       (throw_if ((typeChanges \<or> numberChanges) \<and> 0 < usageTotal usage) (BadRequest ''ACCOUNT_IN_USE'')
       (throw_if (typeChanges \<and> 0 < us_children usage) (BadRequest ''ACCOUNT_HAS_CHILDREN'')
       (throw_if (numberChanges \<and> length nextNumber < 2) (BadRequest ''VALIDATION_FAILED'')
       (throw_if (numberChanges \<and> by_number s company nextNumber \<noteq> None) (Conflict ''DUPLICATE_ACCOUNT_NUMBER'')
       (throw_if (\<not> isValidSubType nextType nextSubType) (BadRequest ''INVALID_SUB_TYPE'')
       (bindE (next_parent s company account dto nextType) (\<lambda>nextParent.
        bindE (if acc_active account \<and> au_isActive dto = Some False then assertCanDeactivate (account\<lparr>acc_number := nextNumber\<rparr>)
               else Inr ()) (\<lambda>_.
        let account' = account\<lparr>acc_number := nextNumber, acc_type := nextType, acc_subType := nextSubType,
                               acc_parent := nextParent, acc_name := default_to (acc_name account) (au_name dto),
                               acc_description := (case au_description dto of None \<Rightarrow> acc_description account
                                                                          | Some d \<Rightarrow> Some d),
                               acc_active := default_to (acc_active account) (au_isActive dto)\<rparr>
        in Inr (account', s\<lparr>db_accounts := update_row acc_id i (\<lambda>_. account') (db_accounts s)\<rparr>))))))))))"

definition acc_toggle :: "nat \<Rightarrow> nat \<Rightarrow> 'a ledger_db_scheme \<Rightarrow> (account \<times> 'a ledger_db_scheme) result" where
  "acc_toggle company i s =
     bindE (acc_getById s company i) (\<lambda>account.
     bindE (if acc_active account then assertCanDeactivate account else Inr ()) (\<lambda>_.
     let account' = account\<lparr>acc_active := \<not> acc_active account\<rparr>
     in Inr (account', s\<lparr>db_accounts := update_row acc_id i (\<lambda>_. account') (db_accounts s)\<rparr>)))"

definition acc_delete :: "nat \<Rightarrow> nat \<Rightarrow> 'a ledger_db_scheme \<Rightarrow> (unit \<times> 'a ledger_db_scheme) result" where
  "acc_delete company i s =
     bindE (acc_getById s company i) (\<lambda>account.
     throw_if (isSystemAccountNumber (acc_number account)) (BadRequest ''SYSTEM_ACCOUNT_PROTECTED'')
    (throw_if (0 < length (filter (\<lambda>g. gl_company g = company \<and> gl_account g = i) (db_gl s)))
       (BadRequest ''ACCOUNT_HAS_TRANSACTIONS'')
    (throw_if (0 < length (filter (\<lambda>a. acc_company a = company \<and> acc_parent a = Some i) (db_accounts s)))
       (BadRequest ''ACCOUNT_HAS_CHILDREN'')
    (Inr ((), s\<lparr>db_accounts := filter (\<lambda>a. acc_id a \<noteq> i) (db_accounts s)\<rparr>)))))"

text \<open>\<open>summarize\<close>: the total and the number of accounts of each type.\<close>

definition summarize :: "decimal_js \<Rightarrow> account list \<Rightarrow> (acct_type \<Rightarrow> rat) \<times> (acct_type \<Rightarrow> nat) \<times> nat" where
  "summarize D accts =
     (let (totals, counts) = foldl (\<lambda>(tot, cnt) a.
            (tot(acc_type a := fixed4 D (tot (acc_type a) + acc_balance a)), cnt(acc_type a := cnt (acc_type a) + 1)))
            ((\<lambda>_. 0), (\<lambda>_. 0)) accts
      in (totals, counts, length accts))"


section \<open>What the chart guarantees\<close>

text \<open>
  \<open>chart_ok\<close>: account numbers are unique per company, every kind fits its type, and a parent is an
  account of the same company.
\<close>

definition chart_ok :: "'a ledger_db_scheme \<Rightarrow> bool" where
  "chart_ok s \<longleftrightarrow>
     distinct (map (\<lambda>a. (acc_company a, acc_number a)) (db_accounts s)) \<and>
     (\<forall>a \<in> set (db_accounts s). isValidSubType (acc_type a) (acc_subType a) \<and>
        (\<forall>p. acc_parent a = Some p \<longrightarrow> (\<exists>b \<in> set (db_accounts s). acc_id b = p \<and> acc_company b = acc_company a)))"

lemma acc_getById_Inr:
  "acc_getById s company i = Inr a \<Longrightarrow> a \<in> set (db_accounts s) \<and> acc_id a = i \<and> acc_company a = company"
  by (auto simp: acc_getById_def some_or_Inr dest: find_Some_mem)

lemma by_number_Some:
  "by_number s company n = Some a \<Longrightarrow> a \<in> set (db_accounts s) \<and> acc_company a = company \<and> acc_number a = n"
  by (auto simp: by_number_def dest: find_Some_mem)

lemma by_number_None:
  "by_number s company n = None \<longleftrightarrow> (\<forall>a \<in> set (db_accounts s). acc_company a = company \<longrightarrow> acc_number a \<noteq> n)"
  by (auto simp: by_number_def find_None_iff)

definition chart_row :: "account \<Rightarrow> nat \<times> nat \<times> string \<times> acct_type \<times> string \<times> nat option" where
  "chart_row a = (acc_id a, acc_company a, acc_number a, acc_type a, acc_subType a, acc_parent a)"

lemma chart_ok_rows:
  "chart_ok s \<longleftrightarrow>
     distinct (map (\<lambda>(_, c, n, _). (c, n)) (map chart_row (db_accounts s))) \<and>
     (\<forall>(i, c, n, t, sub, par) \<in> set (map chart_row (db_accounts s)). isValidSubType t sub \<and>
        (\<forall>p. par = Some p \<longrightarrow> (\<exists>(j, d, _) \<in> set (map chart_row (db_accounts s)). j = p \<and> d = c)))"
  by (simp add: chart_ok_def chart_row_def o_def)

lemma chart_ok_same: "map chart_row (db_accounts t) = map chart_row (db_accounts s) \<Longrightarrow> chart_ok t = chart_ok s"
  by (simp only: chart_ok_rows)

lemma chart_ok_add:
  assumes "chart_ok s" and "by_number s (acc_company a) (acc_number a) = None"
    and "isValidSubType (acc_type a) (acc_subType a)"
    and "\<And>p. acc_parent a = Some p \<Longrightarrow> \<exists>b \<in> set (db_accounts s). acc_id b = p \<and> acc_company b = acc_company a"
  shows "chart_ok (save_account a s)"
  using assms by (auto simp: chart_ok_def save_account_def by_number_None)

lemma distinct_map_replace:
  assumes "distinct (map key t)" and "distinct (map f t)" and "\<forall>r \<in> set t. key r \<noteq> i \<longrightarrow> f r \<noteq> f a'"
  shows "distinct (map f (update_row key i (\<lambda>_. a') t))"
  using assms
proof (induction t)
  case Nil
  then show ?case by (simp add: update_row_def)
next
  case (Cons r t)
  then have IH: "distinct (map f (update_row key i (\<lambda>_. a') t))" by simp
  show ?case
  proof (cases "key r = i")
    case True
    with Cons.prems have "update_row key i (\<lambda>_. a') t = t" by (intro update_row_absent) auto
    moreover have "\<forall>x \<in> set t. key x \<noteq> i" using Cons.prems(1) True by (auto simp: image_iff)
    then have "f a' \<notin> f ` set t" using Cons.prems(3) by force
    ultimately show ?thesis using True IH by (simp add: update_row_def)
  next
    case False
    with Cons.prems have "f r \<notin> f ` set (update_row key i (\<lambda>_. a') t)"
      by (auto simp: image_iff dest!: set_update_row)
    moreover have "update_row key i (\<lambda>_. a') (r # t) = r # update_row key i (\<lambda>_. a') t"
      using False by (simp add: update_row_def)
    ultimately show ?thesis using IH by simp
  qed
qed

lemma chart_ok_replace:
  assumes ok: "chart_ok s" and ids: "distinct (map acc_id (db_accounts s))"
    and a: "a \<in> set (db_accounts s)" "acc_id a = i"
    and a': "acc_id a' = i" "acc_company a' = acc_company a" "isValidSubType (acc_type a') (acc_subType a')"
    and num: "acc_number a' = acc_number a \<or> by_number s (acc_company a) (acc_number a') = None"
    and par: "\<And>p. acc_parent a' = Some p \<Longrightarrow> \<exists>b \<in> set (db_accounts s). acc_id b = p \<and> acc_company b = acc_company a"
  shows "chart_ok (s\<lparr>db_accounts := update_row acc_id i (\<lambda>_. a') (db_accounts s)\<rparr>)"
proof -
  let ?t = "update_row acc_id i (\<lambda>_. a') (db_accounts s)"
  let ?key = "\<lambda>a. (acc_company a, acc_number a)"
  have only: "c = a" if "c \<in> set (db_accounts s)" "acc_id c = i" for c
    using ids a that by (metis option.inject row_with_distinct)
  have mem: "\<exists>b \<in> set ?t. acc_id b = p \<and> acc_company b = k"
    if "\<exists>b \<in> set (db_accounts s). acc_id b = p \<and> acc_company b = k" for p k
  proof -
    from that obtain b where b: "b \<in> set (db_accounts s)" "acc_id b = p" "acc_company b = k" by blast
    show ?thesis
    proof (cases "p = i")
      case True
      then have "b = a" using only b by simp
      moreover have "a' \<in> set ?t" using a by (force simp: update_row_def)
      ultimately show ?thesis using a' b True by metis
    next
      case False
      then have "b \<in> set ?t" using b by (force simp: update_row_def)
      then show ?thesis using b by blast
    qed
  qed
  have "\<forall>r \<in> set (db_accounts s). acc_id r \<noteq> i \<longrightarrow> ?key r \<noteq> ?key a'"
  proof (intro ballI impI notI)
    fix r assume r: "r \<in> set (db_accounts s)" "acc_id r \<noteq> i" and eq: "?key r = ?key a'"
    show False
    proof (cases "acc_number a' = acc_number a")
      case True
      with eq a'(2) have "?key r = ?key a" by simp
      moreover have "inj_on ?key (set (db_accounts s))" using ok by (simp add: chart_ok_def distinct_map)
      ultimately have "r = a" using r(1) a(1) by (simp add: inj_on_def)
      with r(2) a(2) show False by simp
    next
      case False
      then show False using num r(1) eq a'(2) by (auto simp: by_number_None)
    qed
  qed
  moreover have "distinct (map ?key (db_accounts s))" using ok by (simp add: chart_ok_def)
  ultimately have d: "distinct (map ?key ?t)" using ids by (intro distinct_map_replace)
  have "isValidSubType (acc_type r) (acc_subType r) \<and>
      (\<forall>p. acc_parent r = Some p \<longrightarrow> (\<exists>b \<in> set ?t. acc_id b = p \<and> acc_company b = acc_company r))"
    if r: "r \<in> set ?t" for r
  proof (cases "r \<in> set (db_accounts s)")
    case True
    then show ?thesis using ok mem unfolding chart_ok_def by blast
  next
    case False
    then have "r = a'" using r by (auto dest: set_update_row)
    then show ?thesis using a' par mem by simp
  qed
  with d show ?thesis by (simp add: chart_ok_def)
qed

lemma chart_ok_remove:
  assumes "chart_ok s" and "a \<in> set (db_accounts s)" and "acc_id a = i" and "distinct (map acc_id (db_accounts s))"
    and "\<forall>b \<in> set (db_accounts s). acc_company b = acc_company a \<longrightarrow> acc_parent b \<noteq> Some i"
  shows "chart_ok (s\<lparr>db_accounts := filter (\<lambda>a. acc_id a \<noteq> i) (db_accounts s)\<rparr>)"
proof -
  have "\<exists>b \<in> set (filter (\<lambda>a. acc_id a \<noteq> i) (db_accounts s)). acc_id b = p \<and> acc_company b = acc_company r"
    if r: "r \<in> set (db_accounts s)" "acc_parent r = Some p" for r p
  proof -
    obtain b where b: "b \<in> set (db_accounts s)" "acc_id b = p" "acc_company b = acc_company r"
      using assms(1) r unfolding chart_ok_def by blast
    have "acc_id b \<noteq> i"
    proof
      assume "acc_id b = i"
      then have "b = a" using assms(2,3,4) b(1) by (metis option.inject row_with_distinct)
      with assms(5) r b \<open>acc_id b = i\<close> show False by metis
    qed
    with b show ?thesis by auto
  qed
  then show ?thesis using assms(1) by (auto simp: chart_ok_def distinct_map_filter)
qed

lemma applyPosting_chart:
  "applyPosting D s e ac st sid = Inr t \<Longrightarrow> map chart_row (db_accounts t) = map chart_row (db_accounts s)"
proof -
  have "map chart_row (foldl (addBalance D) as m) = map chart_row as" for as m
    by (simp add: foldl_addBalance_map chart_row_def)
  then show "applyPosting D s e ac st sid = Inr t \<Longrightarrow> map chart_row (db_accounts t) = map chart_row (db_accounts s)"
    by (auto simp: applyPosting_def throw_if_Inr Let_def)
qed

lemma createEntry_chart:
  assumes "createEntry E s inp = Inr (e, t)"
  shows "map chart_row (db_accounts t) = map chart_row (db_accounts s)"
  using createEntry_Inr(14,15) [OF assms] by (cases "pi_posted inp") (auto dest: applyPosting_chart)

lemma system_defs_valid: "d \<in> set SYSTEM_ACCOUNT_DEFS \<Longrightarrow> isValidSubType (as_type d) (as_subType d)"
  by (auto simp: SYSTEM_ACCOUNT_DEFS_def isValidSubType_def)

lemma last_balance_absent: "\<forall>g \<in> set gl. gl_account g \<noteq> i \<Longrightarrow> last_balance gl i = 0"
proof -
  assume "\<forall>g \<in> set gl. gl_account g \<noteq> i"
  then have "filter (\<lambda>g. gl_account g = i) (rev gl) = []" by simp
  then show ?thesis unfolding last_balance_def by simp
qed

lemma balance_ok_type:
  assumes "acc_id a' = acc_id a" and "acc_balance a' = acc_balance a"
    and "acc_type a' = acc_type a \<or> (\<forall>g \<in> set gl. gl_account g \<noteq> acc_id a)"
  shows "balance_ok gl a' = balance_ok gl a"
proof -
  have "account_sum gl a' = account_sum gl a"
  proof (cases "acc_type a' = acc_type a")
    case True
    then show ?thesis using assms(1) by (simp add: account_sum_def cong: if_cong)
  next
    case False
    then show ?thesis using assms account_sum_absent by metis
  qed
  then show ?thesis using assms(1,2) by (simp add: balance_ok_def)
qed

lemma balance_ok_new: "\<forall>g \<in> set gl. gl_account g \<noteq> acc_id a \<Longrightarrow> acc_balance a = 0 \<Longrightarrow> balance_ok gl a"
  by (simp add: balance_ok_def account_sum_absent last_balance_absent)

lemma accounts_ok_add:
  assumes "accounts_ok s" and "acc_id a = db_fresh s" and "acc_balance a = 0"
  shows "accounts_ok (save_account a s)"
proof -
  have "\<forall>g \<in> set (db_gl s). gl_account g \<noteq> acc_id a"
    using assms(1,2) unfolding accounts_ok_def by (metis less_irrefl)
  then have "balance_ok (db_gl s) a" using assms(3) by (rule balance_ok_new)
  moreover have "acc_id a \<notin> acc_id ` set (db_accounts s)"
    using assms(1,2) by (auto simp: accounts_ok_def)
  moreover have "\<forall>b \<in> set (db_accounts s). acc_id b < Suc (db_fresh s)"
    using assms(1) by (auto simp: accounts_ok_def less_Suc_eq)
  ultimately show ?thesis
    using assms(1,2) by (auto simp: accounts_ok_def save_account_def)
qed

lemma accounts_ok_replace:
  assumes ok: "accounts_ok s" and a: "a \<in> set (db_accounts s)" "acc_id a = i"
    and a': "acc_id a' = i" "acc_company a' = acc_company a" "acc_balance a' = acc_balance a"
    and ty: "acc_type a' = acc_type a \<or> (\<forall>g \<in> set (db_gl s). gl_account g \<noteq> i)"
  shows "accounts_ok (s\<lparr>db_accounts := update_row acc_id i (\<lambda>_. a') (db_accounts s)\<rparr>)"
proof -
  let ?t = "update_row acc_id i (\<lambda>_. a') (db_accounts s)"
  have ids: "map acc_id ?t = map acc_id (db_accounts s)" using a'(1) by (simp add: update_row_def)
  have mem: "\<exists>b \<in> set ?t. acc_id b = acc_id c \<and> acc_company b = acc_company c" if c: "c \<in> set (db_accounts s)" for c
  proof (cases "acc_id c = i")
    case True
    then have "c = a" using ok a c by (metis accounts_ok_def option.inject row_with_distinct)
    moreover have "a' \<in> set ?t" using a by (force simp: update_row_def)
    ultimately show ?thesis using a' a by metis
  next
    case False
    then have "c \<in> set ?t" using c by (force simp: update_row_def)
    then show ?thesis by blast
  qed
  have "balance_ok (db_gl s) a' = balance_ok (db_gl s) a"
    using ty a a' by (intro balance_ok_type) auto
  then have new: "acc_id a' < db_fresh s \<and> balance_ok (db_gl s) a'"
    using ok a a'(1) by (auto simp: accounts_ok_def)
  have gl: "\<exists>b \<in> set ?t. acc_id b = gl_account g \<and> acc_company b = gl_company g" if "g \<in> set (db_gl s)" for g
    using ok mem that unfolding accounts_ok_def by metis
  have all: "\<forall>r \<in> set ?t. acc_id r < db_fresh s \<and> balance_ok (db_gl s) r"
    using ok new by (auto simp: accounts_ok_def dest!: set_update_row)
  have dist: "distinct (map acc_id ?t)" unfolding ids using ok by (simp add: accounts_ok_def)
  show ?thesis
    unfolding accounts_ok_def using dist all gl by simp
qed

lemma accounts_ok_remove:
  assumes ok: "accounts_ok s" and a: "a \<in> set (db_accounts s)" "acc_id a = i"
    and none: "\<forall>g \<in> set (db_gl s). gl_company g = acc_company a \<longrightarrow> gl_account g \<noteq> i"
  shows "accounts_ok (s\<lparr>db_accounts := filter (\<lambda>a. acc_id a \<noteq> i) (db_accounts s)\<rparr>)"
proof -
  have keep: "\<exists>b \<in> set (filter (\<lambda>a. acc_id a \<noteq> i) (db_accounts s)). acc_id b = gl_account g \<and> acc_company b = gl_company g"
    if g: "g \<in> set (db_gl s)" for g
  proof -
    obtain b where b: "b \<in> set (db_accounts s)" "acc_id b = gl_account g" "acc_company b = gl_company g"
      using ok g unfolding accounts_ok_def by blast
    have "acc_id b \<noteq> i"
    proof
      assume "acc_id b = i"
      then have "b = a" using ok a b(1) by (metis accounts_ok_def option.inject row_with_distinct)
      with none g b a(2) show False by metis
    qed
    with b show ?thesis by auto
  qed
  have "distinct (map acc_id (filter (\<lambda>a. acc_id a \<noteq> i) (db_accounts s)))"
    using ok by (simp add: accounts_ok_def distinct_map_filter)
  then show ?thesis
    using ok keep by (simp add: accounts_ok_def)
qed

lemma entries_ok_accounts [simp]: "entries_ok (s\<lparr>db_accounts := as\<rparr>) = entries_ok s"
  by (simp add: entries_ok_def)

lemma entries_ok_save_account [simp]: "entries_ok s \<Longrightarrow> entries_ok (save_account a s)"
  by (auto simp: entries_ok_def save_account_def less_Suc_eq)

lemma all_balanced_accounts [simp]:
  "all_balanced (s\<lparr>db_accounts := as\<rparr>) = all_balanced s" "all_balanced (save_account a s) = all_balanced s"
  by (simp_all add: all_balanced_def save_account_def)

lemma save_account_simps [simp]:
  "db_accounts (save_account a s) = db_accounts s @ [a]" "db_entries (save_account a s) = db_entries s"
  "db_gl (save_account a s) = db_gl s" "db_companies (save_account a s) = db_companies s"
  "ledger_db.more (save_account a s) = ledger_db.more s"
  by (simp_all add: save_account_def)

section \<open>Every operation keeps the books\<close>

lemma getOrCreateSystemAccount_keeps:
  assumes run: "getOrCreateSystemAccount company n s = Inr (a, t)" and ok: "ledger_ok s"
  shows "ledger_ok t" and "a \<in> set (db_accounts t)" and "acc_company a = company" and "acc_number a = n"
    and "acc_active a" and "db_entries t = db_entries s" and "db_gl t = db_gl s"
    and "ledger_db.more t = ledger_db.more s" and "db_companies t = db_companies s"
proof -
  have acc: "accounts_ok s" and ent: "entries_ok s" using ok by (simp_all add: ledger_ok_def)
  consider (there) b where "by_number s company n = Some b" "acc_active b" "a = b" "t = s"
    | (reactivated) b where "by_number s company n = Some b" "a = b\<lparr>acc_active := True\<rparr>"
        "t = s\<lparr>db_accounts := update_row acc_id (acc_id b) (\<lambda>a. a\<lparr>acc_active := True\<rparr>) (db_accounts s)\<rparr>"
    | (created) d where "by_number s company n = None" "as_number d = n" "a = new_account s company d None None 0"
        "t = save_account a s"
  proof (cases "by_number s company n")
    case None
    have "some_or (find (\<lambda>d. as_number d = n) SYSTEM_ACCOUNT_DEFS) (NotFound ''ACCOUNT_NOT_FOUND'')
        (\<lambda>d. Inr (new_account s company d None None 0, save_account (new_account s company d None None 0) s)) = Inr (a, t)"
      using run unfolding getOrCreateSystemAccount_def None Let_def by simp
    then obtain d where d: "find (\<lambda>d. as_number d = n) SYSTEM_ACCOUNT_DEFS = Some d"
      and at: "a = new_account s company d None None 0" "t = save_account a s"
      unfolding some_or_Inr by blast
    from d have "as_number d = n" by (auto dest: find_Some_mem)
    then show thesis by (rule that(3) [OF None _ at])
  next
    case (Some b)
    show thesis
    proof (cases "acc_active b")
      case True
      have "a = b" and "t = s" using run unfolding getOrCreateSystemAccount_def Some by (simp_all add: True)
      then show thesis by (rule that(1) [OF Some True])
    next
      case False
      have "a = b\<lparr>acc_active := True\<rparr>"
        and "t = s\<lparr>db_accounts := update_row acc_id (acc_id b) (\<lambda>a. a\<lparr>acc_active := True\<rparr>) (db_accounts s)\<rparr>"
        using run unfolding getOrCreateSystemAccount_def Some by (simp_all add: False)
      then show thesis by (rule that(2) [OF Some])
    qed
  qed
  then have "ledger_ok t \<and> a \<in> set (db_accounts t) \<and> acc_company a = company \<and> acc_number a = n \<and> acc_active a \<and>
      db_entries t = db_entries s \<and> db_gl t = db_gl s \<and> ledger_db.more t = ledger_db.more s \<and>
      db_companies t = db_companies s"
  proof cases
    case there
    then show ?thesis using ok by_number_Some [OF there(1)] by simp
  next
    case reactivated
    have b: "b \<in> set (db_accounts s)" "acc_company b = company" "acc_number b = n"
      using by_number_Some [OF reactivated(1)] by simp_all
    have only: "c = b" if "c \<in> set (db_accounts s)" "acc_id c = acc_id b" for c
      using acc b(1) that by (metis accounts_ok_def option.inject row_with_distinct)
    have "update_row acc_id (acc_id b) (\<lambda>a. a\<lparr>acc_active := True\<rparr>) (db_accounts s)
        = update_row acc_id (acc_id b) (\<lambda>_. a) (db_accounts s)"
      unfolding update_row_def reactivated(2) by (rule map_cong [OF refl]) (use only in auto)
    then have "t = s\<lparr>db_accounts := update_row acc_id (acc_id b) (\<lambda>_. a) (db_accounts s)\<rparr>"
      by (simp add: reactivated(3))
    then have "accounts_ok t" using reactivated(2) b by (auto intro!: accounts_ok_replace [OF acc])
    moreover have "a \<in> set (db_accounts t)"
      using b(1) by (force simp: reactivated update_row_def)
    ultimately show ?thesis using b ent reactivated(2,3) by (simp add: ledger_ok_def)
  next
    case created
    have "accounts_ok t" unfolding created(4) by (rule accounts_ok_add [OF acc]) (simp_all add: created new_account_def)
    then show ?thesis using ent created by (simp add: ledger_ok_def new_account_def)
  qed
  then show "ledger_ok t" and "a \<in> set (db_accounts t)" and "acc_company a = company" and "acc_number a = n"
    and "acc_active a" and "db_entries t = db_entries s" and "db_gl t = db_gl s"
    and "ledger_db.more t = ledger_db.more s" and "db_companies t = db_companies s" by simp_all
qed

lemma getOrCreateSystemAccount_chart:
  assumes run: "getOrCreateSystemAccount company n s = Inr (a, t)" and ok: "chart_ok s"
  shows "chart_ok t"
proof (cases "by_number s company n")
  case None
  have "some_or (find (\<lambda>d. as_number d = n) SYSTEM_ACCOUNT_DEFS) (NotFound ''ACCOUNT_NOT_FOUND'')
      (\<lambda>d. Inr (new_account s company d None None 0, save_account (new_account s company d None None 0) s)) = Inr (a, t)"
    using run unfolding getOrCreateSystemAccount_def None Let_def by simp
  then obtain d where d: "find (\<lambda>d. as_number d = n) SYSTEM_ACCOUNT_DEFS = Some d"
    and at: "a = new_account s company d None None 0" "t = save_account a s"
    unfolding some_or_Inr by blast
  from d have d': "as_number d = n" "d \<in> set SYSTEM_ACCOUNT_DEFS" by (auto dest: find_Some_mem)
  show ?thesis
    unfolding at(2) by (rule chart_ok_add [OF ok])
      (use None d' system_defs_valid [OF d'(2)] in \<open>simp_all add: at(1) new_account_def\<close>)
next
  case (Some b)
  have "map chart_row (update_row acc_id (acc_id b) (\<lambda>a. a\<lparr>acc_active := True\<rparr>) (db_accounts s)) = map chart_row (db_accounts s)"
    by (rule map_update_row) (simp add: chart_row_def)
  then have "map chart_row (db_accounts t) = map chart_row (db_accounts s)"
    using run unfolding getOrCreateSystemAccount_def Some by (auto split: if_splits)
  then show ?thesis using ok chart_ok_same by blast
qed

lemma ledger_ok_save_account:
  "ledger_ok s \<Longrightarrow> acc_id a = db_fresh s \<Longrightarrow> acc_balance a = 0 \<Longrightarrow> ledger_ok (save_account a s)"
  by (simp add: ledger_ok_def accounts_ok_add)


lemma createEntry_balanced:
  assumes "createEntry E s inp = Inr (e, t)" and "assert_entries_balanced s0 t" and "all_balanced s0"
  shows "all_balanced t"
  using assms assert_keeps_balanced by blast

text \<open>
  What an operation on the books guarantees, on any extension of the database. \<open>books_ok\<close> holds between
  any two statements of a transaction; that every entry balances is added when it commits.
\<close>

definition books_ok :: "'a ledger_db_scheme \<Rightarrow> bool" where
  "books_ok s \<longleftrightarrow> ledger_ok s \<and> chart_ok s"

definition keeps_books :: "'a ledger_db_scheme \<Rightarrow> 'a ledger_db_scheme \<Rightarrow> bool" where
  "keeps_books s t \<longleftrightarrow>
     (books_ok s \<longrightarrow> books_ok t \<and> (all_balanced s \<longrightarrow> all_balanced t)) \<and>
     ledger_db.more t = ledger_db.more s \<and> db_companies t = db_companies s"

lemma keeps_booksI:
  assumes "ledger_ok s \<Longrightarrow> ledger_ok t" and "ledger_ok s \<Longrightarrow> chart_ok s \<Longrightarrow> chart_ok t"
    and "all_balanced s \<Longrightarrow> all_balanced t"
    and "ledger_db.more t = ledger_db.more s" and "db_companies t = db_companies s"
  shows "keeps_books s t"
  using assms by (simp add: keeps_books_def books_ok_def)

lemma ledger_ok_ids: "ledger_ok s \<Longrightarrow> distinct (map acc_id (db_accounts s))"
  by (simp add: ledger_ok_def accounts_ok_def)

lemma next_parent_Inr:
  "next_parent s company a dto ty = Inr (Some p) \<Longrightarrow> \<exists>b \<in> set (db_accounts s). acc_id b = p \<and> acc_company b = company"
  by (auto simp: next_parent_def throw_if_Inr some_or_Inr split: option.splits if_splits dest: find_Some_mem)

lemma acc_update_Inr:
  assumes "acc_update docs company i dto s = Inr (a', t)"
  obtains a where "a \<in> set (db_accounts s)" and "acc_id a = i" and "acc_company a = company"
    and "t = s\<lparr>db_accounts := update_row acc_id i (\<lambda>_. a') (db_accounts s)\<rparr>"
    and "acc_id a' = i" and "acc_company a' = company" and "acc_balance a' = acc_balance a"
    and "acc_type a' = acc_type a \<and> acc_number a' = acc_number a \<or> usageTotal (account_usage_of docs s company i) = 0"
    and "acc_number a' = acc_number a \<or> by_number s company (acc_number a') = None"
    and "isValidSubType (acc_type a') (acc_subType a')"
    and "next_parent s company a dto (acc_type a') = Inr (acc_parent a')"
    and "isSystemAccountNumber (acc_number a) \<Longrightarrow>
           acc_type a' = acc_type a \<and> acc_number a' = acc_number a \<and> acc_subType a' = acc_subType a \<and>
           (acc_active a \<longrightarrow> acc_active a')"
    and "acc_active a \<Longrightarrow> \<not> acc_active a' \<Longrightarrow> acc_balance a = 0"
proof -
  from assms obtain a where a: "acc_getById s company i = Inr a"
    by (auto simp: acc_update_def bindE_Inr)
  note mem = acc_getById_Inr [OF a]
  define nn where "nn = (case au_accountNumber dto of None \<Rightarrow> acc_number a | Some n \<Rightarrow> trim n)"
  define ty where "ty = default_to (acc_type a) (au_type dto)"
  define st where "st = default_to (acc_subType a) (au_subType dto)"
  define act where "act = default_to (acc_active a) (au_isActive dto)"
  define nm where "nm = default_to (acc_name a) (au_name dto)"
  define ds where "ds = (case au_description dto of None \<Rightarrow> acc_description a | Some d \<Rightarrow> Some d)"
  note run = assms [unfolded acc_update_def a bindE_simps Let_def throw_if_Inr bindE_Inr,
      folded nn_def ty_def st_def act_def nm_def ds_def]
  have act: "acc_active a \<Longrightarrow> \<not> act \<Longrightarrow> au_isActive dto = Some False"
    unfolding act_def by (cases "au_isActive dto") simp_all
  obtain np where np: "next_parent s company a dto ty = Inr np"
    and a': "a' = a\<lparr>acc_number := nn, acc_type := ty, acc_subType := st, acc_parent := np, acc_name := nm,
        acc_description := ds, acc_active := act\<rparr>"
    and t: "t = s\<lparr>db_accounts := update_row acc_id i (\<lambda>_. a') (db_accounts s)\<rparr>"
    and chk: "\<not> (isSystemAccountNumber (acc_number a) \<and> (ty \<noteq> acc_type a \<or> nn \<noteq> acc_number a \<or> st \<noteq> acc_subType a))"
      "\<not> ((ty \<noteq> acc_type a \<or> nn \<noteq> acc_number a) \<and> 0 < usageTotal (account_usage_of docs s company i))"
      "\<not> (nn \<noteq> acc_number a \<and> by_number s company nn \<noteq> None)" "isValidSubType ty st"
    and deact: "acc_active a \<Longrightarrow> au_isActive dto = Some False \<Longrightarrow> assertCanDeactivate (a\<lparr>acc_number := nn\<rparr>) = Inr ()"
    using run by (auto split: if_splits)
  have d: "acc_active a \<Longrightarrow> \<not> act \<Longrightarrow> \<not> isSystemAccountNumber nn \<and> acc_balance a = 0"
    using act deact by (auto simp: assertCanDeactivate_def throw_if_Inr)
  show thesis
    using mem np chk d by (intro that [of a] t) (auto simp: a')
qed

lemma getOrCreate_frame:
  "getOrCreateSystemAccount company n s = Inr (a, t) \<Longrightarrow>
   ledger_db.more t = ledger_db.more s \<and> db_companies t = db_companies s \<and> db_entries t = db_entries s \<and> db_gl t = db_gl s"
  by (auto simp: getOrCreateSystemAccount_def some_or_Inr Let_def split: option.splits if_splits)

lemma applyPosting_frame:
  "applyPosting D s e ac st sid = Inr t \<Longrightarrow>
   ledger_db.more t = ledger_db.more s \<and> db_companies t = db_companies s \<and> db_entries t = db_entries s \<and> db_fresh t = db_fresh s"
  by (auto simp: applyPosting_def throw_if_Inr Let_def)

lemma createEntry_frame:
  assumes "createEntry E s inp = Inr (e, t)"
  shows "ledger_db.more t = ledger_db.more s \<and> db_companies t = db_companies s \<and> db_entries t = db_entries s @ [e]
    \<and> db_fresh t = Suc (db_fresh s)"
  using createEntry_Inr(14,15) [OF assms] by (cases "pi_posted inp") (auto dest: applyPosting_frame)

lemma accounts_ok_no_gl:
  assumes "accounts_ok s" and "a \<in> set (db_accounts s)" and "acc_id a = i"
    and "filter (\<lambda>g. gl_company g = acc_company a \<and> gl_account g = i) (db_gl s) = []"
  shows "\<forall>g \<in> set (db_gl s). gl_account g \<noteq> i"
proof (intro ballI notI)
  fix g assume g: "g \<in> set (db_gl s)" and gi: "gl_account g = i"
  obtain b where b: "b \<in> set (db_accounts s)" "acc_id b = gl_account g" "acc_company b = gl_company g"
    using assms(1) g unfolding accounts_ok_def by blast
  then have "b = a" using assms(1,2,3) gi by (metis accounts_ok_def option.inject row_with_distinct)
  then show False using assms(4) g gi b(3) by (auto simp: filter_empty_conv)
qed

lemma acc_update_keeps:
  assumes "acc_update docs company i dto s = Inr (a', t)"
  shows "keeps_books s t" and "db_entries t = db_entries s" and "db_gl t = db_gl s"
proof -
  obtain a where a: "a \<in> set (db_accounts s)" "acc_id a = i" "acc_company a = company"
    and t: "t = s\<lparr>db_accounts := update_row acc_id i (\<lambda>_. a') (db_accounts s)\<rparr>"
    and a': "acc_id a' = i" "acc_company a' = company" "acc_balance a' = acc_balance a"
    and ty: "acc_type a' = acc_type a \<and> acc_number a' = acc_number a \<or> usageTotal (account_usage_of docs s company i) = 0"
    and chart: "acc_number a' = acc_number a \<or> by_number s company (acc_number a') = None"
      "isValidSubType (acc_type a') (acc_subType a')"
      "next_parent s company a dto (acc_type a') = Inr (acc_parent a')"
    by (rule acc_update_Inr [OF assms])
  show "db_entries t = db_entries s" and "db_gl t = db_gl s" by (simp_all add: t)
  have "ledger_ok t" if ok: "ledger_ok s"
  proof -
    have acc: "accounts_ok s" using ok by (simp add: ledger_ok_def)
    have "acc_type a' = acc_type a \<or> (\<forall>g \<in> set (db_gl s). gl_account g \<noteq> i)"
    proof (cases "usageTotal (account_usage_of docs s company i) = 0")
      case True
      then have "filter (\<lambda>g. gl_company g = acc_company a \<and> gl_account g = i) (db_gl s) = []"
        by (simp add: usageTotal_def account_usage_of_def a(3))
      then show ?thesis using accounts_ok_no_gl [OF acc a(1,2)] by blast
    next
      case False
      then have "acc_type a' = acc_type a" using ty by simp
      then show ?thesis ..
    qed
    then have "accounts_ok t" unfolding t using a a' by (intro accounts_ok_replace [OF acc a(1,2)]) simp_all
    then show ?thesis using ok by (simp add: ledger_ok_def t)
  qed
  moreover have "chart_ok t" if "ledger_ok s" and "chart_ok s"
    unfolding t using that(2) ledger_ok_ids [OF that(1)] a(1,2) a'(1)
  proof (rule chart_ok_replace)
    show "\<exists>b \<in> set (db_accounts s). acc_id b = p \<and> acc_company b = acc_company a" if "acc_parent a' = Some p" for p
      using chart(3) that a(3) by (auto dest: next_parent_Inr)
  qed (use a a' chart in simp_all)
  ultimately show "keeps_books s t" by (rule keeps_booksI) (simp_all add: t)
qed

lemma acc_toggle_keeps:
  assumes "acc_toggle company i s = Inr (a', t)"
  shows "keeps_books s t" and "db_entries t = db_entries s" and "db_gl t = db_gl s"
proof -
  from assms obtain a where g: "acc_getById s company i = Inr a" and a': "a' = a\<lparr>acc_active := \<not> acc_active a\<rparr>"
    and t: "t = s\<lparr>db_accounts := update_row acc_id i (\<lambda>_. a') (db_accounts s)\<rparr>"
    by (auto simp: acc_toggle_def bindE_Inr Let_def)
  note a = acc_getById_Inr [OF g]
  show "db_entries t = db_entries s" and "db_gl t = db_gl s" by (simp_all add: t)
  have "ledger_ok t" if ok: "ledger_ok s"
  proof -
    have "accounts_ok s" using ok by (simp add: ledger_ok_def)
    then have "accounts_ok t" unfolding t by (rule accounts_ok_replace [where a = a]) (use a in \<open>simp_all add: a'\<close>)
    then show ?thesis using ok by (simp add: ledger_ok_def t)
  qed
  moreover have "chart_ok t" if "ledger_ok s" and "chart_ok s"
    unfolding t using that(2) ledger_ok_ids [OF that(1)]
    by (rule chart_ok_replace [where a = a]) (use a that(2) in \<open>auto simp: a' chart_ok_def\<close>)
  ultimately show "keeps_books s t" by (rule keeps_booksI) (simp_all add: t)
qed

lemma acc_delete_keeps:
  assumes "acc_delete company i s = Inr (u, t)"
  shows "keeps_books s t" and "db_entries t = db_entries s" and "db_gl t = db_gl s"
proof -
  from assms obtain a where g: "acc_getById s company i = Inr a"
    and no: "filter (\<lambda>g. gl_company g = company \<and> gl_account g = i) (db_gl s) = []"
    and ch: "filter (\<lambda>a. acc_company a = company \<and> acc_parent a = Some i) (db_accounts s) = []"
    and t: "t = s\<lparr>db_accounts := filter (\<lambda>a. acc_id a \<noteq> i) (db_accounts s)\<rparr>"
    by (auto simp: acc_delete_def bindE_Inr throw_if_Inr)
  note a = acc_getById_Inr [OF g]
  show "db_entries t = db_entries s" and "db_gl t = db_gl s" by (simp_all add: t)
  have "ledger_ok t" if ok: "ledger_ok s"
  proof -
    have acc: "accounts_ok s" using ok by (simp add: ledger_ok_def)
    have "accounts_ok t" unfolding t
      using a no by (intro accounts_ok_remove [OF acc, of a]) (auto simp: filter_empty_conv)
    then show ?thesis using ok by (simp add: ledger_ok_def t)
  qed
  moreover have "chart_ok t" if "ledger_ok s" and "chart_ok s"
    unfolding t using that(2) a ledger_ok_ids [OF that(1)] ch
    by (intro chart_ok_remove [of s a]) (auto simp: filter_empty_conv)
  ultimately show "keeps_books s t" by (rule keeps_booksI) (simp_all add: t)
qed

definition opening_input :: "env \<Rightarrow> nat \<Rightarrow> nat \<Rightarrow> account \<Rightarrow> rat \<Rightarrow> account \<Rightarrow> posting_input" where
  "opening_input E company user n opening obe =
     \<lparr>pi_company = company, pi_date = today E,
      pi_memo = Some (''Opening balance for '' @ acc_number n @ '' '' @ acc_name n),
      pi_createdBy = user, pi_lines = openingLines (dec E) n opening obe,
      pi_posted = True, pi_sourceType = Some ''opening_balance'',
      pi_sourceId = Some (acc_id n), pi_reversalOf = None\<rparr>"

definition created_account :: "env \<Rightarrow> nat \<Rightarrow> account_dto \<Rightarrow> 'a ledger_db_scheme \<Rightarrow> account" where
  "created_account E company dto s = new_account s company
      (seed (ad_accountNumber dto) (ad_name dto) (ad_type dto) (ad_subType dto))
      (ad_parentId dto) (ad_description dto) (fixed4 (dec E) (toDecimal (ad_openingBalance dto)))"

lemma acc_create_Inr:
  assumes "acc_create E company dto user s = Inr (a, t)"
  defines "n \<equiv> created_account E company dto s"
  shows "t = save_account n s \<or>
      (\<exists>obe s2 e. getOrCreateSystemAccount company ACCT_OPENING_BALANCE_EQUITY (save_account n s) = Inr (obe, s2)
        \<and> createEntry E s2 (opening_input E company user n (toDecimal (ad_openingBalance dto)) obe) = Inr (e, t))"
    and "assert_entries_balanced s t"
    and "by_number s company (acc_number n) = None" and "isValidSubType (acc_type n) (acc_subType n)"
    and "acc_id n = db_fresh s" and "acc_balance n = 0" and "acc_company n = company"
    and "acc_parent n = Some p \<Longrightarrow> \<exists>b \<in> set (db_accounts s). acc_id b = p \<and> acc_company b = company"
proof -
  note run = assms(1) [unfolded acc_create_def Let_def throw_if_Inr bindE_Inr,
      folded created_account_def opening_input_def, folded n_def]
  show "t = save_account n s \<or>
      (\<exists>obe s2 e. getOrCreateSystemAccount company ACCT_OPENING_BALANCE_EQUITY (save_account n s) = Inr (obe, s2)
        \<and> createEntry E s2 (opening_input E company user n (toDecimal (ad_openingBalance dto)) obe) = Inr (e, t))"
    using run by (auto simp: transaction_Inr bindE_Inr split: if_splits)
  show "assert_entries_balanced s t" using run by (auto simp: transaction_Inr bindE_Inr)
  show "by_number s company (acc_number n) = None" "isValidSubType (acc_type n) (acc_subType n)"
    using run by (simp_all add: n_def created_account_def new_account_def)
  show "acc_id n = db_fresh s" "acc_balance n = 0" "acc_company n = company"
    by (simp_all add: n_def created_account_def new_account_def)
  show "\<exists>b \<in> set (db_accounts s). acc_id b = p \<and> acc_company b = company" if "acc_parent n = Some p"
  proof -
    have "ad_parentId dto = Some p" using that by (simp add: n_def created_account_def new_account_def)
    then show ?thesis using run by (auto simp: bindE_Inr dest!: acc_getById_Inr)
  qed
qed

lemma acc_create_keeps:
  assumes lib: "decimal_lib (dec E)" and run: "acc_create E company dto user s = Inr (a, t)"
  shows "keeps_books s t"
proof -
  define n where "n = created_account E company dto s"
  let ?s1 = "save_account n s"
  note c = acc_create_Inr [OF run, folded n_def]
  have chart1: "chart_ok ?s1" if "chart_ok s" using that c(3,4,7,8) by (intro chart_ok_add) simp_all
  from c(1) show ?thesis
  proof (elim disjE exE conjE)
    assume t: "t = ?s1"
    show ?thesis
      by (rule keeps_booksI) (use c(5,6) chart1 in \<open>simp_all add: t ledger_ok_save_account\<close>)
  next
    fix obe s2 e
    let ?inp = "opening_input E company user n (toDecimal (ad_openingBalance dto)) obe"
    assume g: "getOrCreateSystemAccount company ACCT_OPENING_BALANCE_EQUITY ?s1 = Inr (obe, s2)"
      and e: "createEntry E s2 ?inp = Inr (e, t)"
    have "ledger_ok t" if "ledger_ok s"
      using decimal_lib.createEntry_keeps(1) [OF lib refl e] getOrCreateSystemAccount_keeps(1) [OF g]
        ledger_ok_save_account [OF that c(5,6)] by blast
    moreover have "chart_ok t" if "chart_ok s"
      using chart1 [OF that] getOrCreateSystemAccount_chart [OF g] chart_ok_same [OF createEntry_chart [OF e]] by simp
    moreover have "ledger_db.more t = ledger_db.more s" "db_companies t = db_companies s"
      using getOrCreate_frame [OF g] createEntry_frame [OF e] by simp_all
    moreover have "all_balanced s \<Longrightarrow> all_balanced t" using c(2) assert_keeps_balanced by blast
    ultimately show ?thesis by (intro keeps_booksI)
  qed
qed

end
