(* ===== verification/Books.thy ===== *)
theory Books
  imports Accounts
begin

text \<open>
  The books as a transition system: every request of the manual journal and of the chart of accounts,
  on any extension of the database, and the states these requests reach from empty books,
  with what holds in every one of them.
\<close>

section \<open>The engine as clients see it\<close>

text \<open>
  A module that posts relies on one contract: posting appends the entry it returns and keeps the
  books. Any list of postings keeps them, too. \<open>posting_env\<close> provides the contract for
  \<open>createEntry\<close> whenever the decimal library meets its own.
\<close>

locale posting_contract =
  fixes post :: "'s \<Rightarrow> 'i \<Rightarrow> (journal_entry \<times> 's) result"
    and ok :: "'s \<Rightarrow> bool"
    and entries :: "'s \<Rightarrow> journal_entry list"
  assumes post_keeps: "post s i = Inr (e, t) \<Longrightarrow> ok s \<Longrightarrow> ok t"
    and post_appends: "post s i = Inr (e, t) \<Longrightarrow> entries t = entries s @ [e]"
begin

definition post_all :: "'s \<Rightarrow> 'i list \<Rightarrow> 's result" where
  "post_all s is = foldE (\<lambda>s i. bindE (post s i) (\<lambda>(_, t). Inr t)) s is"

lemma post_all_keeps: "post_all s is = Inr t \<Longrightarrow> ok s \<Longrightarrow> ok t"
  unfolding post_all_def by (erule foldE_invariant) (auto simp: bindE_Inr dest: post_keeps)

lemma post_all_appends:
  "post_all s is = Inr t \<Longrightarrow> \<exists>es. entries t = entries s @ es \<and> length es = length is"
proof (induction "is" arbitrary: s)
  case Nil
  then show ?case by (simp add: post_all_def)
next
  case (Cons i "is")
  then obtain e s' where "post s i = Inr (e, s')" "post_all s' is = Inr t"
    by (auto simp: post_all_def bindE_Inr)
  moreover from this(2) obtain es where "entries t = entries s' @ es" "length es = length is"
    using Cons.IH by blast
  ultimately have "entries t = entries s @ (e # es) \<and> length (e # es) = length (i # is)"
    using post_appends by simp
  then show ?case by blast
qed

end

locale posting_env = decimal_lib "dec E" for E :: env
begin

lemma createEntry_books_ok:
  "createEntry E s inp = Inr (e, t) \<Longrightarrow> books_ok s \<Longrightarrow> books_ok t"
  unfolding books_ok_def
  using createEntry_keeps(1) [OF refl] chart_ok_same [OF createEntry_chart] by blast

end

sublocale posting_env \<subseteq> posting: posting_contract "createEntry E" books_ok db_entries
proof unfold_locales
  fix s :: "'a ledger_db_scheme" and i e t
  assume run: "createEntry E s i = Inr (e, t)"
  show "books_ok t" if "books_ok s" using run that by (rule createEntry_books_ok)
  show "db_entries t = db_entries s @ [e]" using createEntry_frame [OF run] by simp
qed

definition demo_env :: env where
  "demo_env = \<lparr>dec = decimal_half_up, today = ''2025-03-10'', now = 0\<rparr>"

lemma dec_demo_env [simp]: "dec demo_env = decimal_half_up"
  by (simp add: demo_env_def)

interpretation demo: posting_env demo_env
  unfolding posting_env_def dec_demo_env by (rule half_up.decimal_lib_axioms)

section \<open>Every journal request keeps the books\<close>

lemma je_create_keeps:
  assumes lib: "decimal_lib (dec E)" and run: "je_create E company user dto s = Inr (e, t)"
  shows "keeps_books s t"
proof -
  from run obtain inp where c: "createEntry E s inp = Inr (e, t)" and b: "assert_entries_balanced s t"
    by (auto simp: je_create_def transaction_Inr)
  show ?thesis
    by (rule keeps_booksI)
      (use decimal_lib.createEntry_keeps(1) [OF lib refl c] b createEntry_frame [OF c] assert_keeps_balanced
           chart_ok_same [OF createEntry_chart [OF c]] in auto)
qed

lemma postDraft_chart:
  assumes "postDraft E s company i user = Inr (e, t)"
  shows "map chart_row (db_accounts t) = map chart_row (db_accounts s)"
  by (rule postDraft_Inr [OF assms]) (auto dest: applyPosting_chart)

lemma je_post_keeps:
  assumes lib: "decimal_lib (dec E)" and run: "je_post E company i user s = Inr (e, t)"
  shows "keeps_books s t"
proof -
  from run have p: "postDraft E s company i user = Inr (e, t)" and b: "assert_entries_balanced s t"
    by (auto simp: je_post_def transaction_Inr)
  note k = decimal_lib.postDraft_keeps [OF lib refl p]
  have frame: "ledger_db.more t = ledger_db.more s \<and> db_companies t = db_companies s"
    by (rule postDraft_Inr [OF p]) (auto dest: applyPosting_frame)
  show ?thesis
    by (rule keeps_booksI)
      (use k(1) b frame assert_keeps_balanced chart_ok_same [OF postDraft_chart [OF p]] in auto)
qed

lemma je_void_keeps:
  assumes lib: "decimal_lib (dec E)" and run: "je_void E company i user reason s = Inr (u, t)"
  shows "keeps_books s t"
proof -
  obtain r where r: "je_status r \<noteq> JE_void" and b: "assert_entries_balanced s t"
    and cases: "je_status r = JE_draft \<and> t = s\<lparr>db_entries := update_row je_id i (void_row reason) (db_entries s)\<rparr>
      \<or> je_status r = JE_posted \<and>
        (\<exists>e s1. createEntry E s (void_input E company user reason r) = Inr (e, s1) \<and>
          t = s1\<lparr>db_entries := update_row je_id i (void_row reason) (db_entries s1)\<rparr>)"
    by (rule je_void_Inr [OF run])
  have bal: "all_balanced s \<Longrightarrow> all_balanced t" using b assert_keeps_balanced by blast
  from cases show ?thesis
  proof (elim disjE conjE exE)
    assume t: "t = s\<lparr>db_entries := update_row je_id i (void_row reason) (db_entries s)\<rparr>"
    show ?thesis
      by (rule keeps_booksI) (use bal in \<open>simp_all add: t ledger_ok_void chart_ok_def\<close>)
  next
    fix e s1
    assume c: "createEntry E s (void_input E company user reason r) = Inr (e, s1)"
      and t: "t = s1\<lparr>db_entries := update_row je_id i (void_row reason) (db_entries s1)\<rparr>"
    have "chart_ok t = chart_ok s"
      by (rule chart_ok_same) (use createEntry_chart [OF c] in \<open>simp add: t\<close>)
    moreover have "ledger_ok s \<Longrightarrow> ledger_ok t"
      unfolding t by (rule ledger_ok_void) (rule decimal_lib.createEntry_keeps(1) [OF lib refl c])
    moreover have "ledger_db.more t = ledger_db.more s" "db_companies t = db_companies s"
      using createEntry_frame [OF c] by (simp_all add: t)
    ultimately show ?thesis using bal by (intro keeps_booksI) simp_all
  qed
qed

section \<open>The books as a transition system\<close>

text \<open>
  A step is one request that succeeds, with any clock, user, input and set of document references;
  a request that fails leaves the database as it was. The decimal library is the same throughout.
\<close>

inductive books_step :: "decimal_js \<Rightarrow> 'a ledger_db_scheme \<Rightarrow> 'a ledger_db_scheme \<Rightarrow> bool" for D where
  step_create: "dec E = D \<Longrightarrow> je_create E company user dto s = Inr (e, t) \<Longrightarrow> books_step D s t"
| step_post: "dec E = D \<Longrightarrow> je_post E company i user s = Inr (e, t) \<Longrightarrow> books_step D s t"
| step_void: "dec E = D \<Longrightarrow> je_void E company i user reason s = Inr (u, t) \<Longrightarrow> books_step D s t"
| step_open_account: "dec E = D \<Longrightarrow> acc_create E company adto user s = Inr (a, t) \<Longrightarrow> books_step D s t"
| step_update_account: "acc_update docs company i upd s = Inr (a, t) \<Longrightarrow> books_step D s t"
| step_toggle_account: "acc_toggle company i s = Inr (a, t) \<Longrightarrow> books_step D s t"
| step_delete_account: "acc_delete company i s = Inr (u, t) \<Longrightarrow> books_step D s t"

definition empty_books :: "'a ledger_db_scheme \<Rightarrow> bool" where
  "empty_books s \<longleftrightarrow> db_accounts s = [] \<and> db_entries s = [] \<and> db_gl s = []"

inductive books_reachable :: "decimal_js \<Rightarrow> 'a ledger_db_scheme \<Rightarrow> bool" for D where
  reach_empty: "empty_books s \<Longrightarrow> books_reachable D s"
| reach_step: "books_reachable D s \<Longrightarrow> books_step D s t \<Longrightarrow> books_reachable D t"

inductive_cases books_stepE: "books_step D s t"

lemma books_step_keeps:
  assumes "decimal_lib D" and "books_step D s t"
  shows "keeps_books s t"
  using assms(2)
proof cases
  case (step_create E company user dto e)
  with assms(1) je_create_keeps show ?thesis by blast
next
  case (step_post E company i user e)
  with assms(1) je_post_keeps show ?thesis by blast
next
  case (step_void E company i user reason u)
  with assms(1) je_void_keeps show ?thesis by blast
next
  case (step_open_account E company adto user a)
  with assms(1) acc_create_keeps show ?thesis by blast
qed (auto dest: acc_update_keeps(1) acc_toggle_keeps(1) acc_delete_keeps(1))

lemma empty_books_ok: "empty_books s \<Longrightarrow> books_ok s \<and> all_balanced s"
  by (simp add: empty_books_def books_ok_def ledger_ok_def accounts_ok_def entries_ok_def chart_ok_def
      all_balanced_def refs_in_sequence_def company_entries_def posted_lines_def)

lemma books_reachable_ok:
  assumes "decimal_lib D" and "books_reachable D s"
  shows "books_ok s \<and> all_balanced s"
  using assms(2)
proof induction
  case (reach_empty s)
  then show ?case by (rule empty_books_ok)
next
  case (reach_step s t)
  then show ?case using books_step_keeps [OF assms(1) reach_step(2)] by (simp add: keeps_books_def)
qed


section \<open>Reversals\<close>

text \<open>
  A reversal points at an entry that was posted, and an entry that was posted and then voided has one.
\<close>

definition reversals_ok :: "journal_entry list \<Rightarrow> bool" where
  "reversals_ok es \<longleftrightarrow>
     (\<forall>r \<in> set es. \<forall>i. je_reversalOf r = Some i \<longrightarrow> (\<exists>e \<in> set es. je_id e = i \<and> ever_posted e)) \<and>
     (\<forall>e \<in> set es. je_status e = JE_void \<longrightarrow> ever_posted e \<longrightarrow> (\<exists>r \<in> set es. je_reversalOf r = Some (je_id e)))"

lemma reversals_ok_snoc:
  assumes "reversals_ok es" and "je_status e \<noteq> JE_void"
    and "\<And>i. je_reversalOf e = Some i \<Longrightarrow> \<exists>x \<in> set es. je_id x = i \<and> ever_posted x"
  shows "reversals_ok (es @ [e])"
  using assms unfolding reversals_ok_def by fastforce

lemma reversals_ok_map:
  assumes "reversals_ok es"
    and "\<And>e. e \<in> set es \<Longrightarrow> je_id (f e) = je_id e \<and> je_reversalOf (f e) = je_reversalOf e"
    and "\<And>e. e \<in> set es \<Longrightarrow> ever_posted e \<Longrightarrow> ever_posted (f e)"
    and "\<And>e. e \<in> set es \<Longrightarrow> je_status (f e) = JE_void \<Longrightarrow> ever_posted (f e) \<Longrightarrow>
           je_status e = JE_void \<and> ever_posted e \<or> (\<exists>r \<in> set es. je_reversalOf r = Some (je_id e))"
  shows "reversals_ok (map f es)"
  unfolding reversals_ok_def
proof (intro conjI ballI allI impI)
  fix r i assume "r \<in> set (map f es)" and "je_reversalOf r = Some i"
  then obtain q where "q \<in> set es" "je_reversalOf q = Some i" using assms(2) by auto
  then obtain e where "e \<in> set es" "je_id e = i" "ever_posted e"
    using assms(1) unfolding reversals_ok_def by blast
  then show "\<exists>e \<in> set (map f es). je_id e = i \<and> ever_posted e" using assms(2,3) by auto
next
  fix e assume "e \<in> set (map f es)" and v: "je_status e = JE_void" "ever_posted e"
  then obtain q where q: "q \<in> set es" "e = f q" by auto
  then have "\<exists>r \<in> set es. je_reversalOf r = Some (je_id q)"
    using assms(1,4) v unfolding reversals_ok_def by blast
  then show "\<exists>r \<in> set (map f es). je_reversalOf r = Some (je_id e)" using assms(2) q by auto
qed

lemma ids_distinct: "ledger_ok s \<Longrightarrow> distinct (map je_id (db_entries s))"
  by (simp add: ledger_ok_def entries_ok_def)

lemma entry_unique:
  "distinct (map je_id es) \<Longrightarrow> x \<in> set es \<Longrightarrow> y \<in> set es \<Longrightarrow> je_id x = je_id y \<Longrightarrow> x = y"
  by (metis option.inject row_with_distinct)

lemma createEntry_reversals:
  assumes c: "createEntry E s inp = Inr (e, t)" and ok: "reversals_ok (db_entries s)"
    and rev: "\<And>i. pi_reversalOf inp = Some i \<Longrightarrow> \<exists>x \<in> set (db_entries s). je_id x = i \<and> ever_posted x"
  shows "reversals_ok (db_entries t)"
proof -
  have "je_status e \<noteq> JE_void" using createEntry_Inr(5) [OF c] by (simp split: if_splits)
  then show ?thesis
    using createEntry_frame [OF c] createEntry_Inr(8) [OF c] rev by (auto intro!: reversals_ok_snoc [OF ok])
qed

lemma books_step_reversals:
  assumes lib: "decimal_lib D" and step: "books_step D s t" and ok: "ledger_ok s" and rev: "reversals_ok (db_entries s)"
  shows "reversals_ok (db_entries t)"
  using step
proof cases
  case (step_create E company user dto e)
  then show ?thesis using rev by (auto simp: je_create_def transaction_Inr intro: createEntry_reversals)
next
  case (step_post E company i user e)
  then have p: "postDraft E s company i user = Inr (e, t)" by (simp add: je_post_def transaction_Inr)
  note k = decimal_lib.postDraft_keeps [OF lib step_post(1) p ok]
  obtain r where r: "r \<in> set (db_entries s)" "je_id r = i"
    and e: "je_id e = je_id r" "je_reversalOf e = je_reversalOf r" "je_status e = JE_posted" "ever_posted e"
    by (rule postDraft_Inr [OF p]) (auto simp: ever_posted_def)
  show ?thesis
    unfolding k(2)
    by (rule reversals_ok_map [OF rev])
      (use r e entry_unique [OF ids_distinct [OF ok]] in \<open>auto split: if_splits\<close>)
next
  case (step_void E company i user reason u)
  obtain r where r: "r \<in> set (db_entries s)" "je_id r = i"
    and cases: "je_status r = JE_draft \<and> t = s\<lparr>db_entries := update_row je_id i (void_row reason) (db_entries s)\<rparr>
      \<or> je_status r = JE_posted \<and>
        (\<exists>e s1. createEntry E s (void_input E company user reason r) = Inr (e, s1) \<and>
          t = s1\<lparr>db_entries := update_row je_id i (void_row reason) (db_entries s1)\<rparr>)"
    by (rule je_void_Inr [OF step_void(2)])
  have r_ok: "entry_ok r" using ok r(1) by (simp add: ledger_ok_def entries_ok_def list_all_iff)
  note only = entry_unique [OF ids_distinct [OF ok]]
  from cases show ?thesis
  proof (elim disjE conjE exE)
    assume d: "je_status r = JE_draft"
      and t: "t = s\<lparr>db_entries := update_row je_id i (void_row reason) (db_entries s)\<rparr>"
    have "\<not> ever_posted r" using r_ok d by (simp add: entry_ok_def)
    then have "\<forall>x \<in> set (db_entries s). je_id x = i \<longrightarrow> \<not> ever_posted x" using only r by metis
    then have "reversals_ok (map (\<lambda>e. if je_id e = i then void_row reason e else e) (db_entries s))"
      by (intro reversals_ok_map [OF rev]) (auto split: if_splits)
    then show ?thesis by (simp add: t update_row_def)
  next
    fix e s1
    assume c: "createEntry E s (void_input E company user reason r) = Inr (e, s1)" and p: "je_status r = JE_posted"
      and t: "t = s1\<lparr>db_entries := update_row je_id i (void_row reason) (db_entries s1)\<rparr>"
    have "ever_posted r" using r_ok p by (simp add: entry_ok_def)
    then have s1: "reversals_ok (db_entries s1)"
      using r by (intro createEntry_reversals [OF c rev]) (auto simp: void_input_def)
    have "je_reversalOf e = Some i" "e \<in> set (db_entries s1)"
      using createEntry_Inr(8) [OF c] createEntry_frame [OF c] r(2) by (simp_all add: void_input_def)
    then have "reversals_ok (map (\<lambda>e. if je_id e = i then void_row reason e else e) (db_entries s1))"
      by (intro reversals_ok_map [OF s1]) (auto split: if_splits)
    then show ?thesis by (simp add: t update_row_def)
  qed
next
  case (step_open_account E company adto user a)
  from acc_create_Inr(1) [OF step_open_account(2)] show ?thesis
  proof (elim disjE exE conjE)
    assume "t = save_account (created_account E company adto s) s"
    then show ?thesis using rev by simp
  next
    fix obe s2 e
    assume g: "getOrCreateSystemAccount company ACCT_OPENING_BALANCE_EQUITY (save_account (created_account E company adto s) s) = Inr (obe, s2)"
      and c: "createEntry E s2 (opening_input E company user (created_account E company adto s)
          (toDecimal (ad_openingBalance adto)) obe) = Inr (e, t)"
    show ?thesis
      by (rule createEntry_reversals [OF c]) (use rev getOrCreate_frame [OF g] in \<open>simp_all add: opening_input_def\<close>)
  qed
qed (use rev in \<open>auto dest!: acc_update_keeps(2) acc_toggle_keeps(2) acc_delete_keeps(2)\<close>)

lemma books_reachable_reversals:
  assumes "decimal_lib D" and "books_reachable D s"
  shows "reversals_ok (db_entries s)"
  using assms(2)
proof induction
  case (reach_empty s)
  then show ?case by (simp add: empty_books_def reversals_ok_def)
next
  case (reach_step s t)
  then show ?case
    using books_step_reversals [OF assms(1) reach_step(2)] books_reachable_ok [OF assms(1) reach_step(1)]
    by (simp add: books_ok_def)
qed

end
