(* ===== verification/LedgerReport.thy ===== *)
theory LedgerReport
  imports Books
begin

text \<open>
  The general-ledger report of \<^verbatim>\<open>src/modules/ledger/ledger.service.ts\<close>, which reads the journal
  instead of the ledger table, and the proof that both show the same lines. The rounding of the running
  balances to two decimals happens in floating-point numbers and is not modelled.
\<close>

section \<open>The report of the ledger module (ledger.service.ts)\<close>

record ledger_line =
  ll_date :: date
  ll_reference :: string
  ll_accountCode :: string
  ll_accountName :: string
  ll_memo :: string
  ll_debit :: rat
  ll_credit :: rat
  ll_sourceId :: nat
  ll_voided :: bool

definition IN_BOOK :: "journal_entry list \<Rightarrow> journal_entry \<Rightarrow> bool" where
  "IN_BOOK es e \<longleftrightarrow>
     je_status e = JE_posted \<or>
     (je_status e = JE_void \<and> list_ex (\<lambda>rev. je_reversalOf rev = Some (je_id e)) es)"

text \<open>
  \<open>COALESCE(NULLIF(l.description, ''), je.memo, '')\<close>; the join on \<open>accounts\<close> drops a line whose account
  is gone. Entries are listed by date, then in the order they were created, and their lines by line order.
\<close>

definition line_memo :: "journal_entry \<Rightarrow> je_line \<Rightarrow> string" where
  "line_memo e l =
     (case jl_description l of
        Some d \<Rightarrow> if d \<noteq> [] then d else (case je_memo e of None \<Rightarrow> [] | Some m \<Rightarrow> m)
      | None \<Rightarrow> (case je_memo e of None \<Rightarrow> [] | Some m \<Rightarrow> m))"

definition report_line :: "account list \<Rightarrow> journal_entry \<Rightarrow> je_line \<Rightarrow> ledger_line list" where
  "report_line accts e l =
     (case row_with acc_id (jl_account l) accts of
        None \<Rightarrow> []
      | Some a \<Rightarrow> [\<lparr>ll_date = je_date e, ll_reference = je_reference e, ll_accountCode = acc_number a,
                   ll_accountName = acc_name a, ll_memo = line_memo e l, ll_debit = jl_debit l,
                   ll_credit = jl_credit l, ll_sourceId = je_id e, ll_voided = (je_status e = JE_void)\<rparr>])"

definition buildLines :: "'a ledger_db_scheme \<Rightarrow> nat \<Rightarrow> date \<Rightarrow> date \<Rightarrow> ledger_line list" where
  "buildLines s company begins finish =
     concat (map (\<lambda>e. concat (map (report_line (db_accounts s) e) (sort_key jl_order (je_lines e))))
       (sort_key je_date (filter (\<lambda>e. je_company e = company \<and> IN_BOOK (db_entries s) e \<and>
                                     begins \<le> je_date e \<and> je_date e \<le> finish) (db_entries s))))"

text \<open>\<open>GROUP BY account\<close> of everything in the book before the period, debit-positive and unrounded.\<close>

definition openingBalance :: "'a ledger_db_scheme \<Rightarrow> nat \<Rightarrow> date \<Rightarrow> string \<Rightarrow> rat" where
  "openingBalance s company begins code =
     (\<Sum>e\<leftarrow>filter (\<lambda>e. je_company e = company \<and> IN_BOOK (db_entries s) e \<and> je_date e < begins) (db_entries s).
        \<Sum>l\<leftarrow>je_lines e. case row_with acc_id (jl_account l) (db_accounts s) of
            None \<Rightarrow> 0 | Some a \<Rightarrow> if acc_number a = code then jl_debit l - jl_credit l else 0)"

lemma IN_BOOK_ever_posted:
  assumes "reversals_ok es" and "list_all entry_ok es" and "distinct (map je_id es)" and "e \<in> set es"
  shows "IN_BOOK es e \<longleftrightarrow> ever_posted e"
proof (cases "je_status e")
  case JE_draft
  then show ?thesis using assms(2,4) by (auto simp: IN_BOOK_def list_all_iff entry_ok_def)
next
  case JE_posted
  then show ?thesis using assms(2,4) by (auto simp: IN_BOOK_def list_all_iff entry_ok_def)
next
  case JE_void
  have "ever_posted e \<longleftrightarrow> (\<exists>r \<in> set es. je_reversalOf r = Some (je_id e))"
  proof
    assume "ever_posted e"
    then show "\<exists>r \<in> set es. je_reversalOf r = Some (je_id e)"
      using assms(1,4) JE_void unfolding reversals_ok_def by blast
  next
    assume "\<exists>r \<in> set es. je_reversalOf r = Some (je_id e)"
    then obtain x where "x \<in> set es" "je_id x = je_id e" "ever_posted x"
      using assms(1) unfolding reversals_ok_def by blast
    then show "ever_posted e" using entry_unique [OF assms(3) _ assms(4)] by metis
  qed
  then show ?thesis using JE_void by (auto simp: IN_BOOK_def list_ex_iff)
qed

definition report_proj :: "ledger_line \<Rightarrow> date \<times> string \<times> string \<times> rat \<times> rat" where
  "report_proj l = (ll_date l, ll_reference l, ll_accountCode l, ll_debit l, ll_credit l)"

definition gl_report_proj :: "account list \<Rightarrow> nat \<times> date \<times> string \<times> nat \<times> rat \<times> rat \<Rightarrow> date \<times> string \<times> string \<times> rat \<times> rat" where
  "gl_report_proj accts p =
     (case p of (_, d, r, a, deb, cred) \<Rightarrow>
        (d, r, (case row_with acc_id a accts of None \<Rightarrow> [] | Some a \<Rightarrow> acc_number a), deb, cred))"

lemma mset_concat_sorted:
  "mset (concat (map f (sort_key k xs))) = (\<Sum>x\<leftarrow>xs. mset (f x))"
proof -
  have "mset (concat (map f ys)) = (\<Sum>x\<in>#mset ys. mset (f x))" for ys by (induction ys) auto
  then show ?thesis by (simp add: sum_mset_sum_list [symmetric])
qed

lemma image_filter_posted:
  "image_mset g (filter_mset P (posted_lines es))
   = (\<Sum>e\<leftarrow>es. if ever_posted e then mset (map g (filter P (map (line_proj e) (je_lines e)))) else {#})"
  by (induction es) (auto simp: posted_lines_def mset_filter)

text \<open>Every ledger line's account exists, so the join loses nothing that was posted.\<close>

lemma posted_accounts:
  assumes "ledger_ok s" and "e \<in> set (db_entries s)" and "ever_posted e" and "l \<in> set (je_lines e)"
  shows "\<exists>a. row_with acc_id (jl_account l) (db_accounts s) = Some a \<and> acc_company a = je_company e"
proof -
  have "line_proj e l \<in># posted_lines (db_entries s)"
  proof -
    obtain xs ys where "db_entries s = xs @ e # ys" using assms(2) by (meson split_list)
    then show ?thesis using assms(3,4) by (auto simp: posted_lines_def)
  qed
  then have "line_proj e l \<in> set (map gl_proj (db_gl s))"
    using assms(1) by (metis entries_ok_def ledger_ok_def set_mset_mset)
  then obtain g where g: "g \<in> set (db_gl s)" "gl_account g = jl_account l" "gl_company g = je_company e"
    by (auto simp: gl_proj_def line_proj_def)
  then obtain a where "a \<in> set (db_accounts s)" "acc_id a = jl_account l" "acc_company a = je_company e"
    using assms(1) unfolding ledger_ok_def accounts_ok_def by metis
  then show ?thesis using row_with_distinct ledger_ok_ids [OF assms(1)] by metis
qed

lemma buildLines_gl:
  assumes ok: "ledger_ok s" and rev: "reversals_ok (db_entries s)"
  shows "mset (map report_proj (buildLines s company begins finish))
    = mset (map (gl_report_proj (db_accounts s) \<circ> gl_proj)
        (filter (\<lambda>g. gl_company g = company \<and> begins \<le> gl_date g \<and> gl_date g \<le> finish) (db_gl s)))"
proof -
  let ?P = "\<lambda>p :: nat \<times> date \<times> string \<times> nat \<times> rat \<times> rat. fst p = company \<and> begins \<le> fst (snd p) \<and> fst (snd p) \<le> finish"
  let ?g = "gl_report_proj (db_accounts s)"
  let ?sel = "\<lambda>e. je_company e = company \<and> begins \<le> je_date e \<and> je_date e \<le> finish"
  have ent: "entries_ok s" using ok by (simp add: ledger_ok_def)
  have book: "IN_BOOK (db_entries s) e \<longleftrightarrow> ever_posted e" if "e \<in> set (db_entries s)" for e
    using ent that by (intro IN_BOOK_ever_posted [OF rev]) (simp_all add: entries_ok_def)
  have line: "map report_proj (report_line (db_accounts s) e l) = [?g (line_proj e l)]"
    if "e \<in> set (db_entries s)" "ever_posted e" "l \<in> set (je_lines e)" for e l
    using posted_accounts [OF ok that] by (auto simp: report_line_def report_proj_def gl_report_proj_def line_proj_def)
  have lines: "mset (map report_proj (concat (map (report_line (db_accounts s) e) (sort_key jl_order (je_lines e)))))
      = mset (map ?g (map (line_proj e) (je_lines e)))" if e: "e \<in> set (db_entries s)" "ever_posted e" for e
  proof -
    have "map report_proj (concat (map (report_line (db_accounts s) e) ls)) = map ?g (map (line_proj e) ls)"
      if "set ls \<subseteq> set (je_lines e)" for ls
      using that line [OF e] by (induction ls) auto
    then have "map report_proj (concat (map (report_line (db_accounts s) e) (sort_key jl_order (je_lines e))))
        = map ?g (map (line_proj e) (sort_key jl_order (je_lines e)))" by simp
    then show ?thesis by simp
  qed
  have "mset (map report_proj (buildLines s company begins finish))
      = (\<Sum>e\<leftarrow>filter (\<lambda>e. je_company e = company \<and> IN_BOOK (db_entries s) e \<and> begins \<le> je_date e \<and> je_date e \<le> finish) (db_entries s).
          mset (map report_proj (concat (map (report_line (db_accounts s) e) (sort_key jl_order (je_lines e))))))"
    unfolding buildLines_def map_concat map_map o_def mset_concat_sorted ..
  also have "\<dots> = (\<Sum>e\<leftarrow>db_entries s. if ever_posted e then
      mset (map ?g (filter ?P (map (line_proj e) (je_lines e)))) else {#})"
  proof -
    have "(\<Sum>e\<leftarrow>filter (\<lambda>e. je_company e = company \<and> IN_BOOK (db_entries s) e \<and> begins \<le> je_date e \<and> je_date e \<le> finish) es.
          mset (map report_proj (concat (map (report_line (db_accounts s) e) (sort_key jl_order (je_lines e))))))
        = (\<Sum>e\<leftarrow>es. if ever_posted e then mset (map ?g (filter ?P (map (line_proj e) (je_lines e)))) else {#})"
      if "set es \<subseteq> set (db_entries s)" for es
      using that
    proof (induction es)
      case Nil
      then show ?case by simp
    next
      case (Cons e es)
      have "filter ?P (map (line_proj e) ls) = (if ?sel e then map (line_proj e) ls else [])" for ls
        by (induction ls) (auto simp: line_proj_def)
      then show ?case using Cons book [of e] lines [of e] by (auto simp: multiset.map_comp)
    qed
    then show ?thesis by simp
  qed
  also have "\<dots> = image_mset ?g (filter_mset ?P (mset (map gl_proj (db_gl s))))"
    using ent by (simp add: image_filter_posted entries_ok_def)
  also have "\<dots> = mset (map (?g \<circ> gl_proj) (filter (\<lambda>g. gl_company g = company \<and> begins \<le> gl_date g \<and> gl_date g \<le> finish) (db_gl s)))"
    by (simp add: filter_mset_image_mset image_mset.compositionality gl_proj_def o_def mset_filter)
  finally show ?thesis .
qed

end
