(* ===== verification/Demo.thy ===== *)
theory Demo
  imports LedgerReport
begin

text \<open>
  A worked example: one company opens its cash account with an opening balance, drafts a journal entry,
  posts it and voids it. Each request is evaluated on the model; the states it goes through are written
  out, and the witnesses of the properties speak about them.
\<close>

definition succeeds :: "'a result \<Rightarrow> bool" where
  "succeeds m = (case m of Inl _ \<Rightarrow> False | Inr _ \<Rightarrow> True)"

lemma succeeds_iff: "succeeds m \<longleftrightarrow> (\<exists>r. m = Inr r)"
  by (auto simp: succeeds_def split: sum.splits)

definition demo_company :: company where
  "demo_company = \<lparr>co_id = 1, co_booksLockedUntil = Some ''2024-12-31'', co_salesTaxRegistered = True\<rparr>"

definition demo_cash :: account_dto where
  "demo_cash = \<lparr>ad_accountNumber = ''1000'', ad_name = ''Cash'', ad_type = Asset, ad_subType = ''Cash'',
     ad_parentId = None, ad_description = None, ad_openingBalance = Some 500\<rparr>"

definition demo_draft :: journal_dto where
  "demo_draft = \<lparr>jd_date = ''2025-03-09'', jd_memo = Some ''Owner draw'', jd_posted = None,
     jd_lines = [\<lparr>pl_account = 10, pl_description = None, pl_debit = 0, pl_credit = 121 / 10, pl_order = None\<rparr>,
                 \<lparr>pl_account = 11, pl_description = None, pl_debit = 121 / 10, pl_credit = 0, pl_order = None\<rparr>],
     jd_isOpeningBalance = False\<rparr>"

definition cash_row :: "rat \<Rightarrow> account" where
  "cash_row b = \<lparr>acc_id = 10, acc_company = 1, acc_number = ''1000'', acc_name = ''Cash'', acc_type = Asset,
     acc_subType = ''Cash'', acc_parent = None, acc_description = None, acc_openingBalance = 500,
     acc_balance = b, acc_active = True\<rparr>"

definition equity_row :: "rat \<Rightarrow> account" where
  "equity_row b = \<lparr>acc_id = 11, acc_company = 1, acc_number = ''3900'', acc_name = ''Opening Balance Equity'',
     acc_type = Equity, acc_subType = ''Opening Balance Equity'', acc_parent = None, acc_description = None,
     acc_openingBalance = 0, acc_balance = b, acc_active = True\<rparr>"

definition demo_entry :: "nat \<Rightarrow> string \<Rightarrow> date \<Rightarrow> string \<Rightarrow> je_status \<Rightarrow> rat \<Rightarrow> bool \<Rightarrow> string option \<Rightarrow>
    nat option \<Rightarrow> bool \<Rightarrow> journal_entry" where
  "demo_entry i r d m st x posted why reversal debits =
     \<lparr>je_id = i, je_company = 1, je_reference = r, je_date = d, je_memo = Some m, je_status = st,
      je_totalDebits = x, je_totalCredits = x, je_createdBy = 7,
      je_postedBy = (if posted then Some 7 else None), je_postedAt = (if posted then Some 0 else None),
      je_voidReason = why, je_reversalOf = reversal,
      je_lines = [\<lparr>jl_account = 10, jl_description = None, jl_debit = (if debits then x else 0),
                   jl_credit = (if debits then 0 else x), jl_order = 0\<rparr>,
                  \<lparr>jl_account = 11, jl_description = None, jl_debit = (if debits then 0 else x),
                   jl_credit = (if debits then x else 0), jl_order = 1\<rparr>]\<rparr>"

definition demo_gl :: "date \<Rightarrow> string \<Rightarrow> string \<Rightarrow> nat \<Rightarrow> rat \<Rightarrow> bool \<Rightarrow> string \<Rightarrow> nat \<Rightarrow> gl_row list" where
  "demo_gl d r m i x debits st bal =
     map (\<lambda>(a, deb). \<lparr>gl_company = 1, gl_date = d, gl_reference = r, gl_account = a,
            gl_debit = (if deb then x else 0), gl_credit = (if deb then 0 else x),
            gl_balance = of_nat bal / 10, gl_sourceType = st, gl_sourceId = i, gl_memo = Some m,
            gl_cleared = False, gl_reconciliation = None\<rparr>)
       [(10, debits), (11, \<not> debits)]"

abbreviation demo_state :: "account list \<Rightarrow> journal_entry list \<Rightarrow> gl_row list \<Rightarrow> nat \<Rightarrow> ledger_db" where
  "demo_state as es gl k \<equiv>
     \<lparr>db_companies = [demo_company], db_accounts = as, db_entries = es, db_gl = gl, db_fresh = k\<rparr>"

definition demo_empty :: ledger_db where
  "demo_empty = demo_state [] [] [] 10"

definition demo_opening_entry :: journal_entry where
  "demo_opening_entry =
     demo_entry 12 ''JE-001'' ''2025-03-10'' ''Opening balance for 1000 Cash'' JE_posted 500 True None None True"

definition demo_opening_gl :: "gl_row list" where
  "demo_opening_gl = demo_gl ''2025-03-10'' ''JE-001'' ''Opening balance for 1000 Cash'' 10 500 True ''opening_balance'' 5000"

definition demo_draw :: "je_status \<Rightarrow> bool \<Rightarrow> string option \<Rightarrow> journal_entry" where
  "demo_draw st posted why =
     demo_entry 13 ''JE-002'' ''2025-03-09'' ''Owner draw'' st (121 / 10) posted why None False"

definition demo_draw_gl :: "gl_row list" where
  "demo_draw_gl = demo_gl ''2025-03-09'' ''JE-002'' ''Owner draw'' 13 (121 / 10) False ''journal_entry'' 4879"

definition demo_opened :: ledger_db where
  "demo_opened = demo_state [cash_row 500, equity_row 500] [demo_opening_entry] demo_opening_gl 13"

definition demo_drafted :: ledger_db where
  "demo_drafted = demo_state [cash_row 500, equity_row 500]
     [demo_opening_entry, demo_draw JE_draft False None] demo_opening_gl 14"

definition demo_posted :: ledger_db where
  "demo_posted = demo_state [cash_row (4879 / 10), equity_row (4879 / 10)]
     [demo_opening_entry, demo_draw JE_posted True None] (demo_opening_gl @ demo_draw_gl) 14"

definition demo_voided :: ledger_db where
  "demo_voided = demo_state [cash_row 500, equity_row 500]
     [demo_opening_entry, demo_draw JE_void True (Some ''wrong account''),
      demo_entry 14 ''JE-003'' ''2025-03-10'' ''Void JE-002: wrong account'' JE_posted (121 / 10) True None (Some 13) True]
     (demo_opening_gl @ demo_draw_gl @
      demo_gl ''2025-03-10'' ''JE-003'' ''Void JE-002: wrong account'' 14 (121 / 10) True ''journal_entry'' 5000) 15"

lemma demo_open: "acc_create demo_env 1 demo_cash 7 demo_empty = Inr (cash_row 500, demo_opened)"
  by code_simp

lemma demo_create: "je_create demo_env 1 7 demo_draft demo_opened = Inr (demo_draw JE_draft False None, demo_drafted)"
  by code_simp

lemma demo_post: "je_post demo_env 1 13 7 demo_drafted = Inr (demo_draw JE_posted True None, demo_posted)"
  by code_simp

lemma demo_void: "je_void demo_env 1 13 7 ''wrong account'' demo_posted = Inr ((), demo_voided)"
  by code_simp

lemma demo_reachable:
  "books_reachable decimal_half_up demo_drafted" "books_reachable decimal_half_up demo_posted"
  "books_reachable decimal_half_up demo_voided"
proof -
  have "books_reachable decimal_half_up demo_empty"
    by (rule reach_empty) (simp add: empty_books_def demo_empty_def)
  then have "books_reachable decimal_half_up demo_opened"
    by (rule reach_step [OF _ step_open_account [OF dec_demo_env demo_open]])
  then show d: "books_reachable decimal_half_up demo_drafted"
    by (rule reach_step [OF _ step_create [OF dec_demo_env demo_create]])
  then show p: "books_reachable decimal_half_up demo_posted"
    by (rule reach_step [OF _ step_post [OF dec_demo_env demo_post]])
  then show "books_reachable decimal_half_up demo_voided"
    by (rule reach_step [OF _ step_void [OF dec_demo_env demo_void]])
qed

section \<open>Two drafts that go wrong\<close>

text \<open>A draft that does not balance, and a draft on an account that is deleted before it is posted.\<close>

definition demo_lopsided_draft :: journal_dto where
  "demo_lopsided_draft = demo_draft\<lparr>jd_lines :=
     [\<lparr>pl_account = 10, pl_description = None, pl_debit = 0, pl_credit = 10, pl_order = None\<rparr>,
      \<lparr>pl_account = 11, pl_description = None, pl_debit = 9, pl_credit = 0, pl_order = None\<rparr>]\<rparr>"

definition demo_lopsided_entry :: journal_entry where
  "demo_lopsided_entry = (demo_draw JE_draft False None)\<lparr>je_totalDebits := 9, je_totalCredits := 10, je_lines :=
     [\<lparr>jl_account = 10, jl_description = None, jl_debit = 0, jl_credit = 10, jl_order = 0\<rparr>,
      \<lparr>jl_account = 11, jl_description = None, jl_debit = 9, jl_credit = 0, jl_order = 1\<rparr>]\<rparr>"

definition demo_lopsided :: ledger_db where
  "demo_lopsided = demo_state [cash_row 500, equity_row 500] [demo_opening_entry, demo_lopsided_entry] demo_opening_gl 14"

lemma demo_create_lopsided:
  "je_create demo_env 1 7 demo_lopsided_draft demo_opened = Inr (demo_lopsided_entry, demo_lopsided)"
  by code_simp

definition demo_spare_dto :: account_dto where
  "demo_spare_dto = demo_cash\<lparr>ad_accountNumber := ''1500'', ad_name := ''Spare'', ad_openingBalance := None\<rparr>"

definition spare_row :: account where
  "spare_row = (cash_row 0)\<lparr>acc_id := 13, acc_number := ''1500'', acc_name := ''Spare'', acc_openingBalance := 0\<rparr>"

definition demo_spare :: ledger_db where
  "demo_spare = demo_state [cash_row 500, equity_row 500, spare_row] [demo_opening_entry] demo_opening_gl 14"

lemma demo_open_spare: "acc_create demo_env 1 demo_spare_dto 7 demo_opened = Inr (spare_row, demo_spare)"
  by code_simp

definition demo_spare_draft :: journal_dto where
  "demo_spare_draft = demo_draft\<lparr>jd_lines :=
     [\<lparr>pl_account = 13, pl_description = None, pl_debit = 10, pl_credit = 0, pl_order = None\<rparr>,
      \<lparr>pl_account = 10, pl_description = None, pl_debit = 0, pl_credit = 10, pl_order = None\<rparr>]\<rparr>"

definition demo_spare_entry :: journal_entry where
  "demo_spare_entry = (demo_draw JE_draft False None)\<lparr>je_id := 14, je_totalDebits := 10, je_totalCredits := 10,
     je_lines := [\<lparr>jl_account = 13, jl_description = None, jl_debit = 10, jl_credit = 0, jl_order = 0\<rparr>,
                  \<lparr>jl_account = 10, jl_description = None, jl_debit = 0, jl_credit = 10, jl_order = 1\<rparr>]\<rparr>"

definition demo_spare_drafted :: ledger_db where
  "demo_spare_drafted = demo_state [cash_row 500, equity_row 500, spare_row]
     [demo_opening_entry, demo_spare_entry] demo_opening_gl 15"

lemma demo_create_spare_draft:
  "je_create demo_env 1 7 demo_spare_draft demo_spare = Inr (demo_spare_entry, demo_spare_drafted)"
  by code_simp

definition demo_spare_deleted :: ledger_db where
  "demo_spare_deleted = demo_state [cash_row 500, equity_row 500] [demo_opening_entry, demo_spare_entry] demo_opening_gl 15"

lemma demo_delete_spare: "acc_delete 1 13 demo_spare_drafted = Inr ((), demo_spare_deleted)"
  by code_simp

lemma demo_wrong_reachable:
  "books_reachable decimal_half_up demo_lopsided" "books_reachable decimal_half_up demo_spare_drafted"
proof -
  have "books_reachable decimal_half_up demo_empty"
    by (rule reach_empty) (simp add: empty_books_def demo_empty_def)
  then have o: "books_reachable decimal_half_up demo_opened"
    by (rule reach_step [OF _ step_open_account [OF dec_demo_env demo_open]])
  then show "books_reachable decimal_half_up demo_lopsided"
    by (rule reach_step [OF _ step_create [OF dec_demo_env demo_create_lopsided]])
  from o have "books_reachable decimal_half_up demo_spare"
    by (rule reach_step [OF _ step_open_account [OF dec_demo_env demo_open_spare]])
  then show "books_reachable decimal_half_up demo_spare_drafted"
    by (rule reach_step [OF _ step_create [OF dec_demo_env demo_create_spare_draft]])
qed

end
