(* ===== verification/BooksProps.thy ===== *)
theory BooksProps
  imports Demo
begin

text \<open>
  The properties of the books: what every company can rely on in any state its requests reach, and what
  single requests do on their success and error paths.
\<close>

section \<open>Any reachable state\<close>

text \<open>
  C1: whatever the manual journal and the chart of accounts do, in any order, every company's trial
  balance is zero: the debits of its general ledger equal the credits, to the last decimal.
\<close>

theorem trial_balance:
  assumes "decimal_lib D" and "books_reachable D s"
  shows "(\<Sum>g\<leftarrow>filter (\<lambda>g. gl_company g = c) (db_gl s). gl_debit g)
       = (\<Sum>g\<leftarrow>filter (\<lambda>g. gl_company g = c) (db_gl s). gl_credit g)"
proof -
  have "(\<Sum>g\<leftarrow>db_gl s. if gl_company g = c then gl_debit g - gl_credit g else 0) = 0"
    using books_reachable_ok [OF assms] by (intro trial_balance_zero) (simp_all add: books_ok_def)
  then show ?thesis by (simp add: sum_list_if_filter sum_list_subtractf)
qed

theorem trial_balance_witness:
  "(\<Sum>g\<leftarrow>filter (\<lambda>g. gl_company g = 1) (db_gl demo_voided). gl_debit g)
     = (\<Sum>g\<leftarrow>filter (\<lambda>g. gl_company g = 1) (db_gl demo_voided). gl_credit g) \<and>
   (\<Sum>g\<leftarrow>filter (\<lambda>g. gl_company g = 1) (db_gl demo_voided). gl_debit g) = 5242 / 10"
  by (rule conjI, rule trial_balance [OF half_up.decimal_lib_axioms demo_reachable(3)], code_simp)

text \<open>
  C2: an account's cached balance is the signed sum of its ledger rows, and the running balance of its
  last ledger row: the increments by delta never drift from the ledger.
\<close>

theorem balance_follows_ledger:
  assumes "decimal_lib D" and "books_reachable D s" and "a \<in> set (db_accounts s)"
  shows "acc_balance a = account_sum (db_gl s) a \<and> acc_balance a = last_balance (db_gl s) (acc_id a)"
proof -
  have "accounts_ok s" using books_reachable_ok [OF assms(1,2)] by (simp add: books_ok_def ledger_ok_def)
  then show ?thesis using accounts_ok_row(2,3) assms(3) by blast
qed

theorem balance_follows_ledger_witness:
  "acc_balance (cash_row (4879 / 10)) = account_sum (db_gl demo_posted) (cash_row (4879 / 10))
   \<and> acc_balance (cash_row (4879 / 10)) = last_balance (db_gl demo_posted) 10"
  using balance_follows_ledger [OF half_up.decimal_lib_axioms demo_reachable(2), of "cash_row (4879 / 10)"]
  by (simp add: demo_posted_def cash_row_def)

text \<open>
  C3: the general ledger is exactly the lines of the entries that were ever posted, each once, with the
  company, date, reference, account and amounts of its entry; drafts leave no trace, voided entries stay.
\<close>

theorem ledger_is_journal:
  assumes "decimal_lib D" and "books_reachable D s"
  shows "mset (map gl_proj (db_gl s)) = posted_lines (db_entries s)"
  using books_reachable_ok [OF assms] by (simp add: books_ok_def ledger_ok_def entries_ok_def)

theorem ledger_is_journal_witness:
  "mset (map gl_proj (db_gl demo_drafted)) = posted_lines (db_entries demo_drafted)
   \<and> length (db_gl demo_drafted) = 2 \<and> length (db_entries demo_drafted) = 2"
  by (rule conjI, rule ledger_is_journal [OF half_up.decimal_lib_axioms demo_reachable(1)]) code_simp

lemma summarize_totals:
  assumes "decimal_lib D" and "\<forall>a \<in> set accts. money (acc_balance a)"
  shows "fst (summarize D accts) = (\<lambda>t. \<Sum>a\<leftarrow>accts. if acc_type a = t then acc_balance a else 0)"
proof -
  let ?step = "\<lambda>(tot, cnt) a. (tot(acc_type a := fixed4 D (tot (acc_type a) + acc_balance a)),
      cnt(acc_type a := cnt (acc_type a) + (1::nat)))"
  have "fst (foldl ?step (tot, cnt) accts) = (\<lambda>t. tot t + (\<Sum>a\<leftarrow>accts. if acc_type a = t then acc_balance a else 0))"
    if "\<forall>t. money (tot t)" for tot cnt
    using that assms(2)
  proof (induction accts arbitrary: tot cnt)
    case Nil
    then show ?case by simp
  next
    case (Cons a accts)
    have id: "fixed4 D (tot (acc_type a) + acc_balance a) = tot (acc_type a) + acc_balance a"
      using Cons.prems by (intro decimal_lib.fixed_id [OF assms(1)] on_grid_add) auto
    define tot' where "tot' = tot(acc_type a := tot (acc_type a) + acc_balance a)"
    have "\<forall>t. money (tot' t)" using Cons.prems by (auto simp: tot'_def intro: on_grid_add)
    then have "fst (foldl ?step (tot', cnt(acc_type a := cnt (acc_type a) + 1)) accts)
        = (\<lambda>t. tot' t + (\<Sum>a\<leftarrow>accts. if acc_type a = t then acc_balance a else 0))"
      using Cons.prems(2) by (intro Cons.IH) simp_all
    moreover have "foldl ?step (tot, cnt) (a # accts) = foldl ?step (tot', cnt(acc_type a := cnt (acc_type a) + 1)) accts"
      by (simp add: id tot'_def)
    ultimately show ?case by (simp only:) (auto simp: tot'_def fun_eq_iff)
  qed
  from this [of "\<lambda>_. 0" "\<lambda>_. 0"] show ?thesis
    by (simp add: summarize_def case_prod_unfold)
qed

lemma signed_total:
  "(\<Sum>a\<leftarrow>as. if acc_type a = Asset then acc_balance a else 0)
     + (\<Sum>a\<leftarrow>as. if acc_type a = Expense then acc_balance a else 0)
     - ((\<Sum>a\<leftarrow>as. if acc_type a = Liability then acc_balance a else 0)
        + (\<Sum>a\<leftarrow>as. if acc_type a = Equity then acc_balance a else 0)
        + (\<Sum>a\<leftarrow>as. if acc_type a = Revenue then acc_balance a else 0))
   = (\<Sum>a\<leftarrow>as. (if acc_type a = Asset \<or> acc_type a = Expense then 1 else -1) * acc_balance a)"
proof (induction as)
  case Nil
  then show ?case by simp
next
  case (Cons a as)
  then show ?case by (cases "acc_type a") simp_all
qed

text \<open>
  C4: the accounting equation on the summary of the chart of accounts: assets plus expenses equal
  liabilities plus equity plus revenue, for every company.
\<close>

theorem accounting_equation:
  assumes "decimal_lib D" and "books_reachable D s"
  shows "let totals = fst (summarize D (filter (\<lambda>a. acc_company a = c) (db_accounts s)))
    in totals Asset + totals Expense = totals Liability + totals Equity + totals Revenue"
proof -
  define totals where "totals = fst (summarize D (filter (\<lambda>a. acc_company a = c) (db_accounts s)))"
  let ?accts = "filter (\<lambda>a. acc_company a = c) (db_accounts s)"
  let ?w = "\<lambda>a. (if acc_type a = Asset \<or> acc_type a = Expense then 1 else -1) :: rat"
  note ok = books_reachable_ok [OF assms(1,2)]
  have l: "ledger_ok s" using ok by (simp add: books_ok_def)
  then have acc: "accounts_ok s" by (simp add: ledger_ok_def)
  have "totals = (\<lambda>t. \<Sum>a\<leftarrow>?accts. if acc_type a = t then acc_balance a else 0)"
    unfolding totals_def using acc
    by (intro summarize_totals [OF assms(1)]) (auto dest: accounts_ok_row)
  moreover have "(\<Sum>a\<leftarrow>?accts. ?w a * acc_balance a) = 0"
  proof -
    have "(\<Sum>a\<leftarrow>?accts. ?w a * acc_balance a)
        = (\<Sum>a\<leftarrow>db_accounts s. if acc_company a = c then ?w a * account_sum (db_gl s) a else 0)"
      unfolding sum_list_if_filter using acc
      by (intro arg_cong [where f = sum_list] map_cong refl if_cong) (simp add: accounts_ok_row(2) [symmetric])
    also have "\<dots> = (\<Sum>g\<leftarrow>db_gl s. if gl_company g = c then gl_debit g - gl_credit g else 0)"
      using acc by (intro account_total_gl) (simp_all add: accounts_ok_def)
    also have "\<dots> = 0" using ok by (intro trial_balance_zero [OF l]) simp
    finally show ?thesis .
  qed
  ultimately show ?thesis unfolding Let_def totals_def [symmetric] using signed_total [of ?accts] by simp
qed

theorem accounting_equation_witness:
  "let totals = fst (summarize decimal_half_up (filter (\<lambda>a. acc_company a = 1) (db_accounts demo_posted)))
   in totals Asset + totals Expense = totals Liability + totals Equity + totals Revenue"
  by (rule accounting_equation [OF half_up.decimal_lib_axioms demo_reachable(2)])

text \<open>
  C8: journal references run JE-001, JE-002, ... without a gap or a duplicate in every company, so the
  next one, counted from the entries, is always free and the unique index never refuses an entry.
\<close>

theorem references_sequential:
  assumes "decimal_lib D" and "books_reachable D s"
  shows "map je_reference (company_entries (db_entries s) c)
      = map (\<lambda>k. formatJournalRef (k + 1)) [0..<length (company_entries (db_entries s) c)]
    \<and> distinct (map je_reference (company_entries (db_entries s) c))
    \<and> reference_free s c (nextJournalReference s c)"
proof -
  have r: "refs_in_sequence (db_entries s)"
    using books_reachable_ok [OF assms] by (simp add: books_ok_def ledger_ok_def entries_ok_def)
  then have eq: "map je_reference (company_entries (db_entries s) c)
      = map (\<lambda>k. formatJournalRef (k + 1)) [0..<length (company_entries (db_entries s) c)]"
    by (simp add: refs_in_sequence_def)
  moreover have "distinct (map (\<lambda>k. formatJournalRef (k + 1)) [0..<n])" for n
    by (simp add: distinct_map inj_on_def formatJournalRef_inj)
  ultimately show ?thesis using next_reference_free [OF r] by simp
qed

theorem references_sequential_witness:
  "map je_reference (company_entries (db_entries demo_voided) 1)
      = map (\<lambda>k. formatJournalRef (k + 1)) [0..<length (company_entries (db_entries demo_voided) 1)]
    \<and> distinct (map je_reference (company_entries (db_entries demo_voided) 1))
    \<and> reference_free demo_voided 1 (nextJournalReference demo_voided 1)"
  by (rule references_sequential [OF half_up.decimal_lib_axioms demo_reachable(3)])

text \<open>
  C10: the chart of accounts stays well-formed: account numbers are unique per company, the kind of an
  account always belongs to its type, and a parent is an account of the same company.
\<close>

theorem chart_wellformed:
  assumes "decimal_lib D" and "books_reachable D s" and "a \<in> set (db_accounts s)"
  shows "(\<forall>b \<in> set (db_accounts s). acc_company b = acc_company a \<longrightarrow> acc_number b = acc_number a \<longrightarrow> b = a)
    \<and> isValidSubType (acc_type a) (acc_subType a)
    \<and> (\<forall>p. acc_parent a = Some p \<longrightarrow> (\<exists>b \<in> set (db_accounts s). acc_id b = p \<and> acc_company b = acc_company a))"
proof -
  have c: "chart_ok s" using books_reachable_ok [OF assms(1,2)] by (simp add: books_ok_def)
  then have "inj_on (\<lambda>a. (acc_company a, acc_number a)) (set (db_accounts s))"
    by (simp add: chart_ok_def distinct_map)
  then have "\<forall>b \<in> set (db_accounts s). acc_company b = acc_company a \<longrightarrow> acc_number b = acc_number a \<longrightarrow> b = a"
    using assms(3) by (simp add: inj_on_def)
  then show ?thesis using c assms(3) unfolding chart_ok_def by blast
qed

theorem chart_wellformed_witness:
  "isValidSubType Asset (acc_subType (cash_row 500)) \<and> cash_row 500 \<in> set (db_accounts demo_drafted)"
proof -
  have m: "cash_row 500 \<in> set (db_accounts demo_drafted)" by (simp add: demo_drafted_def)
  have "isValidSubType (acc_type (cash_row 500)) (acc_subType (cash_row 500))"
    using chart_wellformed [OF half_up.decimal_lib_axioms demo_reachable(1) m] by (elim conjE)
  with m show ?thesis by (simp add: cash_row_def)
qed

text \<open>
  C7: the general-ledger report and the ledger table never disagree: for any company and period, the
  lines of the journal that the report counts as being in the book are the rows of the ledger table,
  with the same dates, references, account codes and amounts, and nothing is lost in its joins.
\<close>

theorem report_agrees_with_ledger:
  assumes "decimal_lib D" and "books_reachable D s"
  shows "mset (map report_proj (buildLines s company begins finish))
    = mset (map (gl_report_proj (db_accounts s) \<circ> gl_proj)
        (filter (\<lambda>g. gl_company g = company \<and> begins \<le> gl_date g \<and> gl_date g \<le> finish) (db_gl s)))"
  using books_reachable_ok [OF assms] books_reachable_reversals [OF assms]
  by (intro buildLines_gl) (simp_all add: books_ok_def)

theorem report_agrees_with_ledger_witness:
  "mset (map report_proj (buildLines demo_voided 1 ''2025-03-01'' ''2025-03-09''))
    = mset (map (gl_report_proj (db_accounts demo_voided) \<circ> gl_proj)
        (filter (\<lambda>g. gl_company g = 1 \<and> ''2025-03-01'' \<le> gl_date g \<and> gl_date g \<le> ''2025-03-09'') (db_gl demo_voided)))"
  by (rule report_agrees_with_ledger [where company = 1 and begins = "''2025-03-01''" and finish = "''2025-03-09''",
        OF half_up.decimal_lib_axioms demo_reachable(3)])

section \<open>Single requests\<close>

text \<open>
  C6: voiding a posted entry takes back exactly what it did: every account's balance moves by the
  opposite of the entry's effect, a posted reversal dated today points at the entry, the entry is kept
  as void and no other entry changes.
\<close>

theorem void_reverses:
  assumes "decimal_lib (dec E)" and "books_reachable (dec E) s"
    and run: "je_void E company i user reason s = Inr (u, t)"
    and e: "e \<in> set (db_entries s)" "je_id e = i" "je_status e = JE_posted"
  shows "db_accounts t = map (\<lambda>a. a\<lparr>acc_balance := acc_balance a - entry_effect e a\<rparr>) (db_accounts s)
    \<and> (\<exists>rv. db_entries t = update_row je_id i (void_row reason) (db_entries s) @ [rv]
            \<and> je_reversalOf rv = Some i \<and> je_status rv = JE_posted \<and> je_date rv = today E)"
proof -
  have ok: "ledger_ok s" using books_reachable_ok [OF assms(1,2)] by (simp add: books_ok_def)
  obtain r where r: "r \<in> set (db_entries s)" "je_id r = i"
    and cases: "je_status r = JE_draft \<and> t = s\<lparr>db_entries := update_row je_id i (void_row reason) (db_entries s)\<rparr>
      \<or> je_status r = JE_posted \<and>
        (\<exists>e s1. createEntry E s (void_input E company user reason r) = Inr (e, s1) \<and>
          t = s1\<lparr>db_entries := update_row je_id i (void_row reason) (db_entries s1)\<rparr>)"
    by (rule je_void_Inr [OF run])
  have "r = e" using entry_unique [OF ids_distinct [OF ok]] r e by simp
  with cases e(3) obtain rv s1 where c: "createEntry E s (void_input E company user reason e) = Inr (rv, s1)"
    and t: "t = s1\<lparr>db_entries := update_row je_id i (void_row reason) (db_entries s1)\<rparr>" by auto
  note k = decimal_lib.createEntry_keeps [OF assms(1) refl c ok] and h = createEntry_Inr [OF c]
  have ent: "entries_ok s" using ok by (simp add: ledger_ok_def)
  then have lines: "list_all line_ok (je_lines e)"
    using e(1) by (auto simp: entries_ok_def list_all_iff entry_ok_def)
  have "entry_effect rv a = - entry_effect e a" for a
    using decimal_lib.reversal_effect [OF assms(1) lines] h(7) by (simp add: void_input_def)
  then have acc: "db_accounts t = map (\<lambda>a. a\<lparr>acc_balance := acc_balance a - entry_effect e a\<rparr>) (db_accounts s)"
    using k(6) by (simp add: t void_input_def)
  have "je_id rv \<noteq> i" using ent e(1,2) h(1) by (auto simp: entries_ok_def)
  then have "db_entries t = update_row je_id i (void_row reason) (db_entries s) @ [rv]"
    using k(2) by (simp add: t update_row_def)
  moreover have "je_reversalOf rv = Some i" "je_status rv = JE_posted" "je_date rv = today E"
    using h(4,5,8) e(2) by (simp_all add: void_input_def)
  ultimately show ?thesis using acc by blast
qed

theorem void_reverses_witness:
  "db_accounts demo_voided
     = map (\<lambda>a. a\<lparr>acc_balance := acc_balance a - entry_effect (demo_draw JE_posted True None) a\<rparr>) (db_accounts demo_posted)"
proof -
  have r: "books_reachable (dec demo_env) demo_posted" using demo_reachable(2) by simp
  have l: "decimal_lib (dec demo_env)" using half_up.decimal_lib_axioms by simp
  have m: "demo_draw JE_posted True None \<in> set (db_entries demo_posted)" by (simp add: demo_posted_def)
  show ?thesis
    using void_reverses [OF l r demo_void m] by (simp add: demo_draw_def demo_entry_def)
qed

lemma assertPeriodOpen_locked:
  assumes "row_with co_id company (db_companies s) = Some co" and "co_booksLockedUntil co = Some l"
    and "l \<noteq> []" and "d \<le> l"
  shows "assertPeriodOpen s company d = Inl (BadRequest ''PERIOD_LOCKED'')"
  using assms by (simp add: assertPeriodOpen_def)



text \<open>
  The validation loop of \<open>createEntry\<close>: it succeeds exactly when every line has one positive side and
  no negative one, and then returns the two totals.
\<close>

definition line_valid :: "posting_line \<Rightarrow> bool" where
  "line_valid l \<longleftrightarrow> (0 < pl_debit l \<and> pl_credit l = 0) \<or> (0 < pl_credit l \<and> pl_debit l = 0)"

lemma checkLine_Inr: "checkLine tot l = Inr r \<longleftrightarrow> line_valid l \<and> r = (fst tot + pl_debit l, snd tot + pl_credit l)"
  by (auto simp: checkLine_def line_valid_def Let_def throw_if_Inr)

lemma foldE_checkLine:
  "foldE checkLine tot ls = Inr r \<longleftrightarrow>
     list_all line_valid ls \<and> r = (fst tot + (\<Sum>l\<leftarrow>ls. pl_debit l), snd tot + (\<Sum>l\<leftarrow>ls. pl_credit l))"
  by (induction ls arbitrary: tot) (auto simp: bindE_Inr checkLine_Inr add.assoc)

lemma chosen_all_iff:
  assumes "distinct (map acc_id (db_accounts s))"
  shows "length (chosen_accounts s c (uniq ids)) = length (uniq ids) \<longleftrightarrow>
    (\<forall>i \<in> set ids. \<exists>a \<in> set (db_accounts s). acc_id a = i \<and> acc_company a = c)"
proof -
  let ?ch = "chosen_accounts s c (uniq ids)"
  have d: "distinct (map acc_id ?ch)" using assms by (simp add: chosen_accounts_def distinct_map_filter)
  have "length ?ch = card (set (map acc_id ?ch))" using distinct_card [OF d] by simp
  moreover have sub: "set (map acc_id ?ch) \<subseteq> set ids" by (auto simp: chosen_accounts_def)
  moreover have "length (uniq ids) = card (set ids)" by simp
  ultimately have "length ?ch = length (uniq ids) \<longleftrightarrow> set (map acc_id ?ch) = set ids"
    by (metis List.finite_set card_subset_eq)
  also have "\<dots> \<longleftrightarrow> (\<forall>i \<in> set ids. \<exists>a \<in> set (db_accounts s). acc_id a = i \<and> acc_company a = c)"
  proof -
    have "i \<in> set (map acc_id ?ch) \<longleftrightarrow> i \<in> set ids \<and> (\<exists>a \<in> set (db_accounts s). acc_id a = i \<and> acc_company a = c)" for i
      by (auto simp: chosen_accounts_def)
    then show ?thesis by blast
  qed
  finally show ?thesis .
qed

lemma stored_lines_all:
  "(\<forall>l \<in> set (stored_lines D i ls). P (jl_debit l) (jl_credit l))
   \<longleftrightarrow> (\<forall>l \<in> set ls. P (fixed4 D (pl_debit l)) (fixed4 D (pl_credit l)))"
  by (induction ls arbitrary: i) auto

lemma applyPosting_total:
  assumes "\<forall>l \<in> set (je_lines e). row_with acc_id (jl_account l) ac \<noteq> None"
  shows "\<exists>t. applyPosting D s e ac st sid = Inr t"
  using assms by (auto simp: applyPosting_def Let_def throw_if_def)

lemma stored_lines_valid:
  assumes "decimal_lib D" and "list_all line_valid ls"
  shows "(\<forall>l \<in> set (stored_lines D i ls). chk_line_shape l \<and> chk_non_negative l)
    \<longleftrightarrow> (\<forall>l \<in> set ls. 0 < fixed4 D (pl_debit l) + fixed4 D (pl_credit l))"
proof -
  have "chk_line_shape l \<and> chk_non_negative l \<longleftrightarrow>
      ((0 < jl_debit l \<and> jl_credit l = 0) \<or> (0 < jl_credit l \<and> jl_debit l = 0))" for l
    by (auto simp: chk_line_shape_def chk_non_negative_def)
  then have "(\<forall>l \<in> set (stored_lines D i ls). chk_line_shape l \<and> chk_non_negative l)
    \<longleftrightarrow> (\<forall>l \<in> set ls. (0 < fixed4 D (pl_debit l) \<and> fixed4 D (pl_credit l) = 0)
                     \<or> (0 < fixed4 D (pl_credit l) \<and> fixed4 D (pl_debit l) = 0))"
    by (simp only: stored_lines_all [where P = "\<lambda>d c. (0 < d \<and> c = 0) \<or> (0 < c \<and> d = 0)"])
  also have "\<dots> \<longleftrightarrow> (\<forall>l \<in> set ls. 0 < fixed4 D (pl_debit l) + fixed4 D (pl_credit l))"
    using assms(2) decimal_lib.fixed_0 [OF assms(1), of 4]
    by (intro ball_cong refl) (auto simp: list_all_iff line_valid_def)
  finally show ?thesis .
qed

lemma entry_accepted:
  assumes lib: "decimal_lib (dec E)" and ok: "ledger_ok s"
  shows "(\<exists>r. createEntry E s inp = Inr r) \<longleftrightarrow>
    2 \<le> length (pi_lines inp) \<and> list_all line_valid (pi_lines inp) \<and>
    (\<forall>l \<in> set (pi_lines inp). 0 < fixed4 (dec E) (pl_debit l) + fixed4 (dec E) (pl_credit l)) \<and>
    (\<forall>l \<in> set (pi_lines inp). \<exists>a \<in> set (db_accounts s).
        acc_id a = pl_account l \<and> acc_company a = pi_company inp \<and> acc_active a) \<and>
    (pi_posted inp \<longrightarrow> assertPeriodOpen s (pi_company inp) (pi_date inp) = Inr () \<and>
       moneyEquals (\<Sum>l\<leftarrow>pi_lines inp. pl_debit l) (\<Sum>l\<leftarrow>pi_lines inp. pl_credit l))"
    (is "_ \<longleftrightarrow> ?accept")
proof -
  note ids = ledger_ok_ids [OF ok]
  let ?ids = "map pl_account (pi_lines inp)"
  let ?ac = "chosen_accounts s (pi_company inp) (uniq ?ids)"
  let ?lns = "stored_lines (dec E) 0 (pi_lines inp)"
  have free: "reference_free s (pi_company inp) (nextJournalReference s (pi_company inp))"
    using ok by (intro next_reference_free) (simp add: ledger_ok_def entries_ok_def)
  have found: "\<forall>l \<in> set ?lns. row_with acc_id (jl_account l) ?ac \<noteq> None" if all: "length ?ac = length (uniq ?ids)"
  proof
    fix l assume "l \<in> set ?lns"
    then have "jl_account l \<in> set (map jl_account ?lns)" by simp
    then have mem: "jl_account l \<in> set ?ids" unfolding stored_lines_accounts .
    then obtain a where "a \<in> set (db_accounts s)" "acc_id a = jl_account l" "acc_company a = pi_company inp"
      using all unfolding chosen_all_iff [OF ids] by blast
    then have "a \<in> set ?ac" "acc_id a = jl_account l" using mem by (auto simp: chosen_accounts_def)
    then show "row_with acc_id (jl_account l) ?ac \<noteq> None" by (metis imageI row_with_None)
  qed
  have active: "(\<forall>i \<in> set ?ids. \<exists>a \<in> set (db_accounts s). acc_id a = i \<and> acc_company a = pi_company inp) \<and>
      (\<forall>a \<in> set ?ac. acc_active a) \<longleftrightarrow>
    (\<forall>l \<in> set (pi_lines inp). \<exists>a \<in> set (db_accounts s).
        acc_id a = pl_account l \<and> acc_company a = pi_company inp \<and> acc_active a)" (is "?L \<longleftrightarrow> ?R")
  proof
    assume ?L
    then show ?R by (fastforce simp: chosen_accounts_def)
  next
    assume R: ?R
    have "acc_active a" if "a \<in> set ?ac" for a
    proof -
      from that obtain l where l: "l \<in> set (pi_lines inp)" "acc_id a = pl_account l" and a: "a \<in> set (db_accounts s)"
        by (auto simp: chosen_accounts_def)
      from R l(1) obtain b where "b \<in> set (db_accounts s)" "acc_id b = pl_account l" "acc_active b" by blast
      then show ?thesis using ids a l(2) by (metis option.inject row_with_distinct)
    qed
    with R show ?L by auto
  qed
  have shape: "list_all line_valid (pi_lines inp) \<Longrightarrow>
      (\<forall>l \<in> set ?lns. chk_line_shape l \<and> chk_non_negative l)
      \<longleftrightarrow> (\<forall>l \<in> set (pi_lines inp). 0 < fixed4 (dec E) (pl_debit l) + fixed4 (dec E) (pl_credit l))"
    by (rule stored_lines_valid [OF lib])
  show ?thesis
  proof
    assume "\<exists>r. createEntry E s inp = Inr r"
    then obtain e t where c: "createEntry E s inp = Inr (e, t)" by auto
    note h = createEntry_Inr [OF c]
    have v: "list_all line_valid (pi_lines inp)"
      and bal: "pi_posted inp \<longrightarrow> moneyEquals (\<Sum>l\<leftarrow>pi_lines inp. pl_debit l) (\<Sum>l\<leftarrow>pi_lines inp. pl_credit l)"
      using c by (auto simp: createEntry_def Let_def throw_if_Inr bindE_Inr foldE_checkLine)
    have "\<forall>i \<in> set ?ids. \<exists>a \<in> set (db_accounts s). acc_id a = i \<and> acc_company a = pi_company inp"
      using h(12) chosen_all_iff [OF ids, of "pi_company inp" ?ids] by blast
    then have "\<forall>l \<in> set (pi_lines inp). \<exists>a \<in> set (db_accounts s).
        acc_id a = pl_account l \<and> acc_company a = pi_company inp \<and> acc_active a"
      using h(11) active by blast
    then show ?accept using h(7,9,10,13) v bal shape [OF v] by simp
  next
    assume acc: ?accept
    then have a1: "length ?ac = length (uniq ?ids)" and a2: "\<forall>a \<in> set ?ac. acc_active a"
      using active chosen_all_iff [OF ids] by blast+
    have chk: "\<not> (\<exists>l \<in> set ?lns. \<not> chk_line_shape l \<or> \<not> chk_non_negative l)" using acc shape by auto
    have period: "(if pi_posted inp then assertPeriodOpen s (pi_company inp) (pi_date inp) else Inr ()) = Inr ()"
      using acc by simp
    have tot: "foldE checkLine (0, 0) (pi_lines inp)
        = Inr (\<Sum>l\<leftarrow>pi_lines inp. pl_debit l, \<Sum>l\<leftarrow>pi_lines inp. pl_credit l)"
      using acc by (simp add: foldE_checkLine)
    note ch = a1 a2 [unfolded chosen_accounts_def]
    note found' = applyPosting_total [of _ ?ac]
    show "\<exists>r. createEntry E s inp = Inr r"
      unfolding createEntry_def Let_def period tot bindE_simps chosen_accounts_def [symmetric]
      using acc a1 a2 chk free found [OF a1]
      by (auto simp: throw_if_def bindE_def split: sum.splits dest: applyPosting_total [THEN exE]
          simp: applyPosting_def Let_def)
  qed
qed

text \<open>
  C5: a complete account of when the engine accepts an entry. On any reachable books it succeeds exactly
  when there are at least two lines, each with one positive side that does not round to zero, every
  account exists in the company and is active, and, for an entry to be posted, the period is open and
  debits and credits agree within the tolerance. It never crashes and never runs into the unique index.
\<close>

theorem posting_accepted_iff:
  assumes lib: "decimal_lib (dec E)" and reach: "books_reachable (dec E) s"
  shows "(\<exists>r. createEntry E s inp = Inr r) \<longleftrightarrow>
    2 \<le> length (pi_lines inp) \<and> list_all line_valid (pi_lines inp) \<and>
    (\<forall>l \<in> set (pi_lines inp). 0 < fixed4 (dec E) (pl_debit l) + fixed4 (dec E) (pl_credit l)) \<and>
    (\<forall>l \<in> set (pi_lines inp). \<exists>a \<in> set (db_accounts s).
        acc_id a = pl_account l \<and> acc_company a = pi_company inp \<and> acc_active a) \<and>
    (pi_posted inp \<longrightarrow> assertPeriodOpen s (pi_company inp) (pi_date inp) = Inr () \<and>
       moneyEquals (\<Sum>l\<leftarrow>pi_lines inp. pl_debit l) (\<Sum>l\<leftarrow>pi_lines inp. pl_credit l))"
proof -
  have "ledger_ok s" using books_reachable_ok [OF assms] by (simp add: books_ok_def)
  then show ?thesis by (rule entry_accepted [OF lib])
qed

theorem posting_accepted_iff_witness:
  "\<exists>r. createEntry demo_env demo_posted (void_input demo_env 1 7 ''slip'' (demo_draw JE_posted True None)) = Inr r"
proof -
  have r: "books_reachable (dec demo_env) demo_posted" using demo_reachable(2) by simp
  have l: "decimal_lib (dec demo_env)" using half_up.decimal_lib_axioms by simp
  show ?thesis unfolding posting_accepted_iff [OF l r] by code_simp
qed

text \<open>
  The commit is stricter than the engine. An entry the engine accepts is committed exactly when it is
  a draft or its stored lines balance to the last decimal; one that is off by no more than the tolerance,
  but off, passes every check of the service and then fails with a database error.
\<close>

theorem commit_is_exact:
  assumes "decimal_lib (dec E)" and "books_reachable (dec E) s" and c: "createEntry E s inp = Inr (e, t)"
  shows "transaction (\<lambda>s. createEntry E s inp) s =
    (if pi_posted inp \<and> (\<Sum>l\<leftarrow>pi_lines inp. fixed4 (dec E) (pl_debit l)) \<noteq> (\<Sum>l\<leftarrow>pi_lines inp. fixed4 (dec E) (pl_credit l))
     then Inl (DbError ''UNBALANCED_ENTRY'') else Inr (e, t))"
proof -
  note h = createEntry_Inr [OF c]
  have sums: "(\<Sum>l\<leftarrow>stored_lines D i ls. jl_debit l) = (\<Sum>l\<leftarrow>ls. fixed4 D (pl_debit l))"
    "(\<Sum>l\<leftarrow>stored_lines D i ls. jl_credit l) = (\<Sum>l\<leftarrow>ls. fixed4 D (pl_credit l))" for D i ls
    by (induction ls arbitrary: i) simp_all
  have ent: "db_entries t = db_entries s @ [e]" using createEntry_frame [OF c] by simp
  have "assert_entries_balanced s t \<longleftrightarrow> e \<in> set (db_entries s) \<or> je_status e = JE_draft \<or> entry_balanced e"
    by (auto simp: assert_entries_balanced_def ent)
  moreover have "e \<notin> set (db_entries s)"
    using books_reachable_ok [OF assms(1,2)] h(1) by (auto simp: books_ok_def ledger_ok_def entries_ok_def)
  moreover have "je_status e = JE_draft \<longleftrightarrow> \<not> pi_posted inp" using h(5) by simp
  moreover have "entry_balanced e \<longleftrightarrow>
      (\<Sum>l\<leftarrow>pi_lines inp. fixed4 (dec E) (pl_debit l)) = (\<Sum>l\<leftarrow>pi_lines inp. fixed4 (dec E) (pl_credit l))"
    by (simp add: entry_balanced_def h(7) sums)
  ultimately show ?thesis by (simp add: transaction_def c throw_if_def)
qed

definition demo_off_by_tolerance :: posting_input where
  "demo_off_by_tolerance = (void_input demo_env 1 7 ''slip'' (demo_draw JE_posted True None))
     \<lparr>pi_lines := [\<lparr>pl_account = 10, pl_description = None, pl_debit = 100, pl_credit = 0, pl_order = None\<rparr>,
                   \<lparr>pl_account = 11, pl_description = None, pl_debit = 0, pl_credit = 1000001 / 10000, pl_order = None\<rparr>]\<rparr>"

theorem commit_is_exact_witness:
  "succeeds (createEntry demo_env demo_posted demo_off_by_tolerance) \<and>
   transaction (\<lambda>s. createEntry demo_env s demo_off_by_tolerance) demo_posted = Inl (DbError ''UNBALANCED_ENTRY'')"
proof -
  have r: "books_reachable (dec demo_env) demo_posted" using demo_reachable(2) by simp
  have l: "decimal_lib (dec demo_env)" using half_up.decimal_lib_axioms by simp
  have s: "succeeds (createEntry demo_env demo_posted demo_off_by_tolerance)" by code_simp
  then obtain e t where c: "createEntry demo_env demo_posted demo_off_by_tolerance = Inr (e, t)"
    by (auto simp: succeeds_def split: sum.splits)
  have "pi_posted demo_off_by_tolerance \<and>
      (\<Sum>l\<leftarrow>pi_lines demo_off_by_tolerance. fixed4 (dec demo_env) (pl_debit l))
      \<noteq> (\<Sum>l\<leftarrow>pi_lines demo_off_by_tolerance. fixed4 (dec demo_env) (pl_credit l))" by code_simp
  with commit_is_exact [OF l r c] s show ?thesis by simp
qed

text \<open>
  A draft that does not balance can be neither posted nor voided. The service marks the draft void,
  but the header trigger of the database checks every status that is not draft, so the commit fails.
\<close>

theorem unbalanced_draft_is_stuck:
  assumes "decimal_lib (dec E)" and "books_reachable (dec E) s"
    and e: "e \<in> set (db_entries s)" "je_status e = JE_draft" "\<not> entry_balanced e"
    and unlocked: "assertNotReconciled s (je_company e) [Some (je_id e)] = Inr ()"
  shows "je_void E (je_company e) (je_id e) user reason s = Inl (DbError ''UNBALANCED_ENTRY'')
    \<and> (\<nexists>r. je_post E (je_company e) (je_id e) user s = Inr r)"
proof -
  have ok: "ledger_ok s" using books_reachable_ok [OF assms(1,2)] by (simp add: books_ok_def)
  have "find (\<lambda>x. je_id x = je_id e \<and> je_company x = je_company e) (db_entries s) \<noteq> None"
    using e(1) by (auto simp: find_None_iff)
  then obtain r where r: "find (\<lambda>x. je_id x = je_id e \<and> je_company x = je_company e) (db_entries s) = Some r" by blast
  have re: "r = e" using find_Some_mem [OF r] entry_unique [OF ids_distinct [OF ok]] e(1) by blast
  let ?v = "e\<lparr>je_status := JE_void, je_voidReason := Some reason\<rparr>"
  let ?t = "s\<lparr>db_entries := update_row je_id (je_id e)
      (\<lambda>e. e\<lparr>je_status := JE_void, je_voidReason := Some reason\<rparr>) (db_entries s)\<rparr>"
  have "?v \<in> set (db_entries ?t)" using e(1) by (force simp: update_row_def)
  moreover have "?v \<notin> set (db_entries s)"
  proof
    assume "?v \<in> set (db_entries s)"
    then have "?v = e" using entry_unique [OF ids_distinct [OF ok], of ?v e] e(1) by simp
    then have "je_status ?v = je_status e" by (rule arg_cong)
    then show False using e(2) by simp
  qed
  moreover have "\<not> entry_balanced ?v" using e(3) by (simp add: entry_balanced_def)
  moreover have "je_status ?v \<noteq> JE_draft" by simp
  ultimately have "\<not> assert_entries_balanced s ?t" unfolding assert_entries_balanced_def by blast
  then have void: "je_void E (je_company e) (je_id e) user reason s = Inl (DbError ''UNBALANCED_ENTRY'')"
    using e(2) unlocked by (simp add: je_void_def transaction_def r re)
  have "\<nexists>r. je_post E (je_company e) (je_id e) user s = Inr r"
  proof
    assume "\<exists>r. je_post E (je_company e) (je_id e) user s = Inr r"
    then obtain x t where p: "je_post E (je_company e) (je_id e) user s = Inr (x, t)" by auto
    then have d: "postDraft E s (je_company e) (je_id e) user = Inr (x, t)" and b: "assert_entries_balanced s t"
      by (simp_all add: je_post_def transaction_Inr)
    note k = decimal_lib.postDraft_keeps [OF assms(1) refl d ok]
    obtain q where q: "q \<in> set (db_entries s)" "je_id q = je_id e"
      and x: "je_status x = JE_posted" "je_lines x = je_lines q"
      by (rule postDraft_Inr [OF d]) auto
    have "q = e" using entry_unique [OF ids_distinct [OF ok] q(1) e(1) q(2)] .
    then have "\<not> entry_balanced x" using x e(3) by (simp add: entry_balanced_def)
    moreover have "x \<in> set (db_entries t)" using k(2) e(1) by force
    ultimately have "x \<in> set (db_entries s)" using b x(1) unfolding assert_entries_balanced_def by auto
    moreover have "je_id x = je_id e" by (rule postDraft_Inr [OF d]) simp
    ultimately have "x = e" using entry_unique [OF ids_distinct [OF ok]] e(1) by blast
    then show False using x(1) e(2) by simp
  qed
  with void show ?thesis by simp
qed

theorem unbalanced_draft_is_stuck_witness:
  "je_void demo_env 1 13 7 ''typo'' demo_lopsided = Inl (DbError ''UNBALANCED_ENTRY'')"
proof -
  have r: "books_reachable (dec demo_env) demo_lopsided" using demo_wrong_reachable(1) by simp
  have l: "decimal_lib (dec demo_env)" using half_up.decimal_lib_axioms by simp
  have m: "demo_lopsided_entry \<in> set (db_entries demo_lopsided)" by (simp add: demo_lopsided_def)
  have f: "je_status demo_lopsided_entry = JE_draft" "je_company demo_lopsided_entry = 1" "je_id demo_lopsided_entry = 13"
    "\<not> entry_balanced demo_lopsided_entry" "assertNotReconciled demo_lopsided 1 [Some 13] = Inr ()"
    by code_simp+
  show ?thesis
    using unbalanced_draft_is_stuck [OF l r m f(1,4), unfolded f(2,3), OF f(5)] by blast
qed

text \<open>
  C12: an account that only drafts refer to can be deleted, and the draft cannot be posted afterwards: the
  engine looks the account up in a map that no longer has it and fails with a language error instead of
  a refusal that names the account.
\<close>

theorem deleted_account_breaks_draft:
  assumes "decimal_lib (dec E)" and "books_reachable (dec E) s"
    and del: "acc_delete company a s = Inr (u, t)"
    and e: "e \<in> set (db_entries s)" "je_company e = company" "je_status e = JE_draft"
    and l: "l \<in> set (je_lines e)" "jl_account l = a"
    and period: "assertPeriodOpen s company (je_date e) = Inr ()"
    and bal: "moneyEquals (\<Sum>l\<leftarrow>je_lines e. jl_debit l) (\<Sum>l\<leftarrow>je_lines e. jl_credit l)"
  shows "je_post E company (je_id e) user t = Inl (Crash ''TypeError'')"
proof -
  have ok: "ledger_ok s" using books_reachable_ok [OF assms(1,2)] by (simp add: books_ok_def)
  have t: "t = s\<lparr>db_accounts := filter (\<lambda>x. acc_id x \<noteq> a) (db_accounts s)\<rparr>"
    using del by (auto simp: acc_delete_def bindE_Inr throw_if_Inr)
  have "find (\<lambda>x. je_id x = je_id e \<and> je_company x = company) (db_entries t) \<noteq> None"
    using e(1,2) by (auto simp: t find_None_iff)
  then obtain r where r: "find (\<lambda>x. je_id x = je_id e \<and> je_company x = company) (db_entries t) = Some r" by blast
  have re: "r = e" using find_Some_mem [OF r] entry_unique [OF ids_distinct [OF ok]] e(1) by (simp add: t)
  have open_t: "assertPeriodOpen t company (je_date e) = Inr ()"
    using period by (simp add: assertPeriodOpen_def t)
  let ?ac = "filter (\<lambda>x. acc_id x \<in> set (uniq (map jl_account (je_lines e))) \<and> acc_company x = company) (db_accounts t)"
  have "row_with acc_id (jl_account l) ?ac = None" by (auto simp: row_with_None t l(2))
  then have "\<exists>l \<in> set (je_lines e). row_with acc_id (jl_account l) ?ac = None" using l(1) by blast
  then show ?thesis
    using bal e(3) by (simp add: je_post_def transaction_def postDraft_def r re open_t foldl_plus_sum
        applyPosting_def Let_def del: set_filter)
qed

theorem deleted_account_breaks_draft_witness:
  "je_post demo_env 1 14 7 demo_spare_deleted = Inl (Crash ''TypeError'')"
proof -
  have r: "books_reachable (dec demo_env) demo_spare_drafted" using demo_wrong_reachable(2) by simp
  have l: "decimal_lib (dec demo_env)" using half_up.decimal_lib_axioms by simp
  have m: "demo_spare_entry \<in> set (db_entries demo_spare_drafted)" by (simp add: demo_spare_drafted_def)
  have f: "je_company demo_spare_entry = 1" "je_status demo_spare_entry = JE_draft" "je_id demo_spare_entry = 14"
    "assertPeriodOpen demo_spare_drafted 1 (je_date demo_spare_entry) = Inr ()"
    "moneyEquals (\<Sum>l\<leftarrow>je_lines demo_spare_entry. jl_debit l) (\<Sum>l\<leftarrow>je_lines demo_spare_entry. jl_credit l)"
    by code_simp+
  have "hd (je_lines demo_spare_entry) \<in> set (je_lines demo_spare_entry)"
    "jl_account (hd (je_lines demo_spare_entry)) = 13" by (simp_all add: demo_spare_entry_def)
  from deleted_account_breaks_draft [OF l r demo_delete_spare m f(1,2) this f(4,5)]
  show ?thesis by (simp add: f(3))
qed


definition demo_rename :: account_update where
  "demo_rename = \<lparr>au_accountNumber = None, au_name = Some ''Till'', au_type = None, au_subType = None,
     au_parentId = None, au_description = None, au_isActive = None\<rparr>"


end
