(* ===== verification/Aging.thy ===== *)
theory Aging
  imports Fiscal
begin

text \<open>
  Aging buckets: \<^verbatim>\<open>src/modules/reports/aging-buckets.ts\<close>. A boundary list becomes a set of columns,
  a number of days overdue picks one of them, and a request is settled against a saved preference. The
  error the module throws is \<open>AgingBucketSpecError\<close>.
\<close>

definition spec_error :: api_error where
  "spec_error = Crash ''AgingBucketSpecError''"

record aging_bucket =
  ab_key :: string
  ab_label :: string
  ab_minDays :: int
  ab_maxDays :: "int option"

datatype aging_preset = days3 | weekly | biweekly | monthly

fun AGING_PRESETS :: "aging_preset \<Rightarrow> rat list" where
  "AGING_PRESETS days3 = [3, 6, 9, 12]"
| "AGING_PRESETS weekly = [7, 14, 21, 28]"
| "AGING_PRESETS biweekly = [14, 28, 42, 56]"
| "AGING_PRESETS monthly = [30, 60, 90]"

definition DEFAULT_PRESET :: aging_preset where "DEFAULT_PRESET = monthly"

definition LEGACY_BOUNDARIES :: "rat list" where "LEGACY_BOUNDARIES = [30, 60, 90]"

definition MAX_BOUNDARIES :: nat where "MAX_BOUNDARIES = 12"

definition EN_DASH :: string where "EN_DASH = [CHR 0xE2, CHR 0x80, CHR 0x93]"

section \<open>Building the columns\<close>

text \<open>The checks of the first loop: whole numbers of at least 1 that ascend.\<close>

fun check_boundaries :: "rat option \<Rightarrow> rat list \<Rightarrow> unit result" where
  "check_boundaries prev [] = Inr ()"
| "check_boundaries prev (b # bs) =
     throw_if (of_int \<lfloor>b\<rfloor> \<noteq> b \<or> b < 1) spec_error
    (throw_if (case prev of None \<Rightarrow> False | Some p \<Rightarrow> b \<le> p) spec_error
    (check_boundaries (Some b) bs))"

fun overdue_buckets :: "int \<Rightarrow> int list \<Rightarrow> aging_bucket list" where
  "overdue_buckets lo [] = []"
| "overdue_buckets lo (hi # bs) =
     \<lparr>ab_key = ''d'' @ show_int lo @ ''to'' @ show_int hi,
      ab_label = (if lo = hi then show_int lo else show_int lo @ EN_DASH @ show_int hi),
      ab_minDays = lo, ab_maxDays = Some hi\<rparr> # overdue_buckets (hi + 1) bs"

definition current_bucket :: aging_bucket where
  "current_bucket = \<lparr>ab_key = ''current'', ab_label = ''Current'', ab_minDays = 0, ab_maxDays = Some 0\<rparr>"

definition open_bucket :: "int \<Rightarrow> aging_bucket" where
  "open_bucket n = \<lparr>ab_key = ''d'' @ show_int n @ ''plus'', ab_label = show_int n @ '' and over'',
     ab_minDays = n, ab_maxDays = None\<rparr>"

definition buildBucketSpec :: "rat list \<Rightarrow> aging_bucket list result" where
  "buildBucketSpec boundaries =
     throw_if (boundaries = []) spec_error
    (throw_if (MAX_BOUNDARIES < length boundaries) spec_error
    (bindE (check_boundaries None boundaries) (\<lambda>_.
     let bs = map floor boundaries
     in Inr (current_bucket # overdue_buckets 1 bs @ [open_bucket (last bs + 1)]))))"

definition in_bucket :: "int \<Rightarrow> aging_bucket \<Rightarrow> bool" where
  "in_bucket d b \<longleftrightarrow> ab_minDays b \<le> d \<and> (case ab_maxDays b of None \<Rightarrow> True | Some m \<Rightarrow> d \<le> m)"

text \<open>The key of the first overdue column that holds the days; the last line of the code is the fallback.\<close>

definition bucketKeyFor :: "int \<Rightarrow> aging_bucket list \<Rightarrow> string" where
  "bucketKeyFor d spec =
     (if d \<le> 0 then ab_key (hd spec)
      else (case find (\<lambda>b. ab_minDays b \<noteq> 0 \<and> in_bucket d b) spec of
              Some b \<Rightarrow> ab_key b
            | None \<Rightarrow> ab_key (last spec)))"

section \<open>Requests\<close>

fun split_comma :: "string \<Rightarrow> string list" where
  "split_comma [] = [[]]"
| "split_comma (c # cs) =
     (if c = CHR '','' then [] # split_comma cs
      else (case split_comma cs of [] \<Rightarrow> [[c]] | w # ws \<Rightarrow> (c # w) # ws))"

fun read_boundary :: "string \<Rightarrow> rat result" where
  "read_boundary s =
     throw_if (\<not> (1 \<le> length s \<and> length s \<le> 4 \<and> list_all is_digit s)) spec_error (Inr (of_nat (read_nat s)))"

fun mapE :: "('a \<Rightarrow> 'b result) \<Rightarrow> 'a list \<Rightarrow> 'b list result" where
  "mapE f [] = Inr []"
| "mapE f (x # xs) = bindE (f x) (\<lambda>y. bindE (mapE f xs) (\<lambda>ys. Inr (y # ys)))"

definition parseBoundaries :: "string \<Rightarrow> rat list result" where
  "parseBoundaries raw =
     (let parts = filter (\<lambda>s. 0 < length s) (map trim (split_comma raw))
      in throw_if (parts = []) spec_error (mapE read_boundary parts))"

text \<open>A preset of the request: \<open>custom\<close>, one of the presets, or a name that is not one.\<close>

datatype preset_choice = Custom | Preset aging_preset | UnknownPreset

record aging_request =
  ar_preset :: "preset_choice option"
  ar_buckets :: "string option"

record resolved_aging =
  ra_preset :: preset_choice
  ra_boundaries :: "rat list"
  ra_spec :: "aging_bucket list"

definition custom_spec :: "string \<Rightarrow> resolved_aging result" where
  "custom_spec raw =
     bindE (parseBoundaries raw) (\<lambda>bs. bindE (buildBucketSpec bs) (\<lambda>spec.
       Inr \<lparr>ra_preset = Custom, ra_boundaries = bs, ra_spec = spec\<rparr>))"

definition truthy :: "string option \<Rightarrow> bool" where
  "truthy v \<longleftrightarrow> (case v of None \<Rightarrow> False | Some s \<Rightarrow> s \<noteq> [])"

definition pick :: "aging_request option \<Rightarrow> resolved_aging option result" where
  "pick src =
     (case src of
        None \<Rightarrow> Inr None
      | Some r \<Rightarrow>
          (case ar_preset r of
             Some Custom \<Rightarrow>
               throw_if (\<not> truthy (ar_buckets r)) spec_error
                 (bindE (custom_spec (the (ar_buckets r))) (\<lambda>x. Inr (Some x)))
           | Some (Preset p) \<Rightarrow>
               bindE (buildBucketSpec (AGING_PRESETS p)) (\<lambda>spec.
                 Inr (Some \<lparr>ra_preset = Preset p, ra_boundaries = AGING_PRESETS p, ra_spec = spec\<rparr>))
           | Some UnknownPreset \<Rightarrow> Inl spec_error
           | None \<Rightarrow>
               if truthy (ar_buckets r) then bindE (custom_spec (the (ar_buckets r))) (\<lambda>x. Inr (Some x))
               else Inr None))"

definition resolveAgingSpec :: "aging_request option \<Rightarrow> aging_request option \<Rightarrow> resolved_aging result" where
  "resolveAgingSpec request saved =
     (let fromSaved = (case pick saved of Inl _ \<Rightarrow> None | Inr x \<Rightarrow> x)
      in bindE (pick request) (\<lambda>r.
           case r of
             Some x \<Rightarrow> Inr x
           | None \<Rightarrow>
               (case fromSaved of
                  Some x \<Rightarrow> Inr x
                | None \<Rightarrow> bindE (buildBucketSpec (AGING_PRESETS DEFAULT_PRESET)) (\<lambda>spec.
                    Inr \<lparr>ra_preset = Preset DEFAULT_PRESET, ra_boundaries = AGING_PRESETS DEFAULT_PRESET,
                         ra_spec = spec\<rparr>))))"

section \<open>The columns partition the days\<close>

fun ascending :: "int \<Rightarrow> int list \<Rightarrow> bool" where
  "ascending lo [] = True"
| "ascending lo (b # bs) \<longleftrightarrow> lo \<le> b \<and> ascending (b + 1) bs"

lemma check_boundaries_ascending:
  "check_boundaries prev bs = Inr u \<Longrightarrow> (case prev of None \<Rightarrow> True | Some p \<Rightarrow> of_int \<lfloor>p\<rfloor> = p) \<Longrightarrow>
   ascending (case prev of None \<Rightarrow> 1 | Some p \<Rightarrow> \<lfloor>p\<rfloor> + 1) (map floor bs) \<and> (\<forall>b \<in> set bs. of_int \<lfloor>b\<rfloor> = b)"
proof (induction prev bs rule: check_boundaries.induct)
  case (1 prev)
  then show ?case by simp
next
  case (2 prev b bs)
  then have b: "of_int \<lfloor>b\<rfloor> = b" "1 \<le> b" and p: "case prev of None \<Rightarrow> True | Some p \<Rightarrow> p < b"
    and rest: "check_boundaries (Some b) bs = Inr u"
    by (auto simp: throw_if_Inr split: option.splits)
  have "ascending (\<lfloor>b\<rfloor> + 1) (map floor bs) \<and> (\<forall>b \<in> set bs. of_int \<lfloor>b\<rfloor> = b)"
    using "2.IH" [OF rest] b by simp
  moreover have "(case prev of None \<Rightarrow> 1 | Some p \<Rightarrow> \<lfloor>p\<rfloor> + 1) \<le> \<lfloor>b\<rfloor>"
  proof (cases prev)
    case None
    then show ?thesis using b(2) by (simp add: le_floor_iff)
  next
    case (Some q)
    have "of_int \<lfloor>q\<rfloor> = q" using "2.prems"(2) Some by simp
    then have "of_int \<lfloor>q\<rfloor> < (of_int \<lfloor>b\<rfloor> :: rat)" using p b(1) Some by (simp only: option.case)
    then have "\<lfloor>q\<rfloor> < \<lfloor>b\<rfloor>" by (simp only: of_int_less_iff)
    then show ?thesis using Some by simp
  qed
  ultimately show ?case using b(1) by simp
qed

fun next_day :: "int \<Rightarrow> int list \<Rightarrow> int" where
  "next_day lo [] = lo"
| "next_day lo (b # bs) = next_day (b + 1) bs"

lemma next_day_last: "bs \<noteq> [] \<Longrightarrow> next_day lo bs = last bs + 1"
  by (induction lo bs rule: next_day.induct) auto

lemma next_day_ge: "ascending lo bs \<Longrightarrow> lo \<le> next_day lo bs"
  by (induction lo bs rule: next_day.induct) auto

lemma overdue_buckets_bounds: "ascending lo bs \<Longrightarrow> b \<in> set (overdue_buckets lo bs) \<Longrightarrow> lo \<le> ab_minDays b"
  by (induction lo bs rule: overdue_buckets.induct) auto

text \<open>From the first day on, exactly one of the overdue columns holds a number of days.\<close>

lemma in_bucket_bounded [simp]:
  "in_bucket d \<lparr>ab_key = k, ab_label = l, ab_minDays = lo, ab_maxDays = Some hi\<rparr> \<longleftrightarrow> lo \<le> d \<and> d \<le> hi"
  by (simp add: in_bucket_def)

lemma overdue_buckets_one:
  "ascending lo bs \<Longrightarrow> lo \<le> d \<Longrightarrow>
   \<exists>b. filter (in_bucket d) (overdue_buckets lo bs @ [open_bucket (next_day lo bs)]) = [b]"
proof (induction lo bs rule: overdue_buckets.induct)
  case (1 lo)
  then show ?case by (simp add: in_bucket_def open_bucket_def)
next
  case (2 lo hi bs)
  show ?case
  proof (cases "d \<le> hi")
    case True
    have "\<forall>b \<in> set (overdue_buckets (hi + 1) bs). hi + 1 \<le> ab_minDays b"
      using overdue_buckets_bounds [of "hi + 1" bs] "2.prems"(1) by simp
    then have "filter (in_bucket d) (overdue_buckets (hi + 1) bs) = []"
      using True by (auto simp: filter_empty_conv in_bucket_def)
    moreover have "\<not> in_bucket d (open_bucket (next_day (hi + 1) bs))"
      using next_day_ge [of "hi + 1" bs] "2.prems"(1) True by (auto simp: in_bucket_def open_bucket_def)
    ultimately show ?thesis using True "2.prems"(2) by simp
  next
    case False
    then show ?thesis using "2.IH" "2.prems"(1) by simp
  qed
qed

text \<open>The keys tell the columns apart: the digits after the first letter are the lower bound.\<close>

definition key_min :: "string \<Rightarrow> nat" where
  "key_min k = read_nat (takeWhile is_digit (tl k))"

lemma key_min_digits:
  assumes "0 \<le> n" and "\<not> is_digit c"
  shows "key_min (x # show_int n @ c # rest) = nat n"
proof -
  have "takeWhile is_digit (show_nat (nat n) @ c # rest) = show_nat (nat n)"
    using show_nat_digits [of "nat n"] assms(2) by (simp add: takeWhile_append2 list_all_iff)
  then show ?thesis using assms(1) by (simp add: key_min_def show_int_def)
qed

lemma key_min_bucket:
  "ascending lo bs \<Longrightarrow> 1 \<le> lo \<Longrightarrow> b \<in> set (overdue_buckets lo bs @ [open_bucket (next_day lo bs)]) \<Longrightarrow>
   int (key_min (ab_key b)) = ab_minDays b"
proof (induction lo bs rule: overdue_buckets.induct)
  case (1 lo)
  then show ?case using key_min_digits [of lo "CHR ''p''" _ "''lus''"] by (simp add: open_bucket_def is_digit_def)
next
  case (2 lo hi bs)
  have "key_min (''d'' @ show_int lo @ ''to'' @ show_int hi) = nat lo"
    using key_min_digits [of lo "CHR ''t''" "CHR ''d''" "CHR ''o'' # show_int hi"] "2.prems"(2)
    by (simp add: is_digit_def)
  then show ?case using 2 by auto
qed

lemma mins_ascending:
  "ascending lo bs \<Longrightarrow> sorted_wrt (<) (map ab_minDays (overdue_buckets lo bs @ [open_bucket (next_day lo bs)]))
   \<and> (\<forall>m \<in> set (map ab_minDays (overdue_buckets lo bs @ [open_bucket (next_day lo bs)])). lo \<le> m)"
proof (induction lo bs rule: overdue_buckets.induct)
  case (1 lo)
  then show ?case by (simp add: open_bucket_def)
next
  case (2 lo hi bs)
  then have "sorted_wrt (<) (map ab_minDays (overdue_buckets (hi + 1) bs @ [open_bucket (next_day (hi + 1) bs)]))"
    and "\<forall>m \<in> set (map ab_minDays (overdue_buckets (hi + 1) bs @ [open_bucket (next_day (hi + 1) bs)])). hi + 1 \<le> m"
    and "lo \<le> hi" by simp_all
  then show ?case by force
qed

lemma buildBucketSpec_Inr:
  assumes "buildBucketSpec boundaries = Inr spec"
  obtains bs where "bs \<noteq> []" and "ascending 1 bs" and "boundaries = map of_int bs"
    and "spec = current_bucket # overdue_buckets 1 bs @ [open_bucket (next_day 1 bs)]"
proof -
  from assms have ne: "boundaries \<noteq> []" and chk: "check_boundaries None boundaries = Inr ()"
    and spec: "spec = current_bucket # overdue_buckets 1 (map floor boundaries) @ [open_bucket (last (map floor boundaries) + 1)]"
    by (auto simp: buildBucketSpec_def throw_if_Inr bindE_Inr Let_def)
  have "ascending 1 (map floor boundaries)" "\<forall>b \<in> set boundaries. of_int \<lfloor>b\<rfloor> = b"
    using check_boundaries_ascending [OF chk] by simp_all
  moreover from this(2) have "boundaries = map of_int (map floor boundaries)" by (simp add: map_idI)
  ultimately show thesis
    using that [of "map floor boundaries"] ne spec by (simp add: next_day_last)
qed

text \<open>
  C14: the aging columns partition the days. Whatever boundaries are accepted, every document that is at
  least a day late lies in exactly one overdue column and is given its key, one that is not late is given
  the Current key, and no two columns share a key, so no money is dropped or counted twice.
\<close>

theorem aging_partition:
  assumes "buildBucketSpec boundaries = Inr spec"
  shows "(d \<le> 0 \<longrightarrow> bucketKeyFor d spec = ''current'')
    \<and> (0 < d \<longrightarrow> (\<exists>b. filter (in_bucket d) spec = [b] \<and> bucketKeyFor d spec = ab_key b))
    \<and> distinct (map ab_key spec)"
proof -
  obtain bs where bs: "bs \<noteq> []" "ascending 1 bs"
    and spec: "spec = current_bucket # overdue_buckets 1 bs @ [open_bucket (next_day 1 bs)]"
    by (rule buildBucketSpec_Inr [OF assms])
  let ?od = "overdue_buckets 1 bs @ [open_bucket (next_day 1 bs)]"
  have mins: "ab_minDays b \<noteq> 0" if "b \<in> set ?od" for b
    using mins_ascending [OF bs(2)] that by force
  have "\<exists>b. filter (in_bucket d) spec = [b] \<and> bucketKeyFor d spec = ab_key b" if d: "0 < d"
  proof -
    obtain b where b: "filter (in_bucket d) ?od = [b]" using overdue_buckets_one [OF bs(2), of d] d by auto
    have cur: "\<not> in_bucket d current_bucket" using d by (simp add: in_bucket_def current_bucket_def)
    have "find P xs = Some x" if "filter P xs = [x]" for P xs and x :: aging_bucket
      using that by (induction xs) (auto split: if_splits)
    moreover have "filter (\<lambda>b. ab_minDays b \<noteq> 0 \<and> in_bucket d b) spec = filter (in_bucket d) ?od"
      unfolding spec using mins cur by (auto intro!: filter_cong)
    ultimately have "find (\<lambda>b. ab_minDays b \<noteq> 0 \<and> in_bucket d b) spec = Some b" using b by simp
    then show ?thesis using b cur d by (simp add: bucketKeyFor_def spec)
  qed
  moreover have "distinct (map ab_key spec)"
  proof -
    have "distinct (map ab_minDays ?od)" using mins_ascending [OF bs(2)] strict_sorted_iff by metis
    moreover have "map ab_minDays ?od = map (int \<circ> key_min) (map ab_key ?od)"
      unfolding map_map o_def by (rule map_cong [OF refl]) (simp only: key_min_bucket [OF bs(2) order_refl])
    ultimately have "distinct (map ab_key ?od)" by (metis distinct_map)
    moreover have "''current'' \<notin> set (map ab_key ?od)"
    proof
      assume "''current'' \<in> set (map ab_key ?od)"
      then obtain b where b: "b \<in> set ?od" "''current'' = ab_key b" unfolding set_map by (rule imageE)
      then have "ab_minDays b = int (key_min ''current'')" using key_min_bucket [OF bs(2) order_refl b(1)] b(2) by simp
      then have "ab_minDays b = 0" by (simp add: key_min_def is_digit_def)
      then show False using mins [OF b(1)] by simp
    qed
    ultimately show ?thesis unfolding spec by (simp add: current_bucket_def)
  qed
  moreover have "d \<le> 0 \<Longrightarrow> bucketKeyFor d spec = ''current''"
    by (simp add: bucketKeyFor_def spec current_bucket_def)
  ultimately show ?thesis by blast
qed

theorem aging_partition_witness:
  "\<exists>spec. buildBucketSpec LEGACY_BOUNDARIES = Inr spec \<and> bucketKeyFor 0 spec = ''current'' \<and> distinct (map ab_key spec)"
proof -
  have "\<exists>spec. buildBucketSpec LEGACY_BOUNDARIES = Inr spec"
    by (simp add: buildBucketSpec_def LEGACY_BOUNDARIES_def MAX_BOUNDARIES_def Let_def throw_if_def)
  then obtain spec where s: "buildBucketSpec LEGACY_BOUNDARIES = Inr spec" ..
  then show ?thesis using aging_partition [OF s, of 0] by simp
qed

section \<open>The query form\<close>

lemma split_comma_word: "CHR '','' \<notin> set w \<Longrightarrow> split_comma w = [w]"
  by (induction w) auto

lemma split_comma_append: "CHR '','' \<notin> set w \<Longrightarrow> split_comma (w @ CHR '','' # cs) = w # split_comma cs"
  by (induction w) auto

lemma split_join: "ws \<noteq> [] \<Longrightarrow> \<forall>w \<in> set ws. CHR '','' \<notin> set w \<Longrightarrow> split_comma (join '','' ws) = ws"
  by (induction "'',''" ws rule: join.induct) (auto simp: split_comma_word split_comma_append)

lemma trim_digits: "list_all is_digit s \<Longrightarrow> trim s = s"
proof -
  assume d: "list_all is_digit s"
  have "dropWhile is_space t = t" if "list_all is_digit t" for t
    using that by (cases t) (auto simp: is_space_def is_digit_def)
  moreover have "list_all is_digit (rev s)" using d by simp
  ultimately show ?thesis using d by (simp add: trim_def)
qed

lemma comma_not_digit: "list_all is_digit w \<Longrightarrow> CHR '','' \<notin> set w"
  by (auto simp: list_all_iff is_digit_def)

lemma mapE_show: "\<forall>n \<in> set ns. n < 10000 \<Longrightarrow> mapE read_boundary (map show_nat ns) = Inr (map of_nat ns)"
proof (induction ns)
  case Nil
  then show ?case by simp
next
  case (Cons n ns)
  then have "length (show_nat n) \<le> 4" by (intro show_nat_length_bound) simp_all
  moreover have "1 \<le> length (show_nat n)" by (simp add: Suc_le_eq)
  ultimately have "read_boundary (show_nat n) = Inr (of_nat n)"
    by (simp add: show_nat_digits throw_if_def)
  then show ?case using Cons by simp
qed

text \<open>
  C15: parsing is the inverse of writing a boundary list: joining whole days below ten thousand with
  commas and parsing the text gives the list back.
\<close>

theorem boundaries_roundtrip:
  assumes "ns \<noteq> []" and "\<forall>n \<in> set ns. n < 10000"
  shows "parseBoundaries (join '','' (map show_nat ns)) = Inr (map of_nat ns)"
proof -
  have "split_comma (join '','' (map show_nat ns)) = map show_nat ns"
    using assms(1) by (intro split_join) (auto simp: comma_not_digit show_nat_digits)
  moreover have "map trim (map show_nat ns) = map show_nat ns"
    by (simp add: trim_digits show_nat_digits)
  moreover have "filter (\<lambda>s. 0 < length s) (map show_nat ns) = map show_nat ns"
    by (simp add: filter_id_conv)
  ultimately have "filter (\<lambda>s. 0 < length s) (map trim (split_comma (join '','' (map show_nat ns)))) = map show_nat ns"
    by (simp only:)
  then show ?thesis
    using assms mapE_show [OF assms(2)] unfolding parseBoundaries_def Let_def by (simp add: throw_if_def)
qed

theorem boundaries_roundtrip_witness:
  "parseBoundaries (join '','' (map show_nat [3, 6, 90])) = Inr (map of_nat [3, 6, 90])"
  by (rule boundaries_roundtrip) simp_all

text \<open>
  A malformed saved preference never makes the report fail, while a malformed request always does;
  a request that names columns wins over the preference.
\<close>

theorem saved_preference_harmless:
  shows "(\<exists>x. resolveAgingSpec None saved = Inr x)
    \<and> (pick request = Inl e \<longrightarrow> resolveAgingSpec request saved = Inl e)
    \<and> (pick request = Inr (Some x) \<longrightarrow> resolveAgingSpec request saved = Inr x)"
proof -
  have "\<exists>spec. buildBucketSpec (AGING_PRESETS DEFAULT_PRESET) = Inr spec"
    by (simp add: buildBucketSpec_def DEFAULT_PRESET_def MAX_BOUNDARIES_def Let_def throw_if_def)
  then have "\<exists>x. resolveAgingSpec None saved = Inr x"
    by (auto simp: resolveAgingSpec_def pick_def Let_def split: option.splits)
  then show ?thesis by (auto simp: resolveAgingSpec_def)
qed

theorem saved_preference_harmless_witness:
  "(\<exists>x. resolveAgingSpec None (Some \<lparr>ar_preset = Some Custom, ar_buckets = Some ''9,3''\<rparr>) = Inr x)
   \<and> resolveAgingSpec (Some \<lparr>ar_preset = Some Custom, ar_buckets = None\<rparr>) None = Inl spec_error"
proof -
  have p: "pick (Some \<lparr>ar_preset = Some Custom, ar_buckets = None\<rparr>) = Inl spec_error"
    by (simp add: pick_def truthy_def)
  show ?thesis
    using saved_preference_harmless [where saved = "Some \<lparr>ar_preset = Some Custom, ar_buckets = Some ''9,3''\<rparr>"]
      saved_preference_harmless [where request = "Some \<lparr>ar_preset = Some Custom, ar_buckets = None\<rparr>"
        and saved = None and e = spec_error] p by blast
qed

end
