(* ===== verification/Documents.thy ===== *)
theory Documents
  imports Money Dates
begin

text \<open>
  The status a document displays and the status of a company:
  \<^verbatim>\<open>src/common/utils/document-status.util.ts\<close> and \<^verbatim>\<open>src/common/utils/company-status.util.ts\<close>.

  The list of invoices and the list of bills compute the displayed status twice, once in TypeScript and
  once in SQL. The SQL side is modelled with its three truth values (a condition is \<open>None\<close> when it is
  NULL) and with the order of the \<open>date\<close> type, which is the order of the day numbers; the TypeScript side
  compares the texts of the dates.
\<close>

section \<open>The three truth values of SQL\<close>

definition sql_and :: "bool option \<Rightarrow> bool option \<Rightarrow> bool option" where
  "sql_and a b = (if a = Some False \<or> b = Some False then Some False
                  else if a = None \<or> b = None then None else Some True)"

definition sql_not :: "bool option \<Rightarrow> bool option" where
  "sql_not a = map_option Not a"

definition sql_or :: "bool option \<Rightarrow> bool option \<Rightarrow> bool option" where
  "sql_or a b = sql_not (sql_and (sql_not a) (sql_not b))"

lemma sql_known [simp]:
  "sql_and (Some a) (Some b) = Some (a \<and> b)" "sql_or (Some a) (Some b) = Some (a \<or> b)"
  "sql_not (Some a) = Some (\<not> a)" "sql_and c (Some False) = Some False" "sql_and (Some False) c = Some False"
  by (auto simp: sql_and_def sql_or_def sql_not_def)

section \<open>document-status.util.ts\<close>

text \<open>The columns the rule reads.\<close>

record document =
  doc_status :: string
  doc_dueDate :: "date option"
  doc_balance :: "rat option"

definition derivedStatus :: "document \<Rightarrow> string list \<Rightarrow> date \<Rightarrow> string" where
  "derivedStatus d openStatuses today =
     (let owes = 0 < toDecimal (doc_balance d)
      in if owes \<and> (case doc_dueDate d of None \<Rightarrow> False | Some due \<Rightarrow> due \<noteq> [] \<and> due < today)
            \<and> doc_status d \<in> set openStatuses
         then ''overdue'' else doc_status d)"

definition pastDueSql :: "date \<Rightarrow> document \<Rightarrow> bool option" where
  "pastDueSql statusToday d =
     sql_and (map_option (\<lambda>b. 0 < b) (doc_balance d))
       (sql_and (Some (doc_dueDate d \<noteq> None))
         (map_option (\<lambda>due. day_of_iso due < day_of_iso statusToday) (doc_dueDate d)))"

definition derivedStatusSql :: "string list \<Rightarrow> date \<Rightarrow> document \<Rightarrow> string" where
  "derivedStatusSql openStatuses statusToday d =
     (if sql_and (Some (doc_status d \<in> set openStatuses)) (pastDueSql statusToday d) = Some True
      then ''overdue'' else doc_status d)"

text \<open>A WHERE clause keeps the rows for which its condition is true; NULL drops the row.\<close>

definition where_sql :: "('a \<Rightarrow> bool option) \<Rightarrow> 'a list \<Rightarrow> 'a list" where
  "where_sql c rows = filter (\<lambda>r. c r = Some True) rows"

definition applyDerivedStatusFilter :: "string option \<Rightarrow> string list \<Rightarrow> date \<Rightarrow> document list \<Rightarrow> document list" where
  "applyDerivedStatusFilter status openStatuses today rows =
     (case status of
        None \<Rightarrow> rows
      | Some st \<Rightarrow>
          if st = [] then rows
          else if st = ''overdue'' then
            where_sql (\<lambda>d. sql_or (Some (doc_status d = ''overdue''))
                             (sql_and (Some (doc_status d \<in> set openStatuses)) (pastDueSql today d))) rows
          else if st \<in> set openStatuses then
            where_sql (\<lambda>d. sql_and (Some (doc_status d = st)) (sql_not (pastDueSql today d))) rows
          else where_sql (\<lambda>d. Some (doc_status d = st)) rows)"

text \<open>
  A row of the grouped query, and the summary. PostgreSQL returns the groups in no particular order; the
  model lists them in the order of their first row, and the figures below do not depend on it.
\<close>

record summary_row =
  sr_status :: string
  sr_count :: nat
  sr_balance :: rat

record document_summary =
  ds_count :: nat
  ds_outstanding :: rat
  ds_overdue :: rat
  ds_byStatus :: "(string \<times> (nat \<times> rat)) list"

definition summary_rows :: "string list \<Rightarrow> date \<Rightarrow> document list \<Rightarrow> summary_row list" where
  "summary_rows openStatuses today docs =
     map (\<lambda>st. let g = filter (\<lambda>d. derivedStatusSql openStatuses today d = st) docs
               in \<lparr>sr_status = st, sr_count = length g, sr_balance = (\<Sum>d\<leftarrow>g. toDecimal (doc_balance d))\<rparr>)
       (uniq (map (derivedStatusSql openStatuses today) docs))"

definition add_row :: "decimal_js \<Rightarrow> string list \<Rightarrow> document_summary \<Rightarrow> summary_row \<Rightarrow> document_summary" where
  "add_row D owing s r =
     \<lparr>ds_count = ds_count s + sr_count r,
      ds_outstanding = (if sr_status r \<in> set owing then ds_outstanding s + sr_balance r else ds_outstanding s),
      ds_overdue = (if sr_status r = ''overdue'' then ds_overdue s + sr_balance r else ds_overdue s),
      ds_byStatus = AList.update (sr_status r) (sr_count r, d_fixed D 4 (sr_balance r)) (ds_byStatus s)\<rparr>"

definition documentListSummary :: "decimal_js \<Rightarrow> string list \<Rightarrow> date \<Rightarrow> document list \<Rightarrow> document_summary" where
  "documentListSummary D openStatuses today docs =
     (let owing = openStatuses @ [''overdue''];
          s = foldl (add_row D owing) \<lparr>ds_count = 0, ds_outstanding = 0, ds_overdue = 0, ds_byStatus = []\<rparr>
                (summary_rows openStatuses today docs)
      in s\<lparr>ds_outstanding := d_fixed D 4 (ds_outstanding s), ds_overdue := d_fixed D 4 (ds_overdue s)\<rparr>)"

section \<open>The two rules agree\<close>

text \<open>What the tables guarantee of a row: a balance in a \<open>numeric(18,4) NOT NULL\<close> column, a date in a date column.\<close>

definition stored_document :: "document \<Rightarrow> bool" where
  "stored_document d \<longleftrightarrow> (case doc_balance d of None \<Rightarrow> False | Some b \<Rightarrow> on_grid 4 b)
     \<and> (case doc_dueDate d of None \<Rightarrow> True | Some due \<Rightarrow> iso_date due)"

lemma iso_date_nonempty: "iso_date s \<Longrightarrow> s \<noteq> []"
  by (auto simp: iso_date_def)

lemma pastDueSql_known:
  assumes "stored_document d"
  shows "pastDueSql today d = Some (0 < toDecimal (doc_balance d) \<and>
    (case doc_dueDate d of None \<Rightarrow> False | Some due \<Rightarrow> day_of_iso due < day_of_iso today))"
  using assms by (cases "doc_balance d"; cases "doc_dueDate d")
    (auto simp: pastDueSql_def stored_document_def toDecimal_def)

lemma past_due_days:
  assumes "stored_document d" and "iso_date today"
  shows "(case doc_dueDate d of None \<Rightarrow> False | Some due \<Rightarrow> due \<noteq> [] \<and> due < today)
    \<longleftrightarrow> (case doc_dueDate d of None \<Rightarrow> False | Some due \<Rightarrow> day_of_iso due < day_of_iso today)"
  using assms by (auto simp: stored_document_def iso_less_day iso_date_nonempty split: option.splits)

lemma derivedStatusSql_derivedStatus:
  assumes "stored_document d" and "iso_date today"
  shows "derivedStatusSql os today d = derivedStatus d os today"
  by (auto simp: derivedStatusSql_def derivedStatus_def pastDueSql_known [OF assms(1)]
      past_due_days [OF assms] Let_def)

lemma where_sql_known: "(\<And>d. d \<in> set ds \<Longrightarrow> c d = Some (P d)) \<Longrightarrow> where_sql c ds = filter P ds"
  by (auto simp: where_sql_def intro: filter_cong)

lemma filter_by_displayed:
  assumes "\<forall>d \<in> set docs. stored_document d" and "iso_date today" and "st \<noteq> []" and "''overdue'' \<notin> set os"
  shows "applyDerivedStatusFilter (Some st) os today docs = filter (\<lambda>d. derivedStatus d os today = st) docs"
proof -
  have ds: "derivedStatus d os today = st \<longleftrightarrow>
      (if st = ''overdue'' then doc_status d = ''overdue'' \<or> doc_status d \<in> set os \<and> the (pastDueSql today d)
       else doc_status d = st \<and> \<not> (st \<in> set os \<and> the (pastDueSql today d)))" if "d \<in> set docs" for d
    using that assms by (auto simp: derivedStatus_def pastDueSql_known past_due_days Let_def)
  have known: "pastDueSql today d = Some (the (pastDueSql today d))" if "d \<in> set docs" for d
    using that assms(1) by (simp add: pastDueSql_known)
  have "applyDerivedStatusFilter (Some st) os today docs =
      filter (\<lambda>d. if st = ''overdue'' then doc_status d = ''overdue'' \<or> doc_status d \<in> set os \<and> the (pastDueSql today d)
       else doc_status d = st \<and> \<not> (st \<in> set os \<and> the (pastDueSql today d))) docs"
    unfolding applyDerivedStatusFilter_def using assms(3) known
    by (auto simp only: option.case if_False if_True simp_thms sql_known split: if_splits
        intro!: where_sql_known) (metis sql_known)+
  also have "\<dots> = filter (\<lambda>d. derivedStatus d os today = st) docs"
    by (rule filter_cong) (simp_all only: ds)
  finally show ?thesis .
qed

section \<open>The summary\<close>

lemma add_row_fold:
  "ds_count (foldl (add_row D owing) s rs) = ds_count s + (\<Sum>r\<leftarrow>rs. sr_count r)"
  "ds_outstanding (foldl (add_row D owing) s rs)
   = ds_outstanding s + (\<Sum>r\<leftarrow>rs. if sr_status r \<in> set owing then sr_balance r else 0)"
  "ds_overdue (foldl (add_row D owing) s rs)
   = ds_overdue s + (\<Sum>r\<leftarrow>rs. if sr_status r = ''overdue'' then sr_balance r else 0)"
  by (induction rs arbitrary: s) (simp_all add: add_row_def)

lemma byStatus_add_row:
  "ds_byStatus (add_row D owing s r) = AList.update (sr_status r) (sr_count r, d_fixed D 4 (sr_balance r)) (ds_byStatus s)"
  by (simp add: add_row_def)

lemma add_row_byStatus:
  "distinct (map sr_status rs) \<Longrightarrow>
   map_of (ds_byStatus (foldl (add_row D owing) s rs)) k =
     (case find (\<lambda>r. sr_status r = k) rs of
        Some r \<Rightarrow> Some (sr_count r, d_fixed D 4 (sr_balance r)) | None \<Rightarrow> map_of (ds_byStatus s) k)"
proof (induction rs arbitrary: s)
  case Nil
  then show ?case by simp
next
  case (Cons r rs)
  have "find (\<lambda>r. sr_status r = k) rs = None" if "sr_status r = k"
    using that Cons.prems by (auto simp: find_None_iff image_iff)
  then show ?case using Cons by (cases "sr_status r = k") (auto simp: byStatus_add_row update_conv' split: option.splits)
qed

text \<open>Adding up the groups adds up everything.\<close>

lemma sum_groups:
  fixes g :: "'d \<Rightarrow> 'b::comm_monoid_add"
  assumes "distinct ks" and "f ` set ds \<subseteq> set ks"
  shows "(\<Sum>k\<leftarrow>ks. if P k then (\<Sum>d\<leftarrow>filter (\<lambda>d. f d = k) ds. g d) else 0)
    = (\<Sum>d\<leftarrow>ds. if P (f d) then g d else 0)"
  using assms(2)
proof (induction ds)
  case Nil
  then show ?case by (simp cong: if_cong)
next
  case (Cons d ds)
  have "(\<Sum>k\<leftarrow>ks. if P k then (\<Sum>e\<leftarrow>filter (\<lambda>e. f e = k) (d # ds). g e) else 0)
      = (\<Sum>k\<leftarrow>ks. (if f d = k then (if P k then g d else 0) else 0)
          + (if P k then (\<Sum>e\<leftarrow>filter (\<lambda>e. f e = k) ds. g e) else 0))"
    by (intro arg_cong [where f = sum_list] map_cong) auto
  also have "\<dots> = (\<Sum>k\<leftarrow>ks. if f d = k then (if P k then g d else 0) else 0)
      + (\<Sum>k\<leftarrow>ks. if P k then (\<Sum>e\<leftarrow>filter (\<lambda>e. f e = k) ds. g e) else 0)"
    by (rule sum_list_addf)
  also have "(\<Sum>k\<leftarrow>ks. if f d = k then (if P k then g d else 0) else 0) = (if P (f d) then g d else 0)"
    using assms(1) Cons.prems by (simp add: sum_list_distinct_conv_sum_set)
  finally show ?case using Cons by simp
qed

lemma length_as_sum: "length xs = (\<Sum>x\<leftarrow>xs. 1)"
  by (induction xs) auto

lemma summary_rows_status: "map sr_status (summary_rows os today docs) = uniq (map (derivedStatusSql os today) docs)"
  by (simp add: summary_rows_def comp_def Let_def)

lemma summary_rows_sum:
  "(\<Sum>r\<leftarrow>summary_rows os today docs. if P (sr_status r) then sr_balance r else 0)
   = (\<Sum>d\<leftarrow>docs. if P (derivedStatusSql os today d) then toDecimal (doc_balance d) else 0)"
  unfolding summary_rows_def map_map comp_def Let_def summary_row.simps
  by (rule sum_groups) auto

lemma summary_rows_count: "(\<Sum>r\<leftarrow>summary_rows os today docs. sr_count r) = length docs"
proof -
  have "(\<Sum>k\<leftarrow>uniq (map (derivedStatusSql os today) docs). if True then
      (\<Sum>d\<leftarrow>filter (\<lambda>d. derivedStatusSql os today d = k) docs. 1) else 0) = (\<Sum>d\<leftarrow>docs. if True then (1::nat) else 0)"
    by (rule sum_groups [where P = "\<lambda>_. True"]) auto
  then show ?thesis by (simp add: summary_rows_def comp_def Let_def length_as_sum)
qed

lemma find_summary_row:
  assumes "\<exists>d \<in> set docs. derivedStatusSql os today d = st"
  shows "find (\<lambda>r. sr_status r = st) (summary_rows os today docs) =
    Some \<lparr>sr_status = st, sr_count = length (filter (\<lambda>d. derivedStatusSql os today d = st) docs),
          sr_balance = (\<Sum>d\<leftarrow>filter (\<lambda>d. derivedStatusSql os today d = st) docs. toDecimal (doc_balance d))\<rparr>"
proof -
  have *: "find (\<lambda>r. sr_status r = st) (map h ks) = Some (h st)"
    if "st \<in> set ks" and "\<And>k. sr_status (h k) = k" for ks h
    using that by (induction ks) auto
  have "st \<in> set (uniq (map (derivedStatusSql os today) docs))" using assms by auto
  then show ?thesis unfolding summary_rows_def by (subst *) (simp_all add: Let_def)
qed

text \<open>
  C16: the tabs, the tiles, the badges and the list agree. For stored rows the SQL filter returns exactly
  the documents whose badge shows the chosen status; the count and the balance of each tab are the length
  and the total of that list; the tiles are the totals of what is owed and of what is overdue, to the
  paisa; and the count is the number of documents.
\<close>

theorem tabs_agree_with_badges:
  assumes "decimal_lib D" and rows: "\<forall>d \<in> set docs. stored_document d" and today: "iso_date today"
    and st: "st \<noteq> []" and os: "''overdue'' \<notin> set os"
  shows "applyDerivedStatusFilter (Some st) os today docs = filter (\<lambda>d. derivedStatus d os today = st) docs
    \<and> ds_count (documentListSummary D os today docs) = length docs
    \<and> (applyDerivedStatusFilter (Some st) os today docs \<noteq> [] \<longrightarrow>
        map_of (ds_byStatus (documentListSummary D os today docs)) st =
          Some (length (applyDerivedStatusFilter (Some st) os today docs),
                \<Sum>d\<leftarrow>applyDerivedStatusFilter (Some st) os today docs. toDecimal (doc_balance d)))
    \<and> ds_overdue (documentListSummary D os today docs)
        = (\<Sum>d\<leftarrow>filter (\<lambda>d. derivedStatus d os today = ''overdue'') docs. toDecimal (doc_balance d))
    \<and> ds_outstanding (documentListSummary D os today docs)
        = (\<Sum>d\<leftarrow>filter (\<lambda>d. derivedStatus d os today \<in> set (os @ [''overdue''])) docs. toDecimal (doc_balance d))"
proof -
  let ?der = "\<lambda>d. derivedStatus d os today"
  let ?bal = "\<lambda>d. toDecimal (doc_balance d)"
  have same: "derivedStatusSql os today d = ?der d" if "d \<in> set docs" for d
    using that rows today by (simp add: derivedStatusSql_derivedStatus)
  have grid: "on_grid 4 (\<Sum>d\<leftarrow>docs. if P d then ?bal d else 0)" for P
    using rows by (intro on_grid_sum_list) (auto simp: stored_document_def toDecimal_def split: option.splits)
  have total: "d_fixed D 4 (\<Sum>d\<leftarrow>docs. if P (derivedStatusSql os today d) then ?bal d else 0)
      = (\<Sum>d\<leftarrow>filter (\<lambda>d. P (?der d)) docs. ?bal d)" for P
  proof -
    have "(\<Sum>d\<leftarrow>docs. if P (derivedStatusSql os today d) then ?bal d else 0)
        = (\<Sum>d\<leftarrow>docs. if P (?der d) then ?bal d else 0)"
      by (intro arg_cong [where f = sum_list] map_cong) (simp_all add: same)
    then show ?thesis
      using decimal_lib.fixed_id [OF assms(1)] grid by (simp add: sum_list_if_filter [symmetric])
  qed
  have list: "applyDerivedStatusFilter (Some st) os today docs = filter (\<lambda>d. ?der d = st) docs"
    by (rule filter_by_displayed [OF rows today st os])
  have tab: "filter (\<lambda>d. derivedStatusSql os today d = st) docs = filter (\<lambda>d. ?der d = st) docs"
    by (rule filter_cong) (simp_all add: same)
  have byStatus: "map_of (ds_byStatus (documentListSummary D os today docs)) st =
      Some (length (filter (\<lambda>d. ?der d = st) docs), \<Sum>d\<leftarrow>filter (\<lambda>d. ?der d = st) docs. ?bal d)"
    if "filter (\<lambda>d. ?der d = st) docs \<noteq> []"
  proof -
    from that have "\<exists>d \<in> set docs. derivedStatusSql os today d = st"
      unfolding filter_empty_conv using same by auto
    moreover have "d_fixed D 4 (\<Sum>d\<leftarrow>filter (\<lambda>d. ?der d = st) docs. ?bal d) = (\<Sum>d\<leftarrow>filter (\<lambda>d. ?der d = st) docs. ?bal d)"
      using decimal_lib.fixed_id [OF assms(1)] grid by (simp add: sum_list_if_filter [symmetric])
    ultimately show ?thesis
      by (simp add: documentListSummary_def Let_def add_row_byStatus summary_rows_status find_summary_row tab)
  qed
  show ?thesis
    using byStatus total [of "\<lambda>s. s = ''overdue''"] total [of "\<lambda>s. s \<in> set (os @ [''overdue''])"]
    by (simp add: list documentListSummary_def Let_def add_row_fold summary_rows_count summary_rows_sum
        summary_rows_sum [where P = "\<lambda>s. s = ''overdue'' \<or> s \<in> set os"]
        summary_rows_sum [where P = "\<lambda>s. s = ''overdue''"])
qed

definition demo_documents :: "document list" where
  "demo_documents =
     [\<lparr>doc_status = ''sent'', doc_dueDate = Some ''2026-03-01'', doc_balance = Some 120\<rparr>,
      \<lparr>doc_status = ''sent'', doc_dueDate = None, doc_balance = Some 30\<rparr>,
      \<lparr>doc_status = ''paid'', doc_dueDate = Some ''2026-03-01'', doc_balance = Some 0\<rparr>]"

theorem tabs_agree_with_badges_witness:
  "ds_overdue (documentListSummary decimal_half_up [''sent'', ''partial''] ''2026-03-02'' demo_documents) = 120
   \<and> length (applyDerivedStatusFilter (Some ''overdue'') [''sent'', ''partial''] ''2026-03-02'' demo_documents) = 1"
proof -
  have rows: "\<forall>d \<in> set demo_documents. stored_document d"
    using on_grid_of_int [of 4 120] on_grid_of_int [of 4 30]
    by (simp add: demo_documents_def stored_document_def) code_simp
  have today: "iso_date ''2026-03-02''" by code_simp
  have der: "filter (\<lambda>d. derivedStatus d [''sent'', ''partial''] ''2026-03-02'' = ''overdue'') demo_documents
      = [\<lparr>doc_status = ''sent'', doc_dueDate = Some ''2026-03-01'', doc_balance = Some 120\<rparr>]"
    by (simp add: demo_documents_def derivedStatus_def toDecimal_def)
  show ?thesis
    using tabs_agree_with_badges [OF half_up.decimal_lib_axioms rows today, of "''overdue''" "[''sent'', ''partial'']"]
    by (simp add: der toDecimal_def)
qed

end
