(* ===== verification/Companies.thy ===== *)
theory Companies
  imports Prelude
begin

text \<open>
  The status of a company: \<^verbatim>\<open>src/common/utils/company-status.util.ts\<close>. A time is the number of
  milliseconds \<open>getTime()\<close> gives; the expiry column is \<open>None\<close> when it is null or empty and
  \<open>Some None\<close> when \<open>new Date\<close> cannot read it.
\<close>

datatype account_status = CS_draft | CS_pending | CS_active | CS_inactive | CS_rejected

definition normalizeCompanyStatus :: "string option \<Rightarrow> account_status" where
  "normalizeCompanyStatus raw =
     (case raw of
        None \<Rightarrow> CS_active
      | Some s \<Rightarrow>
          if s = [] then CS_active
          else if s = ''active'' \<or> s = ''approved'' then CS_active
          else if s = ''rejected'' then CS_rejected
          else if s = ''inactive'' \<or> s = ''suspended'' then CS_inactive
          else if s = ''email_verified'' then CS_draft
          else CS_pending)"

definition isCompanyDraft :: "string option \<Rightarrow> bool" where
  "isCompanyDraft raw \<longleftrightarrow> normalizeCompanyStatus raw = CS_draft"

definition isCompanyActive :: "string option \<Rightarrow> bool" where
  "isCompanyActive raw \<longleftrightarrow> normalizeCompanyStatus raw = CS_active"

record subscription =
  sub_status :: "string option"
  sub_plan :: "string option"
  sub_expiry :: "int option option"
  sub_payment :: "string option"

definition isSubscriptionExpired :: "subscription \<Rightarrow> int \<Rightarrow> bool" where
  "isSubscriptionExpired c now =
     (if (case sub_plan c of None \<Rightarrow> ''free'' | Some p \<Rightarrow> p) = ''free'' then False
      else (case sub_expiry c of None \<Rightarrow> False | Some None \<Rightarrow> False | Some (Some t) \<Rightarrow> t \<le> now))"

definition effectiveCompanyStatus :: "subscription option \<Rightarrow> int \<Rightarrow> account_status" where
  "effectiveCompanyStatus company now =
     (let status = normalizeCompanyStatus (case company of None \<Rightarrow> None | Some c \<Rightarrow> sub_status c)
      in if status = CS_active \<and> (case company of None \<Rightarrow> False | Some c \<Rightarrow> isSubscriptionExpired c now)
         then CS_inactive
         else if status = CS_draft \<and> (case company of None \<Rightarrow> False | Some c \<Rightarrow> sub_payment c = Some ''submitted'')
         then CS_pending
         else status)"

lemma expired_later: "isSubscriptionExpired c now \<Longrightarrow> now \<le> later \<Longrightarrow> isSubscriptionExpired c later"
  by (auto simp: isSubscriptionExpired_def split: if_splits option.splits)



end
