(* ===== verification/Sequences.thy ===== *)
theory Sequences
  imports LedgerLaws
begin

text \<open>
  Document numbers: \<^verbatim>\<open>src/common/utils/sequence.util.ts\<close> and the table \<open>document_sequences\<close>.
  The numbers already in the table of a document type are an argument, since each type has its own table.
  The counter column is a PostgreSQL \<open>integer\<close>: a value above \<open>int4_max\<close> is refused by the database.
\<close>

record sequence_row =
  sq_company :: nat
  sq_docType :: string
  sq_year :: nat
  sq_last :: nat

record numbering_db = ledger_db +
  db_sequences :: "sequence_row list"

datatype document_series = INV | EST | SO | PO | BILL | CM | VC | RCT

fun series_name :: "document_series \<Rightarrow> string" where
  "series_name INV = ''INV''"
| "series_name EST = ''EST''"
| "series_name SO = ''SO''"
| "series_name PO = ''PO''"
| "series_name BILL = ''BILL''"
| "series_name CM = ''CM''"
| "series_name VC = ''VC''"
| "series_name RCT = ''RCT''"

definition int4_max :: nat where "int4_max = 2147483647"

section \<open>Reading the numbers already issued\<close>

text \<open>\<open>s ~ '^prefix[0-9]+$'\<close>, with at most \<open>limit\<close> digits when the pattern caps them.\<close>

definition matches_series :: "string \<Rightarrow> nat option \<Rightarrow> string \<Rightarrow> bool" where
  "matches_series prefix limit s \<longleftrightarrow>
     starts_with s prefix \<and> list_all is_digit (drop (length prefix) s) \<and> drop (length prefix) s \<noteq> [] \<and>
     (case limit of None \<Rightarrow> True | Some k \<Rightarrow> length (drop (length prefix) s) \<le> k)"

text \<open>\<open>substring(s FROM '[0-9]+$')\<close>.\<close>

definition trailing_digits :: "string \<Rightarrow> string" where
  "trailing_digits s = rev (takeWhile is_digit (rev s))"

definition highest_issued :: "string \<Rightarrow> nat option \<Rightarrow> string list \<Rightarrow> nat option result" where
  "highest_issued prefix limit numbers =
     (let vs = map (\<lambda>s. read_nat (trailing_digits s)) (filter (matches_series prefix limit) numbers)
      in throw_if (\<exists>v \<in> set vs. int4_max < v) (DbError ''22003'')
           (Inr (if vs = [] then None else Some (Max (set vs)))))"

section \<open>Taking the next value\<close>

definition is_series :: "nat \<Rightarrow> string \<Rightarrow> nat \<Rightarrow> sequence_row \<Rightarrow> bool" where
  "is_series co doc year r \<longleftrightarrow> sq_company r = co \<and> sq_docType r = doc \<and> sq_year r = year"

definition last_value :: "nat \<Rightarrow> string \<Rightarrow> nat \<Rightarrow> 'a numbering_db_scheme \<Rightarrow> nat option" where
  "last_value co doc year s = map_option sq_last (find (is_series co doc year) (db_sequences s))"

definition take_number :: "nat \<Rightarrow> string \<Rightarrow> nat \<Rightarrow> nat option result \<Rightarrow> 'a numbering_db_scheme \<Rightarrow>
    (nat \<times> 'a numbering_db_scheme) result" where
  "take_number co doc year seed s =
     (case last_value co doc year s of
        Some v \<Rightarrow>
          throw_if (int4_max < v + 1) (DbError ''22003'')
            (Inr (v + 1, s\<lparr>db_sequences :=
               map (\<lambda>r. if is_series co doc year r then r\<lparr>sq_last := sq_last r + 1\<rparr> else r) (db_sequences s)\<rparr>))
      | None \<Rightarrow>
          bindE seed (\<lambda>best.
            let n = (case best of None \<Rightarrow> 0 | Some m \<Rightarrow> m) + 1
            in throw_if (int4_max < n) (DbError ''22003'')
              (Inr (n, s\<lparr>db_sequences := db_sequences s @
                 [\<lparr>sq_company = co, sq_docType = doc, sq_year = year, sq_last = n\<rparr>]\<rparr>))))"

definition series_prefix :: "document_series \<Rightarrow> nat \<Rightarrow> string" where
  "series_prefix series year = series_name series @ ''-'' @ show_nat year @ ''-''"

definition nextDocumentSequence :: "string list \<Rightarrow> nat \<Rightarrow> document_series \<Rightarrow> nat \<Rightarrow> 'a numbering_db_scheme \<Rightarrow>
    (nat \<times> 'a numbering_db_scheme) result" where
  "nextDocumentSequence numbers co series year s =
     take_number co (series_name series) year (highest_issued (series_prefix series year) None numbers) s"

definition nextDocumentNumber :: "string list \<Rightarrow> nat \<Rightarrow> document_series \<Rightarrow> nat \<Rightarrow> 'a numbering_db_scheme \<Rightarrow>
    (string \<times> 'a numbering_db_scheme) result" where
  "nextDocumentNumber numbers co series year s =
     bindE (nextDocumentSequence numbers co series year s) (\<lambda>(n, s').
       Inr (formatYearlyRef (series_name series) year n, s'))"

text \<open>\<open>parseInt(isoDate.slice(0, 4), 10)\<close>: the leading digits, or NaN when there are none.\<close>

definition yearOf :: "date \<Rightarrow> nat option" where
  "yearOf d = (let y = takeWhile is_digit (slice 0 4 d) in if y = [] then None else Some (read_nat y))"

lemma yearOf_iso:
  assumes "iso_date d"
  shows "yearOf d = Some (nat (iso_year d))"
proof -
  have "takeWhile is_digit (slice 0 4 d) = slice 0 4 d" and "slice 0 4 d \<noteq> []"
    using assms list_all_iff [of is_digit "slice 0 4 d"] by (auto simp: iso_date_def takeWhile_eq_all_conv slice_def)
  then show ?thesis unfolding yearOf_def iso_year_def Let_def by (simp only: if_False nat_int)
qed

section \<open>Numbers and their texts\<close>

lemma trailing_digits_append:
  assumes "list_all is_digit d" and "p = [] \<or> \<not> is_digit (last p)"
  shows "trailing_digits (p @ d) = d"
proof -
  have "takeWhile is_digit (rev p) = []"
    using assms(2) by (cases p rule: rev_cases) auto
  moreover have "takeWhile is_digit (rev d @ rev p) = rev d @ takeWhile is_digit (rev p)"
    using assms(1) by (intro takeWhile_append2) (simp add: list_all_iff)
  ultimately show ?thesis by (simp add: trailing_digits_def)
qed

definition series_ref :: "string \<Rightarrow> nat \<Rightarrow> string" where
  "series_ref prefix n = prefix @ padStart 4 (CHR ''0'') (show_nat n)"

lemma series_ref_matches: "matches_series prefix None (series_ref prefix n)"
  by (auto simp: matches_series_def series_ref_def starts_with_def list_all_padStart show_nat_digits)
    (simp add: padStart_def)

lemma series_ref_value:
  "p \<noteq> [] \<Longrightarrow> \<not> is_digit (last p) \<Longrightarrow> read_nat (trailing_digits (series_ref p n)) = n"
  by (simp add: series_ref_def trailing_digits_append list_all_padStart show_nat_digits)

lemma series_prefix_end: "series_prefix series year \<noteq> [] \<and> \<not> is_digit (last (series_prefix series year))"
  by (simp add: series_prefix_def is_digit_def)

lemma formatYearlyRef_series: "formatYearlyRef (series_name series) year n = series_ref (series_prefix series year) n"
  by (simp add: formatYearlyRef_def series_ref_def series_prefix_def)

lemma highest_issued_bound:
  assumes "highest_issued prefix limit numbers = Inr best" and "x \<in> set numbers" and "matches_series prefix limit x"
  shows "read_nat (trailing_digits x) \<le> (case best of None \<Rightarrow> 0 | Some m \<Rightarrow> m)"
  using assms by (fastforce simp: highest_issued_def Let_def throw_if_Inr filter_empty_conv)

lemma find_map_series:
  "find (is_series co doc year) (map (\<lambda>r. if is_series co doc year r then r\<lparr>sq_last := sq_last r + 1\<rparr> else r) rs)
   = map_option (\<lambda>r. r\<lparr>sq_last := sq_last r + 1\<rparr>) (find (is_series co doc year) rs)"
  by (induction rs) (auto simp: is_series_def)

lemma is_series_new [simp]:
  "is_series co' doc' year' \<lparr>sq_company = co, sq_docType = doc, sq_year = year, sq_last = n\<rparr>
   \<longleftrightarrow> co = co' \<and> doc = doc' \<and> year = year'"
  by (simp add: is_series_def)

lemma find_append_None: "find P (xs @ ys) = (case find P xs of Some x \<Rightarrow> Some x | None \<Rightarrow> find P ys)"
  by (induction xs) auto

text \<open>After a number is taken it is the last value; what it exceeds depends on whether the counter existed.\<close>

lemma take_number_Inr:
  assumes "take_number co doc year seed s = Inr (n, s')"
  shows "last_value co doc year s' = Some n \<and> n \<le> int4_max
    \<and> (case last_value co doc year s of
        Some v \<Rightarrow> n = v + 1
      | None \<Rightarrow> \<exists>best. seed = Inr best \<and> n = (case best of None \<Rightarrow> 0 | Some m \<Rightarrow> m) + 1)"
  using assms
  by (auto simp: take_number_def last_value_def throw_if_Inr bindE_Inr Let_def find_map_series find_append_None
      not_less split: option.splits)

text \<open>A number is taken in one series only: the others keep their last value.\<close>

lemma find_map_other:
  "\<not> (co = co' \<and> doc = doc' \<and> year = year') \<Longrightarrow>
   find (is_series co' doc' year') (map (\<lambda>r. if is_series co doc year r then r\<lparr>sq_last := sq_last r + 1\<rparr> else r) rs)
   = find (is_series co' doc' year') rs"
  by (induction rs) (auto simp: is_series_def)

lemma take_number_tables:
  assumes "take_number co doc year seed s = Inr (n, s')"
  shows "db_sequences s' = map (\<lambda>r. if is_series co doc year r then r\<lparr>sq_last := sq_last r + 1\<rparr> else r) (db_sequences s)
    \<or> db_sequences s' = db_sequences s @ [\<lparr>sq_company = co, sq_docType = doc, sq_year = year, sq_last = n\<rparr>]"
proof (cases "last_value co doc year s")
  case None
  then show ?thesis using assms by (auto simp: take_number_def throw_if_Inr bindE_Inr Let_def)
next
  case (Some v)
  then have "s' = s\<lparr>db_sequences := map (\<lambda>r. if is_series co doc year r then r\<lparr>sq_last := sq_last r + 1\<rparr> else r) (db_sequences s)\<rparr>"
    using assms by (simp add: take_number_def throw_if_Inr)
  then show ?thesis by simp
qed

lemma take_number_other:
  assumes "take_number co doc year seed s = Inr (n, s')" and "\<not> (co = co' \<and> doc = doc' \<and> year = year')"
  shows "last_value co' doc' year' s' = last_value co' doc' year' s"
proof -
  have ns: "find (is_series co' doc' year') (map (\<lambda>r. if is_series co doc year r then r\<lparr>sq_last := sq_last r + 1\<rparr> else r) rs)
    = find (is_series co' doc' year') rs" for rs
    by (rule find_map_other [OF assms(2)])
  have new: "\<not> is_series co' doc' year' \<lparr>sq_company = co, sq_docType = doc, sq_year = year, sq_last = m\<rparr>" for m
    using assms(2) by simp
  consider "db_sequences s' = map (\<lambda>r. if is_series co doc year r then r\<lparr>sq_last := sq_last r + 1\<rparr> else r) (db_sequences s)"
    | "db_sequences s' = db_sequences s @ [\<lparr>sq_company = co, sq_docType = doc, sq_year = year, sq_last = n\<rparr>]"
    using take_number_tables [OF assms(1)] by blast
  then show ?thesis
    by cases (simp_all only: last_value_def ns find_append_None find.simps new if_False, cases "find (is_series co' doc' year') (db_sequences s)", simp_all)
qed

section \<open>No number is issued twice\<close>

text \<open>
  A history of one series: documents are created with the next number and documents are hard deleted. The state
  is the numbers in the document table and the database.
\<close>

datatype series_op = Create | Delete string

fun run_series :: "nat \<Rightarrow> document_series \<Rightarrow> nat \<Rightarrow> series_op list \<Rightarrow> string list \<Rightarrow> 'a numbering_db_scheme \<Rightarrow>
    string list result" where
  "run_series co series year [] numbers s = Inr []"
| "run_series co series year (Create # ops) numbers s =
     bindE (nextDocumentNumber numbers co series year s) (\<lambda>(k, s').
       bindE (run_series co series year ops (k # numbers) s') (\<lambda>ks. Inr (k # ks)))"
| "run_series co series year (Delete k # ops) numbers s =
     run_series co series year ops (filter (\<lambda>x. x \<noteq> k) numbers) s"

text \<open>A counter is never behind the numbers in the table.\<close>

definition counter_ok :: "nat \<Rightarrow> document_series \<Rightarrow> nat \<Rightarrow> string list \<Rightarrow> 'a numbering_db_scheme \<Rightarrow> bool" where
  "counter_ok co series year numbers s \<longleftrightarrow>
     (case last_value co (series_name series) year s of
        None \<Rightarrow> True
      | Some v \<Rightarrow> \<forall>x \<in> set numbers. matches_series (series_prefix series year) None x \<longrightarrow>
                    read_nat (trailing_digits x) \<le> v)"

lemma nextDocumentNumber_step:
  assumes "nextDocumentNumber numbers co series year s = Inr (k, s')" and "counter_ok co series year numbers s"
  shows "\<exists>n. k = series_ref (series_prefix series year) n \<and> last_value co (series_name series) year s' = Some n
    \<and> counter_ok co series year (k # numbers) s'
    \<and> (\<forall>x \<in> set numbers. matches_series (series_prefix series year) None x \<longrightarrow> read_nat (trailing_digits x) < n)
    \<and> (\<forall>v. last_value co (series_name series) year s = Some v \<longrightarrow> n = v + 1)"
proof -
  obtain n where n: "k = series_ref (series_prefix series year) n"
    and take: "take_number co (series_name series) year (highest_issued (series_prefix series year) None numbers) s = Inr (n, s')"
    using assms(1) by (auto simp: nextDocumentNumber_def nextDocumentSequence_def bindE_Inr formatYearlyRef_series)
  note t = take_number_Inr [OF take]
  have below: "read_nat (trailing_digits x) < n"
    if "x \<in> set numbers" "matches_series (series_prefix series year) None x" for x
  proof (cases "last_value co (series_name series) year s")
    case None
    then show ?thesis using t that highest_issued_bound [of "series_prefix series year" None numbers _ x] by auto
  next
    case (Some v)
    then show ?thesis using t that assms(2) by (auto simp: counter_ok_def)
  qed
  have "counter_ok co series year (k # numbers) s'"
    using t below series_ref_value series_prefix_end [of series year]
    by (auto simp: counter_ok_def n less_imp_le)
  then show ?thesis using t n below by auto
qed

lemma counter_ok_filter: "counter_ok co series year numbers s \<Longrightarrow> counter_ok co series year (filter P numbers) s"
  by (auto simp: counter_ok_def split: option.splits)

text \<open>\<open>m\<close> is the first number the history issues.\<close>

lemma run_series_issues:
  assumes "run_series co series year ops numbers s = Inr ks" and "counter_ok co series year numbers s"
  shows "\<exists>m. ks = map (series_ref (series_prefix series year)) [m..<m + length ks]
    \<and> (\<forall>v. last_value co (series_name series) year s = Some v \<longrightarrow> m = v + 1)"
  using assms
proof (induction co series year ops numbers s arbitrary: ks rule: run_series.induct)
  case (1 co series year numbers s)
  then show ?case by (cases "last_value co (series_name series) year s") auto
next
  case (2 co series year ops numbers s)
  then obtain k s' ks' where k: "nextDocumentNumber numbers co series year s = Inr (k, s')"
    and rest: "run_series co series year ops (k # numbers) s' = Inr ks'" and ks: "ks = k # ks'"
    by (auto simp: bindE_Inr)
  obtain n where n: "k = series_ref (series_prefix series year) n" "last_value co (series_name series) year s' = Some n"
    "counter_ok co series year (k # numbers) s'"
    "\<forall>v. last_value co (series_name series) year s = Some v \<longrightarrow> n = v + 1"
    using nextDocumentNumber_step [OF k "2.prems"(2)] by blast
  have "ks' = map (series_ref (series_prefix series year)) [n + 1..<n + 1 + length ks']"
    using "2.IH" [OF rest n(3)] n(2) by auto
  then have "ks = map (series_ref (series_prefix series year)) [n..<n + length ks]"
    unfolding ks by (simp add: n(1) upt_rec)
  then show ?case using n(4) by blast
next
  case (3 co series year k ops numbers s)
  then show ?case using counter_ok_filter by fastforce
qed


definition no_sequences :: "numbering_db" where
  "no_sequences = \<lparr>db_companies = [], db_accounts = [], db_entries = [], db_gl = [], db_fresh = 0, db_sequences = []\<rparr>"


end
