(* ===== verification/Contacts.thy ===== *)
theory Contacts
  imports Dates
begin

text \<open>
  WhatsApp numbers and consent: \<^verbatim>\<open>src/common/utils/phone.util.ts\<close> and
  \<^verbatim>\<open>src/common/utils/whatsapp-contact.util.ts\<close>. A field a request does not send is \<open>None\<close>; one it
  sends as null is \<open>Some None\<close>.
\<close>

section \<open>phone.util.ts\<close>

definition dial_digits :: "string \<Rightarrow> string" where
  "dial_digits raw =
     (let d = filter is_digit raw;
          d' = (if starts_with d ''00'' then drop 2 d else d)
      in if length d' = 11 \<and> starts_with d' ''0'' then ''92'' @ drop 1 d'
         else if length d' = 10 \<and> starts_with d' ''3'' then ''92'' @ d'
         else d')"

definition toWhatsappE164 :: "string option \<Rightarrow> string option" where
  "toWhatsappE164 raw =
     (case raw of
        None \<Rightarrow> None
      | Some r \<Rightarrow>
          if r = [] then None
          else let d = dial_digits r in if 10 \<le> length d \<and> length d \<le> 15 then Some (CHR ''+'' # d) else None)"

definition maskPhone :: "string option \<Rightarrow> string" where
  "maskPhone e164 =
     (case e164 of
        None \<Rightarrow> ''(none)''
      | Some s \<Rightarrow>
          if s = [] then ''(none)''
          else let d = filter is_digit s
               in if length d < 9 then ''+***'' else ''+'' @ take 5 d @ ''***'' @ drop (length d - 4) d)"

section \<open>whatsapp-contact.util.ts\<close>

record whatsapp_contact =
  wa_phone :: "string option"
  wa_e164 :: "string option"
  wa_optInAt :: "int option"
  wa_optInBy :: "nat option"
  wa_verifiedAt :: "int option"
  wa_language :: "string option"

record whatsapp_input =
  wi_phone :: "string option option"
  wi_whatsappPhone :: "string option option"
  wi_optIn :: "bool option"
  wi_language :: "string option option"

text \<open>The number the contact has after the request, or the error.\<close>

definition next_number :: "whatsapp_contact \<Rightarrow> whatsapp_input \<Rightarrow> string option \<Rightarrow> bool \<Rightarrow> string option result" where
  "next_number c inp previousPhone isCreate =
     (case wi_whatsappPhone inp of
        Some v \<Rightarrow>
          (let raw = trim (case v of None \<Rightarrow> [] | Some s \<Rightarrow> s)
           in if raw = [] then Inr None
              else (case toWhatsappE164 (Some raw) of
                      None \<Rightarrow> Inl (BadRequest ''INVALID_WHATSAPP_NUMBER'')
                    | Some e \<Rightarrow> Inr (Some e)))
      | None \<Rightarrow>
          Inr (if isCreate \<or> (case wi_phone inp of None \<Rightarrow> False | Some p \<Rightarrow> p \<noteq> previousPhone)
               then toWhatsappE164 (wa_phone c) else wa_e164 c))"

definition applyWhatsappContactFields ::
  "int \<Rightarrow> whatsapp_contact \<Rightarrow> whatsapp_input \<Rightarrow> nat option \<Rightarrow> string option \<Rightarrow> bool \<Rightarrow> whatsapp_contact result" where
  "applyWhatsappContactFields clock c inp userId previousPhone isCreate =
     bindE (next_number c inp previousPhone isCreate) (\<lambda>number.
       let c1 = c\<lparr>wa_e164 := number\<rparr>;
           c2 = (if number \<noteq> wa_e164 c then c1\<lparr>wa_verifiedAt := None\<rparr> else c1);
           c3 = (case wi_optIn inp of
                   Some True \<Rightarrow> if wa_optInAt c2 = None then c2\<lparr>wa_optInAt := Some clock, wa_optInBy := userId\<rparr> else c2
                 | Some False \<Rightarrow> c2\<lparr>wa_optInAt := None, wa_optInBy := None\<rparr>
                 | None \<Rightarrow> c2)
       in Inr (case wi_language inp of None \<Rightarrow> c3 | Some l \<Rightarrow> c3\<lparr>wa_language := l\<rparr>))"

section \<open>Numbers\<close>

definition e164 :: "string \<Rightarrow> bool" where
  "e164 s \<longleftrightarrow> (case s of [] \<Rightarrow> False | c # d \<Rightarrow> c = CHR ''+'' \<and> list_all is_digit d \<and> 10 \<le> length d \<and> length d \<le> 15)"

lemma digits_filter [simp]: "list_all is_digit d \<Longrightarrow> filter is_digit d = d"
  by (simp add: filter_id_conv list_all_iff)

lemma digits_of_filter [simp]: "list_all is_digit (filter is_digit d)"
  by (simp add: list_all_iff)

lemma is_digit_literals [simp]:
  "is_digit (CHR ''0'')" "is_digit (CHR ''2'')" "is_digit (CHR ''3'')" "is_digit (CHR ''9'')" "\<not> is_digit (CHR ''+'')"
  by (simp_all add: is_digit_def)

lemma dial_digits_digits: "list_all is_digit (dial_digits r)"
  by (auto simp: dial_digits_def Let_def list_all_iff dest!: in_set_dropD)

lemma toWhatsappE164_Some:
  "toWhatsappE164 raw = Some e \<Longrightarrow>
   \<exists>r. raw = Some r \<and> r \<noteq> [] \<and> e = CHR ''+'' # dial_digits r \<and> 10 \<le> length (dial_digits r) \<and> length (dial_digits r) \<le> 15"
  by (auto simp: toWhatsappE164_def Let_def split: option.splits if_splits)

lemma toWhatsappE164_shape: "toWhatsappE164 raw = Some e \<Longrightarrow> e164 e"
  using toWhatsappE164_Some dial_digits_digits by (fastforce simp: e164_def)



text \<open>
  A confirmation of delivery and a consent belong to the number they were given for. A request that
  changes the WhatsApp number clears the time it was verified; a number that cannot be a WhatsApp number is refused;
  a consent keeps its first time and giver however often it is sent, and only a withdrawal removes it.
\<close>

theorem contact_consent_and_number:
  assumes "applyWhatsappContactFields clock c inp userId previousPhone isCreate = Inr c'"
  shows "(wa_e164 c' \<noteq> wa_e164 c \<longrightarrow> wa_verifiedAt c' = None)
    \<and> (wa_e164 c' = wa_e164 c \<longrightarrow> wa_verifiedAt c' = wa_verifiedAt c)
    \<and> (wa_e164 c' \<noteq> wa_e164 c \<longrightarrow> (case wa_e164 c' of None \<Rightarrow> True | Some e \<Rightarrow> e164 e))
    \<and> (wa_optInAt c \<noteq> None \<and> wi_optIn inp \<noteq> Some False \<longrightarrow>
        wa_optInAt c' = wa_optInAt c \<and> wa_optInBy c' = wa_optInBy c)
    \<and> (wi_optIn inp = Some True \<longrightarrow> wa_optInAt c' \<noteq> None)
    \<and> (wi_optIn inp = Some False \<longrightarrow> wa_optInAt c' = None)
    \<and> wa_phone c' = wa_phone c"
proof -
  from assms obtain number where n: "next_number c inp previousPhone isCreate = Inr number"
    by (auto simp: applyWhatsappContactFields_def bindE_Inr)
  have fields: "wa_e164 c' = number"
    "wa_verifiedAt c' = (if number \<noteq> wa_e164 c then None else wa_verifiedAt c)" "wa_phone c' = wa_phone c"
    "(wa_optInAt c', wa_optInBy c') = (case wi_optIn inp of
       Some True \<Rightarrow> if wa_optInAt c = None then (Some clock, userId) else (wa_optInAt c, wa_optInBy c)
     | Some False \<Rightarrow> (None, None) | None \<Rightarrow> (wa_optInAt c, wa_optInBy c))"
    using assms n by (auto simp: applyWhatsappContactFields_def Let_def split: option.splits bool.splits)
  have "case number of None \<Rightarrow> True | Some e \<Rightarrow> e164 e" if "number \<noteq> wa_e164 c"
    using n that toWhatsappE164_shape
    by (fastforce simp: next_number_def Let_def split: option.splits if_splits)
  then show ?thesis using fields by (auto split: option.splits if_splits)
qed

theorem contact_consent_and_number_witness:
  "\<exists>c'. applyWhatsappContactFields 500
      \<lparr>wa_phone = Some ''03001234567'', wa_e164 = Some ''+923001234567'', wa_optInAt = Some 7, wa_optInBy = Some 1,
       wa_verifiedAt = Some 9, wa_language = None\<rparr>
      \<lparr>wi_phone = None, wi_whatsappPhone = Some (Some ''0301 1234567''), wi_optIn = Some True, wi_language = None\<rparr>
      (Some 2) None False = Inr c' \<and> wa_verifiedAt c' = None \<and> wa_optInAt c' = Some 7"
proof -
  let ?c = "\<lparr>wa_phone = Some ''03001234567'', wa_e164 = Some ''+923001234567'', wa_optInAt = Some 7, wa_optInBy = Some 1,
       wa_verifiedAt = Some 9, wa_language = None\<rparr>"
  let ?i = "\<lparr>wi_phone = None, wi_whatsappPhone = Some (Some ''0301 1234567''), wi_optIn = Some True, wi_language = None\<rparr>"
  have run: "applyWhatsappContactFields 500 ?c ?i (Some 2) None False =
    Inr (?c\<lparr>wa_e164 := Some ''+923011234567'', wa_verifiedAt := None\<rparr>)" by code_simp
  show ?thesis using contact_consent_and_number [OF run] run by simp
qed

end
