(* ===== verification/Parties.thy ===== *)
theory Parties
  imports Sequences Contacts
begin

text \<open>
  Customers and vendors: their IDs (\<^verbatim>\<open>src/common/utils/party-code.util.ts\<close>) and the operations that write
  them (\<^verbatim>\<open>src/modules/customers/customers.service.ts\<close>, \<^verbatim>\<open>src/modules/vendors/vendors.service.ts\<close>).

  A field of a request that is not sent is \<open>None\<close>; a nullable one sent as null is \<open>Some None\<close>. Finding the
  coordinates of an address is a call to a map service: the argument \<open>geocode\<close>. How many invoices, bills and
  payments name a party is an argument of the deletions, since those tables belong to other components.
\<close>

section \<open>Rows\<close>

record address =
  ad_street :: "string option"
  ad_city :: "string option"
  ad_state :: "string option"
  ad_postalCode :: "string option"
  ad_country :: "string option"

record customer =
  cu_id :: nat
  cu_companyId :: nat
  cu_code :: "string option"
  cu_name :: string
  cu_company :: "string option"
  cu_email :: "string option"
  cu_billing :: "address option"
  cu_shipping :: "address option"
  cu_creditLimit :: rat
  cu_paymentTerms :: string
  cu_balance :: rat
  cu_active :: bool
  cu_notes :: "string option"
  cu_contactPerson :: "string option"
  cu_taxId :: "string option"
  cu_pin :: "(rat \<times> rat \<times> int) option"
  cu_whatsapp :: whatsapp_contact
  cu_collectionsPaused :: bool

record vendor =
  ve_id :: nat
  ve_companyId :: nat
  ve_code :: "string option"
  ve_companyName :: string
  ve_contactPerson :: "string option"
  ve_email :: "string option"
  ve_address :: "address option"
  ve_paymentTerms :: string
  ve_taxId :: "string option"
  ve_expenseAccount :: "nat option"
  ve_balance :: rat
  ve_active :: bool
  ve_notes :: "string option"
  ve_whatsapp :: whatsapp_contact

record party_db = numbering_db +
  db_customers :: "customer list"
  db_vendors :: "vendor list"

section \<open>party-code.util.ts\<close>

datatype party_kind = Customer | Vendor

record party_series =
  ps_docType :: string
  ps_prefix :: string
  ps_errorCode :: string

fun SERIES :: "party_kind \<Rightarrow> party_series" where
  "SERIES Customer = \<lparr>ps_docType = ''CUST'', ps_prefix = ''C'', ps_errorCode = ''CUSTOMER_CODE''\<rparr>"
| "SERIES Vendor = \<lparr>ps_docType = ''VEND'', ps_prefix = ''V'', ps_errorCode = ''VENDOR_CODE''\<rparr>"

definition is_upper :: "char \<Rightarrow> bool" where
  "is_upper c \<longleftrightarrow> 65 \<le> (of_char c :: nat) \<and> (of_char c :: nat) \<le> 90"

definition PARTY_CODE_PATTERN :: "string \<Rightarrow> bool" where
  "PARTY_CODE_PATTERN code \<longleftrightarrow>
     (case code of
        [] \<Rightarrow> False
      | c # cs \<Rightarrow> (is_upper c \<or> is_digit c) \<and> length cs \<le> 19 \<and>
                  list_all (\<lambda>d. is_upper d \<or> is_digit d \<or> d \<in> set ''._/-'') cs)"

definition normalizePartyCode :: "string option \<Rightarrow> string option" where
  "normalizePartyCode raw =
     (let code = map upper_char (trim (case raw of None \<Rightarrow> [] | Some s \<Rightarrow> s))
      in if code \<noteq> [] then Some code else None)"

definition assertValidPartyCode :: "party_kind \<Rightarrow> string \<Rightarrow> unit result" where
  "assertValidPartyCode kind code =
     throw_if (\<not> PARTY_CODE_PATTERN code) (BadRequest (''INVALID_'' @ ps_errorCode (SERIES kind))) (Inr ())"

definition party_prefix :: "party_kind \<Rightarrow> string" where
  "party_prefix kind = ps_prefix (SERIES kind) @ ''-''"

definition formatPartyCode :: "party_kind \<Rightarrow> nat \<Rightarrow> string" where
  "formatPartyCode kind n = party_prefix kind @ padStart 4 (CHR ''0'') (show_nat n)"

text \<open>Identifier and ID of the parties of a company, in the table of their kind.\<close>

definition party_codes :: "party_kind \<Rightarrow> nat \<Rightarrow> 'a party_db_scheme \<Rightarrow> (nat \<times> string option) list" where
  "party_codes kind co s =
     (case kind of
        Customer \<Rightarrow> map (\<lambda>c. (cu_id c, cu_code c)) (filter (\<lambda>c. cu_companyId c = co) (db_customers s))
      | Vendor \<Rightarrow> map (\<lambda>v. (ve_id v, ve_code v)) (filter (\<lambda>v. ve_companyId v = co) (db_vendors s)))"

definition highestIssued :: "party_kind \<Rightarrow> nat \<Rightarrow> 'a party_db_scheme \<Rightarrow> nat option result" where
  "highestIssued kind co s =
     highest_issued (party_prefix kind) (Some 9) (List.map_filter snd (party_codes kind co s))"

definition bump :: "nat \<Rightarrow> party_kind \<Rightarrow> 'a party_db_scheme \<Rightarrow> (nat \<times> 'a party_db_scheme) result" where
  "bump co kind s = take_number co (ps_docType (SERIES kind)) 0 (highestIssued kind co s) s"

definition codeTaken :: "nat \<Rightarrow> party_kind \<Rightarrow> string \<Rightarrow> 'a party_db_scheme \<Rightarrow> bool" where
  "codeTaken co kind code s \<longleftrightarrow> Some code \<in> snd ` set (party_codes kind co s)"

fun next_code_loop :: "nat \<Rightarrow> nat \<Rightarrow> party_kind \<Rightarrow> 'a party_db_scheme \<Rightarrow> (string \<times> 'a party_db_scheme) result" where
  "next_code_loop 0 co kind s = Inl (Conflict (ps_errorCode (SERIES kind) @ ''_EXHAUSTED''))"
| "next_code_loop (Suc k) co kind s =
     bindE (bump co kind s) (\<lambda>(n, s').
       if \<not> codeTaken co kind (formatPartyCode kind n) s' then Inr (formatPartyCode kind n, s')
       else next_code_loop k co kind s')"

definition ATTEMPTS :: nat where "ATTEMPTS = 10000"

definition nextPartyCode :: "nat \<Rightarrow> party_kind \<Rightarrow> 'a party_db_scheme \<Rightarrow> (string \<times> 'a party_db_scheme) result" where
  "nextPartyCode co kind s = next_code_loop ATTEMPTS co kind s"

fun peek_loop :: "nat \<Rightarrow> nat \<Rightarrow> nat \<Rightarrow> party_kind \<Rightarrow> 'a party_db_scheme \<Rightarrow> string" where
  "peek_loop 0 n co kind s = formatPartyCode kind n"
| "peek_loop (Suc k) n co kind s =
     (if \<not> codeTaken co kind (formatPartyCode kind n) s then formatPartyCode kind n
      else peek_loop k (n + 1) co kind s)"

definition peekNextPartyCode :: "nat \<Rightarrow> party_kind \<Rightarrow> 'a party_db_scheme \<Rightarrow> string result" where
  "peekNextPartyCode co kind s =
     bindE (case last_value co (ps_docType (SERIES kind)) 0 s of
              Some v \<Rightarrow> Inr v
            | None \<Rightarrow> bindE (highestIssued kind co s) (\<lambda>h. Inr (case h of None \<Rightarrow> 0 | Some m \<Rightarrow> m)))
       (\<lambda>last. Inr (peek_loop ATTEMPTS (last + 1) co kind s))"

definition partyCodeHolder :: "nat \<Rightarrow> party_kind \<Rightarrow> string \<Rightarrow> nat option \<Rightarrow> 'a party_db_scheme \<Rightarrow> nat option" where
  "partyCodeHolder co kind code exceptId s =
     map_option fst (find (\<lambda>(i, c). c = Some code \<and> Some i \<noteq> exceptId) (party_codes kind co s))"

definition assertPartyCodeFree :: "nat \<Rightarrow> party_kind \<Rightarrow> string \<Rightarrow> nat option \<Rightarrow> 'a party_db_scheme \<Rightarrow> unit result" where
  "assertPartyCodeFree co kind code exceptId s =
     throw_if (partyCodeHolder co kind code exceptId s \<noteq> None)
       (Conflict (ps_errorCode (SERIES kind) @ ''_TAKEN'')) (Inr ())"

section \<open>Lemmas about IDs\<close>

lemma party_prefix_end: "party_prefix kind \<noteq> [] \<and> \<not> is_digit (last (party_prefix kind))"
  by (cases kind) (simp_all add: party_prefix_def is_digit_def)

lemma formatPartyCode_series: "formatPartyCode kind n = series_ref (party_prefix kind) n"
  by (simp add: formatPartyCode_def series_ref_def)

lemma formatPartyCode_inj: "formatPartyCode kind m = formatPartyCode kind n \<longleftrightarrow> m = n"
  using series_ref_value party_prefix_end by (metis formatPartyCode_series)

text \<open>At most nine digits: the highest ID always fits the counter.\<close>

lemma highestIssued_fits: "\<exists>h. highestIssued kind co s = Inr h"
proof -
  have "read_nat (trailing_digits x) \<le> int4_max" if "matches_series (party_prefix kind) (Some 9) x" for x
  proof -
    let ?d = "drop (length (party_prefix kind)) x"
    have x: "x = party_prefix kind @ ?d"
      using that append_take_drop_id [of "length (party_prefix kind)" x] by (simp add: matches_series_def starts_with_def)
    have d: "list_all is_digit ?d" "length ?d \<le> 9" using that by (simp_all add: matches_series_def)
    have "read_nat ?d < 10 ^ length ?d" by (rule read_nat_bound [OF d(1)])
    also have "\<dots> \<le> 10 ^ 9" using d(2) by (intro power_increasing) simp_all
    finally have "read_nat ?d \<le> int4_max" by (simp add: int4_max_def)
    then show ?thesis using trailing_digits_append [OF d(1), of "party_prefix kind"] party_prefix_end x by metis
  qed
  then show ?thesis by (auto simp: highestIssued_def highest_issued_def Let_def throw_if_def not_less)
qed

lemma take_number_parties:
  assumes "take_number co doc year seed s = Inr (n, s')"
  shows "db_customers s' = db_customers s \<and> db_vendors s' = db_vendors s"
proof (cases "last_value co doc year s")
  case None
  then show ?thesis using assms by (auto simp: take_number_def throw_if_Inr bindE_Inr Let_def)
next
  case (Some v)
  then show ?thesis using assms by (auto simp: take_number_def throw_if_Inr)
qed

lemma party_codes_cong:
  "db_customers s' = db_customers s \<Longrightarrow> db_vendors s' = db_vendors s \<Longrightarrow> party_codes kind co s' = party_codes kind co s"
  by (cases kind) (simp_all add: party_codes_def)

text \<open>Where the counter of a kind stands: the last value given out, or the highest ID in use.\<close>

definition base_number :: "nat \<Rightarrow> party_kind \<Rightarrow> 'a party_db_scheme \<Rightarrow> nat" where
  "base_number co kind s =
     (case last_value co (ps_docType (SERIES kind)) 0 s of
        Some v \<Rightarrow> v
      | None \<Rightarrow> (case highestIssued kind co s of Inr (Some m) \<Rightarrow> m | _ \<Rightarrow> 0))"

lemma bump_Inr:
  assumes "bump co kind s = Inr (n, s')"
  shows "n = base_number co kind s + 1 \<and> base_number co kind s' = n
    \<and> db_customers s' = db_customers s \<and> db_vendors s' = db_vendors s"
  using take_number_Inr [OF assms [unfolded bump_def]] take_number_parties [OF assms [unfolded bump_def]]
  by (auto simp: base_number_def split: option.splits)

lemma bump_ok:
  assumes "base_number co kind s < int4_max"
  shows "\<exists>s'. bump co kind s = Inr (base_number co kind s + 1, s')"
proof -
  obtain h where "highestIssued kind co s = Inr h" using highestIssued_fits by blast
  then show ?thesis using assms
    by (auto simp: bump_def take_number_def base_number_def throw_if_def bindE_def split: option.splits)
qed

lemma next_code_loop_Inr:
  assumes "next_code_loop k co kind s = Inr (code, s')"
  shows "db_customers s' = db_customers s \<and> db_vendors s' = db_vendors s
    \<and> \<not> codeTaken co kind code s \<and> code = peek_loop k (base_number co kind s + 1) co kind s
    \<and> code = formatPartyCode kind (base_number co kind s') \<and> base_number co kind s < base_number co kind s'"
  using assms
proof (induction k arbitrary: s)
  case 0
  then show ?case by simp
next
  case (Suc k)
  obtain n t where b: "bump co kind s = Inr (n, t)" using Suc.prems by (auto simp: bindE_Inr)
  note t = bump_Inr [OF b]
  have same: "codeTaken co kind c t = codeTaken co kind c s" for c
    using t party_codes_cong [of t s] by (simp add: codeTaken_def)
  have peek: "peek_loop k m co kind t = peek_loop k m co kind s" for m
    by (induction k arbitrary: m) (simp_all add: same)
  show ?case
  proof (cases "codeTaken co kind (formatPartyCode kind n) t")
    case True
    then have "next_code_loop k co kind t = Inr (code, s')" using Suc.prems b by simp
    note r = Suc.IH [OF this]
    have "peek_loop (Suc k) n co kind s = peek_loop k (n + 1) co kind s" using True same by simp
    then have "code = peek_loop (Suc k) (base_number co kind s + 1) co kind s"
      using r t peek by (metis add.commute)
    then show ?thesis using r t same by (metis Suc_eq_plus1 Suc_lessD)
  next
    case False
    then have "code = formatPartyCode kind n" and "s' = t" using Suc.prems b by simp_all
    then show ?thesis using False t same by simp
  qed
qed

text \<open>A loop that gives up has found every one of its codes taken.\<close>

lemma next_code_loop_Inl:
  assumes "next_code_loop k co kind s = Inl e" and "base_number co kind s + k \<le> int4_max"
  shows "\<forall>i \<in> {1..k}. codeTaken co kind (formatPartyCode kind (base_number co kind s + i)) s"
  using assms
proof (induction k arbitrary: s)
  case 0
  then show ?case by simp
next
  case (Suc k)
  obtain t where b: "bump co kind s = Inr (base_number co kind s + 1, t)"
    using bump_ok [of co kind s] Suc.prems(2) by auto
  note t = bump_Inr [OF b]
  have same: "codeTaken co kind c t = codeTaken co kind c s" for c
    using t party_codes_cong [of t s] by (simp add: codeTaken_def)
  have taken: "codeTaken co kind (formatPartyCode kind (base_number co kind s + 1)) s"
    and rest: "next_code_loop k co kind t = Inl e"
    using Suc.prems(1) b same by (auto split: if_splits)
  have later: "\<forall>i \<in> {1..k}. codeTaken co kind (formatPartyCode kind (base_number co kind s + 1 + i)) s"
    using Suc.IH [OF rest] Suc.prems(2) t same by simp
  show ?case
  proof
    fix i assume i: "i \<in> {1..Suc k}"
    show "codeTaken co kind (formatPartyCode kind (base_number co kind s + i)) s"
    proof (cases "i = 1")
      case True
      then show ?thesis using taken by simp
    next
      case False
      then have "i - 1 \<in> {1..k}" using i by auto
      then have "codeTaken co kind (formatPartyCode kind (base_number co kind s + 1 + (i - 1))) s"
        using later by blast
      then show ?thesis using i by simp
    qed
  qed
qed

text \<open>
  A loop with more attempts than the company has parties finds a free ID: the IDs it tries are different, so
  they cannot all be taken.
\<close>

lemma next_code_loop_found:
  assumes "length (party_codes kind co s) < k" and "base_number co kind s + k \<le> int4_max"
  shows "\<exists>code s'. next_code_loop k co kind s = Inr (code, s')"
proof (cases "next_code_loop k co kind s")
  case (Inr r)
  then show ?thesis by (cases r) auto
next
  case (Inl e)
  let ?codes = "(\<lambda>i. Some (formatPartyCode kind (base_number co kind s + i))) ` {1..k}"
  have "?codes \<subseteq> snd ` set (party_codes kind co s)"
    using next_code_loop_Inl [OF Inl assms(2)] by (auto simp: codeTaken_def)
  then have "card ?codes \<le> card (snd ` set (party_codes kind co s))" by (intro card_mono) simp_all
  also have "\<dots> \<le> length (party_codes kind co s)"
    using card_image_le [of "set (party_codes kind co s)" snd] card_length [of "party_codes kind co s"] by simp
  also have "card ?codes = k" by (subst card_image) (auto simp: inj_on_def formatPartyCode_inj)
  finally show ?thesis using assms(1) by simp
qed

section \<open>The next ID\<close>

text \<open>
  C19: the next ID is free, and it is the one the form showed. The ID a create is given belongs to no party of
  the company, is beyond every one the counter gave before, and is exactly what peeking at the
  same state predicts; taking it changes no party.
\<close>

theorem next_code_is_free_and_predicted:
  assumes "nextPartyCode co kind s = Inr (code, s')"
  shows "\<not> codeTaken co kind code s \<and> peekNextPartyCode co kind s = Inr code
    \<and> (\<forall>n \<le> base_number co kind s. code \<noteq> formatPartyCode kind n)
    \<and> (\<forall>kd c. party_codes kd c s' = party_codes kd c s)"
proof -
  have r: "db_customers s' = db_customers s" "db_vendors s' = db_vendors s" "\<not> codeTaken co kind code s"
    "code = peek_loop ATTEMPTS (base_number co kind s + 1) co kind s"
    "code = formatPartyCode kind (base_number co kind s')" "base_number co kind s < base_number co kind s'"
    using next_code_loop_Inr [OF assms [unfolded nextPartyCode_def]] by blast+
  obtain h where h: "highestIssued kind co s = Inr h" using highestIssued_fits by blast
  have "peekNextPartyCode co kind s = Inr code"
    using r(4) by (simp add: peekNextPartyCode_def base_number_def h split: option.splits)
  moreover have "code \<noteq> formatPartyCode kind n" if "n \<le> base_number co kind s" for n
    using r(5,6) that by (simp add: formatPartyCode_inj)
  ultimately show ?thesis using r(1,2,3) party_codes_cong [of s' s] by blast
qed

definition demo_customer :: customer where
  "demo_customer =
     \<lparr>cu_id = 3, cu_companyId = 7, cu_code = Some ''C-0001'', cu_name = ''Al Noor Traders'', cu_company = None,
      cu_email = None, cu_billing = None, cu_shipping = None, cu_creditLimit = 0, cu_paymentTerms = ''net30'',
      cu_balance = 0, cu_active = True, cu_notes = None, cu_contactPerson = None, cu_taxId = None, cu_pin = None,
      cu_whatsapp = \<lparr>wa_phone = None, wa_e164 = None, wa_optInAt = None, wa_optInBy = None, wa_verifiedAt = None,
        wa_language = None\<rparr>, cu_collectionsPaused = False\<rparr>"

definition demo_parties :: party_db where
  "demo_parties =
     \<lparr>db_companies = [], db_accounts = [], db_entries = [], db_gl = [], db_fresh = 2,
      db_sequences = [\<lparr>sq_company = 7, sq_docType = ''CUST'', sq_year = 0, sq_last = 0\<rparr>],
      db_customers = [demo_customer], db_vendors = []\<rparr>"

lemma demo_base: "base_number 7 Customer demo_parties = 0"
  by (simp add: base_number_def last_value_def demo_parties_def is_series_def)

lemma demo_codes: "party_codes Customer 7 demo_parties = [(3, Some ''C-0001'')]"
  by (simp add: party_codes_def demo_parties_def demo_customer_def)

theorem next_code_is_free_and_predicted_witness:
  "\<exists>code s'. nextPartyCode 7 Customer demo_parties = Inr (code, s') \<and> peekNextPartyCode 7 Customer demo_parties = Inr code
     \<and> code \<noteq> ''C-0001''"
proof -
  have "\<exists>code s'. nextPartyCode 7 Customer demo_parties = Inr (code, s')"
    unfolding nextPartyCode_def
    by (rule next_code_loop_found) (simp_all add: demo_base demo_codes ATTEMPTS_def int4_max_def)
  then obtain code s' where run: "nextPartyCode 7 Customer demo_parties = Inr (code, s')" by blast
  then show ?thesis
    using next_code_is_free_and_predicted [OF run] by (auto simp: codeTaken_def demo_codes)
qed

text \<open>
  C20: the search for a free ID ends with one. A company with fewer than ten thousand parties of a kind always
  gets an ID within the ten thousand attempts, whatever IDs were typed by hand, as long as the counter
  stays within its column.
\<close>

theorem next_code_found:
  assumes "length (party_codes kind co s) < ATTEMPTS" and "base_number co kind s + ATTEMPTS \<le> int4_max"
  shows "\<exists>code s'. nextPartyCode co kind s = Inr (code, s')"
  unfolding nextPartyCode_def by (rule next_code_loop_found [OF assms])

theorem next_code_found_witness: "\<exists>code s'. nextPartyCode 7 Customer demo_parties = Inr (code, s')"
  by (rule next_code_found) (simp_all add: demo_base demo_codes ATTEMPTS_def int4_max_def)

end
