(* ===== verification/Customers.thy ===== *)
theory Customers
  imports Parties
begin

text \<open>
  The operations that write customers and vendors: \<^verbatim>\<open>customers.service.ts\<close> and \<^verbatim>\<open>vendors.service.ts\<close>,
  with the address handling of \<^verbatim>\<open>geocoding.service.ts\<close> up to the call of the map service. A handler runs
  alone; two requests that type the same ID at once are decided by the unique index of the table.
\<close>

section \<open>Addresses\<close>

record address_input =
  ai_street :: "string option"
  ai_city :: "string option"
  ai_state :: "string option"
  ai_postalCode :: "string option"
  ai_zipCode :: "string option"
  ai_country :: "string option"
  ai_sameAsBilling :: bool

definition normalizeAddress :: "address_input option \<Rightarrow> address option" where
  "normalizeAddress addr =
     map_option (\<lambda>a. \<lparr>ad_street = ai_street a, ad_city = ai_city a, ad_state = ai_state a,
       ad_postalCode = (case ai_postalCode a of Some p \<Rightarrow> Some p | None \<Rightarrow> ai_zipCode a),
       ad_country = ai_country a\<rparr>) addr"

definition formatAddress :: "address option \<Rightarrow> string" where
  "formatAddress addr =
     (case addr of
        None \<Rightarrow> []
      | Some a \<Rightarrow>
          join '', '' (filter (\<lambda>p. p \<noteq> [])
            (map (\<lambda>p. case p of None \<Rightarrow> [] | Some v \<Rightarrow> trim v)
              [ad_street a, ad_city a, ad_state a, ad_postalCode a, ad_country a])))"

definition applyShippingGeocode :: "(string \<Rightarrow> (rat \<times> rat) option) \<Rightarrow> int \<Rightarrow> customer \<Rightarrow> customer" where
  "applyShippingGeocode geocode clock c =
     (let query = formatAddress (case cu_shipping c of Some a \<Rightarrow> Some a | None \<Rightarrow> cu_billing c)
      in if query = [] then c\<lparr>cu_pin := None\<rparr>
         else (case geocode query of None \<Rightarrow> c | Some (lat, lng) \<Rightarrow> c\<lparr>cu_pin := Some (lat, lng, clock)\<rparr>))"

section \<open>Customers\<close>

record customer_input =
  ci_name :: "string option"
  ci_code :: "string option"
  ci_company :: "string option option"
  ci_email :: "string option option"
  ci_phone :: "string option option"
  ci_billing :: "address_input option option"
  ci_shipping :: "address_input option option"
  ci_creditLimit :: "rat option"
  ci_paymentTerms :: "string option"
  ci_notes :: "string option option"
  ci_isActive :: "bool option"
  ci_contactPerson :: "string option option"
  ci_taxId :: "string option option"
  ci_whatsappPhone :: "string option option"
  ci_whatsappOptIn :: "bool option"
  ci_language :: "string option option"
  ci_collectionsPaused :: "bool option"

definition or_null :: "'a option option \<Rightarrow> 'a option" where
  "or_null v = (case v of None \<Rightarrow> None | Some x \<Rightarrow> x)"

definition if_sent :: "'a option \<Rightarrow> 'a \<Rightarrow> 'a" where
  "if_sent v old = (case v of None \<Rightarrow> old | Some x \<Rightarrow> x)"

definition customer_whatsapp :: "customer_input \<Rightarrow> whatsapp_input" where
  "customer_whatsapp d =
     \<lparr>wi_phone = ci_phone d, wi_whatsappPhone = ci_whatsappPhone d, wi_optIn = ci_whatsappOptIn d, wi_language = ci_language d\<rparr>"

definition no_whatsapp :: "string option \<Rightarrow> whatsapp_contact" where
  "no_whatsapp phone =
     \<lparr>wa_phone = phone, wa_e164 = None, wa_optInAt = None, wa_optInBy = None, wa_verifiedAt = None, wa_language = None\<rparr>"

definition cu_getById :: "nat \<Rightarrow> nat \<Rightarrow> 'a party_db_scheme \<Rightarrow> customer result" where
  "cu_getById co i s =
     some_or (find (\<lambda>c. cu_id c = i \<and> cu_companyId c = co) (db_customers s)) (NotFound ''CUSTOMER_NOT_FOUND'') Inr"

text \<open>\<open>repo.save\<close>: an INSERT of a new row, an UPDATE of a loaded one.\<close>

definition save_customer :: "bool \<Rightarrow> customer \<Rightarrow> 'a party_db_scheme \<Rightarrow> customer \<times> 'a party_db_scheme" where
  "save_customer isNew c s =
     (if isNew
      then let c' = c\<lparr>cu_id := db_fresh s\<rparr> in (c', s\<lparr>db_customers := db_customers s @ [c'], db_fresh := db_fresh s + 1\<rparr>)
      else (c, s\<lparr>db_customers := update_row cu_id (cu_id c) (\<lambda>_. c) (db_customers s)\<rparr>))"

definition cu_saveWithCode :: "nat \<Rightarrow> bool \<Rightarrow> customer \<Rightarrow> string option \<Rightarrow> 'a party_db_scheme \<Rightarrow>
    (customer \<times> 'a party_db_scheme) result" where
  "cu_saveWithCode co isNew c typed s =
     bindE (case typed of
              Some t \<Rightarrow> bindE (assertPartyCodeFree co Customer t (if isNew then None else Some (cu_id c)) s) (\<lambda>_. Inr (t, s))
            | None \<Rightarrow> nextPartyCode co Customer s) (\<lambda>(code, s1).
       Inr (save_customer isNew (c\<lparr>cu_code := Some code\<rparr>) s1))"

definition cu_create :: "(string \<Rightarrow> (rat \<times> rat) option) \<Rightarrow> int \<Rightarrow> nat \<Rightarrow> customer_input \<Rightarrow> nat option \<Rightarrow> 'a party_db_scheme \<Rightarrow>
    (customer \<times> 'a party_db_scheme) result" where
  "cu_create geocode clock co d userId s =
     (let billing = normalizeAddress (or_null (ci_billing d));
          shipping = (if (case or_null (ci_shipping d) of Some a \<Rightarrow> ai_sameAsBilling a | None \<Rightarrow> False) \<and> billing \<noteq> None
                      then billing else normalizeAddress (or_null (ci_shipping d)));
          typed = normalizePartyCode (ci_code d)
      in bindE (case typed of Some t \<Rightarrow> assertValidPartyCode Customer t | None \<Rightarrow> Inr ()) (\<lambda>_.
         bindE (applyWhatsappContactFields clock (no_whatsapp (or_null (ci_phone d))) (customer_whatsapp d) userId None True) (\<lambda>wa.
         cu_saveWithCode co True
           (applyShippingGeocode geocode clock
             \<lparr>cu_id = 0, cu_companyId = co, cu_code = None, cu_name = if_sent (ci_name d) [],
              cu_company = or_null (ci_company d), cu_email = or_null (ci_email d),
              cu_billing = billing, cu_shipping = shipping,
              cu_creditLimit = if_sent (ci_creditLimit d) 0, cu_paymentTerms = if_sent (ci_paymentTerms d) ''net30'',
              cu_balance = 0, cu_active = True, cu_notes = or_null (ci_notes d),
              cu_contactPerson = or_null (ci_contactPerson d), cu_taxId = or_null (ci_taxId d), cu_pin = None,
              cu_whatsapp = wa, cu_collectionsPaused = if_sent (ci_collectionsPaused d) False\<rparr>)
           typed s)))"

text \<open>The row of an edit, once the WhatsApp fields are settled.\<close>

definition edited_customer :: "(string \<Rightarrow> (rat \<times> rat) option) \<Rightarrow> int \<Rightarrow> customer_input \<Rightarrow> whatsapp_contact \<Rightarrow> customer \<Rightarrow> customer" where
  "edited_customer geocode clock d wa c =
     (let addressChanged = (ci_shipping d \<noteq> None \<or> ci_billing d \<noteq> None);
          billing = (case ci_billing d of None \<Rightarrow> cu_billing c | Some a \<Rightarrow> normalizeAddress a);
          shipping = (case ci_shipping d of
                        None \<Rightarrow> cu_shipping c
                      | Some a \<Rightarrow>
                          if (case a of Some x \<Rightarrow> ai_sameAsBilling x | None \<Rightarrow> False)
                          then (case normalizeAddress (or_null (ci_billing d)) of Some b \<Rightarrow> Some b | None \<Rightarrow> billing)
                          else normalizeAddress a);
          c1 = c\<lparr>cu_name := if_sent (ci_name d) (cu_name c), cu_company := if_sent (ci_company d) (cu_company c),
            cu_email := if_sent (ci_email d) (cu_email c), cu_billing := billing, cu_shipping := shipping,
            cu_creditLimit := if_sent (ci_creditLimit d) (cu_creditLimit c),
            cu_paymentTerms := if_sent (ci_paymentTerms d) (cu_paymentTerms c),
            cu_notes := if_sent (ci_notes d) (cu_notes c), cu_active := if_sent (ci_isActive d) (cu_active c),
            cu_contactPerson := if_sent (ci_contactPerson d) (cu_contactPerson c),
            cu_taxId := if_sent (ci_taxId d) (cu_taxId c),
            cu_collectionsPaused := if_sent (ci_collectionsPaused d) (cu_collectionsPaused c),
            cu_whatsapp := wa\<rparr>
      in if addressChanged then applyShippingGeocode geocode clock c1 else c1)"

text \<open>An empty ID keeps the one the customer has.\<close>

definition cu_store :: "nat \<Rightarrow> customer \<Rightarrow> string option \<Rightarrow> 'a party_db_scheme \<Rightarrow> (customer \<times> 'a party_db_scheme) result" where
  "cu_store co c typed s =
     (if typed \<noteq> None \<and> typed \<noteq> cu_code c
      then bindE (assertValidPartyCode Customer (the typed)) (\<lambda>_. cu_saveWithCode co False c typed s)
      else Inr (save_customer False c s))"

definition cu_update :: "(string \<Rightarrow> (rat \<times> rat) option) \<Rightarrow> int \<Rightarrow> nat \<Rightarrow> nat \<Rightarrow> customer_input \<Rightarrow> nat option \<Rightarrow>
    'a party_db_scheme \<Rightarrow> (customer \<times> 'a party_db_scheme) result" where
  "cu_update geocode clock co i d userId s =
     bindE (cu_getById co i s) (\<lambda>c.
     bindE (applyWhatsappContactFields clock
              ((cu_whatsapp c)\<lparr>wa_phone := if_sent (ci_phone d) (wa_phone (cu_whatsapp c))\<rparr>)
              (customer_whatsapp d) userId (wa_phone (cu_whatsapp c)) False) (\<lambda>wa.
     cu_store co (edited_customer geocode clock d wa c) (normalizePartyCode (ci_code d)) s))"

definition cu_delete :: "(nat \<Rightarrow> nat \<times> nat) \<Rightarrow> nat \<Rightarrow> nat \<Rightarrow> 'a party_db_scheme \<Rightarrow> (unit \<times> 'a party_db_scheme) result" where
  "cu_delete activity co i s =
     bindE (cu_getById co i s) (\<lambda>c.
       let (invoiceCount, paymentCount) = activity i
       in throw_if (0 < invoiceCount \<or> 0 < paymentCount \<or> cu_balance c \<noteq> 0) (BadRequest ''CUSTOMER_HAS_ACTIVITY'')
            (Inr ((), s\<lparr>db_customers := filter (\<lambda>x. cu_id x \<noteq> i) (db_customers s)\<rparr>)))"

definition cu_toggleActive :: "nat \<Rightarrow> nat \<Rightarrow> 'a party_db_scheme \<Rightarrow> (customer \<times> 'a party_db_scheme) result" where
  "cu_toggleActive co i s =
     bindE (cu_getById co i s) (\<lambda>c. Inr (save_customer False (c\<lparr>cu_active := \<not> cu_active c\<rparr>) s))"

section \<open>Vendors\<close>

record vendor_input =
  vi_companyName :: "string option"
  vi_code :: "string option"
  vi_contactPerson :: "string option option"
  vi_email :: "string option option"
  vi_phone :: "string option option"
  vi_address :: "address option option"
  vi_paymentTerms :: "string option"
  vi_taxId :: "string option option"
  vi_expenseAccount :: "nat option option"
  vi_notes :: "string option option"
  vi_isActive :: "bool option"
  vi_whatsappPhone :: "string option option"
  vi_whatsappOptIn :: "bool option"
  vi_language :: "string option option"

definition vendor_whatsapp :: "vendor_input \<Rightarrow> whatsapp_input" where
  "vendor_whatsapp d =
     \<lparr>wi_phone = vi_phone d, wi_whatsappPhone = vi_whatsappPhone d, wi_optIn = vi_whatsappOptIn d, wi_language = vi_language d\<rparr>"

definition ve_getById :: "nat \<Rightarrow> nat \<Rightarrow> 'a party_db_scheme \<Rightarrow> vendor result" where
  "ve_getById co i s =
     some_or (find (\<lambda>v. ve_id v = i \<and> ve_companyId v = co) (db_vendors s)) (NotFound ''VENDOR_NOT_FOUND'') Inr"

definition save_vendor :: "bool \<Rightarrow> vendor \<Rightarrow> 'a party_db_scheme \<Rightarrow> vendor \<times> 'a party_db_scheme" where
  "save_vendor isNew v s =
     (if isNew
      then let v' = v\<lparr>ve_id := db_fresh s\<rparr> in (v', s\<lparr>db_vendors := db_vendors s @ [v'], db_fresh := db_fresh s + 1\<rparr>)
      else (v, s\<lparr>db_vendors := update_row ve_id (ve_id v) (\<lambda>_. v) (db_vendors s)\<rparr>))"

definition ve_saveWithCode :: "nat \<Rightarrow> bool \<Rightarrow> vendor \<Rightarrow> string option \<Rightarrow> 'a party_db_scheme \<Rightarrow>
    (vendor \<times> 'a party_db_scheme) result" where
  "ve_saveWithCode co isNew v typed s =
     bindE (case typed of
              Some t \<Rightarrow> bindE (assertPartyCodeFree co Vendor t (if isNew then None else Some (ve_id v)) s) (\<lambda>_. Inr (t, s))
            | None \<Rightarrow> nextPartyCode co Vendor s) (\<lambda>(code, s1).
       Inr (save_vendor isNew (v\<lparr>ve_code := Some code\<rparr>) s1))"

definition ve_create :: "int \<Rightarrow> nat \<Rightarrow> vendor_input \<Rightarrow> nat option \<Rightarrow> 'a party_db_scheme \<Rightarrow> (vendor \<times> 'a party_db_scheme) result" where
  "ve_create clock co d userId s =
     (let typed = normalizePartyCode (vi_code d)
      in bindE (case typed of Some t \<Rightarrow> assertValidPartyCode Vendor t | None \<Rightarrow> Inr ()) (\<lambda>_.
         bindE (applyWhatsappContactFields clock (no_whatsapp (or_null (vi_phone d))) (vendor_whatsapp d) userId None True) (\<lambda>wa.
         ve_saveWithCode co True
           \<lparr>ve_id = 0, ve_companyId = co, ve_code = None, ve_companyName = if_sent (vi_companyName d) [],
            ve_contactPerson = or_null (vi_contactPerson d), ve_email = or_null (vi_email d),
            ve_address = or_null (vi_address d), ve_paymentTerms = if_sent (vi_paymentTerms d) ''net30'',
            ve_taxId = or_null (vi_taxId d), ve_expenseAccount = or_null (vi_expenseAccount d), ve_balance = 0,
            ve_active = True, ve_notes = or_null (vi_notes d), ve_whatsapp = wa\<rparr>
           typed s)))"

definition edited_vendor :: "vendor_input \<Rightarrow> whatsapp_contact \<Rightarrow> vendor \<Rightarrow> vendor" where
  "edited_vendor d wa v =
     v\<lparr>ve_companyName := if_sent (vi_companyName d) (ve_companyName v),
       ve_contactPerson := if_sent (vi_contactPerson d) (ve_contactPerson v),
       ve_email := if_sent (vi_email d) (ve_email v), ve_address := if_sent (vi_address d) (ve_address v),
       ve_paymentTerms := if_sent (vi_paymentTerms d) (ve_paymentTerms v),
       ve_taxId := if_sent (vi_taxId d) (ve_taxId v),
       ve_expenseAccount := if_sent (vi_expenseAccount d) (ve_expenseAccount v),
       ve_notes := if_sent (vi_notes d) (ve_notes v), ve_active := if_sent (vi_isActive d) (ve_active v),
       ve_whatsapp := wa\<rparr>"

definition ve_store :: "nat \<Rightarrow> vendor \<Rightarrow> string option \<Rightarrow> 'a party_db_scheme \<Rightarrow> (vendor \<times> 'a party_db_scheme) result" where
  "ve_store co v typed s =
     (if typed \<noteq> None \<and> typed \<noteq> ve_code v
      then bindE (assertValidPartyCode Vendor (the typed)) (\<lambda>_. ve_saveWithCode co False v typed s)
      else Inr (save_vendor False v s))"

definition ve_update :: "int \<Rightarrow> nat \<Rightarrow> nat \<Rightarrow> vendor_input \<Rightarrow> nat option \<Rightarrow> 'a party_db_scheme \<Rightarrow>
    (vendor \<times> 'a party_db_scheme) result" where
  "ve_update clock co i d userId s =
     bindE (ve_getById co i s) (\<lambda>v.
     bindE (applyWhatsappContactFields clock
              ((ve_whatsapp v)\<lparr>wa_phone := if_sent (vi_phone d) (wa_phone (ve_whatsapp v))\<rparr>)
              (vendor_whatsapp d) userId (wa_phone (ve_whatsapp v)) False) (\<lambda>wa.
     ve_store co (edited_vendor d wa v) (normalizePartyCode (vi_code d)) s))"

definition ve_delete :: "(nat \<Rightarrow> nat \<times> nat) \<Rightarrow> nat \<Rightarrow> nat \<Rightarrow> 'a party_db_scheme \<Rightarrow> (unit \<times> 'a party_db_scheme) result" where
  "ve_delete activity co i s =
     bindE (ve_getById co i s) (\<lambda>v.
       let (billCount, paymentCount) = activity i
       in throw_if (0 < billCount \<or> 0 < paymentCount \<or> ve_balance v \<noteq> 0) (BadRequest ''VENDOR_HAS_ACTIVITY'')
            (Inr ((), s\<lparr>db_vendors := filter (\<lambda>x. ve_id x \<noteq> i) (db_vendors s)\<rparr>)))"

definition ve_toggleActive :: "nat \<Rightarrow> nat \<Rightarrow> 'a party_db_scheme \<Rightarrow> (vendor \<times> 'a party_db_scheme) result" where
  "ve_toggleActive co i s =
     bindE (ve_getById co i s) (\<lambda>v. Inr (save_vendor False (v\<lparr>ve_active := \<not> ve_active v\<rparr>) s))"

section \<open>IDs stay unique\<close>

text \<open>
  A table of parties is in order when its keys are distinct and below the next fresh one, every party has an ID of the
  allowed shape, and no two parties of a company share an ID.
\<close>

definition clash :: "('r \<Rightarrow> nat) \<Rightarrow> ('r \<Rightarrow> nat) \<Rightarrow> ('r \<Rightarrow> string option) \<Rightarrow> 'r \<Rightarrow> 'r \<Rightarrow> bool" where
  "clash rid rco rcode r q \<longleftrightarrow> rid r \<noteq> rid q \<and> rco r = rco q \<and> rcode r = rcode q"

definition row_ok :: "('r \<Rightarrow> nat) \<Rightarrow> ('r \<Rightarrow> string option) \<Rightarrow> nat \<Rightarrow> 'r \<Rightarrow> bool" where
  "row_ok rid rcode fresh r \<longleftrightarrow> rid r < fresh \<and> (case rcode r of None \<Rightarrow> False | Some k \<Rightarrow> PARTY_CODE_PATTERN k)"

definition table_ok :: "('r \<Rightarrow> nat) \<Rightarrow> ('r \<Rightarrow> nat) \<Rightarrow> ('r \<Rightarrow> string option) \<Rightarrow> nat \<Rightarrow> 'r list \<Rightarrow> bool" where
  "table_ok rid rco rcode fresh rows \<longleftrightarrow>
     distinct (map rid rows) \<and> (\<forall>r \<in> set rows. row_ok rid rcode fresh r)
     \<and> (\<forall>r \<in> set rows. \<forall>q \<in> set rows. \<not> clash rid rco rcode r q)"

definition parties_ok :: "'a party_db_scheme \<Rightarrow> bool" where
  "parties_ok s \<longleftrightarrow> table_ok cu_id cu_companyId cu_code (db_fresh s) (db_customers s)
     \<and> table_ok ve_id ve_companyId ve_code (db_fresh s) (db_vendors s)"

lemma clash_sym: "clash rid rco rcode r q \<longleftrightarrow> clash rid rco rcode q r"
  by (auto simp: clash_def)

lemma clash_irrefl [simp]: "\<not> clash rid rco rcode r r"
  by (simp add: clash_def)

lemma table_ok_fresh: "table_ok rid rco rcode n rows \<Longrightarrow> n \<le> m \<Longrightarrow> table_ok rid rco rcode m rows"
  unfolding table_ok_def row_ok_def by (meson less_le_trans)

lemma table_ok_add:
  assumes ok: "table_ok rid rco rcode n rows" and new: "rid new = n" "row_ok rid rcode (n + 1) new"
    and free: "\<forall>q \<in> set rows. \<not> clash rid rco rcode new q"
  shows "table_ok rid rco rcode (n + 1) (rows @ [new])"
proof -
  have "n \<notin> set (map rid rows)" using ok by (auto simp: table_ok_def row_ok_def)
  then have "distinct (map rid (rows @ [new]))" using ok new(1) by (simp add: table_ok_def)
  moreover have "\<forall>r \<in> set rows. row_ok rid rcode (n + 1) r"
    using table_ok_fresh [OF ok, of "n + 1"] by (simp add: table_ok_def)
  moreover have "\<forall>r \<in> set rows. \<forall>q \<in> set rows. \<not> clash rid rco rcode r q" using ok by (simp add: table_ok_def)
  moreover have "\<forall>r \<in> set rows. \<not> clash rid rco rcode r new" using free clash_sym [of rid rco rcode] by blast
  ultimately show ?thesis using new(2) free by (simp add: table_ok_def)
qed

lemma table_ok_replace:
  assumes ok: "table_ok rid rco rcode n rows" and new: "rid new = i" "row_ok rid rcode n new"
    and free: "\<forall>q \<in> set rows. \<not> clash rid rco rcode new q"
  shows "table_ok rid rco rcode n (update_row rid i (\<lambda>_. new) rows)"
proof -
  have rows: "x = new \<or> x \<in> set rows" if "x \<in> set (update_row rid i (\<lambda>_. new) rows)" for x
    using that by (auto simp: update_row_def)
  have "map rid (update_row rid i (\<lambda>_. new) rows) = map rid rows"
    using new(1) by (simp add: update_row_def)
  moreover have "row_ok rid rcode n r" if "r \<in> set (update_row rid i (\<lambda>_. new) rows)" for r
    using rows [OF that] new(2) ok by (auto simp: table_ok_def)
  moreover have "\<not> clash rid rco rcode r q"
    if r: "r \<in> set (update_row rid i (\<lambda>_. new) rows)" and q: "q \<in> set (update_row rid i (\<lambda>_. new) rows)" for r q
    using rows [OF r] rows [OF q] ok free clash_sym [of rid rco rcode r q] by (auto simp: table_ok_def)
  ultimately show ?thesis using ok by (simp add: table_ok_def)
qed

lemma table_ok_filter: "table_ok rid rco rcode n rows \<Longrightarrow> table_ok rid rco rcode n (filter P rows)"
  by (auto simp: table_ok_def distinct_map_filter)

text \<open>A generated ID has the allowed shape: a counter value has at most ten digits.\<close>

lemma digit_pattern: "list_all is_digit d \<Longrightarrow> list_all (\<lambda>c. is_upper c \<or> is_digit c \<or> P c) d"
  by (auto simp: list_all_iff)

lemma formatPartyCode_pattern:
  assumes "n \<le> int4_max"
  shows "PARTY_CODE_PATTERN (formatPartyCode kind n)"
proof -
  have "length (show_nat n) \<le> 10" using assms by (intro show_nat_length_bound) (simp_all add: int4_max_def)
  then have "length (padStart 4 (CHR ''0'') (show_nat n)) \<le> 10" by (simp add: length_padStart)
  then show ?thesis
    using digit_pattern [OF list_all_padStart [OF show_nat_digits], of "\<lambda>c. c \<in> set ''._/-''" 4 n]
    by (cases kind) (simp_all add: PARTY_CODE_PATTERN_def formatPartyCode_def party_prefix_def is_upper_def)
qed

lemma next_code_pattern: "next_code_loop k co kind s = Inr (code, s') \<Longrightarrow> PARTY_CODE_PATTERN code"
proof (induction k arbitrary: s)
  case 0
  then show ?case by simp
next
  case (Suc k)
  then obtain n t where b: "bump co kind s = Inr (n, t)" by (auto simp: bindE_Inr)
  then have "n \<le> int4_max" using take_number_Inr [of co _ 0 _ s n t] by (simp add: bump_def)
  then show ?case using Suc b by (auto simp: formatPartyCode_pattern split: if_splits)
qed

lemma take_number_fresh: "take_number co doc year seed s = Inr (n, s') \<Longrightarrow> db_fresh s' = db_fresh s"
  by (cases "last_value co doc year s") (auto simp: take_number_def throw_if_Inr bindE_Inr Let_def)

lemma next_code_fresh: "next_code_loop k co kind s = Inr (code, s') \<Longrightarrow> db_fresh s' = db_fresh s"
proof (induction k arbitrary: s)
  case 0
  then show ?case by simp
next
  case (Suc k)
  then obtain n t where b: "bump co kind s = Inr (n, t)" by (auto simp: bindE_Inr)
  then have "db_fresh t = db_fresh s" by (simp add: bump_def take_number_fresh)
  then show ?case using Suc b by (auto split: if_splits)
qed

text \<open>The ID a save settles on: allowed, and held by no other party of the company.\<close>

definition settle_code :: "nat \<Rightarrow> party_kind \<Rightarrow> nat option \<Rightarrow> string option \<Rightarrow> 'a party_db_scheme \<Rightarrow>
    (string \<times> 'a party_db_scheme) result" where
  "settle_code co kind i typed s =
     (case typed of
        Some t \<Rightarrow> bindE (assertPartyCodeFree co kind t i s) (\<lambda>_. Inr (t, s))
      | None \<Rightarrow> nextPartyCode co kind s)"

lemma settle_code_Inr:
  assumes "settle_code co kind i typed s = Inr (code, s')"
    and "case typed of None \<Rightarrow> True | Some t \<Rightarrow> PARTY_CODE_PATTERN t"
  shows "PARTY_CODE_PATTERN code \<and> db_customers s' = db_customers s \<and> db_vendors s' = db_vendors s \<and> db_fresh s' = db_fresh s
    \<and> (\<forall>p \<in> set (party_codes kind co s). \<not> (snd p = Some code \<and> Some (fst p) \<noteq> i))"
proof (cases typed)
  case None
  then have run: "next_code_loop ATTEMPTS co kind s = Inr (code, s')"
    using assms(1) by (simp add: settle_code_def nextPartyCode_def)
  then show ?thesis
    using next_code_loop_Inr [OF run] next_code_pattern [OF run] next_code_fresh [OF run]
    by (force simp: codeTaken_def)
next
  case (Some t)
  then have run: "partyCodeHolder co kind t i s = None \<and> t = code \<and> s = s'"
    using assms(1) by (auto simp: settle_code_def assertPartyCodeFree_def bindE_Inr throw_if_Inr)
  from conjunct1 [OF run] have "find (\<lambda>(j, c). c = Some t \<and> Some j \<noteq> i) (party_codes kind co s) = None"
    by (simp add: partyCodeHolder_def)
  then have "\<forall>p \<in> set (party_codes kind co s). \<not> (snd p = Some t \<and> Some (fst p) \<noteq> i)"
    unfolding find_None_iff case_prod_unfold by blast
  moreover have "t = code" and "s' = s" using run by simp_all
  moreover from this have "PARTY_CODE_PATTERN code" using assms(2) Some by simp
  ultimately show ?thesis by (simp only: simp_thms)
qed

lemma assertValidPartyCode_Inr: "assertValidPartyCode kind t = Inr u \<longleftrightarrow> PARTY_CODE_PATTERN t"
  by (simp add: assertValidPartyCode_def throw_if_Inr)

text \<open>Saving a row under a settled ID, as an INSERT or as an UPDATE, keeps its table in order.\<close>

lemma table_ok_save:
  assumes ok: "table_ok rid rco rcode n rows" and code: "rcode new = Some k" "PARTY_CODE_PATTERN k"
    and key: "rid new = (if isNew then n else i)" "isNew \<or> i < n"
    and free: "\<forall>q \<in> set rows. rco q = rco new \<and> rcode q = Some k \<longrightarrow> Some (rid q) = (if isNew then None else Some i)"
  shows "isNew \<Longrightarrow> table_ok rid rco rcode (n + 1) (rows @ [new])"
    and "\<not> isNew \<Longrightarrow> table_ok rid rco rcode n (update_row rid i (\<lambda>_. new) rows)"
proof -
  have no_clash: "\<forall>q \<in> set rows. \<not> clash rid rco rcode new q"
  proof (intro ballI notI)
    fix q assume q: "q \<in> set rows" and c: "clash rid rco rcode new q"
    then have "rco q = rco new \<and> rcode q = Some k" using code(1) by (simp add: clash_def)
    then have "Some (rid q) = (if isNew then None else Some i)" using free q by blast
    then show False using c key(1) by (simp add: clash_def split: if_splits)
  qed
  show "isNew \<Longrightarrow> table_ok rid rco rcode (n + 1) (rows @ [new])"
    using table_ok_add [OF ok, of new] key code no_clash by (simp add: row_ok_def)
  show "\<not> isNew \<Longrightarrow> table_ok rid rco rcode n (update_row rid i (\<lambda>_. new) rows)"
    using table_ok_replace [OF ok, of new i] key code no_clash by (simp add: row_ok_def)
qed

lemma cu_saveWithCode_keeps:
  assumes run: "cu_saveWithCode co isNew c typed s = Inr (c', s')" and ok: "parties_ok s"
    and row: "cu_companyId c = co" "isNew \<or> cu_id c < db_fresh s"
    and typed: "case typed of None \<Rightarrow> True | Some t \<Rightarrow> PARTY_CODE_PATTERN t"
  shows "parties_ok s'"
proof -
  let ?i = "if isNew then None else Some (cu_id c)"
  obtain code s1 where settled: "settle_code co Customer ?i typed s = Inr (code, s1)"
    and saved: "(c', s') = save_customer isNew (c\<lparr>cu_code := Some code\<rparr>) s1"
    using run by (auto simp: cu_saveWithCode_def settle_code_def bindE_Inr)
  note r = settle_code_Inr [OF settled typed]
  let ?new = "c\<lparr>cu_id := if isNew then db_fresh s else cu_id c, cu_code := Some code\<rparr>"
  have free: "\<forall>q \<in> set (db_customers s). cu_companyId q = cu_companyId ?new \<and> cu_code q = Some code \<longrightarrow> Some (cu_id q) = ?i"
  proof (intro ballI impI)
    fix q assume "q \<in> set (db_customers s)" and "cu_companyId q = cu_companyId ?new \<and> cu_code q = Some code"
    then have "(cu_id q, Some code) \<in> set (party_codes Customer co s)"
      using row(1) by (auto simp: party_codes_def image_iff)
    then show "Some (cu_id q) = ?i" using r by fastforce
  qed
  have tables: "table_ok cu_id cu_companyId cu_code (db_fresh s) (db_customers s)" "table_ok ve_id ve_companyId ve_code (db_fresh s) (db_vendors s)"
    using ok by (simp_all add: parties_ok_def)
  note new = table_ok_save [OF tables(1), of ?new code isNew "cu_id c", OF _ _ _ row(2) free]
  show ?thesis
  proof (cases isNew)
    case True
    then have "db_customers s' = db_customers s @ [?new]" "db_fresh s' = db_fresh s + 1" "db_vendors s' = db_vendors s"
      using saved r by (simp_all add: save_customer_def Let_def)
    then show ?thesis using new(1) True r table_ok_fresh [OF tables(2), of "db_fresh s + 1"] by (simp add: parties_ok_def)
  next
    case False
    then have "db_customers s' = update_row cu_id (cu_id c) (\<lambda>_. ?new) (db_customers s)" "db_fresh s' = db_fresh s" "db_vendors s' = db_vendors s"
      using saved r by (simp_all add: save_customer_def)
    then show ?thesis using new(2) False r tables(2) by (simp add: parties_ok_def)
  qed
qed

lemma ve_saveWithCode_keeps:
  assumes run: "ve_saveWithCode co isNew v typed s = Inr (v', s')" and ok: "parties_ok s"
    and row: "ve_companyId v = co" "isNew \<or> ve_id v < db_fresh s"
    and typed: "case typed of None \<Rightarrow> True | Some t \<Rightarrow> PARTY_CODE_PATTERN t"
  shows "parties_ok s'"
proof -
  let ?i = "if isNew then None else Some (ve_id v)"
  obtain code s1 where settled: "settle_code co Vendor ?i typed s = Inr (code, s1)"
    and saved: "(v', s') = save_vendor isNew (v\<lparr>ve_code := Some code\<rparr>) s1"
    using run by (auto simp: ve_saveWithCode_def settle_code_def bindE_Inr)
  note r = settle_code_Inr [OF settled typed]
  let ?new = "v\<lparr>ve_id := if isNew then db_fresh s else ve_id v, ve_code := Some code\<rparr>"
  have free: "\<forall>q \<in> set (db_vendors s). ve_companyId q = ve_companyId ?new \<and> ve_code q = Some code \<longrightarrow> Some (ve_id q) = ?i"
  proof (intro ballI impI)
    fix q assume "q \<in> set (db_vendors s)" and "ve_companyId q = ve_companyId ?new \<and> ve_code q = Some code"
    then have "(ve_id q, Some code) \<in> set (party_codes Vendor co s)"
      using row(1) by (auto simp: party_codes_def image_iff)
    then show "Some (ve_id q) = ?i" using r by fastforce
  qed
  have tables: "table_ok ve_id ve_companyId ve_code (db_fresh s) (db_vendors s)" "table_ok cu_id cu_companyId cu_code (db_fresh s) (db_customers s)"
    using ok by (simp_all add: parties_ok_def)
  note new = table_ok_save [OF tables(1), of ?new code isNew "ve_id v", OF _ _ _ row(2) free]
  show ?thesis
  proof (cases isNew)
    case True
    then have "db_vendors s' = db_vendors s @ [?new]" "db_fresh s' = db_fresh s + 1" "db_customers s' = db_customers s"
      using saved r by (simp_all add: save_vendor_def Let_def)
    then show ?thesis using new(1) True r table_ok_fresh [OF tables(2), of "db_fresh s + 1"] by (simp add: parties_ok_def)
  next
    case False
    then have "db_vendors s' = update_row ve_id (ve_id v) (\<lambda>_. ?new) (db_vendors s)" "db_fresh s' = db_fresh s" "db_customers s' = db_customers s"
      using saved r by (simp_all add: save_vendor_def)
    then show ?thesis using new(2) False r tables(2) by (simp add: parties_ok_def)
  qed
qed

section \<open>Every operation keeps the tables in order\<close>

lemma table_ok_update_same:
  assumes ok: "table_ok rid rco rcode n rows" and r: "r \<in> set rows"
    and same: "rid new = rid r" "rco new = rco r" "rcode new = rcode r"
  shows "table_ok rid rco rcode n (update_row rid (rid r) (\<lambda>_. new) rows)"
proof (rule table_ok_replace [OF ok])
  show "rid new = rid r" by (rule same(1))
  show "row_ok rid rcode n new" using ok r same by (simp add: table_ok_def row_ok_def)
  show "\<forall>q \<in> set rows. \<not> clash rid rco rcode new q" using ok r same by (simp add: table_ok_def clash_def)
qed

lemma cu_getById_row: "cu_getById co i s = Inr c \<Longrightarrow> c \<in> set (db_customers s) \<and> cu_id c = i \<and> cu_companyId c = co"
  unfolding cu_getById_def some_or_Inr by (auto simp: find_Some_iff)

lemma save_customer_keeps:
  assumes "parties_ok s" and "c \<in> set (db_customers s)"
    and "cu_id c' = cu_id c" "cu_companyId c' = cu_companyId c" "cu_code c' = cu_code c"
  shows "parties_ok (snd (save_customer False c' s))"
  using assms table_ok_update_same [of cu_id cu_companyId cu_code "db_fresh s" "db_customers s" c c']
  by (simp add: parties_ok_def save_customer_def)

lemma ve_getById_row: "ve_getById co i s = Inr v \<Longrightarrow> v \<in> set (db_vendors s) \<and> ve_id v = i \<and> ve_companyId v = co"
  unfolding ve_getById_def some_or_Inr by (auto simp: find_Some_iff)

lemma save_vendor_keeps:
  assumes "parties_ok s" and "v \<in> set (db_vendors s)"
    and "ve_id v' = ve_id v" "ve_companyId v' = ve_companyId v" "ve_code v' = ve_code v"
  shows "parties_ok (snd (save_vendor False v' s))"
  using assms table_ok_update_same [of ve_id ve_companyId ve_code "db_fresh s" "db_vendors s" v v']
  by (simp add: parties_ok_def save_vendor_def)

lemma normalized_valid:
  "(case typed of Some t \<Rightarrow> assertValidPartyCode kind t | None \<Rightarrow> Inr ()) = Inr u \<Longrightarrow>
   (case typed of None \<Rightarrow> True | Some t \<Rightarrow> PARTY_CODE_PATTERN t)"
  by (auto simp: assertValidPartyCode_Inr split: option.splits)

lemma applyShippingGeocode_fields [simp]:
  "cu_id (applyShippingGeocode g t c) = cu_id c" "cu_companyId (applyShippingGeocode g t c) = cu_companyId c"
  "cu_code (applyShippingGeocode g t c) = cu_code c"
  by (simp_all add: applyShippingGeocode_def Let_def split: option.splits)

lemma cu_create_keeps: "cu_create g t co d u s = Inr (c, s') \<Longrightarrow> parties_ok s \<Longrightarrow> parties_ok s'"
  unfolding cu_create_def Let_def bindE_Inr
  by (elim exE conjE) (erule cu_saveWithCode_keeps, simp_all add: normalized_valid)

lemma ve_create_keeps: "ve_create t co d u s = Inr (v, s') \<Longrightarrow> parties_ok s \<Longrightarrow> parties_ok s'"
  unfolding ve_create_def Let_def bindE_Inr
  by (elim exE conjE) (erule ve_saveWithCode_keeps, simp_all add: normalized_valid)

lemma row_fresh:
  "parties_ok s \<Longrightarrow> c \<in> set (db_customers s) \<Longrightarrow> cu_id c < db_fresh s"
  "parties_ok s \<Longrightarrow> v \<in> set (db_vendors s) \<Longrightarrow> ve_id v < db_fresh s"
  by (auto simp: parties_ok_def table_ok_def row_ok_def)

lemma cu_store_keeps:
  assumes run: "cu_store co c' typed s = Inr (c'', s')" and ok: "parties_ok s" and row: "cu_getById co i s = Inr c"
    and same: "cu_id c' = cu_id c" "cu_companyId c' = cu_companyId c" "cu_code c' = cu_code c"
  shows "parties_ok s'"
proof (cases "typed \<noteq> None \<and> typed \<noteq> cu_code c'")
  case True
  then have "cu_saveWithCode co False c' typed s = Inr (c'', s')" and "PARTY_CODE_PATTERN (the typed)"
    using run by (simp_all add: cu_store_def bindE_Inr assertValidPartyCode_Inr)
  then show ?thesis
    using cu_saveWithCode_keeps [of co False c' typed s c'' s'] ok cu_getById_row [OF row] same True
      row_fresh(1) [OF ok, of c] by auto
next
  case False
  then have "s' = snd (save_customer False c' s)" using run unfolding cu_store_def by (metis Inr_inject snd_conv)
  then show ?thesis using save_customer_keeps [OF ok, of c c'] cu_getById_row [OF row] same by simp
qed

lemma cu_update_keeps: "cu_update g t co i d u s = Inr (c', s') \<Longrightarrow> parties_ok s \<Longrightarrow> parties_ok s'"
  unfolding cu_update_def bindE_Inr
  by (elim exE conjE) (erule cu_store_keeps, assumption, assumption, simp_all add: edited_customer_def Let_def)

lemma cu_toggle_keeps: "cu_toggleActive co i s = Inr (c', s') \<Longrightarrow> parties_ok s \<Longrightarrow> parties_ok s'"
proof -
  assume run: "cu_toggleActive co i s = Inr (c', s')" and ok: "parties_ok s"
  from run obtain c where row: "cu_getById co i s = Inr c"
    and "(c', s') = save_customer False (c\<lparr>cu_active := \<not> cu_active c\<rparr>) s"
    by (auto simp: cu_toggleActive_def bindE_Inr)
  then have "s' = snd (save_customer False (c\<lparr>cu_active := \<not> cu_active c\<rparr>) s)" by (metis snd_conv)
  then show "parties_ok s'"
    using save_customer_keeps [OF ok, of c "c\<lparr>cu_active := \<not> cu_active c\<rparr>"] cu_getById_row [OF row] by simp
qed

lemma cu_delete_keeps: "cu_delete act co i s = Inr (r, s') \<Longrightarrow> parties_ok s \<Longrightarrow> parties_ok s'"
  by (auto simp: cu_delete_def bindE_Inr throw_if_Inr parties_ok_def case_prod_unfold Let_def intro: table_ok_filter)

lemma ve_store_keeps:
  assumes run: "ve_store co v' typed s = Inr (v'', s')" and ok: "parties_ok s" and row: "ve_getById co i s = Inr v"
    and same: "ve_id v' = ve_id v" "ve_companyId v' = ve_companyId v" "ve_code v' = ve_code v"
  shows "parties_ok s'"
proof (cases "typed \<noteq> None \<and> typed \<noteq> ve_code v'")
  case True
  then have "ve_saveWithCode co False v' typed s = Inr (v'', s')" and "PARTY_CODE_PATTERN (the typed)"
    using run by (simp_all add: ve_store_def bindE_Inr assertValidPartyCode_Inr)
  then show ?thesis
    using ve_saveWithCode_keeps [of co False v' typed s v'' s'] ok ve_getById_row [OF row] same True
      row_fresh(2) [OF ok, of v] by auto
next
  case False
  then have "s' = snd (save_vendor False v' s)" using run unfolding ve_store_def by (metis Inr_inject snd_conv)
  then show ?thesis using save_vendor_keeps [OF ok, of v v'] ve_getById_row [OF row] same by simp
qed

lemma ve_update_keeps: "ve_update t co i d u s = Inr (v', s') \<Longrightarrow> parties_ok s \<Longrightarrow> parties_ok s'"
  unfolding ve_update_def bindE_Inr
  by (elim exE conjE) (erule ve_store_keeps, assumption, assumption, simp_all add: edited_vendor_def Let_def)

lemma ve_toggle_keeps: "ve_toggleActive co i s = Inr (v', s') \<Longrightarrow> parties_ok s \<Longrightarrow> parties_ok s'"
proof -
  assume run: "ve_toggleActive co i s = Inr (v', s')" and ok: "parties_ok s"
  from run obtain v where row: "ve_getById co i s = Inr v"
    and "(v', s') = save_vendor False (v\<lparr>ve_active := \<not> ve_active v\<rparr>) s"
    by (auto simp: ve_toggleActive_def bindE_Inr)
  then have "s' = snd (save_vendor False (v\<lparr>ve_active := \<not> ve_active v\<rparr>) s)" by (metis snd_conv)
  then show "parties_ok s'"
    using save_vendor_keeps [OF ok, of v "v\<lparr>ve_active := \<not> ve_active v\<rparr>"] ve_getById_row [OF row] by simp
qed

lemma ve_delete_keeps: "ve_delete act co i s = Inr (r, s') \<Longrightarrow> parties_ok s \<Longrightarrow> parties_ok s'"
  by (auto simp: ve_delete_def bindE_Inr throw_if_Inr parties_ok_def case_prod_unfold Let_def intro: table_ok_filter)

text \<open>One request that writes a party, and the states such requests can reach from empty tables.\<close>

inductive party_step :: "'a party_db_scheme \<Rightarrow> 'a party_db_scheme \<Rightarrow> bool" where
  "cu_create g t co d u s = Inr (c, s') \<Longrightarrow> party_step s s'"
| "cu_update g t co i d u s = Inr (c, s') \<Longrightarrow> party_step s s'"
| "cu_delete act co i s = Inr (r, s') \<Longrightarrow> party_step s s'"
| "cu_toggleActive co i s = Inr (c, s') \<Longrightarrow> party_step s s'"
| "ve_create t co w u s = Inr (v, s') \<Longrightarrow> party_step s s'"
| "ve_update t co i w u s = Inr (v, s') \<Longrightarrow> party_step s s'"
| "ve_delete act co i s = Inr (r, s') \<Longrightarrow> party_step s s'"
| "ve_toggleActive co i s = Inr (v, s') \<Longrightarrow> party_step s s'"

inductive party_reachable :: "'a party_db_scheme \<Rightarrow> bool" where
  start: "db_customers s = [] \<Longrightarrow> db_vendors s = [] \<Longrightarrow> party_reachable s"
| step: "party_reachable s \<Longrightarrow> party_step s s' \<Longrightarrow> party_reachable s'"

lemma party_step_keeps: "party_step s s' \<Longrightarrow> parties_ok s \<Longrightarrow> parties_ok s'"
  by (cases rule: party_step.cases, assumption)
    (blast intro: cu_create_keeps cu_update_keeps cu_delete_keeps cu_toggle_keeps
      ve_create_keeps ve_update_keeps ve_delete_keeps ve_toggle_keeps)+

lemma party_reachable_ok: "party_reachable s \<Longrightarrow> parties_ok s"
proof (induction rule: party_reachable.induct)
  case (start s)
  then show ?case by (simp add: parties_ok_def table_ok_def)
next
  case (step s s')
  then show ?case by (blast intro: party_step_keeps)
qed

text \<open>
  C22: every party has its own ID. Whatever is created, edited, switched off or deleted, with typed or
  assigned IDs, every customer and every vendor has an ID of the allowed shape, and two customers, or two
  vendors, of one company never have the same one.
\<close>

theorem party_ids_unique:
  assumes "party_reachable s"
  shows "(\<forall>c \<in> set (db_customers s). \<exists>k. cu_code c = Some k \<and> PARTY_CODE_PATTERN k)
    \<and> (\<forall>v \<in> set (db_vendors s). \<exists>k. ve_code v = Some k \<and> PARTY_CODE_PATTERN k)
    \<and> (\<forall>c \<in> set (db_customers s). \<forall>c' \<in> set (db_customers s).
         cu_companyId c = cu_companyId c' \<and> cu_code c = cu_code c' \<longrightarrow> cu_id c = cu_id c')
    \<and> (\<forall>v \<in> set (db_vendors s). \<forall>v' \<in> set (db_vendors s).
         ve_companyId v = ve_companyId v' \<and> ve_code v = ve_code v' \<longrightarrow> ve_id v = ve_id v')"
proof -
  have code: "\<exists>k. c = Some k \<and> P k" if "case c of None \<Rightarrow> False | Some k \<Rightarrow> P k" for c and P :: "string \<Rightarrow> bool"
    using that by (cases c) auto
  have "parties_ok s" by (rule party_reachable_ok [OF assms])
  then show ?thesis unfolding parties_ok_def table_ok_def row_ok_def clash_def using code by blast
qed

definition empty_parties :: party_db where
  "empty_parties =
     \<lparr>db_companies = [], db_accounts = [], db_entries = [], db_gl = [], db_fresh = 2,
      db_sequences = [], db_customers = [], db_vendors = []\<rparr>"

definition bare_vendor :: "string option \<Rightarrow> vendor_input" where
  "bare_vendor code =
     \<lparr>vi_companyName = Some ''Karachi Mills'', vi_code = code, vi_contactPerson = None, vi_email = None, vi_phone = None,
      vi_address = None, vi_paymentTerms = None, vi_taxId = None, vi_expenseAccount = None, vi_notes = None,
      vi_isActive = None, vi_whatsappPhone = None, vi_whatsappOptIn = None, vi_language = None\<rparr>"

theorem party_ids_unique_witness:
  "\<exists>v s. ve_create 5 7 (bare_vendor (Some '' v-0042 '')) None empty_parties = Inr (v, s) \<and> ve_code v = Some ''V-0042''
     \<and> (\<forall>v \<in> set (db_vendors s). \<exists>k. ve_code v = Some k \<and> PARTY_CODE_PATTERN k)"
proof -
  have "case ve_create 5 7 (bare_vendor (Some '' v-0042 '')) None empty_parties of
      Inr (v, s) \<Rightarrow> ve_code v = Some ''V-0042'' | Inl e \<Rightarrow> False" by code_simp
  then have "\<exists>v s. ve_create 5 7 (bare_vendor (Some '' v-0042 '')) None empty_parties = Inr (v, s) \<and> ve_code v = Some ''V-0042''"
    by (auto split: sum.splits)
  then obtain v s where run: "ve_create 5 7 (bare_vendor (Some '' v-0042 '')) None empty_parties = Inr (v, s)"
    "ve_code v = Some ''V-0042''" by blast
  have "party_reachable empty_parties" by (rule party_reachable.start) (simp_all add: empty_parties_def)
  then have "party_reachable s" using run(1) by (blast intro: party_reachable.step party_step.intros(5))
  then show ?thesis using party_ids_unique [of s] run by blast
qed

end
