(* ===== verification/Trade.thy ===== *)
theory Trade
  imports Customers
begin

text \<open>
  The tables of the sales side: items and their movements, invoices, receipts and their applications, and the
  columns of sales orders, deliveries and credit memos that the rules below read. Then what a
  company may use (\<^verbatim>\<open>src/common/features\<close>), the guards on stock (\<^verbatim>\<open>stock.util.ts\<close>), the recording of
  movements (\<^verbatim>\<open>inventory-movement.util.ts\<close>) and the lines of sales documents (\<^verbatim>\<open>sales-lines.util.ts\<close>).
\<close>

section \<open>Rows\<close>

record inv_item =
  it_id :: nat
  it_company :: nat
  it_sku :: string
  it_name :: string
  it_unitCost :: rat
  it_onHand :: rat

record movement =
  mv_company :: nat
  mv_item :: nat
  mv_date :: date
  mv_type :: string
  mv_quantity :: rat
  mv_balanceAfter :: rat
  mv_value :: rat
  mv_costBasis :: string
  mv_reference :: "string option"
  mv_description :: "string option"
  mv_sourceType :: "string option"
  mv_sourceId :: "nat option"
  mv_createdBy :: "nat option"

datatype discount_type = D_percent | D_amount | D_none

datatype invoice_status = IN_draft | IN_sent | IN_partial | IN_paid | IN_overdue | IN_void

record invoice_line =
  il_description :: string
  il_quantity :: rat
  il_unitPrice :: rat
  il_taxRate :: rat
  il_taxAmount :: rat
  il_lineTotal :: rat
  il_account :: "nat option"
  il_item :: "nat option"
  il_order :: nat
  il_unitCost :: "rat option"
  il_costAmount :: "rat option"
  il_costBasis :: "string option"

record invoice =
  in_id :: nat
  in_company :: nat
  in_customer :: nat
  in_number :: string
  in_date :: date
  in_dueDate :: date
  in_subtotal :: rat
  in_discountType :: discount_type
  in_discountValue :: rat
  in_discountAmount :: rat
  in_taxAmount :: rat
  in_total :: rat
  in_amountPaid :: rat
  in_balance :: rat
  in_status :: invoice_status
  in_notes :: "string option"
  in_paymentTerms :: string
  in_entry :: "nat option"
  in_createdBy :: nat
  in_lines :: "invoice_line list"

record payment =
  pm_id :: nat
  pm_company :: nat
  pm_customer :: nat
  pm_number :: "string option"
  pm_date :: date
  pm_method :: string
  pm_reference :: "string option"
  pm_amount :: rat
  pm_bankAccount :: nat
  pm_memo :: "string option"
  pm_entry :: "nat option"
  pm_advancePosted :: bool

record application =
  ap_payment :: nat
  ap_invoice :: nat
  ap_amount :: rat
  ap_appliedOn :: "date option"
  ap_entry :: "nat option"

record order_line =
  ol_item :: "nat option"
  ol_quantity :: rat
  ol_fulfilled :: rat
  ol_unitPrice :: rat
  ol_taxRate :: rat

record sales_order =
  so_id :: nat
  so_company :: nat
  so_customer :: nat
  so_status :: string
  so_lines :: "order_line list"

record delivery_item =
  di_orderedQty :: rat
  di_quantity :: rat
  di_unitPrice :: rat
  di_taxRate :: rat

record delivery =
  dl_id :: nat
  dl_company :: nat
  dl_customer :: nat
  dl_salesOrder :: "nat option"
  dl_invoice :: "nat option"
  dl_status :: string
  dl_ledgerStatus :: string
  dl_prepaid :: bool
  dl_advancePayment :: "nat option"
  dl_paidStatus :: "string option"
  dl_items :: "delivery_item list"

datatype memo_status = CM_open | CM_applied | CM_closed | CM_refunded | CM_void

record credit_memo_line =
  ml_item :: "nat option"
  ml_description :: string
  ml_quantity :: rat
  ml_unitPrice :: rat
  ml_taxRate :: rat
  ml_lineTotal :: rat
  ml_restockUnitCost :: "rat option"
  ml_order :: nat

record credit_memo =
  cm_id :: nat
  cm_company :: nat
  cm_customer :: nat
  cm_number :: "string option"
  cm_date :: date
  cm_originalInvoice :: "nat option"
  cm_reason :: "string option"
  cm_subtotal :: rat
  cm_taxAmount :: rat
  cm_total :: rat
  cm_amountApplied :: rat
  cm_balance :: rat
  cm_status :: memo_status
  cm_entry :: "nat option"
  cm_refundAccount :: "nat option"
  cm_createdBy :: "nat option"
  cm_lines :: "credit_memo_line list"

record company_profile =
  cp_company :: nat
  cp_type :: "string option"
  cp_inventoryEnabled :: bool
  cp_allUnlocked :: bool

record audit_event =
  ae_company :: nat
  ae_actor :: nat
  ae_action :: string
  ae_targetType :: string
  ae_targetId :: "nat option"
  ae_reason :: string

record trade_db = party_db +
  db_profiles :: "company_profile list"
  db_items :: "inv_item list"
  db_movements :: "movement list"
  db_invoices :: "invoice list"
  db_payments :: "payment list"
  db_applications :: "application list"
  db_orders :: "sales_order list"
  db_deliveries :: "delivery list"
  db_memos :: "credit_memo list"
  db_audit :: "audit_event list"

section \<open>feature-map.ts, company-features.util.ts\<close>

datatype company_type = Small_business | Large_org | Warehouse

datatype feature_key =
    F_estimates | F_journalEntries | F_creditMemos | F_bankReconciliation | F_multiUser | F_auditLog | F_periodClose
  | F_payroll | F_budgets | F_inventory | F_purchaseOrders | F_salesOrders | F_agencies | F_delivery | F_whatsappConnect

definition company_type_of :: "string option \<Rightarrow> company_type option" where
  "company_type_of v =
     (if v = Some ''small_business'' then Some Small_business
      else if v = Some ''large_org'' then Some Large_org
      else if v = Some ''warehouse'' then Some Warehouse
      else None)"

definition isCompanyType :: "string option \<Rightarrow> bool" where
  "isCompanyType v \<longleftrightarrow> company_type_of v \<noteq> None"

datatype feature_setting = Fixed bool | Toggle

fun FEATURE_MAP :: "company_type \<Rightarrow> feature_key \<Rightarrow> feature_setting" where
  "FEATURE_MAP Small_business k =
     Fixed (k \<in> {F_estimates, F_journalEntries, F_creditMemos, F_bankReconciliation, F_multiUser})"
| "FEATURE_MAP Large_org k =
     Fixed (k \<in> {F_estimates, F_journalEntries, F_creditMemos, F_bankReconciliation, F_multiUser, F_auditLog,
       F_periodClose, F_payroll, F_budgets, F_whatsappConnect})"
| "FEATURE_MAP Warehouse k = Fixed True"

definition computeFeatures :: "bool \<Rightarrow> string option \<Rightarrow> bool \<Rightarrow> bool \<Rightarrow> feature_key \<Rightarrow> bool" where
  "computeFeatures featuresDisabled companyType inventoryEnabled allFeaturesUnlocked k =
     (if allFeaturesUnlocked \<or> featuresDisabled \<or> \<not> isCompanyType companyType then True
      else case FEATURE_MAP (the (company_type_of companyType)) k of
             Toggle \<Rightarrow> inventoryEnabled
           | Fixed b \<Rightarrow> b)"

definition companyFeatures :: "bool \<Rightarrow> nat \<Rightarrow> 'a trade_db_scheme \<Rightarrow> feature_key \<Rightarrow> bool" where
  "companyFeatures featuresDisabled co s =
     (case row_with cp_company co (db_profiles s) of
        None \<Rightarrow> computeFeatures featuresDisabled None False False
      | Some r \<Rightarrow> computeFeatures featuresDisabled (cp_type r) (cp_inventoryEnabled r) (cp_allUnlocked r))"

section \<open>stock.util.ts, inventory-movement.util.ts\<close>

definition assertSufficientStock :: "rat \<Rightarrow> rat \<Rightarrow> unit result" where
  "assertSufficientStock onHand requested =
     throw_if (onHand < requested) (Unprocessable ''INSUFFICIENT_STOCK'') (Inr ())"

definition assertNonNegativeQuantity :: "rat \<Rightarrow> unit result" where
  "assertNonNegativeQuantity quantity = throw_if (quantity < 0) (Unprocessable ''INSUFFICIENT_STOCK'') (Inr ())"

record movement_input =
  mi_company :: nat
  mi_item :: nat
  mi_date :: date
  mi_type :: string
  mi_quantity :: rat
  mi_balanceAfter :: rat
  mi_value :: rat
  mi_reference :: "string option"
  mi_description :: "string option"
  mi_sourceType :: "string option"
  mi_sourceId :: "nat option"
  mi_createdBy :: "nat option"

definition recordInventoryMovement :: "decimal_js \<Rightarrow> movement_input \<Rightarrow> 'a trade_db_scheme \<Rightarrow> 'a trade_db_scheme" where
  "recordInventoryMovement D i s =
     s\<lparr>db_movements := db_movements s @
       [\<lparr>mv_company = mi_company i, mv_item = mi_item i, mv_date = mi_date i, mv_type = mi_type i,
         mv_quantity = d_fixed D 4 (mi_quantity i), mv_balanceAfter = d_fixed D 4 (mi_balanceAfter i),
         mv_value = d_fixed D 4 (mi_value i), mv_costBasis = ''posted'', mv_reference = mi_reference i,
         mv_description = mi_description i, mv_sourceType = mi_sourceType i, mv_sourceId = mi_sourceId i,
         mv_createdBy = mi_createdBy i\<rparr>]\<rparr>"

definition recordMovementAtAverage :: "decimal_js \<Rightarrow> inv_item \<Rightarrow> movement_input \<Rightarrow> rat option \<Rightarrow> 'a trade_db_scheme \<Rightarrow>
    'a trade_db_scheme" where
  "recordMovementAtAverage D it i balanceAfter s =
     recordInventoryMovement D
       (i\<lparr>mi_company := it_company it, mi_item := it_id it,
          mi_balanceAfter := (case balanceAfter of None \<Rightarrow> it_onHand it | Some b \<Rightarrow> b),
          mi_value := d_prec D (mi_quantity i * it_unitCost it)\<rparr>) s"

section \<open>sales-lines.util.ts\<close>

datatype line_kind = Item_line | Service_line

definition lineKindOf :: "nat option \<Rightarrow> line_kind" where
  "lineKindOf itemId = (if itemId \<noteq> None then Item_line else Service_line)"

record sales_line =
  sl_item :: "nat option"
  sl_kind :: "line_kind option"

definition assertSalesLinesClassified :: "bool \<Rightarrow> nat \<Rightarrow> sales_line list \<Rightarrow> bool \<Rightarrow> 'a trade_db_scheme \<Rightarrow> unit result" where
  "assertSalesLinesClassified featuresDisabled co lines treatFreeTextAsService s =
     (if \<not> companyFeatures featuresDisabled co s F_inventory then Inr ()
      else foldE (\<lambda>_ l.
             throw_if (sl_item l \<noteq> None \<and> sl_kind l = Some Service_line) (BadRequest ''LINE_KIND_MISMATCH'')
            (throw_if (sl_item l = None \<and> sl_kind l \<noteq> Some Service_line \<and> \<not> treatFreeTextAsService)
              (BadRequest ''LINE_ITEM_REQUIRED'') (Inr ()))) () lines)"

record stock_position =
  sp_item :: nat
  sp_name :: string
  sp_sku :: string
  sp_onHand :: rat
  sp_committed :: rat
  sp_available :: rat

text \<open>The quantities promised on sales orders: the grouped query over the lines and orders.\<close>

definition order_counts :: "nat \<Rightarrow> nat option \<Rightarrow> 'a trade_db_scheme \<Rightarrow> sales_order \<Rightarrow> bool" where
  "order_counts co exceptOrder s o' \<longleftrightarrow>
     so_company o' = co \<and> so_status o' \<in> set [''open'', ''partial'', ''fulfilled'']
     \<and> (case exceptOrder of None \<Rightarrow> True | Some x \<Rightarrow> so_id o' \<noteq> x)
     \<and> \<not> list_ex (\<lambda>d. dl_salesOrder d = Some (so_id o')) (db_deliveries s)"

definition committed_quantity :: "nat \<Rightarrow> nat option \<Rightarrow> 'a trade_db_scheme \<Rightarrow> nat \<Rightarrow> rat" where
  "committed_quantity co exceptOrder s item =
     (\<Sum>o'\<leftarrow>filter (order_counts co exceptOrder s) (db_orders s).
        \<Sum>l\<leftarrow>filter (\<lambda>l. ol_item l = Some item) (so_lines o'). ol_quantity l)"

definition stockPositions :: "decimal_js \<Rightarrow> nat \<Rightarrow> nat list \<Rightarrow> nat option \<Rightarrow> 'a trade_db_scheme \<Rightarrow> stock_position list" where
  "stockPositions D co itemIds exceptOrder s =
     (let ids = uniq itemIds
      in map (\<lambda>it.
           let onHand = it_onHand it; promised = committed_quantity co exceptOrder s (it_id it)
           in \<lparr>sp_item = it_id it, sp_name = it_name it, sp_sku = it_sku it, sp_onHand = d_fixed D 4 onHand,
               sp_committed = d_fixed D 4 promised, sp_available = d_fixed D 4 (onHand - promised)\<rparr>)
         (filter (\<lambda>it. it_company it = co \<and> it_id it \<in> set ids) (db_items s)))"

record backorder_line =
  bo_item :: nat
  bo_name :: string
  bo_sku :: string
  bo_requested :: rat
  bo_available :: rat
  bo_shortfall :: rat

text \<open>Several lines can ask for the same item: the map keeps one total for each.\<close>

definition requested_quantities :: "(nat option \<times> rat) list \<Rightarrow> (nat \<times> rat) list" where
  "requested_quantities lines =
     foldl (\<lambda>m (i, q). case i of None \<Rightarrow> m | Some k \<Rightarrow> add_at k q m) [] lines"

definition backorderLines :: "decimal_js \<Rightarrow> nat \<Rightarrow> (nat option \<times> rat) list \<Rightarrow> nat option \<Rightarrow> 'a trade_db_scheme \<Rightarrow>
    backorder_line list" where
  "backorderLines D co lines exceptOrder s =
     (let requested = requested_quantities lines;
          positions = stockPositions D co (map fst requested) exceptOrder s
      in List.map_filter (\<lambda>(itemId, qty).
           case row_with sp_item itemId positions of
             None \<Rightarrow> None
           | Some pos \<Rightarrow>
               let available = max (sp_available pos) 0
               in if available < qty
                  then Some \<lparr>bo_item = itemId, bo_name = sp_name pos, bo_sku = sp_sku pos,
                    bo_requested = d_fixed D 4 qty, bo_available = d_fixed D 4 available,
                    bo_shortfall = d_fixed D 4 (qty - available)\<rparr>
                  else None) requested)"

section \<open>Backorders\<close>

definition item_requests :: "(nat option \<times> rat) list \<Rightarrow> (nat \<times> rat) list" where
  "item_requests lines = List.map_filter (\<lambda>(i, q). map_option (\<lambda>k. (k, q)) i) lines"

definition requested_total :: "(nat option \<times> rat) list \<Rightarrow> nat \<Rightarrow> rat" where
  "requested_total lines i = (\<Sum>(k, q)\<leftarrow>lines. if k = Some i then q else 0)"

lemma requested_fold:
  "foldl (\<lambda>m (i, q). case i of None \<Rightarrow> m | Some k \<Rightarrow> add_at k q m) m lines
   = foldl (\<lambda>m x. add_at (fst x) (snd x) m) m (item_requests lines)"
  by (induction lines arbitrary: m) (auto simp: item_requests_def map_filter_simps split: option.splits)

lemma requested_sum: "(\<Sum>x\<leftarrow>item_requests lines. if fst x = i then snd x else 0) = requested_total lines i"
  by (induction lines) (auto simp: item_requests_def map_filter_simps requested_total_def split: option.splits)

lemma requested_keys: "fst ` set (requested_quantities lines) = {i. \<exists>q. (Some i, q) \<in> set lines}"
proof -
  have "fst ` set (item_requests lines) = {i. \<exists>q. (Some i, q) \<in> set lines}"
    by (force simp: item_requests_def set_map_filter image_iff)
  then show ?thesis by (simp add: requested_quantities_def requested_fold dom_foldl_add_at)
qed

lemma requested_value:
  assumes "(Some i, q) \<in> set lines"
  shows "map_of (requested_quantities lines) i = Some (requested_total lines i)"
proof -
  have "at0 (requested_quantities lines) i = requested_total lines i"
    by (simp add: requested_quantities_def requested_fold at0_foldl_add_at requested_sum)
  moreover have "map_of (requested_quantities lines) i \<noteq> None"
    using assms requested_keys [of lines] by (auto simp: map_of_eq_None_iff)
  ultimately show ?thesis by (auto simp: at0_def)
qed

lemma distinct_requested: "distinct (map fst (requested_quantities lines))"
  by (simp add: requested_quantities_def requested_fold distinct_foldl_add_at)

lemma requested_total_grid:
  "\<forall>(i, q) \<in> set lines. on_grid n q \<Longrightarrow> on_grid n (requested_total lines i)"
  unfolding requested_total_def by (rule on_grid_sum_list) auto

text \<open>What the tables guarantee: one row per item, quantities with four decimals.\<close>

definition stock_tables_ok :: "'a trade_db_scheme \<Rightarrow> bool" where
  "stock_tables_ok s \<longleftrightarrow> distinct (map it_id (db_items s))
     \<and> (\<forall>it \<in> set (db_items s). on_grid 4 (it_onHand it))
     \<and> (\<forall>o' \<in> set (db_orders s). \<forall>l \<in> set (so_lines o'). on_grid 4 (ol_quantity l))"

lemma committed_grid: "stock_tables_ok s \<Longrightarrow> on_grid 4 (committed_quantity co ex s i)"
  unfolding committed_quantity_def by (intro on_grid_sum_list) (auto simp: stock_tables_ok_def)

definition available_quantity :: "nat \<Rightarrow> nat option \<Rightarrow> 'a trade_db_scheme \<Rightarrow> inv_item \<Rightarrow> rat" where
  "available_quantity co ex s it = max (it_onHand it - committed_quantity co ex s (it_id it)) 0"

lemma position_of_item:
  assumes D: "decimal_lib D" and ok: "stock_tables_ok s" and it: "it \<in> set (db_items s)" "it_company it = co"
    and i: "it_id it \<in> set ids"
  shows "\<exists>pos. row_with sp_item (it_id it) (stockPositions D co ids ex s) = Some pos \<and>
    max (sp_available pos) 0 = available_quantity co ex s it"
proof -
  let ?items = "filter (\<lambda>it. it_company it = co \<and> it_id it \<in> set ids) (db_items s)"
  have "distinct (map it_id ?items)" using ok by (simp add: stock_tables_ok_def distinct_map_filter)
  moreover have "it \<in> set ?items" using it i by simp
  ultimately have "row_with it_id (it_id it) ?items = Some it" by (rule row_with_distinct)
  moreover have "on_grid 4 (it_onHand it - committed_quantity co ex s (it_id it))"
    using ok it by (intro on_grid_diff committed_grid) (auto simp: stock_tables_ok_def)
  ultimately show ?thesis
    using decimal_lib.fixed_id [OF D] unfolding stockPositions_def Let_def available_quantity_def
    by (subst row_with_mapped [where base = it_id]) simp_all
qed

text \<open>
  C23: the shortfall of an order is exact. However an item's request is spread over lines, the item is listed once, and it
  is listed exactly when the lines together ask for more than is on hand and not promised on other
  orders; the shortfall is the difference.
\<close>

theorem backorders_exact:
  assumes "decimal_lib D" and "stock_tables_ok s" and "\<forall>(i, q) \<in> set lines. on_grid 4 q"
    and "it \<in> set (db_items s)" and "it_company it = co" and "(Some (it_id it), q) \<in> set lines"
  shows "distinct (map bo_item (backorderLines D co lines ex s))
    \<and> (it_id it \<in> set (map bo_item (backorderLines D co lines ex s))
        \<longleftrightarrow> available_quantity co ex s it < requested_total lines (it_id it))
    \<and> (\<forall>b \<in> set (backorderLines D co lines ex s). bo_item b = it_id it \<longrightarrow>
        bo_requested b = requested_total lines (it_id it)
        \<and> bo_shortfall b = requested_total lines (it_id it) - available_quantity co ex s it)"
proof -
  let ?req = "requested_quantities lines" and ?i = "it_id it"
  let ?pos = "stockPositions D co (map fst ?req) ex s"
  define f where "f = (\<lambda>(itemId, qty). case row_with sp_item itemId ?pos of
             None \<Rightarrow> None
           | Some pos \<Rightarrow>
               let available = max (sp_available pos) 0
               in if available < qty
                  then Some \<lparr>bo_item = itemId, bo_name = sp_name pos, bo_sku = sp_sku pos,
                    bo_requested = d_fixed D 4 qty, bo_available = d_fixed D 4 available,
                    bo_shortfall = d_fixed D 4 (qty - available)\<rparr>
                  else None)"
  have lines: "backorderLines D co lines ex s = List.map_filter f ?req"
    by (simp add: backorderLines_def f_def Let_def)
  have key: "f x = Some b \<Longrightarrow> bo_item b = fst x" for x b
    by (auto simp: f_def Let_def split: option.splits prod.splits if_splits)
  have dist: "distinct (map bo_item (List.map_filter f xs)) \<and> set (map bo_item (List.map_filter f xs)) \<subseteq> fst ` set xs"
    if "distinct (map fst xs)" for xs
    using that
  proof (induction xs)
    case Nil
    then show ?case by (simp add: map_filter_simps)
  next
    case (Cons x xs)
    then show ?case using key [of x] by (cases "f x") (auto simp: map_filter_simps)
  qed
  have "?i \<in> fst ` set ?req" using assms(6) requested_keys [of lines] by auto
  then obtain pos where pos: "row_with sp_item ?i ?pos = Some pos" "max (sp_available pos) 0 = available_quantity co ex s it"
    using position_of_item [OF assms(1,2,4,5), of "map fst ?req" ex] by auto
  have val: "map_of ?req ?i = Some (requested_total lines ?i)" by (rule requested_value [OF assms(6)])
  have grid: "on_grid 4 (requested_total lines ?i)" "on_grid 4 (available_quantity co ex s it)"
    using requested_total_grid [OF assms(3)] committed_grid [OF assms(2)] assms(2,4)
    by (auto simp: available_quantity_def max_def stock_tables_ok_def intro: on_grid_diff)
  have b: "b \<in> set (backorderLines D co lines ex s) \<and> bo_item b = ?i \<longleftrightarrow> f (?i, requested_total lines ?i) = Some b" for b
  proof
    assume "b \<in> set (backorderLines D co lines ex s) \<and> bo_item b = ?i"
    then obtain x where x: "x \<in> set ?req" "f x = Some b" "bo_item b = ?i" unfolding lines set_map_filter by blast
    then have "x = (?i, snd x)" using key [OF x(2)] by (metis prod.collapse)
    moreover from this have "snd x = requested_total lines ?i"
      using map_of_is_SomeI [OF distinct_requested, of ?i "snd x" lines] x(1) val by simp
    ultimately show "f (?i, requested_total lines ?i) = Some b" using x(2) by simp
  next
    assume fb: "f (?i, requested_total lines ?i) = Some b"
    have "(?i, requested_total lines ?i) \<in> set ?req" using val by (rule map_of_SomeD)
    then show "b \<in> set (backorderLines D co lines ex s) \<and> bo_item b = ?i"
      using fb key [OF fb] unfolding lines set_map_filter by auto
  qed
  have fi: "f (?i, requested_total lines ?i) =
      (if available_quantity co ex s it < requested_total lines ?i
       then Some \<lparr>bo_item = ?i, bo_name = sp_name pos, bo_sku = sp_sku pos, bo_requested = requested_total lines ?i,
         bo_available = available_quantity co ex s it,
         bo_shortfall = requested_total lines ?i - available_quantity co ex s it\<rparr> else None)"
    using decimal_lib.fixed_id [OF assms(1)] grid pos by (simp add: f_def Let_def on_grid_diff)
  let ?asked = "requested_total lines ?i" and ?free = "available_quantity co ex s it"
  have once: "distinct (map bo_item (backorderLines D co lines ex s))"
    using dist [OF distinct_requested [of lines]] by (simp add: lines)
  have "?i \<in> set (map bo_item (backorderLines D co lines ex s)) \<longleftrightarrow> (\<exists>b. f (?i, ?asked) = Some b)"
    unfolding b [symmetric] set_map image_iff by metis
  then have listed: "?i \<in> set (map bo_item (backorderLines D co lines ex s)) \<longleftrightarrow> ?free < ?asked" using fi by simp
  have "bo_requested y = ?asked \<and> bo_shortfall y = ?asked - ?free"
    if "y \<in> set (backorderLines D co lines ex s)" "bo_item y = ?i" for y
  proof -
    have "f (?i, ?asked) = Some y" using that b [of y] by blast
    then show ?thesis using fi by (auto split: if_splits)
  qed
  then show ?thesis using once listed by blast
qed

definition demo_item :: inv_item where
  "demo_item = \<lparr>it_id = 4, it_company = 7, it_sku = ''SKU-4'', it_name = ''Ceiling fan'', it_unitCost = 100, it_onHand = 10\<rparr>"

definition demo_trade :: trade_db where
  "demo_trade =
     \<lparr>db_companies = [], db_accounts = [], db_entries = [], db_gl = [], db_fresh = 9, db_sequences = [],
      db_customers = [demo_customer], db_vendors = [], db_profiles = [], db_items = [demo_item], db_movements = [],
      db_invoices = [], db_payments = [], db_applications = [],
      db_orders = [\<lparr>so_id = 5, so_company = 7, so_customer = 3, so_status = ''open'',
        so_lines = [\<lparr>ol_item = Some 4, ol_quantity = 3, ol_fulfilled = 0, ol_unitPrice = 150, ol_taxRate = 0\<rparr>]\<rparr>],
      db_deliveries = [], db_memos = [], db_audit = []\<rparr>"

theorem backorders_exact_witness:
  "4 \<in> set (map bo_item (backorderLines decimal_half_up 7 [(Some 4, 5), (None, 1), (Some 4, 4)] None demo_trade))"
proof -
  have ok: "stock_tables_ok demo_trade"
    using on_grid_of_int [of 4 10] on_grid_of_int [of 4 3] by (simp add: stock_tables_ok_def demo_trade_def demo_item_def)
  have grid: "\<forall>(i, q) \<in> set [(Some 4, 5), (None, 1), (Some (4::nat), 4)]. on_grid 4 q"
    using on_grid_of_int [of 4 5] on_grid_of_int [of 4 1] on_grid_of_int [of 4 4] by simp
  have "available_quantity 7 None demo_trade demo_item < requested_total [(Some 4, 5), (None, 1), (Some (4::nat), 4)] (it_id demo_item)"
    by (simp add: available_quantity_def committed_quantity_def order_counts_def demo_trade_def demo_item_def requested_total_def)
  then show ?thesis
    using backorders_exact [OF half_up.decimal_lib_axioms ok grid, of demo_item 7 5 None]
    by (simp add: demo_trade_def demo_item_def)
qed

end
