(* ===== verification/Credit.thy ===== *)
theory Credit
  imports Trade
begin

text \<open>
  Credit limits: \<^verbatim>\<open>src/common/utils/credit-control.util.ts\<close>. The sub-selects of the query are sums over the
  tables; \<open>numeric\<close> arithmetic is exact in them (a rate has four decimals, so a hundredth of it has six).
\<close>

record credit_assessment =
  as_limited :: bool
  as_limit :: rat
  as_openInvoices :: rat
  as_inTransit :: rat
  as_shipped :: rat
  as_advances :: rat
  as_credits :: rat
  as_thisAmount :: rat
  as_exposure :: rat
  as_excess :: rat
  as_requiredAdvance :: rat
  as_withinLimit :: bool

record credit_override =
  ov_reason :: string
  ov_userId :: nat
  ov_role :: string

section \<open>What a customer owes\<close>

definition invoices_open :: "nat \<Rightarrow> nat \<Rightarrow> 'a trade_db_scheme \<Rightarrow> rat" where
  "invoices_open co cust s =
     (\<Sum>i\<leftarrow>filter (\<lambda>i. in_company i = co \<and> in_customer i = cust \<and> in_status i \<notin> {IN_draft, IN_void}) (db_invoices s).
        in_balance i)"

definition goods_in_transit :: "nat \<Rightarrow> nat \<Rightarrow> 'a trade_db_scheme \<Rightarrow> rat" where
  "goods_in_transit co cust s =
     (\<Sum>d\<leftarrow>filter (\<lambda>d. dl_company d = co \<and> dl_customer d = cust \<and> dl_ledgerStatus d = ''in_transit''
                \<and> \<not> (dl_prepaid d \<and> dl_advancePayment d = None)) (db_deliveries s).
        \<Sum>i\<leftarrow>dl_items d.
          (if 0 < di_orderedQty i then di_orderedQty i else di_quantity i) * di_unitPrice i * (1 + di_taxRate i / 100))"

definition goods_shipped :: "nat \<Rightarrow> nat \<Rightarrow> nat option \<Rightarrow> 'a trade_db_scheme \<Rightarrow> rat" where
  "goods_shipped co cust exceptOrder s =
     (\<Sum>o'\<leftarrow>filter (\<lambda>o'. so_company o' = co \<and> so_customer o' = cust \<and> so_status o' \<in> set [''partial'', ''fulfilled'']
                \<and> (case exceptOrder of None \<Rightarrow> True | Some x \<Rightarrow> so_id o' \<noteq> x)
                \<and> \<not> list_ex (\<lambda>d. dl_salesOrder d = Some (so_id o')) (db_deliveries s)) (db_orders s).
        \<Sum>l\<leftarrow>so_lines o'. ol_fulfilled l * ol_unitPrice l * (1 + ol_taxRate l / 100))"

definition applied_of :: "'a trade_db_scheme \<Rightarrow> nat \<Rightarrow> rat" where
  "applied_of s p = (\<Sum>a\<leftarrow>filter (\<lambda>a. ap_payment a = p) (db_applications s). ap_amount a)"

definition unapplied_advances :: "nat \<Rightarrow> nat \<Rightarrow> 'a trade_db_scheme \<Rightarrow> rat" where
  "unapplied_advances co cust s =
     (\<Sum>p\<leftarrow>filter (\<lambda>p. pm_company p = co \<and> pm_customer p = cust \<and> 0 < pm_amount p - applied_of s (pm_id p)) (db_payments s).
        pm_amount p - applied_of s (pm_id p))"

definition open_credits :: "nat \<Rightarrow> nat \<Rightarrow> 'a trade_db_scheme \<Rightarrow> rat" where
  "open_credits co cust s =
     (\<Sum>m\<leftarrow>filter (\<lambda>m. cm_company m = co \<and> cm_customer m = cust \<and> cm_status m \<noteq> CM_void) (db_memos s). cm_balance m)"

section \<open>credit-control.util.ts\<close>

definition find_customer :: "nat \<Rightarrow> nat \<Rightarrow> 'a trade_db_scheme \<Rightarrow> customer option" where
  "find_customer co cust s = find (\<lambda>c. cu_companyId c = co \<and> cu_id c = cust) (db_customers s)"

definition assessCredit :: "decimal_js \<Rightarrow> nat \<Rightarrow> nat \<Rightarrow> rat \<Rightarrow> nat option \<Rightarrow> 'a trade_db_scheme \<Rightarrow> credit_assessment" where
  "assessCredit D co cust thisAmount exceptOrder s =
     (let row = find_customer co cust s;
          read = (\<lambda>v. if row = None then 0 else v);
          limit = (case row of None \<Rightarrow> 0 | Some c \<Rightarrow> cu_creditLimit c);
          openInvoices = read (invoices_open co cust s);
          inTransit = read (goods_in_transit co cust s);
          shipped = read (goods_shipped co cust exceptOrder s);
          advances = read (unapplied_advances co cust s);
          credits = read (open_credits co cust s);
          exposure = openInvoices + inTransit + shipped - advances - credits + thisAmount;
          limited = 0 < limit;
          excess = (if limited then max (exposure - limit) 0 else 0)
      in \<lparr>as_limited = limited, as_limit = d_fixed D 4 limit, as_openInvoices = d_fixed D 4 openInvoices,
          as_inTransit = d_fixed D 4 inTransit, as_shipped = d_fixed D 4 shipped, as_advances = d_fixed D 4 advances,
          as_credits = d_fixed D 4 credits, as_thisAmount = d_fixed D 4 thisAmount, as_exposure = d_fixed D 4 exposure,
          as_excess = d_fixed D 4 excess, as_requiredAdvance = d_fixed D 4 excess, as_withinLimit = (excess \<le> 0)\<rparr>)"

text \<open>The row of \<open>operational_audit_events\<close>; of its details the reason is kept.\<close>

definition record_override :: "nat \<Rightarrow> credit_override \<Rightarrow> string \<Rightarrow> nat option \<Rightarrow> string \<Rightarrow> 'a trade_db_scheme \<Rightarrow> 'a trade_db_scheme" where
  "record_override co ov targetType targetId reason s =
     s\<lparr>db_audit := db_audit s @ [\<lparr>ae_company = co, ae_actor = ov_userId ov, ae_action = ''credit_limit_override'',
         ae_targetType = targetType, ae_targetId = targetId, ae_reason = reason\<rparr>]\<rparr>"

definition enforceCreditLimit :: "decimal_js \<Rightarrow> nat \<Rightarrow> nat \<Rightarrow> rat \<Rightarrow> string \<Rightarrow> nat option \<Rightarrow> nat option \<Rightarrow> credit_override option \<Rightarrow>
    'a trade_db_scheme \<Rightarrow> (credit_assessment \<times> 'a trade_db_scheme) result" where
  "enforceCreditLimit D co cust thisAmount targetType targetId exceptOrder override s =
     (let assessment = assessCredit D co cust thisAmount exceptOrder s
      in if as_withinLimit assessment then Inr (assessment, s)
         else case override of
           Some ov \<Rightarrow>
             throw_if (ov_role ov \<noteq> ''admin'') (Forbidden ''CREDIT_OVERRIDE_OWNER_ONLY'')
            (let reason = trim (ov_reason ov)
             in throw_if (length reason < 5) (BadRequest ''CREDIT_OVERRIDE_REASON_REQUIRED'')
                  (Inr (assessment, record_override co ov targetType targetId reason s)))
         | None \<Rightarrow> Inl (Unprocessable ''CREDIT_LIMIT_EXCEEDED''))"

definition grossValue :: "decimal_js \<Rightarrow> rat \<Rightarrow> rat \<Rightarrow> rat \<Rightarrow> rat" where
  "grossValue D quantity unitPrice taxRate =
     (let base = d_prec D (quantity * unitPrice) in base + d_prec D (d_prec D (base * taxRate) / 100))"

section \<open>The limit\<close>

text \<open>The exact excess over the limit.\<close>

definition credit_excess :: "nat \<Rightarrow> nat \<Rightarrow> rat \<Rightarrow> nat option \<Rightarrow> 'a trade_db_scheme \<Rightarrow> rat" where
  "credit_excess co cust thisAmount exceptOrder s =
     (case find_customer co cust s of
        None \<Rightarrow> 0
      | Some c \<Rightarrow>
          if 0 < cu_creditLimit c
          then max (invoices_open co cust s + goods_in_transit co cust s + goods_shipped co cust exceptOrder s
                 - unapplied_advances co cust s - open_credits co cust s + thisAmount - cu_creditLimit c) 0
          else 0)"

lemma within_limit: "as_withinLimit (assessCredit D co cust amount ex s) \<longleftrightarrow> credit_excess co cust amount ex s \<le> 0"
  by (auto simp: assessCredit_def credit_excess_def Let_def split: option.splits)

lemma required_advance: "as_requiredAdvance (assessCredit D co cust amount ex s) = d_fixed D 4 (credit_excess co cust amount ex s)"
  by (simp add: assessCredit_def credit_excess_def Let_def split: option.splits)

lemma credit_excess_nonneg: "0 \<le> credit_excess co cust amount ex s"
  by (simp add: credit_excess_def split: option.splits)

definition with_receipt :: "payment \<Rightarrow> 'a trade_db_scheme \<Rightarrow> 'a trade_db_scheme" where
  "with_receipt p s = s\<lparr>db_payments := db_payments s @ [p]\<rparr>"

lemma advances_with_receipt:
  assumes "pm_company p = co" and "pm_customer p = cust" and "0 < pm_amount p" and "\<forall>a \<in> set (db_applications s). ap_payment a \<noteq> pm_id p"
  shows "unapplied_advances co cust (with_receipt p s) = unapplied_advances co cust s + pm_amount p"
proof -
  have "applied_of s (pm_id p) = 0" using assms(4) by (simp add: applied_of_def filter_empty_conv cong: filter_cong)
  moreover have "applied_of (with_receipt p s) q = applied_of s q" for q by (simp add: applied_of_def with_receipt_def)
  ultimately show ?thesis using assms(1-3) by (simp add: unapplied_advances_def with_receipt_def)
qed

text \<open>
  C24: an advance lets a refused sale through exactly when it covers the excess. After a receipt of any positive
  amount is recorded as an advance, the same sale is within the limit if and only if the amount is at
  least what the sale took the customer past it; with four decimals that is the advance the refusal asks for.
\<close>

theorem advance_covers_excess:
  assumes "decimal_lib D" and c: "find_customer co cust s = Some c" and "0 < cu_creditLimit c"
    and over: "\<not> as_withinLimit (assessCredit D co cust amount ex s)"
    and p: "pm_company p = co" "pm_customer p = cust" "0 < pm_amount p"
    and fresh: "\<forall>a \<in> set (db_applications s). ap_payment a \<noteq> pm_id p"
  shows "(as_withinLimit (assessCredit D co cust amount ex (with_receipt p s)) \<longleftrightarrow> credit_excess co cust amount ex s \<le> pm_amount p)
    \<and> (on_grid 4 (credit_excess co cust amount ex s) \<longrightarrow>
        (as_withinLimit (assessCredit D co cust amount ex (with_receipt p s))
          \<longleftrightarrow> as_requiredAdvance (assessCredit D co cust amount ex s) \<le> pm_amount p))"
proof -
  let ?gross = "invoices_open co cust s + goods_in_transit co cust s + goods_shipped co cust ex s
      - unapplied_advances co cust s - open_credits co cust s + amount - cu_creditLimit c"
  have before: "credit_excess co cust amount ex s = max ?gross 0" using c assms(3) by (simp add: credit_excess_def)
  have c': "find_customer co cust (with_receipt p s) = Some c" using c by (simp add: find_customer_def with_receipt_def)
  have same: "invoices_open co cust (with_receipt p s) = invoices_open co cust s"
    "goods_in_transit co cust (with_receipt p s) = goods_in_transit co cust s"
    "goods_shipped co cust ex (with_receipt p s) = goods_shipped co cust ex s"
    "open_credits co cust (with_receipt p s) = open_credits co cust s"
    by (simp_all add: invoices_open_def goods_in_transit_def goods_shipped_def open_credits_def with_receipt_def)
  have after: "credit_excess co cust amount ex (with_receipt p s) = max (?gross - pm_amount p) 0"
    using assms(3) by (simp add: credit_excess_def c' same advances_with_receipt [OF p fresh] algebra_simps)
  have "0 < ?gross" using over before by (simp add: within_limit max_def split: if_splits)
  then have iff: "as_withinLimit (assessCredit D co cust amount ex (with_receipt p s)) \<longleftrightarrow> credit_excess co cust amount ex s \<le> pm_amount p"
    unfolding within_limit before after by (auto simp: max_def)
  then show ?thesis using decimal_lib.fixed_id [OF assms(1)] by (simp add: required_advance)
qed

definition limited_trade :: trade_db where
  "limited_trade = demo_trade\<lparr>db_customers := [demo_customer\<lparr>cu_creditLimit := 100000\<rparr>]\<rparr>"

definition demo_receipt :: "rat \<Rightarrow> payment" where
  "demo_receipt amount =
     \<lparr>pm_id = 8, pm_company = 7, pm_customer = 3, pm_number = None, pm_date = ''2026-03-01'', pm_method = ''cash'',
      pm_reference = None, pm_amount = amount, pm_bankAccount = 2, pm_memo = None, pm_entry = None, pm_advancePosted = True\<rparr>"

lemma limited_excess: "credit_excess 7 3 107250 None limited_trade = 7250"
  by (simp add: credit_excess_def limited_trade_def demo_trade_def demo_customer_def find_customer_def invoices_open_def
      goods_in_transit_def goods_shipped_def unapplied_advances_def open_credits_def)

theorem advance_covers_excess_witness:
  "as_withinLimit (assessCredit decimal_half_up 7 3 107250 None (with_receipt (demo_receipt 7250) limited_trade))
   \<and> \<not> as_withinLimit (assessCredit decimal_half_up 7 3 107250 None (with_receipt (demo_receipt 7249) limited_trade))"
proof -
  have c: "find_customer 7 3 limited_trade = Some (demo_customer\<lparr>cu_creditLimit := 100000\<rparr>)"
    by (simp add: find_customer_def limited_trade_def demo_customer_def)
  have over: "\<not> as_withinLimit (assessCredit decimal_half_up 7 3 107250 None limited_trade)"
    by (simp add: within_limit limited_excess)
  have fresh: "\<forall>a \<in> set (db_applications limited_trade). ap_payment a \<noteq> pm_id (demo_receipt x)" for x
    by (simp add: limited_trade_def demo_trade_def)
  show ?thesis
    using advance_covers_excess [OF half_up.decimal_lib_axioms c _ over _ _ _ fresh, of 7250]
      advance_covers_excess [OF half_up.decimal_lib_axioms c _ over _ _ _ fresh, of 7249]
    by (simp add: limited_excess demo_receipt_def)
qed

end
