(* ===== verification/Invoices.thy ===== *)
theory Invoices
  imports Credit Documents Books
begin

text \<open>
  Invoices: \<^verbatim>\<open>src/modules/invoices/invoices.service.ts\<close>. Creating, editing, sending, voiding and deleting an
  invoice and applying money to it, with the stock it moves and the entries it posts. What is queued for
  messaging, the row locks and the version column are not modelled: a handler runs alone.

  Amounts are stored in columns with four decimals; a value that reaches the table as it was sent is
  rounded by the column, as \<open>toFixed(4)\<close> rounds.
\<close>

section \<open>Inputs\<close>

record invoice_line_input =
  li_description :: string
  li_quantity :: rat
  li_unitPrice :: rat
  li_taxRate :: "rat option"
  li_account :: "nat option"
  li_item :: "nat option"
  li_kind :: "line_kind option"

record invoice_input =
  ii_customer :: nat
  ii_date :: date
  ii_dueDate :: date
  ii_discountType :: "discount_type option"
  ii_discountValue :: "rat option"
  ii_sent :: "bool option"     \<comment> \<open>\<open>status\<close>: absent, draft or sent\<close>
  ii_paymentTerms :: "string option"
  ii_notes :: "string option"
  ii_lines :: "invoice_line_input list"

record invoice_update =
  iu_date :: "date option"
  iu_dueDate :: "date option"
  iu_notes :: "string option option"
  iu_discountType :: "discount_type option"
  iu_discountValue :: "rat option"
  iu_lines :: "invoice_line_input list option"

record create_options =
  op_freeTextAsService :: bool
  op_skipCredit :: bool
  op_exceptOrder :: "nat option"
  op_override :: "credit_override option"

definition classifiable :: "invoice_line_input \<Rightarrow> sales_line" where
  "classifiable l = \<lparr>sl_item = li_item l, sl_kind = li_kind l\<rparr>"

section \<open>Totals\<close>

record invoice_totals =
  tt_subtotal :: rat
  tt_discountAmount :: rat
  tt_taxAmount :: rat
  tt_total :: rat
  tt_lines :: "invoice_line list"

definition line_base :: "decimal_js \<Rightarrow> invoice_line_input \<Rightarrow> rat" where
  "line_base D l = d_prec D (li_quantity l * li_unitPrice l)"

definition line_tax :: "decimal_js \<Rightarrow> invoice_line_input \<Rightarrow> rat" where
  "line_tax D l = d_prec D (d_prec D (line_base D l * toDecimal (li_taxRate l)) / 100)"

definition calc_line :: "decimal_js \<Rightarrow> nat \<Rightarrow> invoice_line_input \<Rightarrow> invoice_line" where
  "calc_line D i l =
     \<lparr>il_description = li_description l, il_quantity = d_fixed D 4 (li_quantity l),
      il_unitPrice = d_fixed D 4 (li_unitPrice l), il_taxRate = d_fixed D 4 (toDecimal (li_taxRate l)),
      il_taxAmount = d_fixed D 4 (line_tax D l), il_lineTotal = d_fixed D 4 (line_base D l + line_tax D l),
      il_account = li_account l, il_item = li_item l, il_order = i, il_unitCost = None, il_costAmount = None,
      il_costBasis = None\<rparr>"

definition discount_of :: "decimal_js \<Rightarrow> discount_type \<Rightarrow> rat option \<Rightarrow> rat \<Rightarrow> rat" where
  "discount_of D t v subtotal =
     (let d = (case t of
                 D_percent \<Rightarrow> d_prec D (d_prec D (subtotal * toDecimal v) / 100)
               | D_amount \<Rightarrow> toDecimal v
               | D_none \<Rightarrow> 0)
      in if subtotal < d then subtotal else d)"

definition computeTotals :: "decimal_js \<Rightarrow> invoice_line_input list \<Rightarrow> discount_type \<Rightarrow> rat option \<Rightarrow> invoice_totals" where
  "computeTotals D lines discountType discountValue =
     (let (subtotal, taxTotal) = foldl (\<lambda>(s, t) l. (s + line_base D l, t + line_tax D l)) (0, 0) lines;
          discount = discount_of D discountType discountValue subtotal;
          total = subtotal - discount + taxTotal
      in \<lparr>tt_subtotal = d_fixed D 4 subtotal, tt_discountAmount = d_fixed D 4 discount,
          tt_taxAmount = d_fixed D 4 taxTotal, tt_total = d_fixed D 4 total,
          tt_lines = map (\<lambda>(i, l). calc_line D i l) (enumerate 0 lines)\<rparr>)"

section \<open>Stock\<close>

text \<open>
  One line of \<open>postInvoiceCogs\<close>: the total so far, the line as it is saved, and the tables. A line without an item, or
  whose item is gone, is left alone.
\<close>

definition moved_stock :: "invoice \<Rightarrow> nat \<Rightarrow> 'a trade_db_scheme \<Rightarrow> bool" where
  "moved_stock doc item s \<longleftrightarrow>
     list_ex (\<lambda>m. mv_company m = in_company doc \<and> mv_item m = item \<and> mv_sourceType m = Some ''invoice''
                  \<and> mv_sourceId m = Some (in_id doc)) (db_movements s)"

definition line_cost :: "decimal_js \<Rightarrow> bool \<Rightarrow> invoice_line \<Rightarrow> inv_item \<Rightarrow> rat" where
  "line_cost D reverse l it =
     (case (if reverse then il_costAmount l else None) of
        Some frozen \<Rightarrow> frozen
      | None \<Rightarrow> d_prec D (il_quantity l * it_unitCost it))"

definition moved_item :: "decimal_js \<Rightarrow> bool \<Rightarrow> rat \<Rightarrow> invoice_line \<Rightarrow> inv_item \<Rightarrow> inv_item" where
  "moved_item D reverse cost l it =
     (let onHand = it_onHand it;
          newQty = (if reverse then onHand + il_quantity l else onHand - il_quantity l);
          unit = (if reverse \<and> 0 < newQty
                  then d_fixed D 4 (d_prec D ((d_prec D (onHand * it_unitCost it) + cost) / newQty))
                  else it_unitCost it)
      in it\<lparr>it_unitCost := unit, it_onHand := d_fixed D 4 newQty\<rparr>)"

definition cogs_movement :: "bool \<Rightarrow> invoice \<Rightarrow> nat \<Rightarrow> rat \<Rightarrow> invoice_line \<Rightarrow> inv_item \<Rightarrow> movement_input" where
  "cogs_movement reverse doc user cost l it =
     (let qty = il_quantity l
      in \<lparr>mi_company = in_company doc, mi_item = it_id it, mi_date = in_date doc,
          mi_type = (if reverse then ''return'' else ''sale''),
          mi_quantity = (if reverse then qty else - qty),
          mi_balanceAfter = (if reverse then it_onHand it + qty else it_onHand it - qty),
          mi_value = (if reverse then cost else - cost),
          mi_reference = Some (in_number doc), mi_description = None,
          mi_sourceType = Some (if reverse then ''invoice_void'' else ''invoice''), mi_sourceId = Some (in_id doc),
          mi_createdBy = Some user\<rparr>)"

definition cogs_line :: "decimal_js \<Rightarrow> invoice \<Rightarrow> nat \<Rightarrow> bool \<Rightarrow> rat \<times> invoice_line list \<times> 'a trade_db_scheme \<Rightarrow> invoice_line \<Rightarrow>
    (rat \<times> invoice_line list \<times> 'a trade_db_scheme) result" where
  "cogs_line D doc user reverse acc l =
     (let (total, done, s) = acc in
      case Option.bind (il_item l) (\<lambda>i. find (\<lambda>it. it_id it = i \<and> it_company it = in_company doc) (db_items s)) of
        None \<Rightarrow> Inr (total, done @ [l], s)
      | Some it \<Rightarrow>
          if reverse \<and> \<not> moved_stock doc (it_id it) s then Inr (total, done @ [l], s)
          else
            let cost = line_cost D reverse l it;
                it' = moved_item D reverse cost l it;
                l' = (if reverse then l
                      else l\<lparr>il_unitCost := Some (d_fixed D 4 (it_unitCost it)), il_costAmount := Some (d_fixed D 4 cost),
                             il_costBasis := Some ''posted''\<rparr>)
            in bindE (if reverse then Inr () else assertSufficientStock (it_onHand it) (il_quantity l)) (\<lambda>_.
               throw_if (it_onHand it' < 0) (DbError ''check_violation'')
              (Inr (total + max cost 0, done @ [l'],
                    recordInventoryMovement D (cogs_movement reverse doc user cost l it)
                      (s\<lparr>db_items := update_row it_id (it_id it) (\<lambda>_. it') (db_items s)\<rparr>)))))"

definition postInvoiceCogs :: "decimal_js \<Rightarrow> invoice \<Rightarrow> nat \<Rightarrow> bool \<Rightarrow> 'a trade_db_scheme \<Rightarrow>
    (rat \<times> invoice_line list \<times> 'a trade_db_scheme) result" where
  "postInvoiceCogs D doc user reverse s = foldE (cogs_line D doc user reverse) (0, [], s) (in_lines doc)"

section \<open>Posting\<close>

definition post_line :: "nat \<Rightarrow> string option \<Rightarrow> rat \<Rightarrow> rat \<Rightarrow> posting_line" where
  "post_line account description debit credit =
     \<lparr>pl_account = account, pl_description = description, pl_debit = debit, pl_credit = credit, pl_order = None\<rparr>"

definition number_lines :: "posting_line list \<Rightarrow> posting_line list" where
  "number_lines ls = map (\<lambda>(i, l). l\<lparr>pl_order := Some i\<rparr>) (enumerate 0 ls)"

definition cost_lines :: "decimal_js \<Rightarrow> nat \<Rightarrow> bool \<Rightarrow> rat \<Rightarrow> 'a ledger_db_scheme \<Rightarrow> posting_line list result" where
  "cost_lines D co reverse cogs s =
     (if 0 < cogs
      then bindE (getByNumberOrFail s co ACCT_COGS) (\<lambda>cg.
           bindE (getByNumberOrFail s co ACCT_INVENTORY) (\<lambda>iv.
           let v = d_fixed D 4 cogs
           in Inr (if reverse then [post_line (acc_id cg) None 0 v, post_line (acc_id iv) None v 0]
                   else [post_line (acc_id cg) (Some ''Cost of goods sold'') v 0,
                         post_line (acc_id iv) (Some ''Inventory relieved'') 0 v])))
      else Inr [])"

definition sale_lines :: "decimal_js \<Rightarrow> bool \<Rightarrow> invoice \<Rightarrow> nat \<Rightarrow> nat \<Rightarrow> nat \<Rightarrow> posting_line list" where
  "sale_lines D reverse doc ar revenue tax =
     (let net = d_fixed D 4 (in_subtotal doc - in_discountAmount doc)
      in (if reverse
          then [post_line ar None 0 (in_total doc), post_line revenue None net 0]
               @ (if 0 < in_taxAmount doc then [post_line tax None (in_taxAmount doc) 0] else [])
          else [post_line ar (Some (''Invoice '' @ in_number doc)) (in_total doc) 0,
                post_line revenue (Some ''Sales revenue'') 0 net]
               @ (if 0 < in_taxAmount doc then [post_line tax (Some ''Sales tax'') 0 (in_taxAmount doc)] else [])))"

definition save_invoice :: "invoice \<Rightarrow> 'a trade_db_scheme \<Rightarrow> 'a trade_db_scheme" where
  "save_invoice doc s = s\<lparr>db_invoices := update_row in_id (in_id doc) (\<lambda>_. doc) (db_invoices s)\<rparr>"

definition createJournalEntryForInvoice :: "env \<Rightarrow> invoice \<Rightarrow> nat \<Rightarrow> 'a trade_db_scheme \<Rightarrow>
    (invoice \<times> 'a trade_db_scheme) result" where
  "createJournalEntryForInvoice E doc user s =
     throw_if (in_total doc \<le> 0) (BadRequest ''INVOICE_ZERO_TOTAL'')
    (bindE (getByNumberOrFail s (in_company doc) ACCT_AR) (\<lambda>ar.
     bindE (getByNumberOrFail s (in_company doc) ACCT_SALES_REVENUE) (\<lambda>revenue.
     bindE (getByNumberOrFail s (in_company doc) ACCT_TAX_PAYABLE) (\<lambda>tax.
     bindE (postInvoiceCogs (dec E) doc user False s) (\<lambda>(cogs, lines, s1).
     bindE (cost_lines (dec E) (in_company doc) False cogs s1) (\<lambda>costs.
     bindE (createEntry E s1
       \<lparr>pi_company = in_company doc, pi_date = in_date doc, pi_memo = Some (''Invoice '' @ in_number doc),
        pi_createdBy = user,
        pi_lines = number_lines (sale_lines (dec E) False doc (acc_id ar) (acc_id revenue) (acc_id tax) @ costs),
        pi_posted = True, pi_sourceType = Some ''invoice'', pi_sourceId = Some (in_id doc), pi_reversalOf = None\<rparr>) (\<lambda>(entry, s2).
     let doc' = doc\<lparr>in_lines := lines, in_entry := Some (je_id entry)\<rparr>
     in Inr (doc', save_invoice doc' s2))))))))"

definition add_customer_balance :: "decimal_js \<Rightarrow> nat \<Rightarrow> nat \<Rightarrow> rat \<Rightarrow> 'a trade_db_scheme \<Rightarrow> 'a trade_db_scheme" where
  "add_customer_balance D co cust delta s =
     s\<lparr>db_customers := map (\<lambda>c. if cu_companyId c = co \<and> cu_id c = cust
         then c\<lparr>cu_balance := d_fixed D 4 (cu_balance c + delta)\<rparr> else c) (db_customers s)\<rparr>"

section \<open>The operations\<close>

definition find_invoice :: "nat \<Rightarrow> nat \<Rightarrow> 'a trade_db_scheme \<Rightarrow> invoice option" where
  "find_invoice co i s = find (\<lambda>v. in_id v = i \<and> in_company v = co) (db_invoices s)"

definition invoice_numbers :: "nat \<Rightarrow> 'a trade_db_scheme \<Rightarrow> string list" where
  "invoice_numbers co s = map in_number (filter (\<lambda>v. in_company v = co) (db_invoices s))"

definition new_invoice :: "env \<Rightarrow> nat \<Rightarrow> nat \<Rightarrow> invoice_input \<Rightarrow> customer \<Rightarrow> string \<Rightarrow> invoice_totals \<Rightarrow> 'a ledger_db_scheme \<Rightarrow> invoice" where
  "new_invoice E co user d c number tot s =
     \<lparr>in_id = db_fresh s, in_company = co, in_customer = ii_customer d, in_number = number, in_date = ii_date d,
      in_dueDate = ii_dueDate d, in_subtotal = tt_subtotal tot,
      in_discountType = (case ii_discountType d of None \<Rightarrow> D_none | Some t \<Rightarrow> t),
      in_discountValue = d_fixed (dec E) 4 (toDecimal (ii_discountValue d)),
      in_discountAmount = tt_discountAmount tot, in_taxAmount = tt_taxAmount tot, in_total = tt_total tot,
      in_amountPaid = 0, in_balance = tt_total tot,
      in_status = (if ii_sent d = Some True then IN_sent else IN_draft), in_notes = ii_notes d,
      in_paymentTerms = (case ii_paymentTerms d of None \<Rightarrow> cu_paymentTerms c | Some t \<Rightarrow> t),
      in_entry = None, in_createdBy = user, in_lines = tt_lines tot\<rparr>"

text \<open>An INSERT of the row: the unique index on company and number, then a fresh key.\<close>

definition insert_invoice :: "invoice \<Rightarrow> 'a trade_db_scheme \<Rightarrow> 'a trade_db_scheme result" where
  "insert_invoice v s =
     throw_if (in_number v \<in> set (invoice_numbers (in_company v) s)) (DbError ''unique_violation'')
       (Inr (s\<lparr>db_invoices := db_invoices s @ [v], db_fresh := db_fresh s + 1\<rparr>))"

text \<open>A year that cannot be read reaches the database as \<open>NaN\<close>, which is not an integer.\<close>

definition series_year :: "date \<Rightarrow> nat result" where
  "series_year d = some_or (yearOf d) (DbError ''22P02'') Inr"

definition inv_createInTransaction :: "env \<Rightarrow> bool \<Rightarrow> nat \<Rightarrow> nat \<Rightarrow> invoice_input \<Rightarrow> create_options \<Rightarrow> 'a trade_db_scheme \<Rightarrow>
    (invoice \<times> 'a trade_db_scheme) result" where
  "inv_createInTransaction E off co user d opts s =
     some_or (find_customer co (ii_customer d) s) (NotFound ''CUSTOMER_NOT_FOUND'') (\<lambda>c.
     bindE (assertSalesLinesClassified off co (map classifiable (ii_lines d)) (op_freeTextAsService opts) s) (\<lambda>_.
     let tot = computeTotals (dec E) (ii_lines d) (case ii_discountType d of None \<Rightarrow> D_none | Some t \<Rightarrow> t) (ii_discountValue d);
         sent = (ii_sent d = Some True)
     in bindE (series_year (ii_date d)) (\<lambda>year.
        bindE (nextDocumentNumber (invoice_numbers co s) co INV year s) (\<lambda>(number, s1).
        bindE (if sent \<and> \<not> op_skipCredit opts
               then map_sum id snd (enforceCreditLimit (dec E) co (ii_customer d) (tt_total tot) ''customer''
                      (Some (ii_customer d)) (op_exceptOrder opts) (op_override opts) s1)
               else Inr s1) (\<lambda>s2.
        let v = new_invoice E co user d c number tot s2
        in bindE (insert_invoice v s2) (\<lambda>s3.
           if sent
           then bindE (createJournalEntryForInvoice E v user s3) (\<lambda>(v', s4).
                Inr (v', add_customer_balance (dec E) co (ii_customer d) (in_total v) s4))
           else Inr (v, s3)))))))"

definition inv_create :: "env \<Rightarrow> bool \<Rightarrow> nat \<Rightarrow> nat \<Rightarrow> invoice_input \<Rightarrow> create_options \<Rightarrow> 'a trade_db_scheme \<Rightarrow>
    (invoice \<times> 'a trade_db_scheme) result" where
  "inv_create E off co user d opts = transaction (inv_createInTransaction E off co user d opts)"

definition as_input :: "invoice_line \<Rightarrow> invoice_line_input" where
  "as_input l = \<lparr>li_description = il_description l, li_quantity = il_quantity l, li_unitPrice = il_unitPrice l,
     li_taxRate = Some (il_taxRate l), li_account = il_account l, li_item = il_item l, li_kind = None\<rparr>"

definition edited_invoice :: "env \<Rightarrow> invoice_update \<Rightarrow> invoice \<Rightarrow> invoice" where
  "edited_invoice E u v =
     (let v1 = v\<lparr>in_date := if_sent (iu_date u) (in_date v), in_dueDate := if_sent (iu_dueDate u) (in_dueDate v),
                 in_notes := if_sent (iu_notes u) (in_notes v)\<rparr>
      in if iu_lines u \<noteq> None \<or> iu_discountType u \<noteq> None \<or> iu_discountValue u \<noteq> None
         then let nextLines = (case iu_lines u of None \<Rightarrow> map as_input (in_lines v) | Some ls \<Rightarrow> ls);
                  dType = if_sent (iu_discountType u) (in_discountType v);
                  dValue = if_sent (iu_discountValue u) (in_discountValue v);
                  tot = computeTotals (dec E) nextLines dType (Some dValue)
              in v1\<lparr>in_discountType := dType, in_discountValue := d_fixed (dec E) 4 dValue,
                    in_discountAmount := tt_discountAmount tot, in_taxAmount := tt_taxAmount tot,
                    in_subtotal := tt_subtotal tot, in_total := tt_total tot, in_balance := tt_total tot,
                    in_lines := (if iu_lines u = None then in_lines v else tt_lines tot)\<rparr>
         else v1)"

definition inv_update :: "env \<Rightarrow> bool \<Rightarrow> nat \<Rightarrow> nat \<Rightarrow> invoice_update \<Rightarrow> 'a trade_db_scheme \<Rightarrow> (invoice \<times> 'a trade_db_scheme) result" where
  "inv_update E off co i u =
     transaction (\<lambda>s.
       some_or (find_invoice co i s) (NotFound ''INVOICE_NOT_FOUND'') (\<lambda>v.
       throw_if (in_status v \<noteq> IN_draft) (BadRequest ''CANNOT_EDIT_POSTED'')
      (bindE (case iu_lines u of None \<Rightarrow> Inr ()
              | Some ls \<Rightarrow> assertSalesLinesClassified off co (map classifiable ls) False s) (\<lambda>_.
       let v' = edited_invoice E u v
       in throw_if (in_total v' - in_amountPaid v' \<noteq> in_balance v') (DbError ''check_violation'')
            (Inr (v', save_invoice v' s))))))"

definition inv_send :: "env \<Rightarrow> nat \<Rightarrow> nat \<Rightarrow> nat \<Rightarrow> credit_override option \<Rightarrow> 'a trade_db_scheme \<Rightarrow>
    (invoice \<times> 'a trade_db_scheme) result" where
  "inv_send E co i user override =
     transaction (\<lambda>s.
       some_or (find_invoice co i s) (NotFound ''INVOICE_NOT_FOUND'') (\<lambda>v.
       throw_if (in_status v = IN_void) (BadRequest ''VALIDATION_FAILED'')
      (bindE (if in_entry v = None
              then bindE (enforceCreditLimit (dec E) co (in_customer v) (in_total v) ''invoice'' (Some (in_id v)) None override s) (\<lambda>(_, s1).
                   bindE (createJournalEntryForInvoice E v user s1) (\<lambda>(v1, s2).
                   Inr (v1, add_customer_balance (dec E) co (in_customer v) (in_total v) s2)))
              else Inr (v, s)) (\<lambda>(v1, s3).
       let v2 = (if in_status v1 = IN_draft then v1\<lparr>in_status := IN_sent\<rparr> else v1)
       in Inr (v2, save_invoice v2 s3)))))"

definition void_notes :: "string option \<Rightarrow> string \<Rightarrow> string" where
  "void_notes notes reason =
     (case notes of None \<Rightarrow> ''[VOID] '' @ reason
      | Some t \<Rightarrow> if t = [] then ''[VOID] '' @ reason else t @ [CHR 0x0A] @ ''[VOID] '' @ reason)"

text \<open>The reversing entry of a void, the restocking and the customer's balance.\<close>

definition reverse_invoice :: "env \<Rightarrow> nat \<Rightarrow> nat \<Rightarrow> string \<Rightarrow> invoice \<Rightarrow> nat \<Rightarrow> 'a trade_db_scheme \<Rightarrow> 'a trade_db_scheme result" where
  "reverse_invoice E co user reason v entry s =
     bindE (getByNumberOrFail s co ACCT_AR) (\<lambda>ar.
     bindE (getByNumberOrFail s co ACCT_SALES_REVENUE) (\<lambda>revenue.
     bindE (getByNumberOrFail s co ACCT_TAX_PAYABLE) (\<lambda>tax.
     bindE (postInvoiceCogs (dec E) v user True s) (\<lambda>(cogs, _, s1).
     bindE (cost_lines (dec E) co True cogs s1) (\<lambda>costs.
     bindE (createEntry E s1
       \<lparr>pi_company = co, pi_date = today E, pi_memo = Some (''Void invoice '' @ in_number v @ '': '' @ reason),
        pi_createdBy = user,
        pi_lines = number_lines (sale_lines (dec E) True v (acc_id ar) (acc_id revenue) (acc_id tax) @ costs),
        pi_posted = True, pi_sourceType = Some ''invoice_void'', pi_sourceId = Some (in_id v), pi_reversalOf = Some entry\<rparr>) (\<lambda>(_, s2).
     Inr (add_customer_balance (dec E) co (in_customer v) (- in_total v) s2)))))))"

definition inv_void :: "env \<Rightarrow> nat \<Rightarrow> nat \<Rightarrow> nat \<Rightarrow> string \<Rightarrow> 'a trade_db_scheme \<Rightarrow> (invoice \<times> 'a trade_db_scheme) result" where
  "inv_void E co i user reason =
     transaction (\<lambda>s.
       some_or (find_invoice co i s) (NotFound ''INVOICE_NOT_FOUND'') (\<lambda>v.
       throw_if (0 < in_amountPaid v) (BadRequest ''INVOICE_ALREADY_PAID'')
      (bindE (case in_entry v of None \<Rightarrow> Inr s | Some e \<Rightarrow> reverse_invoice E co user reason v e s) (\<lambda>s1.
       let v' = v\<lparr>in_status := IN_void, in_notes := Some (void_notes (in_notes v) reason)\<rparr>
       in Inr (v', save_invoice v' s1)))))"

text \<open>Deleting: a mirror of the entry, the restocking, the customer's balance, and the row.\<close>

definition mirror_entry :: "env \<Rightarrow> nat \<Rightarrow> nat \<Rightarrow> string \<Rightarrow> string \<Rightarrow> nat \<Rightarrow> nat \<Rightarrow> date \<Rightarrow> 'a ledger_db_scheme \<Rightarrow> 'a ledger_db_scheme result" where
  "mirror_entry E co user memo sourceType sourceId entry date s =
     (let original = (case row_with je_id entry (db_entries s) of None \<Rightarrow> [] | Some e \<Rightarrow> je_lines e)
      in if original = [] then Inr s
         else map_sum id snd (createEntry E s
           \<lparr>pi_company = co, pi_date = date, pi_memo = Some memo, pi_createdBy = user,
            pi_lines = reversalLines original, pi_posted = True,
            pi_sourceType = Some sourceType, pi_sourceId = Some sourceId, pi_reversalOf = Some entry\<rparr>))"

definition inv_delete :: "env \<Rightarrow> nat \<Rightarrow> nat \<Rightarrow> nat \<Rightarrow> 'a trade_db_scheme \<Rightarrow> (unit \<times> 'a trade_db_scheme) result" where
  "inv_delete E co i user =
     transaction (\<lambda>s.
       some_or (find_invoice co i s) (NotFound ''INVOICE_NOT_FOUND'') (\<lambda>v.
       throw_if (0 < in_amountPaid v) (BadRequest ''INVOICE_HAS_PAYMENTS'')
      (bindE (case (if in_status v \<noteq> IN_void then in_entry v else None) of
                None \<Rightarrow> Inr s
              | Some e \<Rightarrow>
                  bindE (mirror_entry E co user (''Delete invoice '' @ in_number v) ''invoice_void'' (in_id v) e (today E) s) (\<lambda>s1.
                  bindE (postInvoiceCogs (dec E) v user True s1) (\<lambda>(_, _, s2).
                  Inr (add_customer_balance (dec E) co (in_customer v) (- in_total v) s2)))) (\<lambda>s3.
       Inr ((), s3\<lparr>db_invoices := filter (\<lambda>w. in_id w \<noteq> i) (db_invoices s3)\<rparr>)))))"

section \<open>Applying money\<close>

text \<open>The status of an invoice after its paid amount changed, on the business day.\<close>

definition paid_invoice :: "env \<Rightarrow> rat \<Rightarrow> invoice \<Rightarrow> invoice" where
  "paid_invoice E amt v =
     (let paid = d_fixed (dec E) 4 (in_amountPaid v + amt)
      in v\<lparr>in_amountPaid := paid, in_balance := d_fixed (dec E) 4 (in_total v - paid),
           in_status := (if in_total v \<le> paid then IN_paid
                         else if in_dueDate v < today E then IN_overdue else IN_partial)\<rparr>)"

definition applyPayment :: "env \<Rightarrow> nat \<Rightarrow> nat \<Rightarrow> rat \<Rightarrow> 'a trade_db_scheme \<Rightarrow> (invoice \<times> 'a trade_db_scheme) result" where
  "applyPayment E co i amt s =
     some_or (find_invoice co i s) (NotFound ''INVOICE_NOT_FOUND'') (\<lambda>v.
     throw_if (in_status v = IN_void \<or> in_status v = IN_draft) (BadRequest ''VALIDATION_FAILED'')
    (throw_if (\<not> 0 < amt) (BadRequest ''VALIDATION_FAILED'')
    (throw_if (in_balance v < amt) (BadRequest ''PAYMENT_EXCEEDS_BALANCE'')
    (let v' = paid_invoice E amt v
     in throw_if (in_total v' - in_amountPaid v' \<noteq> in_balance v') (DbError ''check_violation'')
          (Inr (v', save_invoice v' s))))))"

text \<open>Oldest due first, then by invoice date and number.\<close>

definition outstandingForCustomer :: "nat \<Rightarrow> nat \<Rightarrow> 'a trade_db_scheme \<Rightarrow> invoice list" where
  "outstandingForCustomer co cust s =
     sort_key in_dueDate (sort_key in_date (sort_key in_number
       (filter (\<lambda>v. in_company v = co \<and> in_customer v = cust \<and> 0 < in_balance v \<and> in_status v \<notin> {IN_draft, IN_void})
         (db_invoices s))))"

end
