(* ===== verification/InvoiceLaws.thy ===== *)
theory InvoiceLaws
  imports Invoices
begin

text \<open>
  What the postings of an invoice do to the ledger: the effect of a list of posting lines on an account, the
  frame of each step, and that issuing, voiding and mirroring move Accounts Receivable by the invoice's total.
\<close>

section \<open>Frames\<close>

lemma trade_more:
  fixes s t :: "'a trade_db_scheme"
  assumes "ledger_db.more t = ledger_db.more s"
  shows "db_customers t = db_customers s" and "db_invoices t = db_invoices s" and "db_items t = db_items s"
    and "db_movements t = db_movements s" and "db_payments t = db_payments s" and "db_applications t = db_applications s"
    and "db_deliveries t = db_deliveries s" and "db_audit t = db_audit s" and "db_vendors t = db_vendors s"
    and "db_profiles t = db_profiles s" and "db_orders t = db_orders s" and "db_memos t = db_memos s"
    and "db_sequences t = db_sequences s" and "trade_db.more t = trade_db.more s"
  using assms by (cases s; cases t; simp)+

lemma find_map: "find P (map f xs) = map_option f (find (\<lambda>x. P (f x)) xs)"
  by (induction xs) auto

text \<open>The balance of an account by its number.\<close>

definition balance_of :: "'a ledger_db_scheme \<Rightarrow> nat \<Rightarrow> string \<Rightarrow> rat" where
  "balance_of s co n = (case by_number s co n of None \<Rightarrow> 0 | Some a \<Rightarrow> acc_balance a)"

definition input_effect :: "decimal_js \<Rightarrow> posting_line list \<Rightarrow> account \<Rightarrow> rat" where
  "input_effect D ls a =
     (\<Sum>l\<leftarrow>ls. if pl_account l = acc_id a then signedDelta (acc_type a) (d_fixed D 4 (pl_debit l)) (d_fixed D 4 (pl_credit l)) else 0)"

lemma input_effect_append: "input_effect D (xs @ ys) a = input_effect D xs a + input_effect D ys a"
  by (simp add: input_effect_def)

lemma input_effect_numbered: "input_effect D (number_lines ls) a = input_effect D ls a"
proof -
  have "(\<Sum>x\<leftarrow>enumerate n ls. (if pl_account (snd x) = acc_id a
       then signedDelta (acc_type a) (d_fixed D 4 (pl_debit (snd x))) (d_fixed D 4 (pl_credit (snd x))) else 0)) = input_effect D ls a" for n
    by (induction ls arbitrary: n) (simp_all add: input_effect_def)
  then show ?thesis by (simp add: input_effect_def number_lines_def o_def case_prod_unfold cong: if_cong)
qed

lemma stored_effect:
  "je_lines e = stored_lines D k ls \<Longrightarrow> entry_effect e a = input_effect D ls a"
proof -
  have "(\<Sum>l\<leftarrow>stored_lines D k ls. if jl_account l = acc_id a then signedDelta (acc_type a) (jl_debit l) (jl_credit l) else 0)
     = input_effect D ls a"
    by (induction ls arbitrary: k) (simp_all add: input_effect_def)
  then show "je_lines e = stored_lines D k ls \<Longrightarrow> ?thesis" by (simp add: entry_effect_def)
qed

context posting_env
begin

lemma posted_balances:
  assumes run: "createEntry E s inp = Inr (e, t)" and ok: "ledger_ok s" and p: "pi_posted inp"
  shows "by_number t co n = map_option (\<lambda>a. a\<lparr>acc_balance := acc_balance a + input_effect (dec E) (pi_lines inp) a\<rparr>) (by_number s co n)"
proof -
  note k = createEntry_keeps(6) [OF refl run ok]
  have "entry_effect e a = input_effect (dec E) (pi_lines inp) a" for a
    using createEntry_Inr(7) [OF run] by (rule stored_effect)
  then show ?thesis using k p by (simp add: by_number_def find_map)
qed

end

section \<open>The lines of an invoice\<close>

lemma by_number_ids:
  assumes "ledger_ok s" and "by_number s co m = Some a" and "by_number s co n = Some b" and "m \<noteq> n"
  shows "acc_id a \<noteq> acc_id b"
proof
  assume "acc_id a = acc_id b"
  moreover have "a \<in> set (db_accounts s)" "b \<in> set (db_accounts s)" "acc_number a = m" "acc_number b = n"
    using assms(2,3) by (auto simp: by_number_def dest!: find_Some_mem)
  moreover have "distinct (map acc_id (db_accounts s))" using assms(1) by (rule ledger_ok_ids)
  ultimately show False using assms(4) by (metis option.inject row_with_distinct)
qed

lemma getByNumber_Inr [result_simps]:
  "getByNumberOrFail s co n = Inr a \<longleftrightarrow> by_number s co n = Some a \<and> acc_active a"
  by (auto simp: getByNumberOrFail_def some_or_Inr throw_if_Inr)

text \<open>Moving stock touches the items and their movements only.\<close>

lemma cogs_line_frame:
  "cogs_line D doc user reverse (a, ls, s) l = Inr (b, ls', t) \<Longrightarrow> \<exists>its mvs. t = s\<lparr>db_items := its, db_movements := mvs\<rparr>"
  by (cases s) (auto simp: cogs_line_def result_simps Let_def recordInventoryMovement_def split: option.splits if_splits)

lemma postInvoiceCogs_frame:
  assumes "postInvoiceCogs D doc user reverse s = Inr (a, ls, t)"
  obtains its mvs where "t = s\<lparr>db_items := its, db_movements := mvs\<rparr>"
proof -
  let ?P = "\<lambda>(_, _, t). \<exists>its mvs. t = s\<lparr>db_items := its, db_movements := mvs\<rparr>"
  have "?P (a, ls, t)"
    using assms unfolding postInvoiceCogs_def
  proof (rule foldE_invariant)
    show "?P (0, [], s)" by (cases s) auto
  next
    fix x l y assume "?P x" and "cogs_line D doc user reverse x l = Inr y"
    then show "?P y" by (cases x; cases y) (fastforce dest: cogs_line_frame)
  qed
  then show thesis using that by auto
qed

lemma by_number_same: "db_accounts t = db_accounts s \<Longrightarrow> by_number t co n = by_number s co n"
  by (simp add: by_number_def)

lemma ledger_ok_same:
  fixes s :: "'a ledger_db_scheme" and t :: "'b ledger_db_scheme"
  assumes "db_accounts t = db_accounts s" "db_gl t = db_gl s" "db_entries t = db_entries s" "db_fresh s \<le> db_fresh t"
  shows "ledger_ok s \<Longrightarrow> ledger_ok t"
  using assms by (fastforce simp: ledger_ok_def accounts_ok_def entries_ok_def)

lemma numbers_differ:
  "ACCT_AR \<noteq> ACCT_SALES_REVENUE" "ACCT_AR \<noteq> ACCT_TAX_PAYABLE" "ACCT_AR \<noteq> ACCT_COGS" "ACCT_AR \<noteq> ACCT_INVENTORY"
  "ACCT_AR \<noteq> ACCT_CUSTOMER_ADVANCES"
  by (simp_all add: ACCT_AR_def ACCT_SALES_REVENUE_def ACCT_TAX_PAYABLE_def ACCT_COGS_def ACCT_INVENTORY_def ACCT_CUSTOMER_ADVANCES_def)

lemma cost_lines_no_effect:
  assumes "cost_lines D co reverse cogs s = Inr ls" and "ledger_ok s" and "by_number s co ACCT_AR = Some ar"
  shows "input_effect D ls ar = 0"
  using assms by_number_ids [OF assms(2,3)] numbers_differ
  by (fastforce simp: cost_lines_def result_simps Let_def input_effect_def post_line_def split: if_splits)

lemma sale_lines_effect:
  assumes "acc_id revenue \<noteq> acc_id ar" and "acc_id tax \<noteq> acc_id ar" and "acc_type ar = Asset" and "d_fixed D 4 0 = 0"
  shows "input_effect D (sale_lines D reverse doc (acc_id ar) (acc_id revenue) (acc_id tax)) ar
    = (if reverse then - d_fixed D 4 (in_total doc) else d_fixed D 4 (in_total doc))"
  using assms by (simp add: sale_lines_def input_effect_def post_line_def Let_def signedDelta_def)

text \<open>What a posting does to receivables: the balance of the A/R account, and nothing else that
  invoices or customers are read from.\<close>

definition moves_receivable :: "nat \<Rightarrow> rat \<Rightarrow> 'a trade_db_scheme \<Rightarrow> 'a trade_db_scheme \<Rightarrow> bool" where
  "moves_receivable co x s t \<longleftrightarrow>
     ledger_ok t \<and> (\<forall>ar. by_number s co ACCT_AR = Some ar \<longrightarrow>
       by_number t co ACCT_AR = Some (ar\<lparr>acc_balance := acc_balance ar + x\<rparr>))
     \<and> db_customers t = db_customers s \<and> db_invoices t = db_invoices s \<and> db_payments t = db_payments s
     \<and> db_applications t = db_applications s \<and> db_memos t = db_memos s \<and> db_fresh s \<le> db_fresh t \<and> set (db_entries s) \<subseteq> set (db_entries t)"

lemma moves_receivableI:
  fixes s t :: "'a trade_db_scheme"
  assumes "posting_env E" and "createEntry E s1 inp = Inr (e, t)" and "ledger_ok s" and "pi_posted inp"
    and "s1 = s\<lparr>db_items := its, db_movements := mvs\<rparr>"
    and "\<And>ar. by_number s co ACCT_AR = Some ar \<Longrightarrow> input_effect (dec E) (pi_lines inp) ar = x"
  shows "moves_receivable co x s t"
proof -
  have l1: "ledger_ok s1" using assms(3) by (rule ledger_ok_same [rotated -1]) (simp_all add: assms(5))
  have "decimal_lib (dec E)" using assms(1) by (simp add: posting_env_def)
  note k = decimal_lib.createEntry_keeps(1,3,5) [OF this refl assms(2) l1]
  note fr = trade_more [OF k(3)]
  have "by_number s1 co ACCT_AR = by_number s co ACCT_AR" by (rule by_number_same) (simp add: assms(5))
  then show ?thesis
    unfolding moves_receivable_def
    using posting_env.posted_balances [OF assms(1) assms(2) l1 assms(4), of co ACCT_AR] k(1,2) fr(1,2,5,6,12) assms(6)
      createEntry_frame [OF assms(2)]
    by (auto simp: assms(5))
qed

context posting_env
begin

lemma fixed_zero: "d_fixed (dec E) 4 0 = 0"
  by simp

lemma invoice_entry_effect:
  assumes ok: "ledger_ok s" and ar: "by_number s co ACCT_AR = Some ar" "acc_type ar = Asset"
    and rv: "by_number s co ACCT_SALES_REVENUE = Some revenue" and tx: "by_number s co ACCT_TAX_PAYABLE = Some tax"
    and s1: "s1 = s\<lparr>db_items := its, db_movements := mvs\<rparr>" and cl: "cost_lines (dec E) co reverse cogs s1 = Inr costs"
    and m: "money (in_total doc)"
  shows "input_effect (dec E) (number_lines (sale_lines (dec E) reverse doc (acc_id ar) (acc_id revenue) (acc_id tax) @ costs)) ar
    = (if reverse then - in_total doc else in_total doc)"
proof -
  have "ledger_ok s1" using ok by (rule ledger_ok_same [rotated -1]) (simp_all add: s1)
  moreover have "by_number s1 co ACCT_AR = Some ar" using ar(1) by (simp add: by_number_def s1)
  ultimately have "input_effect (dec E) costs ar = 0" by (rule cost_lines_no_effect [OF cl])
  moreover have "acc_id revenue \<noteq> acc_id ar" "acc_id tax \<noteq> acc_id ar"
    using by_number_ids [OF ok ar(1)] rv tx numbers_differ by metis+
  ultimately show ?thesis
    using fixed_id [OF m] by (simp add: input_effect_numbered input_effect_append sale_lines_effect [OF _ _ ar(2) fixed_zero] del: if_split)
qed

lemma invoice_posting:
  assumes run: "createJournalEntryForInvoice E doc user s = Inr (doc', t)" and ok: "ledger_ok s"
    and ar: "by_number s (in_company doc) ACCT_AR = Some ar" "acc_type ar = Asset" and m: "money (in_total doc)"
  obtains t1 ls n where "moves_receivable (in_company doc) (in_total doc) s t1" and "t = save_invoice doc' t1"
    and "doc' = doc\<lparr>in_lines := ls, in_entry := Some n\<rparr>" and "0 < in_total doc"
    and "\<exists>e \<in> set (db_entries t1). je_id e = n \<and> je_company e = in_company doc \<and> entry_effect e ar = in_total doc"
proof -
  let ?co = "in_company doc"
  from run obtain revenue tax cogs ls s1 costs e t1 where
    pos: "0 < in_total doc" and rv: "by_number s ?co ACCT_SALES_REVENUE = Some revenue"
    and tx: "by_number s ?co ACCT_TAX_PAYABLE = Some tax"
    and cg: "postInvoiceCogs (dec E) doc user False s = Inr (cogs, ls, s1)"
    and cl: "cost_lines (dec E) ?co False cogs s1 = Inr costs"
    and ce: "createEntry E s1
       \<lparr>pi_company = ?co, pi_date = in_date doc, pi_memo = Some (''Invoice '' @ in_number doc), pi_createdBy = user,
        pi_lines = number_lines (sale_lines (dec E) False doc (acc_id ar) (acc_id revenue) (acc_id tax) @ costs),
        pi_posted = True, pi_sourceType = Some ''invoice'', pi_sourceId = Some (in_id doc), pi_reversalOf = None\<rparr> = Inr (e, t1)"
    and d: "doc' = doc\<lparr>in_lines := ls, in_entry := Some (je_id e)\<rparr>" "t = save_invoice doc' t1"
    using ar(1) by (auto simp: createJournalEntryForInvoice_def result_simps Let_def)
  obtain its mvs where s1: "s1 = s\<lparr>db_items := its, db_movements := mvs\<rparr>" using cg by (rule postInvoiceCogs_frame)
  have eff: "input_effect (dec E) (number_lines (sale_lines (dec E) False doc (acc_id ar) (acc_id revenue) (acc_id tax) @ costs)) ar
      = in_total doc"
    using invoice_entry_effect [OF ok ar rv tx s1 cl m] by simp
  have mv: "moves_receivable ?co (in_total doc) s t1"
    by (rule moves_receivableI [OF _ ce ok _ s1]) (use eff ar(1) in \<open>simp_all add: posting_env_axioms\<close>)
  have ef: "entry_effect e ar = in_total doc" using stored_effect [OF createEntry_Inr(7) [OF ce]] eff by simp
  have ent: "e \<in> set (db_entries t1)" using createEntry_frame [OF ce] by simp
  show thesis
    using that [OF mv d(2,1) pos] ent ef createEntry_Inr(2) [OF ce] by auto
qed

lemma reversing_posting:
  assumes run: "reverse_invoice E co user reason v entry s = Inr t" and ok: "ledger_ok s"
    and ar: "by_number s co ACCT_AR = Some ar" "acc_type ar = Asset" and m: "money (in_total v)"
  obtains t1 where "moves_receivable co (- in_total v) s t1"
    and "t = add_customer_balance (dec E) co (in_customer v) (- in_total v) t1"
proof -
  from run obtain revenue tax cogs ls s1 costs e t1 where
    rv: "by_number s co ACCT_SALES_REVENUE = Some revenue" and tx: "by_number s co ACCT_TAX_PAYABLE = Some tax"
    and cg: "postInvoiceCogs (dec E) v user True s = Inr (cogs, ls, s1)"
    and cl: "cost_lines (dec E) co True cogs s1 = Inr costs"
    and ce: "createEntry E s1
       \<lparr>pi_company = co, pi_date = today E, pi_memo = Some (''Void invoice '' @ in_number v @ '': '' @ reason),
        pi_createdBy = user,
        pi_lines = number_lines (sale_lines (dec E) True v (acc_id ar) (acc_id revenue) (acc_id tax) @ costs),
        pi_posted = True, pi_sourceType = Some ''invoice_void'', pi_sourceId = Some (in_id v), pi_reversalOf = Some entry\<rparr> = Inr (e, t1)"
    and t: "t = add_customer_balance (dec E) co (in_customer v) (- in_total v) t1"
    using ar(1) by (auto simp: reverse_invoice_def result_simps Let_def)
  obtain its mvs where s1: "s1 = s\<lparr>db_items := its, db_movements := mvs\<rparr>" using cg by (rule postInvoiceCogs_frame)
  have eff: "input_effect (dec E) (number_lines (sale_lines (dec E) True v (acc_id ar) (acc_id revenue) (acc_id tax) @ costs)) ar
      = - in_total v"
    using invoice_entry_effect [OF ok ar rv tx s1 cl m] by simp
  have mv: "moves_receivable co (- in_total v) s t1"
    by (rule moves_receivableI [OF _ ce ok _ s1]) (use eff ar(1) in \<open>simp_all add: posting_env_axioms\<close>)
  then show thesis using t by (rule that)
qed

text \<open>The entry that mirrors another one.\<close>

lemma mirror_moves:
  assumes run: "mirror_entry E co user memo st sid n date s = Inr t" and ok: "ledger_ok s"
    and e: "e \<in> set (db_entries s)" "je_id e = n"
    and ar: "by_number s co ACCT_AR = Some ar"
  shows "moves_receivable co (- entry_effect e ar) s t"
proof -
  have dist: "distinct (map je_id (db_entries s))" and lines: "list_all line_ok (je_lines e)"
    using ok e by (auto simp: ledger_ok_def entries_ok_def entry_ok_def list_all_iff)
  have row: "row_with je_id n (db_entries s) = Some e" using row_with_distinct [OF dist e(1)] e(2) by simp
  show ?thesis
  proof (cases "je_lines e = []")
    case True
    then have "t = s" using run row by (simp add: mirror_entry_def)
    then show ?thesis using ok ar True by (auto simp: moves_receivable_def entry_effect_def)
  next
    case False
    then obtain r where ce: "createEntry E s
           \<lparr>pi_company = co, pi_date = date, pi_memo = Some memo, pi_createdBy = user,
            pi_lines = reversalLines (je_lines e), pi_posted = True,
            pi_sourceType = Some st, pi_sourceId = Some sid, pi_reversalOf = Some n\<rparr> = Inr (r, t)"
      using run row by (cases "createEntry E s
           \<lparr>pi_company = co, pi_date = date, pi_memo = Some memo, pi_createdBy = user,
            pi_lines = reversalLines (je_lines e), pi_posted = True,
            pi_sourceType = Some st, pi_sourceId = Some sid, pi_reversalOf = Some n\<rparr>")
        (auto simp: mirror_entry_def)
    have lr: "je_lines r = stored_lines (dec E) 0 (reversalLines (je_lines e))" using createEntry_Inr(7) [OF ce] by simp
    have "input_effect (dec E) (reversalLines (je_lines e)) ar = - entry_effect e ar"
      using reversal_effect [OF lines lr] stored_effect [OF lr] by simp
    then show ?thesis
      using ar by (intro moves_receivableI [where its = "db_items s" and mvs = "db_movements s", OF posting_env_axioms ce ok]) simp_all
  qed
qed

end

end
