(* ===== verification/Receivables.thy ===== *)
theory Receivables
  imports InvoiceLaws
begin

text \<open>
  The receivables of a company: account 1100 is the sum of what the customers owe, and what a customer owes is
  the sum of the open balances of the invoices posted for them. Every operation on invoices keeps this.
\<close>

section \<open>Receivables\<close>

definition posted_open :: "invoice \<Rightarrow> bool" where
  "posted_open v \<longleftrightarrow> in_entry v \<noteq> None \<and> in_status v \<noteq> IN_void"

definition due :: "nat \<Rightarrow> nat \<Rightarrow> invoice \<Rightarrow> rat" where
  "due co k v = (if in_company v = co \<and> in_customer v = k \<and> posted_open v then in_balance v else 0)"

definition owed :: "nat \<Rightarrow> nat \<Rightarrow> 'a trade_db_scheme \<Rightarrow> rat" where
  "owed co k s = (\<Sum>v\<leftarrow>db_invoices s. due co k v)"

definition company_total :: "nat \<Rightarrow> customer list \<Rightarrow> rat" where
  "company_total co cs = (\<Sum>c\<leftarrow>cs. if cu_companyId c = co then cu_balance c else 0)"

definition customers_total :: "nat \<Rightarrow> 'a trade_db_scheme \<Rightarrow> rat" where
  "customers_total co s = company_total co (db_customers s)"

definition invoice_row_ok :: "'a trade_db_scheme \<Rightarrow> account \<Rightarrow> invoice \<Rightarrow> bool" where
  "invoice_row_ok s ar v \<longleftrightarrow>
     money (in_total v) \<and> money (in_amountPaid v) \<and> in_balance v = in_total v - in_amountPaid v
     \<and> 0 \<le> in_amountPaid v
     \<and> find_customer (in_company v) (in_customer v) s \<noteq> None
     \<and> (in_status v = IN_draft \<longrightarrow> in_entry v = None)
     \<and> (in_entry v = None \<longrightarrow> in_amountPaid v = 0 \<and> in_status v \<in> {IN_draft, IN_void})
     \<and> (\<forall>n. in_entry v = Some n \<longrightarrow> in_amountPaid v \<le> in_total v \<and>
          (\<exists>e \<in> set (db_entries s). je_id e = n \<and> je_company e = in_company v \<and> entry_effect e ar = in_total v))"

text \<open>What a customer owes besides the invoices is \<open>g\<close>: nothing, or less the credit they hold.\<close>

definition receivables_ok :: "(nat \<Rightarrow> rat) \<Rightarrow> nat \<Rightarrow> 'a trade_db_scheme \<Rightarrow> bool" where
  "receivables_ok g co s \<longleftrightarrow>
     ledger_ok s
     \<and> (\<exists>ar. by_number s co ACCT_AR = Some ar \<and> acc_type ar = Asset \<and> acc_subType ar \<notin> set MONEY_ACCOUNT_SUB_TYPES
          \<and> acc_balance ar = customers_total co s \<and> (\<forall>v \<in> set (db_invoices s). in_company v = co \<longrightarrow> invoice_row_ok s ar v))
     \<and> distinct (map cu_id (db_customers s))
     \<and> distinct (map in_id (db_invoices s)) \<and> (\<forall>v \<in> set (db_invoices s). in_id v < db_fresh s)
     \<and> (\<forall>c \<in> set (db_customers s). cu_companyId c = co \<longrightarrow> cu_balance c = owed co (cu_id c) s + g (cu_id c))
     \<and> (\<forall>k. money (g k))"

lemma row_money:
  "invoice_row_ok s ar v \<Longrightarrow> money (in_total v) \<and> money (in_amountPaid v) \<and> money (in_balance v)"
  by (auto simp: invoice_row_ok_def intro: on_grid_diff)

lemma owed_money:
  assumes "receivables_ok g co s"
  shows "money (owed co k s)"
  unfolding owed_def
proof (rule on_grid_sum_list)
  fix v assume "v \<in> set (db_invoices s)"
  then show "money (due co k v)"
    using assms by (auto simp: receivables_ok_def due_def dest: row_money)
qed

lemma find_customer_iff: "find_customer co k s \<noteq> None \<longleftrightarrow> (\<exists>c \<in> set (db_customers s). cu_companyId c = co \<and> cu_id c = k)"
  by (auto simp: find_customer_def find_None_iff)

lemma find_customer_keys:
  "find_customer co k s \<noteq> None \<longleftrightarrow> (co, k) \<in> set (map (\<lambda>c. (cu_companyId c, cu_id c)) (db_customers s))"
  unfolding find_customer_iff by force

text \<open>One step of the books: the A/R account and one customer's balance move by the same amount,
  which is what the invoices move by.\<close>

lemma invoice_row_keeps:
  assumes "invoice_row_ok s ar v" and "set (db_entries s) \<subseteq> set (db_entries t)"
    and "map (\<lambda>c. (cu_companyId c, cu_id c)) (db_customers t) = map (\<lambda>c. (cu_companyId c, cu_id c)) (db_customers s)"
  shows "invoice_row_ok t (ar\<lparr>acc_balance := x\<rparr>) v"
proof -
  have "find_customer co k t \<noteq> None" if "find_customer co k s \<noteq> None" for co k
    using that unfolding find_customer_keys assms(3) .
  moreover have "entry_effect e (ar\<lparr>acc_balance := x\<rparr>) = entry_effect e ar" for e
    by (simp add: entry_effect_def cong: if_cong)
  ultimately show ?thesis using assms(1) subsetD [OF assms(2)] unfolding invoice_row_ok_def by (simp (no_asm_simp)) blast
qed

definition balances_move :: "nat \<Rightarrow> nat \<Rightarrow> rat \<Rightarrow> customer list \<Rightarrow> customer list \<Rightarrow> bool" where
  "balances_move co k x = list_all2 (\<lambda>c c'. cu_id c' = cu_id c \<and> cu_companyId c' = cu_companyId c
     \<and> cu_balance c' = cu_balance c + (if cu_companyId c = co \<and> cu_id c = k then x else 0))"

lemma balances_moveI:
  assumes "decimal_lib D" and "money x" and "\<forall>c \<in> set cs. cu_companyId c = co \<longrightarrow> money (cu_balance c)"
  shows "balances_move co k x cs (map (\<lambda>c. if cu_companyId c = co \<and> cu_id c = k
      then c\<lparr>cu_balance := d_fixed D 4 (cu_balance c + x)\<rparr> else c) cs)"
  using assms(2,3) decimal_lib.fixed_id [OF assms(1)]
  by (auto simp: balances_move_def list.rel_map on_grid_add intro!: list.rel_refl_strong)

lemma balances_stay: "balances_move co k 0 cs cs"
  by (simp add: balances_move_def list.rel_refl)

lemma balances_move_ids: "balances_move co k x cs cs' \<Longrightarrow> map cu_id cs' = map cu_id cs"
  unfolding balances_move_def by (induction rule: list_all2_induct) simp_all

lemma balances_move_keys:
  "balances_move co k x cs cs' \<Longrightarrow> map (\<lambda>c. (cu_companyId c, cu_id c)) cs' = map (\<lambda>c. (cu_companyId c, cu_id c)) cs"
  unfolding balances_move_def by (induction rule: list_all2_induct) simp_all

lemma balances_move_row:
  assumes "balances_move co k x cs cs'" and "c' \<in> set cs'"
  obtains c where "c \<in> set cs" and "cu_id c' = cu_id c" and "cu_companyId c' = cu_companyId c"
    and "cu_balance c' = cu_balance c + (if cu_companyId c = co \<and> cu_id c = k then x else 0)"
  using assms unfolding balances_move_def by (induction rule: list_all2_induct) auto

lemma balances_move_absent:
  "balances_move co k x cs cs' \<Longrightarrow> x = 0 \<or> k \<notin> cu_id ` set cs \<Longrightarrow> company_total co cs' = company_total co cs"
  unfolding balances_move_def by (induction rule: list_all2_induct) (auto simp: company_total_def)

lemma balances_move_total:
  "balances_move co k x cs cs' \<Longrightarrow> distinct (map cu_id cs) \<Longrightarrow> \<exists>c \<in> set cs. cu_companyId c = co \<and> cu_id c = k \<Longrightarrow>
   company_total co cs' = company_total co cs + x"
  unfolding balances_move_def
proof (induction rule: list_all2_induct)
  case Nil
  then show ?case by simp
next
  case (Cons c cs c' cs')
  show ?case
  proof (cases "cu_companyId c = co \<and> cu_id c = k")
    case True
    then have "company_total co cs' = company_total co cs"
      using Cons by (intro balances_move_absent [unfolded balances_move_def]) auto
    then show ?thesis using True Cons by (simp add: company_total_def)
  next
    case False
    then show ?thesis using Cons by (auto simp: company_total_def)
  qed
qed

text \<open>One step of the sales side.\<close>

lemma receivables_shift:
  assumes ok: "receivables_ok g co s" and l: "ledger_ok t"
    and ar: "\<And>ar. by_number s co ACCT_AR = Some ar \<Longrightarrow> by_number t co ACCT_AR = Some (ar\<lparr>acc_balance := acc_balance ar + x\<rparr>)"
    and cs: "balances_move co k x (db_customers s) (db_customers t)" and k: "x = 0 \<or> find_customer co k s \<noteq> None"
    and ow: "\<And>j. owed co j t + h j = owed co j s + g j + (if j = k then x else 0)" and h: "\<forall>k. money (h k)"
    and ids: "distinct (map in_id (db_invoices t))" "\<forall>v \<in> set (db_invoices t). in_id v < db_fresh t"
    and rows: "\<And>ar v. by_number s co ACCT_AR = Some ar \<Longrightarrow> acc_type ar = Asset \<Longrightarrow> v \<in> set (db_invoices t) \<Longrightarrow> in_company v = co \<Longrightarrow>
       invoice_row_ok t (ar\<lparr>acc_balance := acc_balance ar + x\<rparr>) v"
  shows "receivables_ok h co t"
proof -
  from ok obtain a where a: "by_number s co ACCT_AR = Some a" "acc_type a = Asset" "acc_balance a = customers_total co s"
    and sub: "acc_subType a \<notin> set MONEY_ACCOUNT_SUB_TYPES"
    by (auto simp: receivables_ok_def)
  have d: "distinct (map cu_id (db_customers s))" using ok by (simp add: receivables_ok_def)
  have tot: "customers_total co t = customers_total co s + x"
    using balances_move_total [OF cs d] balances_move_absent [OF cs] k
    unfolding customers_total_def find_customer_iff by auto
  show ?thesis
    unfolding receivables_ok_def
  proof (intro conjI exI)
    show "by_number t co ACCT_AR = Some (a\<lparr>acc_balance := acc_balance a + x\<rparr>)" by (rule ar [OF a(1)])
    show "\<forall>v \<in> set (db_invoices t). in_company v = co \<longrightarrow> invoice_row_ok t (a\<lparr>acc_balance := acc_balance a + x\<rparr>) v"
      using rows [OF a(1,2)] by blast
    show "distinct (map cu_id (db_customers t))" using d by (simp add: balances_move_ids [OF cs])
    show "\<forall>c \<in> set (db_customers t). cu_companyId c = co \<longrightarrow> cu_balance c = owed co (cu_id c) t + h (cu_id c)"
      using ok by (auto simp: receivables_ok_def ow elim!: balances_move_row [OF cs])
  qed (use l a ids tot sub h in simp_all)
qed

lemma receivables_step:
  assumes ok: "receivables_ok g co s" and "ledger_ok t"
    and "\<And>ar. by_number s co ACCT_AR = Some ar \<Longrightarrow> by_number t co ACCT_AR = Some (ar\<lparr>acc_balance := acc_balance ar + x\<rparr>)"
    and "balances_move co k x (db_customers s) (db_customers t)" and "x = 0 \<or> find_customer co k s \<noteq> None"
    and "\<And>j. owed co j t = owed co j s + (if j = k then x else 0)"
    and "distinct (map in_id (db_invoices t))" "\<forall>v \<in> set (db_invoices t). in_id v < db_fresh t"
    and "\<And>ar v. by_number s co ACCT_AR = Some ar \<Longrightarrow> acc_type ar = Asset \<Longrightarrow> v \<in> set (db_invoices t) \<Longrightarrow> in_company v = co \<Longrightarrow>
       invoice_row_ok t (ar\<lparr>acc_balance := acc_balance ar + x\<rparr>) v"
  shows "receivables_ok g co t"
proof (rule receivables_shift [OF ok assms(2-5)])
  show "\<forall>k. money (g k)" using ok by (simp add: receivables_ok_def)
  show "owed co j t + g j = owed co j s + g j + (if j = k then x else 0)" for j using assms(6) by simp
qed (use assms(7-) in auto)

lemma nextDocumentNumber_frame:
  "nextDocumentNumber ns co ser y s = Inr (n, t) \<Longrightarrow> \<exists>q. t = s\<lparr>db_sequences := q\<rparr>"
  by (auto simp: nextDocumentNumber_def nextDocumentSequence_def take_number_def result_simps Let_def split: option.splits)

lemma enforceCreditLimit_frame:
  "enforceCreditLimit D co k x tt ti ex ov s = Inr (a, t) \<Longrightarrow> \<exists>au. t = s\<lparr>db_audit := au\<rparr>"
  by (cases s) (auto simp: enforceCreditLimit_def record_override_def result_simps Let_def split: option.splits if_splits)

lemma find_invoice_Some:
  "find_invoice co i s = Some v \<Longrightarrow> v \<in> set (db_invoices s) \<and> in_id v = i \<and> in_company v = co"
  by (auto simp: find_invoice_def dest: find_Some_mem)

lemma replaced_rows:
  assumes "v \<in> set vs" and "in_id v' = in_id v" and "distinct (map in_id vs)"
  shows "distinct (map in_id (update_row in_id (in_id v) (\<lambda>_. v') vs))"
    and "set (update_row in_id (in_id v) (\<lambda>_. v') vs) \<subseteq> insert v' (set vs)"
    and "(\<Sum>w\<leftarrow>update_row in_id (in_id v) (\<lambda>_. v') vs. due co j w) = (\<Sum>w\<leftarrow>vs. due co j w) - due co j v + due co j v'"
proof -
  have "map in_id (update_row in_id (in_id v) (\<lambda>_. v') vs) = map in_id vs"
    using assms(2) by (induction vs) (simp_all add: update_row_def)
  then show "distinct (map in_id (update_row in_id (in_id v) (\<lambda>_. v') vs))" using assms(3) by simp
  show "set (update_row in_id (in_id v) (\<lambda>_. v') vs) \<subseteq> insert v' (set vs)" by (auto simp: update_row_def)
  show "(\<Sum>w\<leftarrow>update_row in_id (in_id v) (\<lambda>_. v') vs. due co j w) = (\<Sum>w\<leftarrow>vs. due co j w) - due co j v + due co j v'"
    by (rule sum_update_row [OF assms(3) row_with_distinct [OF assms(3,1)]])
qed

text \<open>A step that replaces one invoice.\<close>

lemma replace_step:
  assumes ok: "receivables_ok g co s" and l: "ledger_ok t"
    and v: "v \<in> set (db_invoices s)" "in_id v' = in_id v" "in_customer v' = in_customer v"
      "in_company v' = co" "in_company v = co"
    and inv: "db_invoices t = update_row in_id (in_id v) (\<lambda>_. v') (db_invoices s)"
    and ar: "\<And>ar. by_number s co ACCT_AR = Some ar \<Longrightarrow> by_number t co ACCT_AR = Some (ar\<lparr>acc_balance := acc_balance ar + x\<rparr>)"
    and cs: "balances_move co (in_customer v) x (db_customers s) (db_customers t)"
    and x: "due co (in_customer v) v' = due co (in_customer v) v + x"
    and fr: "db_fresh s \<le> db_fresh t" "set (db_entries s) \<subseteq> set (db_entries t)"
    and row: "\<And>ar. by_number s co ACCT_AR = Some ar \<Longrightarrow> acc_type ar = Asset \<Longrightarrow>
       find_customer co (in_customer v) t \<noteq> None \<Longrightarrow> invoice_row_ok s ar v \<Longrightarrow> invoice_row_ok t ar v'"
  shows "receivables_ok g co t"
proof -
  have d: "distinct (map in_id (db_invoices s))" and less: "\<forall>w \<in> set (db_invoices s). in_id w < db_fresh s"
    using ok by (simp_all add: receivables_ok_def)
  note r = replaced_rows [OF v(1,2) d]
  have vo: "invoice_row_ok s ar v" if "by_number s co ACCT_AR = Some ar" for ar
    using ok v(1,5) that by (auto simp: receivables_ok_def)
  obtain a where "by_number s co ACCT_AR = Some a" using ok by (auto simp: receivables_ok_def)
  then have c: "find_customer co (in_customer v) s \<noteq> None" using vo v(5) by (auto simp: invoice_row_ok_def)
  show ?thesis
  proof (rule receivables_step [OF ok l ar cs])
    show "x = 0 \<or> find_customer co (in_customer v) s \<noteq> None" using c by simp
    show "owed co j t = owed co j s + (if j = in_customer v then x else 0)" for j
    proof (cases "j = in_customer v")
      case True
      then show ?thesis using r(3) [of co j] x by (simp add: owed_def inv)
    next
      case False
      then have "due co j v = 0" "due co j v' = 0" using v(3) by (simp_all add: due_def)
      then show ?thesis using r(3) [of co j] False by (simp add: owed_def inv)
    qed
    show "distinct (map in_id (db_invoices t))" using r(1) inv by simp
    show "\<forall>w \<in> set (db_invoices t). in_id w < db_fresh t"
    proof
      fix w assume "w \<in> set (db_invoices t)"
      then have "w = v' \<or> w \<in> set (db_invoices s)" using r(2) inv by auto
      then have "in_id w < db_fresh s" using less v(1,2) by auto
      then show "in_id w < db_fresh t" using fr(1) by simp
    qed
    fix ar w assume a: "by_number s co ACCT_AR = Some ar" "acc_type ar = Asset" "w \<in> set (db_invoices t)" "in_company w = co"
    have keys: "map (\<lambda>c. (cu_companyId c, cu_id c)) (db_customers t) = map (\<lambda>c. (cu_companyId c, cu_id c)) (db_customers s)"
      by (rule balances_move_keys [OF cs])
    then have c': "find_customer co (in_customer v) t \<noteq> None" using c by (simp only: find_customer_keys)
    have bal: "invoice_row_ok t (ar\<lparr>acc_balance := y\<rparr>) u" if "invoice_row_ok t ar u" for u y
      using that by (rule invoice_row_keeps) simp_all
    from a(3) consider "w = v'" | "w \<in> set (db_invoices s)" using r(2) inv by auto
    then show "invoice_row_ok t (ar\<lparr>acc_balance := acc_balance ar + x\<rparr>) w"
    proof cases
      case 1
      then show ?thesis using row [OF a(1,2) c' vo [OF a(1)]] by (simp add: bal)
    next
      case 2
      then have "invoice_row_ok s ar w" using ok a(1,4) by (auto simp: receivables_ok_def)
      then show ?thesis using fr(2) keys by (rule invoice_row_keeps)
    qed
  qed
qed

lemma customer_balances_money:
  assumes "receivables_ok g co s"
  shows "\<forall>c \<in> set (db_customers s). cu_companyId c = co \<longrightarrow> money (cu_balance c)"
  using assms owed_money [OF assms] by (auto simp: receivables_ok_def on_grid_add)

lemma sum_dropped:
  assumes "distinct (map in_id vs)" and "v \<in> set vs"
  shows "(\<Sum>w\<leftarrow>filter (\<lambda>w. in_id w \<noteq> in_id v) vs. due co j w) = (\<Sum>w\<leftarrow>vs. due co j w) - due co j v"
  using assms
proof (induction vs)
  case Nil
  then show ?case by simp
next
  case (Cons u vs)
  show ?case
  proof (cases "u = v")
    case True
    then have "filter (\<lambda>w. in_id w \<noteq> in_id v) vs = vs" using Cons.prems(1) by (force simp: filter_id_conv image_iff)
    then show ?thesis using True by simp
  next
    case False
    then have "in_id u \<noteq> in_id v" using Cons.prems by auto
    then show ?thesis using False Cons by auto
  qed
qed

text \<open>The rows of the other invoices carry over a step.\<close>

lemma old_row_keeps:
  assumes ok: "receivables_ok g co s" and a: "by_number s co ACCT_AR = Some ar" and w: "w \<in> set (db_invoices s)" "in_company w = co"
    and es: "set (db_entries s) \<subseteq> set (db_entries t)" and cs: "balances_move co k x (db_customers s) (db_customers t)"
  shows "invoice_row_ok t (ar\<lparr>acc_balance := y\<rparr>) w"
proof -
  have "invoice_row_ok s ar w" using ok a w by (auto simp: receivables_ok_def)
  then show ?thesis using es balances_move_keys [OF cs] by (rule invoice_row_keeps)
qed

text \<open>A step that adds an invoice.\<close>

lemma append_step:
  assumes ok: "receivables_ok g co s" and l: "ledger_ok t"
    and inv: "db_invoices t = db_invoices s @ [w]" and w: "in_id w = db_fresh s" "in_company w = co"
    and ar: "\<And>ar. by_number s co ACCT_AR = Some ar \<Longrightarrow> by_number t co ACCT_AR = Some (ar\<lparr>acc_balance := acc_balance ar + x\<rparr>)"
    and cs: "balances_move co (in_customer w) x (db_customers s) (db_customers t)"
    and x: "due co (in_customer w) w = x" and c: "find_customer co (in_customer w) s \<noteq> None"
    and fr: "db_fresh s < db_fresh t" "set (db_entries s) \<subseteq> set (db_entries t)"
    and row: "\<And>ar. by_number s co ACCT_AR = Some ar \<Longrightarrow> acc_type ar = Asset \<Longrightarrow>
       find_customer co (in_customer w) t \<noteq> None \<Longrightarrow> invoice_row_ok t ar w"
  shows "receivables_ok g co t"
proof -
  have d: "distinct (map in_id (db_invoices s))" and less: "\<forall>w \<in> set (db_invoices s). in_id w < db_fresh s"
    using ok by (simp_all add: receivables_ok_def)
  have c': "find_customer co (in_customer w) t \<noteq> None" using c balances_move_keys [OF cs] by (simp only: find_customer_keys)
  show ?thesis
  proof (rule receivables_step [OF ok l ar cs])
    show "x = 0 \<or> find_customer co (in_customer w) s \<noteq> None" using c by simp
    show "owed co j t = owed co j s + (if j = in_customer w then x else 0)" for j
      using x by (cases "j = in_customer w") (simp_all add: owed_def inv, simp add: due_def)
    show "distinct (map in_id (db_invoices t))" using d less w(1) by (auto simp: inv)
    show "\<forall>u \<in> set (db_invoices t). in_id u < db_fresh t" using less w(1) fr(1) by (auto simp: inv)
    show "invoice_row_ok t (a\<lparr>acc_balance := acc_balance a + x\<rparr>) u"
      if a: "by_number s co ACCT_AR = Some a" "acc_type a = Asset" and u: "u \<in> set (db_invoices t)" "in_company u = co" for a u
    proof (cases "u = w")
      case True
      then show ?thesis using row [OF a c'] by (metis invoice_row_keeps order_refl)
    next
      case False
      then show ?thesis using a u by (intro old_row_keeps [OF ok _ _ _ fr(2) cs]) (auto simp: inv)
    qed
  qed
qed

lemma moves_receivableD:
  assumes "moves_receivable co x s t"
  shows "ledger_ok t" "by_number s co ACCT_AR = Some ar \<Longrightarrow> by_number t co ACCT_AR = Some (ar\<lparr>acc_balance := acc_balance ar + x\<rparr>)"
    "db_customers t = db_customers s" "db_invoices t = db_invoices s" "db_fresh s \<le> db_fresh t"
    "set (db_entries s) \<subseteq> set (db_entries t)" "db_payments t = db_payments s" "db_applications t = db_applications s"
    "db_memos t = db_memos s"
  using assms by (auto simp: moves_receivable_def)

lemma receivable_account:
  assumes "receivables_ok g co s"
  obtains ar where "by_number s co ACCT_AR = Some ar" and "acc_type ar = Asset" and "acc_balance ar = customers_total co s"
    and "\<And>v. v \<in> set (db_invoices s) \<Longrightarrow> in_company v = co \<Longrightarrow> invoice_row_ok s ar v" and "ledger_ok s"
  using assms unfolding receivables_ok_def by blast

lemma save_same:
  assumes "v \<in> set (db_invoices s)" and "distinct (map in_id (db_invoices s))"
  shows "save_invoice v s = s"
proof -
  have "w = v" if "w \<in> set (db_invoices s)" "in_id w = in_id v" for w
    using assms that by (metis row_with_distinct option.inject)
  then have "update_row in_id (in_id v) (\<lambda>_. v) (db_invoices s) = db_invoices s"
    unfolding update_row_def by (intro map_idI) auto
  then show ?thesis by (simp add: save_invoice_def)
qed

lemma entry_effect_balance [simp]: "entry_effect e (ar\<lparr>acc_balance := x\<rparr>) = entry_effect e ar"
  by (simp add: entry_effect_def cong: if_cong)

context posting_env
begin

lemma update_keeps:
  assumes run: "inv_update E off co i u s = Inr (v', t)" and ok: "receivables_ok g co s"
  shows "receivables_ok g co t"
proof -
  from run obtain v where f: "find_invoice co i s = Some v" and st: "in_status v = IN_draft"
    and v': "v' = edited_invoice E u v" and bal: "in_total v' - in_amountPaid v' = in_balance v'" and t: "t = save_invoice v' s"
    by (auto simp: inv_update_def result_simps Let_def)
  note v = find_invoice_Some [OF f]
  have same: "in_id v' = in_id v" "in_customer v' = in_customer v" "in_company v' = in_company v" "in_status v' = in_status v"
    "in_entry v' = in_entry v" "in_amountPaid v' = in_amountPaid v"
    by (simp_all add: v' edited_invoice_def Let_def)
  have tot: "in_total v' = in_total v \<or> money (in_total v')"
    by (auto simp: v' edited_invoice_def computeTotals_def Let_def case_prod_unfold fixed_grid)
  obtain ar where ar: "by_number s co ACCT_AR = Some ar" and rows: "invoice_row_ok s ar v" and l: "ledger_ok s"
    using v by (metis receivable_account [OF ok])
  have e: "in_entry v = None" using rows st by (simp add: invoice_row_ok_def)
  show ?thesis
  proof (rule replace_step [OF ok])
    show "ledger_ok t" using l by (rule ledger_ok_same [rotated -1]) (simp_all add: t save_invoice_def)
    show "v \<in> set (db_invoices s)" "in_id v' = in_id v" "in_customer v' = in_customer v" "in_company v' = co" "in_company v = co"
      using v same by simp_all
    show "db_invoices t = update_row in_id (in_id v) (\<lambda>_. v') (db_invoices s)" by (simp add: t save_invoice_def same)
    show "by_number t co ACCT_AR = Some (a\<lparr>acc_balance := acc_balance a + 0\<rparr>)" if "by_number s co ACCT_AR = Some a" for a
      using that by (simp add: t save_invoice_def by_number_def)
    show "balances_move co (in_customer v) 0 (db_customers s) (db_customers t)" by (simp add: t save_invoice_def balances_stay)
    show "due co (in_customer v) v' = due co (in_customer v) v + 0" by (simp add: due_def posted_open_def same e)
    show "db_fresh s \<le> db_fresh t" "set (db_entries s) \<subseteq> set (db_entries t)" by (simp_all add: t save_invoice_def)
    show "invoice_row_ok t a v'" if "invoice_row_ok s a v" "find_customer co (in_customer v) t \<noteq> None" for a
      using that v tot bal by (auto simp: invoice_row_ok_def same e)
  qed
qed

lemma posted_row_ok:
  assumes "invoice_row_ok s ar v" and "in_entry v = None" and "0 < in_total v" and "find_customer co (in_customer v) t \<noteq> None"
    and "\<exists>e \<in> set (db_entries t). je_id e = n \<and> je_company e = co \<and> entry_effect e ar = in_total v"
    and "in_company v = co" and "st \<notin> {IN_draft}"
  shows "invoice_row_ok t ar (v\<lparr>in_lines := ls, in_entry := Some n, in_status := st\<rparr>)"
  using assms by (auto simp: invoice_row_ok_def)

lemma send_keeps:
  assumes run: "inv_send E co i user ov s = Inr (v2, t)" and ok: "receivables_ok g co s"
  shows "receivables_ok g co t"
proof -
  from run obtain v v1 s3 where f: "find_invoice co i s = Some v" and st: "in_status v \<noteq> IN_void"
    and post: "(if in_entry v = None
              then bindE (enforceCreditLimit (dec E) co (in_customer v) (in_total v) ''invoice'' (Some (in_id v)) None ov s) (\<lambda>(_, s1).
                   bindE (createJournalEntryForInvoice E v user s1) (\<lambda>(v1, s2).
                   Inr (v1, add_customer_balance (dec E) co (in_customer v) (in_total v) s2)))
              else Inr (v, s)) = Inr (v1, s3)"
    and v2: "v2 = (if in_status v1 = IN_draft then v1\<lparr>in_status := IN_sent\<rparr> else v1)" and t: "t = save_invoice v2 s3"
    by (auto simp: inv_send_def result_simps Let_def)
  note v = find_invoice_Some [OF f]
  obtain ar where ar: "by_number s co ACCT_AR = Some ar" "acc_type ar = Asset" and rows: "invoice_row_ok s ar v" and l: "ledger_ok s"
    using v by (metis receivable_account [OF ok])
  show ?thesis
  proof (cases "in_entry v")
    case (Some n)
    then have d: "v2 = v" using post v2 rows by (auto simp: invoice_row_ok_def)
    moreover have "save_invoice v s = s" using v ok by (intro save_same) (simp_all add: receivables_ok_def)
    ultimately have "t = s" using post t Some by simp
    then show ?thesis using ok by simp
  next
    case None
    then have dr: "in_status v = IN_draft" using rows st by (auto simp: invoice_row_ok_def)
    from post None obtain a s1 s2 where c: "enforceCreditLimit (dec E) co (in_customer v) (in_total v) ''invoice'' (Some (in_id v)) None ov s = Inr (a, s1)"
      and j: "createJournalEntryForInvoice E v user s1 = Inr (v1, s2)"
      and s3: "s3 = add_customer_balance (dec E) co (in_customer v) (in_total v) s2"
      by (auto simp: result_simps)
    obtain au where s1: "s1 = s\<lparr>db_audit := au\<rparr>" using enforceCreditLimit_frame [OF c] by blast
    have l1: "ledger_ok s1" using l by (rule ledger_ok_same [rotated -1]) (simp_all add: s1)
    have ar1: "by_number s1 (in_company v) ACCT_AR = Some ar" using ar(1) v by (simp add: s1 by_number_def)
    have m: "money (in_total v)" using row_money [OF rows] by simp
    obtain t1 ls n where mv: "moves_receivable (in_company v) (in_total v) s1 t1" and s2: "s2 = save_invoice v1 t1"
      and v1: "v1 = v\<lparr>in_lines := ls, in_entry := Some n\<rparr>" and pos: "0 < in_total v"
      and en: "\<exists>e \<in> set (db_entries t1). je_id e = n \<and> je_company e = in_company v \<and> entry_effect e ar = in_total v"
      by (rule invoice_posting [OF j l1 ar1 ar(2) m])
    note mv = moves_receivableD [OF mv]
    have v2': "v2 = v\<lparr>in_lines := ls, in_entry := Some n, in_status := IN_sent\<rparr>" using v2 dr by (simp add: v1)
    have upd: "update_row in_id (in_id v) (\<lambda>_. v2) (update_row in_id (in_id v) (\<lambda>_. v1) vs) = update_row in_id (in_id v) (\<lambda>_. v2) vs" for vs
      by (auto simp: update_row_def v1)
    show ?thesis
    proof (rule replace_step [OF ok])
      show "ledger_ok t" using mv(1) by (rule ledger_ok_same [rotated -1]) (simp_all add: t s3 s2 save_invoice_def add_customer_balance_def)
      show "v \<in> set (db_invoices s)" "in_id v2 = in_id v" "in_customer v2 = in_customer v" "in_company v2 = co" "in_company v = co"
        using v by (simp_all add: v2')
      show "db_invoices t = update_row in_id (in_id v) (\<lambda>_. v2) (db_invoices s)"
        using upd by (simp add: t s3 s2 save_invoice_def add_customer_balance_def mv(4) s1) (simp add: v1 v2')
      show "by_number t co ACCT_AR = Some (a\<lparr>acc_balance := acc_balance a + in_total v\<rparr>)" if "by_number s co ACCT_AR = Some a" for a
        using mv(2) [of a] that v by (simp add: t s3 s2 save_invoice_def add_customer_balance_def by_number_def s1)
      show "balances_move co (in_customer v) (in_total v) (db_customers s) (db_customers t)"
        using balances_moveI [OF decimal_lib_axioms m customer_balances_money [OF ok]]
        by (simp add: t s3 s2 save_invoice_def add_customer_balance_def mv(3) s1)
      show "due co (in_customer v) v2 = due co (in_customer v) v + in_total v"
        using rows v None by (simp add: v2' due_def posted_open_def invoice_row_ok_def)
      show "db_fresh s \<le> db_fresh t" "set (db_entries s) \<subseteq> set (db_entries t)"
        using mv(5,6) by (simp_all add: t s3 s2 save_invoice_def add_customer_balance_def s1)
      show "invoice_row_ok t a v2" if "by_number s co ACCT_AR = Some a" "find_customer co (in_customer v) t \<noteq> None" "invoice_row_ok s a v" for a
        unfolding v2' using that ar en v
        by (intro posted_row_ok [OF that(3) None pos that(2)]) (simp_all add: t s3 s2 save_invoice_def add_customer_balance_def)
    qed
  qed
qed


lemma void_keeps:
  assumes run: "inv_void E co i user reason s = Inr (v', t)" and ok: "receivables_ok g co s"
    and live: "\<forall>v. find_invoice co i s = Some v \<longrightarrow> in_status v \<noteq> IN_void"
  shows "receivables_ok g co t"
proof -
  from run obtain v s1 where f: "find_invoice co i s = Some v" and paid: "in_amountPaid v \<le> 0"
    and rev: "(case in_entry v of None \<Rightarrow> Inr s | Some e \<Rightarrow> reverse_invoice E co user reason v e s) = Inr s1"
    and v': "v' = v\<lparr>in_status := IN_void, in_notes := Some (void_notes (in_notes v) reason)\<rparr>" and t: "t = save_invoice v' s1"
    by (auto simp: inv_void_def result_simps Let_def not_less)
  note v = find_invoice_Some [OF f]
  have st: "in_status v \<noteq> IN_void" using live f by blast
  obtain ar where ar: "by_number s co ACCT_AR = Some ar" "acc_type ar = Asset" and rows: "invoice_row_ok s ar v" and l: "ledger_ok s"
    using v by (metis receivable_account [OF ok])
  have zero: "in_amountPaid v = 0" using paid rows by (simp add: invoice_row_ok_def)
  have m: "money (in_total v)" using row_money [OF rows] by simp
  define x where "x = (if in_entry v = None then 0 else - in_total v)"
  have mx: "money x" using m by (simp add: x_def on_grid_minus)
  obtain t1 where mv: "moves_receivable co x s t1"
    and cs: "balances_move co (in_customer v) x (db_customers s) (db_customers s1)"
    and s1: "db_invoices s1 = db_invoices t1" "db_accounts s1 = db_accounts t1" "db_gl s1 = db_gl t1" "db_entries s1 = db_entries t1"
      "db_fresh s1 = db_fresh t1"
  proof (cases "in_entry v")
    case None
    then show ?thesis using rev l ar by (intro that [of s]) (auto simp: moves_receivable_def x_def balances_stay)
  next
    case (Some n)
    then have x: "- in_total v = x" by (simp add: x_def)
    obtain t1 where t1: "moves_receivable co x s t1" "s1 = add_customer_balance (dec E) co (in_customer v) x t1"
      unfolding x [symmetric] by (rule reversing_posting [OF _ l ar m]) (use rev Some in auto)
    then show ?thesis
      using balances_moveI [OF decimal_lib_axioms mx customer_balances_money [OF ok]]
      by (intro that [OF t1(1)]) (simp_all add: add_customer_balance_def moves_receivableD(3) [OF t1(1)])
  qed
  note mv = moves_receivableD [OF mv]
  show ?thesis
  proof (rule replace_step [OF ok])
    show "ledger_ok t" using mv(1) by (rule ledger_ok_same [rotated -1]) (simp_all add: t save_invoice_def s1)
    show "v \<in> set (db_invoices s)" "in_id v' = in_id v" "in_customer v' = in_customer v" "in_company v' = co" "in_company v = co"
      using v by (simp_all add: v')
    show "db_invoices t = update_row in_id (in_id v) (\<lambda>_. v') (db_invoices s)" by (simp add: t save_invoice_def s1 mv(4)) (simp add: v')
    show "by_number t co ACCT_AR = Some (a\<lparr>acc_balance := acc_balance a + x\<rparr>)" if "by_number s co ACCT_AR = Some a" for a
      using mv(2) [OF that] by (simp add: t save_invoice_def by_number_def s1)
    show "balances_move co (in_customer v) x (db_customers s) (db_customers t)" using cs by (simp add: t save_invoice_def)
    show "due co (in_customer v) v' = due co (in_customer v) v + x"
      using rows st v by (auto simp: v' due_def posted_open_def x_def invoice_row_ok_def zero)
    show "db_fresh s \<le> db_fresh t" "set (db_entries s) \<subseteq> set (db_entries t)"
      using mv(5,6) by (simp_all add: t save_invoice_def s1)
    show "invoice_row_ok t a v'" if "invoice_row_ok s a v" "find_customer co (in_customer v) t \<noteq> None" for a
    proof -
      have es: "e \<in> set (db_entries s) \<Longrightarrow> e \<in> set (db_entries t)" for e using mv(6) by (auto simp: t save_invoice_def s1)
      show ?thesis using that v es unfolding v' invoice_row_ok_def by (simp (no_asm_simp)) blast
    qed
  qed
qed


lemma delete_keeps:
  assumes run: "inv_delete E co i user s = Inr (u, t)" and ok: "receivables_ok g co s"
  shows "receivables_ok g co t"
proof -
  from run obtain v s3 where f: "find_invoice co i s = Some v" and paid: "in_amountPaid v \<le> 0"
    and rev: "(case (if in_status v \<noteq> IN_void then in_entry v else None) of
                None \<Rightarrow> Inr s
              | Some e \<Rightarrow>
                  bindE (mirror_entry E co user (''Delete invoice '' @ in_number v) ''invoice_void'' (in_id v) e (today E) s) (\<lambda>s1.
                  bindE (postInvoiceCogs (dec E) v user True s1) (\<lambda>(_, _, s2).
                  Inr (add_customer_balance (dec E) co (in_customer v) (- in_total v) s2)))) = Inr s3"
    and t: "t = s3\<lparr>db_invoices := filter (\<lambda>w. in_id w \<noteq> i) (db_invoices s3)\<rparr>"
    by (auto simp: inv_delete_def result_simps Let_def not_less)
  note v = find_invoice_Some [OF f]
  obtain ar where ar: "by_number s co ACCT_AR = Some ar" "acc_type ar = Asset" and rows: "invoice_row_ok s ar v" and l: "ledger_ok s"
    using v by (metis receivable_account [OF ok])
  have zero: "in_amountPaid v = 0" using paid rows by (simp add: invoice_row_ok_def)
  have m: "money (in_total v)" using row_money [OF rows] by simp
  define x where "x = (if posted_open v then - in_total v else 0)"
  have mx: "money x" using m by (simp add: x_def on_grid_minus)
  obtain t1 where mv: "moves_receivable co x s t1"
    and cs: "balances_move co (in_customer v) x (db_customers s) (db_customers s3)"
    and s3: "db_invoices s3 = db_invoices t1" "db_accounts s3 = db_accounts t1" "db_gl s3 = db_gl t1" "db_entries s3 = db_entries t1"
      "db_fresh s3 = db_fresh t1"
  proof (cases "posted_open v")
    case False
    then have "s3 = s" using rev by (auto simp: posted_open_def split: if_splits)
    then show ?thesis using False l ar by (intro that [of s]) (auto simp: moves_receivable_def x_def balances_stay)
  next
    case True
    then obtain n where n: "in_entry v = Some n" "in_status v \<noteq> IN_void" by (auto simp: posted_open_def)
    obtain e where e: "e \<in> set (db_entries s)" "je_id e = n" "entry_effect e ar = in_total v"
      using rows n by (auto simp: invoice_row_ok_def)
    from rev n obtain s1 cogs ls s2 where mi: "mirror_entry E co user (''Delete invoice '' @ in_number v) ''invoice_void'' (in_id v) n (today E) s = Inr s1"
      and cg: "postInvoiceCogs (dec E) v user True s1 = Inr (cogs, ls, s2)"
      and s3: "s3 = add_customer_balance (dec E) co (in_customer v) (- in_total v) s2"
      by (auto simp: result_simps)
    obtain its mvs where s2: "s2 = s1\<lparr>db_items := its, db_movements := mvs\<rparr>" using cg by (rule postInvoiceCogs_frame)
    have x: "- in_total v = x" using True by (simp add: x_def)
    have mv: "moves_receivable co x s s1" using mirror_moves [OF mi l e(1,2) ar(1)] e(3) x by simp
    show ?thesis
      using balances_moveI [OF decimal_lib_axioms mx customer_balances_money [OF ok]]
      by (intro that [OF mv]) (simp_all add: s3 s2 add_customer_balance_def moves_receivableD(3) [OF mv] x)
  qed
  note mv = moves_receivableD [OF mv]
  have d: "distinct (map in_id (db_invoices s))" and less: "\<forall>w \<in> set (db_invoices s). in_id w < db_fresh s"
    using ok by (simp_all add: receivables_ok_def)
  have vs: "db_invoices t = filter (\<lambda>w. in_id w \<noteq> in_id v) (db_invoices s)" using v by (simp add: t s3 mv(4))
  have cs': "balances_move co (in_customer v) x (db_customers s) (db_customers t)" using cs by (simp add: t)
  have es: "set (db_entries s) \<subseteq> set (db_entries t)" using mv(6) by (simp add: t s3)
  show ?thesis
  proof (rule receivables_step [OF ok])
    show "ledger_ok t" using mv(1) by (rule ledger_ok_same [rotated -1]) (simp_all add: t s3)
    show "by_number t co ACCT_AR = Some (a\<lparr>acc_balance := acc_balance a + x\<rparr>)" if "by_number s co ACCT_AR = Some a" for a
      using mv(2) [OF that] by (simp add: t by_number_def s3)
    show "balances_move co (in_customer v) x (db_customers s) (db_customers t)" by (rule cs')
    show "x = 0 \<or> find_customer co (in_customer v) s \<noteq> None" using rows v by (auto simp: invoice_row_ok_def)
    have dv: "due co j v = (if j = in_customer v then - x else 0)" for j
      using rows v zero by (auto simp: due_def x_def invoice_row_ok_def)
    have "owed co j t = owed co j s - due co j v" for j
      unfolding owed_def vs using d v by (intro sum_dropped) simp_all
    then show "owed co j t = owed co j s + (if j = in_customer v then x else 0)" for j by (simp add: dv)
    show "distinct (map in_id (db_invoices t))" using d by (simp add: vs distinct_map_filter)
    show "\<forall>w \<in> set (db_invoices t). in_id w < db_fresh t" unfolding vs using less mv(5) by (auto simp: t s3)
    show "invoice_row_ok t (a\<lparr>acc_balance := acc_balance a + x\<rparr>) w"
      if "by_number s co ACCT_AR = Some a" "w \<in> set (db_invoices t)" "in_company w = co" for a w
      using that by (intro old_row_keeps [OF ok _ _ _ es cs']) (simp_all add: vs)
  qed
qed

lemma create_keeps:
  assumes run: "inv_createInTransaction E off co user d opts s = Inr (v', t)" and ok: "receivables_ok g co s"
  shows "receivables_ok g co t"
proof -
  define tot where "tot = computeTotals (dec E) (ii_lines d) (case ii_discountType d of None \<Rightarrow> D_none | Some t \<Rightarrow> t) (ii_discountValue d)"
  from run [unfolded inv_createInTransaction_def Let_def, folded tot_def] obtain c year number s1 s2 s3 where c: "find_customer co (ii_customer d) s = Some c"
    and n: "nextDocumentNumber (invoice_numbers co s) co INV year s = Inr (number, s1)"
    and cr: "(if ii_sent d = Some True \<and> \<not> op_skipCredit opts
               then map_sum id snd (enforceCreditLimit (dec E) co (ii_customer d) (tt_total tot) ''customer''
                      (Some (ii_customer d)) (op_exceptOrder opts) (op_override opts) s1)
               else Inr s1) = Inr s2"
    and s3: "insert_invoice (new_invoice E co user d c number tot s2) s2 = Inr s3"
    and post: "(if ii_sent d = Some True
           then bindE (createJournalEntryForInvoice E (new_invoice E co user d c number tot s2) user s3) (\<lambda>(v', s4).
                Inr (v', add_customer_balance (dec E) co (ii_customer d) (in_total (new_invoice E co user d c number tot s2)) s4))
           else Inr (new_invoice E co user d c number tot s2, s3)) = Inr (v', t)"
    by (clarsimp simp: result_simps split del: if_split)
  define v where "v = new_invoice E co user d c number tot s2"
  obtain q where s1: "s1 = s\<lparr>db_sequences := q\<rparr>" using nextDocumentNumber_frame [OF n] by blast
  obtain au where s2: "s2 = s1\<lparr>db_audit := au\<rparr>"
  proof (cases "s2 = s1")
    case True
    then show ?thesis by (intro that [of "db_audit s1"]) simp
  next
    case False
    then obtain a where "enforceCreditLimit (dec E) co (ii_customer d) (tt_total tot) ''customer''
                      (Some (ii_customer d)) (op_exceptOrder opts) (op_override opts) s1 = Inr (a, s2)"
      using cr by (cases "enforceCreditLimit (dec E) co (ii_customer d) (tt_total tot) ''customer''
                      (Some (ii_customer d)) (op_exceptOrder opts) (op_override opts) s1") (auto split: if_splits)
    then show ?thesis using enforceCreditLimit_frame that by blast
  qed
  have s3': "s3 = s2\<lparr>db_invoices := db_invoices s2 @ [v], db_fresh := db_fresh s2 + 1\<rparr>"
    using s3 by (auto simp: insert_invoice_def throw_if_Inr v_def)
  have v: "in_id v = db_fresh s" "in_company v = co" "in_customer v = ii_customer d" "in_total v = tt_total tot" "in_entry v = None"
    "in_amountPaid v = 0" "in_balance v = tt_total tot" "in_status v = (if ii_sent d = Some True then IN_sent else IN_draft)"
    by (simp_all add: v_def new_invoice_def s2 s1)
  have m: "money (in_total v)" by (simp add: v tot_def computeTotals_def Let_def case_prod_unfold fixed_grid)
  obtain ar where ar: "by_number s co ACCT_AR = Some ar" "acc_type ar = Asset" and l: "ledger_ok s"
    by (metis receivable_account [OF ok])
  have d: "distinct (map in_id (db_invoices s))" and less: "\<forall>w \<in> set (db_invoices s). in_id w < db_fresh s"
    using ok by (simp_all add: receivables_ok_def)
  have l3: "ledger_ok s3" using l by (rule ledger_ok_same [rotated -1]) (simp_all add: s3' s2 s1)
  have ar3: "by_number s3 (in_company v) ACCT_AR = Some ar" using ar(1) v by (simp add: s3' s2 s1 by_number_def)
  define x where "x = (if ii_sent d = Some True then in_total v else 0)"
  have mx: "money x" using m by (simp add: x_def)
  obtain t1 w where mv: "moves_receivable co x s3 t1"
    and cs: "balances_move co (ii_customer d) x (db_customers s) (db_customers t)"
    and t: "db_accounts t = db_accounts t1" "db_gl t = db_gl t1" "db_entries t = db_entries t1" "db_fresh t = db_fresh t1"
      "db_invoices t = db_invoices s @ [w]"
    and w: "in_id w = in_id v" "in_company w = co" "in_customer w = ii_customer d" "due co (ii_customer d) w = x"
    and row: "find_customer co (ii_customer d) t \<noteq> None \<Longrightarrow> invoice_row_ok t ar w"
  proof (cases "ii_sent d = Some True")
    case False
    then have p: "t = s3" using post by simp
    show ?thesis
    proof (rule that [of s3 v])
      show "invoice_row_ok t ar v" if "find_customer co (ii_customer d) t \<noteq> None"
        using m False that by (simp add: invoice_row_ok_def v)
    qed (use False p v l3 ar3 in \<open>auto simp: moves_receivable_def x_def balances_stay s3' s2 s1 due_def posted_open_def\<close>)
  next
    case True
    from post True obtain s4 where j: "createJournalEntryForInvoice E v user s3 = Inr (v', s4)"
      and t: "t = add_customer_balance (dec E) co (ii_customer d) (in_total v) s4"
      by (auto simp: result_simps v_def)
    obtain t1 ls n where mv: "moves_receivable (in_company v) (in_total v) s3 t1" and s4: "s4 = save_invoice v' t1"
      and v': "v' = v\<lparr>in_lines := ls, in_entry := Some n\<rparr>" and pos: "0 < in_total v"
      and en: "\<exists>e \<in> set (db_entries t1). je_id e = n \<and> je_company e = in_company v \<and> entry_effect e ar = in_total v"
      by (rule invoice_posting [OF j l3 ar3 ar(2) m])
    note mv' = moves_receivableD [OF mv]
    have xt: "in_total v = x" using True by (simp add: x_def)
    have upd: "update_row in_id (in_id v') (\<lambda>_. v') (db_invoices s @ [v]) = db_invoices s @ [v']"
      using less v(1) by (auto simp: update_row_def v' intro!: map_idI)
    show ?thesis
    proof (rule that [of t1 v'])
      show "moves_receivable co x s3 t1" using mv True v by (simp add: x_def)
      show "db_invoices t = db_invoices s @ [v']" using upd by (simp add: t s4 save_invoice_def add_customer_balance_def mv'(4) s3' s2 s1)
      show "invoice_row_ok t ar v'" if "find_customer co (ii_customer d) t \<noteq> None"
        using m True that pos en v by (simp add: invoice_row_ok_def v' t s4 save_invoice_def add_customer_balance_def)
      show "balances_move co (ii_customer d) x (db_customers s) (db_customers t)"
        using balances_moveI [OF decimal_lib_axioms mx customer_balances_money [OF ok]] xt
        by (simp add: t s4 save_invoice_def add_customer_balance_def mv'(3) s3' s2 s1)
    qed (use True v in \<open>simp_all add: x_def t s4 save_invoice_def add_customer_balance_def v' due_def posted_open_def\<close>)
  qed
  note mv = moves_receivableD [OF mv]
  show ?thesis
  proof (rule append_step [OF ok, where w = w and x = x])
    show "ledger_ok t" using mv(1) by (rule ledger_ok_same [rotated -1]) (simp_all add: t)
    show "by_number t co ACCT_AR = Some (a\<lparr>acc_balance := acc_balance a + x\<rparr>)" if "by_number s co ACCT_AR = Some a" for a
      using mv(2) [of a] that by (simp add: by_number_def t s3' s2 s1)
    show "db_fresh s < db_fresh t" "set (db_entries s) \<subseteq> set (db_entries t)" using mv(5,6) by (simp_all add: t s3' s2 s1)
    show "invoice_row_ok t a w" if "by_number s co ACCT_AR = Some a" "find_customer co (in_customer w) t \<noteq> None" for a
      using that row w(3) ar(1) by simp
  qed (use t w v(1) cs c in simp_all)
qed

end

end
