(* ===== verification/Payments.thy ===== *)
theory Payments
  imports Receivables
begin

text \<open>
  Receipts: \<^verbatim>\<open>src/modules/payments/payments.service.ts\<close>. Receiving money from a customer, holding what no invoice
  takes as an advance, applying it later, and deleting a receipt. Messages and row locks are not modelled.
  Settling from several credits at once (\<open>settle\<close>) needs the credit memos and is not modelled.
\<close>

section \<open>Inputs\<close>

type_synonym application_input = "nat \<times> rat"   \<comment> \<open>the invoice and the amount\<close>

record receive_input =
  rp_customer :: nat
  rp_date :: date
  rp_method :: string
  rp_amount :: rat
  rp_bankAccount :: "nat option"
  rp_reference :: "string option"
  rp_memo :: "string option"
  rp_applications :: "application_input list option"
  rp_holdAsAdvance :: bool

section \<open>Deliveries that a receipt belongs to\<close>

text \<open>What an invoice says of its sale.\<close>

definition invoicePaidStatus :: "invoice \<Rightarrow> string" where
  "invoicePaidStatus v =
     (if \<not> MONEY_TOLERANCE < in_balance v then ''paid''
      else if MONEY_TOLERANCE < in_amountPaid v then ''partial'' else ''unpaid'')"

definition refreshDeliveryPaidStatus :: "nat \<Rightarrow> invoice \<Rightarrow> 'a trade_db_scheme \<Rightarrow> 'a trade_db_scheme" where
  "refreshDeliveryPaidStatus co v s =
     (case find (\<lambda>d. dl_invoice d = Some (in_id v) \<and> dl_company d = co) (db_deliveries s) of
        None \<Rightarrow> s
      | Some d \<Rightarrow>
          if dl_ledgerStatus d \<noteq> ''committed'' then s
          else let nxt = invoicePaidStatus v
               in if dl_paidStatus d = Some nxt then s
                  else s\<lparr>db_deliveries := update_row dl_id (dl_id d) (\<lambda>d. d\<lparr>dl_paidStatus := Some nxt\<rparr>) (db_deliveries s)\<rparr>)"

text \<open>\<open>OPEN_DELIVERY_ADVANCE_SQL\<close>: a delivery still on its way that owns the receipt.\<close>

definition holds_advance :: "nat \<Rightarrow> delivery \<Rightarrow> bool" where
  "holds_advance paymentId d \<longleftrightarrow>
     dl_advancePayment d = Some paymentId \<and> dl_ledgerStatus d \<in> {''none'', ''in_transit''}
     \<and> dl_status d \<notin> {''cancelled'', ''failed'', ''returned''}"

definition openDeliveryHoldingAdvance :: "nat \<Rightarrow> 'a trade_db_scheme \<Rightarrow> nat option" where
  "openDeliveryHoldingAdvance paymentId s = map_option dl_id (find (holds_advance paymentId) (db_deliveries s))"

section \<open>What is free to apply\<close>

record customer_advance =
  ca_payment :: nat
  ca_number :: "string option"
  ca_date :: date
  ca_amount :: rat
  ca_unapplied :: rat
  ca_posted :: bool

text \<open>\<open>UNAPPLIED_RECEIPTS_SQL\<close>, oldest first.\<close>

definition unapplied_receipts :: "nat \<Rightarrow> nat \<Rightarrow> 'a trade_db_scheme \<Rightarrow> payment list" where
  "unapplied_receipts co cust s =
     sort_key pm_date (filter (\<lambda>p. pm_company p = co \<and> pm_customer p = cust
       \<and> \<not> list_ex (holds_advance (pm_id p)) (db_deliveries s)
       \<and> MONEY_TOLERANCE < pm_amount p - applied_of s (pm_id p)) (db_payments s))"

definition availableAdvances :: "decimal_js \<Rightarrow> nat \<Rightarrow> nat \<Rightarrow> 'a trade_db_scheme \<Rightarrow> rat \<times> customer_advance list" where
  "availableAdvances D co cust s =
     (let advances = map (\<lambda>p. \<lparr>ca_payment = pm_id p, ca_number = pm_number p, ca_date = pm_date p,
            ca_amount = d_fixed D 4 (pm_amount p), ca_unapplied = d_fixed D 4 (pm_amount p - applied_of s (pm_id p)),
            ca_posted = pm_advancePosted p\<rparr>) (unapplied_receipts co cust s)
      in (d_fixed D 4 (foldl (\<lambda>sum a. sum + ca_unapplied a) 0 advances), advances))"

section \<open>Oldest first\<close>

text \<open>The sweep of \<open>autoApply\<close>: the money left and the invoices still to look at.\<close>

fun sweep :: "decimal_js \<Rightarrow> rat \<Rightarrow> invoice list \<Rightarrow> application_input list" where
  "sweep D remaining [] = []"
| "sweep D remaining (v # vs) =
     (if \<not> isPositive remaining then []
      else let bal = in_balance v;
               apply = (if remaining < bal then remaining else bal)
           in (in_id v, d_fixed D 4 apply) # sweep D (remaining - apply) vs)"

definition autoApply :: "decimal_js \<Rightarrow> nat \<Rightarrow> nat \<Rightarrow> rat \<Rightarrow> 'a trade_db_scheme \<Rightarrow> application_input list" where
  "autoApply D co cust amount s = sweep D amount (outstandingForCustomer co cust s)"

section \<open>Applying to invoices\<close>

definition assertInvoiceBelongsToCustomer :: "nat \<Rightarrow> nat \<Rightarrow> nat \<Rightarrow> 'a trade_db_scheme \<Rightarrow> unit result" where
  "assertInvoiceBelongsToCustomer co i cust s =
     some_or (find_invoice co i s) (NotFound ''INVOICE_NOT_FOUND'') (\<lambda>v.
     throw_if (in_customer v \<noteq> cust) (BadRequest ''INVOICE_CUSTOMER_MISMATCH'') (Inr ()))"

text \<open>One application: its row, and the number of its invoice for the texts.\<close>

definition apply_one :: "env \<Rightarrow> nat \<Rightarrow> nat \<Rightarrow> nat \<Rightarrow> date option \<Rightarrow>
    application list \<times> string list \<times> 'a trade_db_scheme \<Rightarrow> application_input \<Rightarrow>
    (application list \<times> string list \<times> 'a trade_db_scheme) result" where
  "apply_one E co cust paymentId appliedOn = (\<lambda>(rows, numbers, s) (i, amount).
     bindE (assertInvoiceBelongsToCustomer co i cust s) (\<lambda>_.
     bindE (applyPayment E co i amount s) (\<lambda>(v, s1).
     Inr (rows @ [\<lparr>ap_payment = paymentId, ap_invoice = i, ap_amount = d_fixed (dec E) 4 amount,
                   ap_appliedOn = appliedOn, ap_entry = None\<rparr>],
          numbers @ [in_number v], refreshDeliveryPaidStatus co v s1))))"

definition payment_numbers :: "nat \<Rightarrow> 'a trade_db_scheme \<Rightarrow> string list" where
  "payment_numbers co s = List.map_filter (\<lambda>p. if pm_company p = co then pm_number p else None) (db_payments s)"

definition insert_payment :: "payment \<Rightarrow> 'a trade_db_scheme \<Rightarrow> 'a trade_db_scheme result" where
  "insert_payment p s =
     throw_if (case pm_number p of None \<Rightarrow> False | Some n \<Rightarrow> n \<in> set (payment_numbers (pm_company p) s)) (DbError ''unique_violation'')
       (Inr (s\<lparr>db_payments := db_payments s @ [p], db_fresh := db_fresh s + 1\<rparr>))"

definition save_payment :: "payment \<Rightarrow> 'a trade_db_scheme \<Rightarrow> 'a trade_db_scheme" where
  "save_payment p s = s\<lparr>db_payments := update_row pm_id (pm_id p) (\<lambda>_. p) (db_payments s)\<rparr>"

section \<open>Receiving\<close>

text \<open>Which invoices the money goes to: as asked, none, or the oldest first.\<close>

definition chosen_applications :: "decimal_js \<Rightarrow> nat \<Rightarrow> receive_input \<Rightarrow> 'a trade_db_scheme \<Rightarrow> application_input list result" where
  "chosen_applications D co d s =
     (case rp_applications d of
        Some (a # as) \<Rightarrow>
          throw_if (list_ex (\<lambda>(_, x). \<not> isPositive x) (a # as)) (BadRequest ''VALIDATION_FAILED'')
         (throw_if (rp_amount d + MONEY_TOLERANCE < foldl (\<lambda>acc (_, x). acc + x) 0 (a # as)) (BadRequest ''INVALID_PAYMENT_APPLICATION'')
         (Inr (a # as)))
      | _ \<Rightarrow> Inr (if rp_holdAsAdvance d then [] else autoApply D co (rp_customer d) (d_fixed D 4 (rp_amount d)) s))"

text \<open>The middle dot of the receipt's description and the dash of the application's memo are in UTF-8.\<close>

definition dot_text :: string where "dot_text = [CHR '' '', CHR 0xC2, CHR 0xB7, CHR '' '']"
definition dash_text :: string where "dash_text = [CHR '' '', CHR 0xE2, CHR 0x80, CHR 0x94, CHR '' '']"

definition receipt_lines :: "decimal_js \<Rightarrow> nat \<Rightarrow> string \<Rightarrow> receive_input \<Rightarrow> account \<Rightarrow> rat \<Rightarrow> rat \<Rightarrow> string list \<Rightarrow> 'a trade_db_scheme \<Rightarrow>
    (posting_line list \<times> 'a trade_db_scheme) result" where
  "receipt_lines D co number d bank applied unapplied numbers s =
     (let money_in = post_line (acc_id bank)
            (Some (''Receipt '' @ number @ (case rp_reference d of None \<Rightarrow> [] | Some r \<Rightarrow> if r = [] then [] else dot_text @ r)))
            (d_fixed D 4 (rp_amount d)) 0
      in bindE (if MONEY_TOLERANCE < applied
                then bindE (getByNumberOrFail s co ACCT_AR) (\<lambda>ar.
                     Inr [post_line (acc_id ar) (Some (''Applied to '' @ join '', '' numbers)) 0 (d_fixed D 4 applied)])
                else Inr []) (\<lambda>settled.
         bindE (if MONEY_TOLERANCE < unapplied
                then bindE (getOrCreateSystemAccount co ACCT_CUSTOMER_ADVANCES s) (\<lambda>(advances, s1).
                     Inr ([post_line (acc_id advances) (Some ''Held as customer advance'') 0 (d_fixed D 4 unapplied)], s1))
                else Inr ([], s)) (\<lambda>(held, s1).
         Inr (number_lines (money_in # settled @ held), s1))))"

definition new_payment :: "env \<Rightarrow> nat \<Rightarrow> receive_input \<Rightarrow> string \<Rightarrow> account \<Rightarrow> 'a ledger_db_scheme \<Rightarrow> payment" where
  "new_payment E co d number bank s =
     \<lparr>pm_id = db_fresh s, pm_company = co, pm_customer = rp_customer d, pm_number = Some number, pm_date = rp_date d,
      pm_method = rp_method d, pm_reference = rp_reference d, pm_amount = d_fixed (dec E) 4 (rp_amount d),
      pm_bankAccount = acc_id bank, pm_memo = rp_memo d, pm_entry = None, pm_advancePosted = True\<rparr>"

definition pay_receiveInTransaction :: "env \<Rightarrow> nat \<Rightarrow> nat \<Rightarrow> receive_input \<Rightarrow> 'a trade_db_scheme \<Rightarrow>
    (payment \<times> 'a trade_db_scheme) result" where
  "pay_receiveInTransaction E co user d s =
     some_or (find_customer co (rp_customer d) s) (NotFound ''CUSTOMER_NOT_FOUND'') (\<lambda>c.
     throw_if (\<not> isPositive (rp_amount d)) (BadRequest ''VALIDATION_FAILED'')
    (bindE (chosen_applications (dec E) co d s) (\<lambda>apps.
     bindE (resolveMoneyAccount s co (rp_bankAccount d) (if rp_method d = ''cash'' then ACCT_CASH else ACCT_BANK)) (\<lambda>bank.
     bindE (series_year (rp_date d)) (\<lambda>year.
     bindE (nextDocumentNumber (payment_numbers co s) co RCT year s) (\<lambda>(number, s1).
     let p = new_payment E co d number bank s1
     in bindE (insert_payment p s1) (\<lambda>s2.
        bindE (foldE (apply_one E co (rp_customer d) (pm_id p) None) ([], [], s2) apps) (\<lambda>(rows, numbers, s3).
        let applied = foldl (\<lambda>t (_, x). t + x) 0 apps;
            unapplied = max (rp_amount d - applied) 0;
            s4 = add_customer_balance (dec E) co (rp_customer d) (- applied)
                   (s3\<lparr>db_applications := db_applications s3 @ rows\<rparr>)
        in bindE (receipt_lines (dec E) co number d bank applied unapplied numbers s4) (\<lambda>(lines, s5).
           bindE (createEntry E s5
             \<lparr>pi_company = co, pi_date = rp_date d, pi_memo = Some (''Receipt '' @ number @ '' from '' @ cu_name c),
              pi_createdBy = user, pi_lines = lines, pi_posted = True,
              pi_sourceType = Some ''payment'', pi_sourceId = Some (pm_id p), pi_reversalOf = None\<rparr>) (\<lambda>(entry, s6).
           let p' = p\<lparr>pm_entry := Some (je_id entry)\<rparr>
           in Inr (p', save_payment p' s6)))))))))))"

definition pay_receive :: "env \<Rightarrow> nat \<Rightarrow> nat \<Rightarrow> receive_input \<Rightarrow> 'a trade_db_scheme \<Rightarrow> (payment \<times> 'a trade_db_scheme) result" where
  "pay_receive E co user d = transaction (pay_receiveInTransaction E co user d)"

section \<open>Applying an advance\<close>

definition pay_applyInTransaction :: "env \<Rightarrow> nat \<Rightarrow> nat \<Rightarrow> nat \<Rightarrow> application_input list \<Rightarrow> date option \<Rightarrow> nat option \<Rightarrow>
    'a trade_db_scheme \<Rightarrow> (unit \<times> 'a trade_db_scheme) result" where
  "pay_applyInTransaction E co user paymentId apps asked forDelivery s =
     some_or (find (\<lambda>p. pm_id p = paymentId \<and> pm_company p = co) (db_payments s)) (NotFound ''PAYMENT_NOT_FOUND'') (\<lambda>p.
     let holder = openDeliveryHoldingAdvance (pm_id p) s
     in throw_if (holder \<noteq> None \<and> holder \<noteq> forDelivery) (BadRequest ''ADVANCE_RESERVED'')
    (let available = pm_amount p - applied_of s paymentId;
         requested = foldl (\<lambda>t (_, x). t + x) 0 apps;
         date = (case asked of None \<Rightarrow> today E | Some d \<Rightarrow> d)
     in throw_if (list_ex (\<lambda>(_, x). \<not> isPositive x) apps) (BadRequest ''VALIDATION_FAILED'')
    (throw_if (available + MONEY_TOLERANCE < requested) (BadRequest ''EXCEEDS_UNAPPLIED'')
    (bindE (assertNotFutureDate (today E) date) (\<lambda>_.
     throw_if (date < pm_date p) (BadRequest ''APPLIED_BEFORE_RECEIPT'')
    (bindE (foldE (apply_one E co (pm_customer p) (pm_id p) (Some date)) ([], [], s) apps) (\<lambda>(rows, numbers, s1).
     if pm_advancePosted p
     then bindE (getOrCreateSystemAccount co ACCT_CUSTOMER_ADVANCES s1) (\<lambda>(advances, s2).
          bindE (getByNumberOrFail s2 co ACCT_AR) (\<lambda>ar.
          let total = d_fixed (dec E) 4 requested;
              c = find_customer co (pm_customer p) s2
          in bindE (createEntry E s2
               \<lparr>pi_company = co, pi_date = date,
                pi_memo = Some (''Advance from '' @ (case pm_number p of None \<Rightarrow> ''receipt'' | Some n \<Rightarrow> n) @ '' applied to '' @ join '', '' numbers
                  @ (case c of None \<Rightarrow> [] | Some c \<Rightarrow> dash_text @ cu_name c)),
                pi_createdBy = user,
                pi_lines = number_lines
                  [post_line (acc_id advances) (Some ''Customer advance applied'') total 0,
                   post_line (acc_id ar) (Some (''Applied to '' @ join '', '' numbers)) 0 total],
                pi_posted = True, pi_sourceType = Some ''payment_application'', pi_sourceId = Some (pm_id p), pi_reversalOf = None\<rparr>) (\<lambda>(entry, s3).
             let s4 = add_customer_balance (dec E) co (pm_customer p) (- requested) s3
             in Inr ((), s4\<lparr>db_applications := db_applications s4 @ map (\<lambda>a. a\<lparr>ap_entry := Some (je_id entry)\<rparr>) rows\<rparr>))))
     else Inr ((), s1\<lparr>db_applications := db_applications s1 @ rows\<rparr>))))))))"

definition pay_apply :: "env \<Rightarrow> nat \<Rightarrow> nat \<Rightarrow> nat \<Rightarrow> application_input list \<Rightarrow> date option \<Rightarrow>
    'a trade_db_scheme \<Rightarrow> (unit \<times> 'a trade_db_scheme) result" where
  "pay_apply E co user paymentId apps asked = transaction (pay_applyInTransaction E co user paymentId apps asked None)"

section \<open>Deleting\<close>

definition unapplied_invoice :: "env \<Rightarrow> rat \<Rightarrow> invoice \<Rightarrow> invoice" where
  "unapplied_invoice E amount v =
     (let reduced = in_amountPaid v - amount;
          paid = d_fixed (dec E) 4 (if reduced < 0 then 0 else reduced)
      in v\<lparr>in_amountPaid := paid, in_balance := d_fixed (dec E) 4 (in_total v - paid),
           in_status := (if in_total v \<le> paid then IN_paid
                         else if in_dueDate v < today E then IN_overdue
                         else if isPositive paid then IN_partial else IN_sent)\<rparr>)"

definition unapply_one :: "env \<Rightarrow> nat \<Rightarrow> 'a trade_db_scheme \<Rightarrow> application \<Rightarrow> 'a trade_db_scheme" where
  "unapply_one E co s a =
     (case find_invoice co (ap_invoice a) s of
        None \<Rightarrow> s
      | Some v \<Rightarrow> let v' = unapplied_invoice E (ap_amount a) v in refreshDeliveryPaidStatus co v' (save_invoice v' s))"

definition postMirror :: "env \<Rightarrow> nat \<Rightarrow> nat \<Rightarrow> date \<Rightarrow> string \<Rightarrow> string \<Rightarrow> nat \<Rightarrow> nat \<Rightarrow> 'a ledger_db_scheme \<Rightarrow> 'a ledger_db_scheme result" where
  "postMirror E co user date memo sourceType sourceId entry s = mirror_entry E co user memo sourceType sourceId entry date s"

definition pay_delete :: "env \<Rightarrow> nat \<Rightarrow> nat \<Rightarrow> nat \<Rightarrow> 'a trade_db_scheme \<Rightarrow> (unit \<times> 'a trade_db_scheme) result" where
  "pay_delete E co i user =
     transaction (\<lambda>s.
       some_or (find (\<lambda>p. pm_id p = i \<and> pm_company p = co) (db_payments s)) (NotFound ''PAYMENT_NOT_FOUND'') (\<lambda>p.
       bindE (assertNotReconciled s co [Some (pm_id p)]) (\<lambda>_.
       throw_if (openDeliveryHoldingAdvance (pm_id p) s \<noteq> None) (Conflict ''ADVANCE_IN_USE'')
      (let apps = filter (\<lambda>a. ap_payment a = pm_id p) (db_applications s);
           applied = foldl (\<lambda>t a. t + ap_amount a) 0 apps;
           s1 = foldl (unapply_one E co) s apps;
           restore = (if pm_advancePosted p then applied else pm_amount p);
           s2 = add_customer_balance (dec E) co (pm_customer p) restore s1;
           label = (case pm_number p of Some n \<Rightarrow> n | None \<Rightarrow> (case pm_reference p of Some r \<Rightarrow> r | None \<Rightarrow> take 8 (show_nat (pm_id p))))
       in bindE (case pm_entry p of
                   None \<Rightarrow> Inr s2
                 | Some e \<Rightarrow> postMirror E co user (today E) (''Delete receipt '' @ label) ''payment_void'' (pm_id p) e s2) (\<lambda>s3.
          bindE (foldE (\<lambda>s e. postMirror E co user (today E) (''Delete receipt '' @ label @ dash_text @ ''reverse advance application'')
                        ''payment_application_void'' (pm_id p) e s) s3 (uniq (List.map_filter ap_entry apps))) (\<lambda>s4.
          Inr ((), s4\<lparr>db_applications := filter (\<lambda>a. ap_payment a \<noteq> pm_id p) (db_applications s4),
                     db_payments := filter (\<lambda>q. pm_id q \<noteq> pm_id p) (db_payments s4)\<rparr>)))))))"

end
