(* ===== verification/PaymentLaws.thy ===== *)
theory PaymentLaws
  imports Payments
begin

text \<open>
  What receipts do to receivables: an application moves its invoice by its amount, a receipt and the application of
  an advance credit account 1100 and the customer by what was applied, and both keep the receivables in agreement.
\<close>

definition rows_ok :: "nat \<Rightarrow> account \<Rightarrow> 'a trade_db_scheme \<Rightarrow> bool" where
  "rows_ok co ar s \<longleftrightarrow> distinct (map in_id (db_invoices s))
     \<and> (\<forall>v \<in> set (db_invoices s). in_company v = co \<longrightarrow> invoice_row_ok s ar v)"

lemma refresh_frame: "\<exists>ds. refreshDeliveryPaidStatus co v s = s\<lparr>db_deliveries := ds\<rparr>"
  by (cases s) (auto simp: refreshDeliveryPaidStatus_def Let_def split: option.splits)

text \<open>One application moves the invoice by its amount and keeps its row in order.\<close>

definition applied_to :: "nat \<Rightarrow> account \<Rightarrow> nat \<Rightarrow> rat \<Rightarrow> 'a trade_db_scheme \<Rightarrow> 'a trade_db_scheme \<Rightarrow> bool" where
  "applied_to co ar k x s t \<longleftrightarrow>
     (\<exists>vs ds. t = s\<lparr>db_invoices := vs, db_deliveries := ds\<rparr>)
     \<and> map in_id (db_invoices t) = map in_id (db_invoices s)
     \<and> rows_ok co ar t
     \<and> (\<forall>j. owed co j t = owed co j s - (if j = k then x else 0))"

lemma applied_to_refl: "rows_ok co ar s \<Longrightarrow> applied_to co ar k 0 s s"
  by (cases s) (auto simp: applied_to_def)

lemma applied_to_trans: "applied_to co ar k x s t \<Longrightarrow> applied_to co ar k y t u \<Longrightarrow> applied_to co ar k (x + y) s u"
  unfolding applied_to_def by (elim conjE exE) (auto intro!: exI)

context posting_env
begin

lemma paid_row:
  assumes "invoice_row_ok s ar v" and "in_status v \<notin> {IN_void, IN_draft}" and "0 < x" and "x \<le> in_balance v" and "money x"
  shows "in_amountPaid (paid_invoice E x v) = in_amountPaid v + x" and "in_balance (paid_invoice E x v) = in_balance v - x"
    and "invoice_row_ok s ar (paid_invoice E x v)" and "posted_open v" and "posted_open (paid_invoice E x v)"
proof -
  have m: "money (in_amountPaid v + x)" "money (in_total v)" "money (in_total v - (in_amountPaid v + x))"
    using assms(1,5) by (auto simp: invoice_row_ok_def intro: on_grid_add on_grid_diff)
  note f = fixed_id [OF m(1)] fixed_id [OF m(3)]
  show p: "in_amountPaid (paid_invoice E x v) = in_amountPaid v + x" and b: "in_balance (paid_invoice E x v) = in_balance v - x"
    using assms(1) f by (simp_all add: paid_invoice_def Let_def invoice_row_ok_def)
  have rest: "in_total (paid_invoice E x v) = in_total v" "in_entry (paid_invoice E x v) = in_entry v"
    "in_company (paid_invoice E x v) = in_company v" "in_customer (paid_invoice E x v) = in_customer v"
    "in_status (paid_invoice E x v) \<notin> {IN_void, IN_draft}"
    by (simp_all add: paid_invoice_def Let_def)
  have e: "in_entry v \<noteq> None" using assms(1,2) by (auto simp: invoice_row_ok_def)
  show "posted_open v" "posted_open (paid_invoice E x v)" using e assms(2) rest by (auto simp: posted_open_def)
  show "invoice_row_ok s ar (paid_invoice E x v)"
    using assms e m rest(5) unfolding invoice_row_ok_def p b rest by auto
qed

lemma apply_one_applied:
  assumes run: "apply_one E co k pid on (rows, nums, s) (i, x) = Inr (rows', nums', t)" and ok: "rows_ok co ar s" and m: "money x"
  shows "applied_to co ar k x s t" and "\<exists>n. nums' = nums @ [n]"
    and "rows' = rows @ [\<lparr>ap_payment = pid, ap_invoice = i, ap_amount = x, ap_appliedOn = on, ap_entry = None\<rparr>]"
proof -
  from run obtain v where f: "find_invoice co i s = Some v" and c: "in_customer v = k"
    and st: "in_status v \<notin> {IN_void, IN_draft}" and x: "0 < x" "x \<le> in_balance v"
    and t: "t = refreshDeliveryPaidStatus co (paid_invoice E x v) (save_invoice (paid_invoice E x v) s)"
    and nums: "nums' = nums @ [in_number (paid_invoice E x v)]"
    and rows: "rows' = rows @ [\<lparr>ap_payment = pid, ap_invoice = i, ap_amount = d_fixed (dec E) 4 x, ap_appliedOn = on, ap_entry = None\<rparr>]"
    by (auto simp: apply_one_def assertInvoiceBelongsToCustomer_def applyPayment_def result_simps Let_def not_less)
  note v = find_invoice_Some [OF f]
  define v' where "v' = paid_invoice E x v"
  have vo: "invoice_row_ok s ar v" using ok v by (auto simp: rows_ok_def)
  note p = paid_row [OF vo st x m, folded v'_def]
  have same: "in_id v' = in_id v" "in_company v' = in_company v" "in_customer v' = in_customer v"
    by (simp_all add: v'_def paid_invoice_def Let_def)
  have d: "distinct (map in_id (db_invoices s))" using ok by (simp add: rows_ok_def)
  have mem: "v \<in> set (db_invoices s)" using v by blast
  note r = replaced_rows [OF mem same(1) d]
  obtain ds where t': "t = s\<lparr>db_invoices := update_row in_id (in_id v) (\<lambda>_. v') (db_invoices s), db_deliveries := ds\<rparr>"
    using refresh_frame [of co v' "save_invoice v' s"] t same(1) by (auto simp: v'_def [symmetric] save_invoice_def)
  have keep: "invoice_row_ok t ar w" if "invoice_row_ok s ar w" for w
    using that by (simp add: invoice_row_ok_def t' find_customer_def)
  have "in_company w = co \<longrightarrow> invoice_row_ok t ar w" if "w \<in> set (db_invoices t)" for w
  proof -
    have "w = v' \<or> w \<in> set (db_invoices s)" using that r(2) by (auto simp: t')
    then show ?thesis using ok p(3) keep by (auto simp: rows_ok_def)
  qed
  then have "rows_ok co ar t" using r(1) by (simp add: rows_ok_def t')
  moreover have "map in_id (db_invoices t) = map in_id (db_invoices s)"
    using same(1) by (simp add: t' update_row_def)
  moreover have "owed co j t = owed co j s - (if j = k then x else 0)" for j
    using r(3) [of co j] p(2,4,5) same v c by (auto simp: owed_def t' due_def)
  ultimately show "applied_to co ar k x s t" unfolding applied_to_def using t' by blast
  show "\<exists>n. nums' = nums @ [n]" using nums by blast
  show "rows' = rows @ [\<lparr>ap_payment = pid, ap_invoice = i, ap_amount = x, ap_appliedOn = on, ap_entry = None\<rparr>]"
    using rows fixed_id [OF m] by simp
qed

lemma apply_all_applied:
  assumes "foldE (apply_one E co k pid on) (rows, nums, s) apps = Inr (rows', nums', t)" and "rows_ok co ar s"
    and "\<forall>(i, x) \<in> set apps. money x"
  shows "applied_to co ar k (\<Sum>(i, x)\<leftarrow>apps. x) s t"
    and "rows' = rows @ map (\<lambda>(i, x). \<lparr>ap_payment = pid, ap_invoice = i, ap_amount = x, ap_appliedOn = on, ap_entry = None\<rparr>) apps"
  using assms
proof (induction apps arbitrary: rows nums s)
  case Nil
  case 1 then show ?case using Nil by (simp add: applied_to_refl)
  case 2 then show ?case by simp
next
  case (Cons a apps)
  obtain i x where a: "a = (i, x)" by (cases a)
  have step: "applied_to co ar k (\<Sum>(i, x)\<leftarrow>a # apps. x) s t
      \<and> rows' = rows @ map (\<lambda>(i, x). \<lparr>ap_payment = pid, ap_invoice = i, ap_amount = x, ap_appliedOn = on, ap_entry = None\<rparr>) (a # apps)"
    if run: "foldE (apply_one E co k pid on) (rows, nums, s) (a # apps) = Inr (rows', nums', t)" and ok: "rows_ok co ar s"
      and m: "\<forall>(i, x) \<in> set (a # apps). money x" for rows nums s
  proof -
    from run obtain r1 n1 s1 where o1: "apply_one E co k pid on (rows, nums, s) (i, x) = Inr (r1, n1, s1)"
      and rest: "foldE (apply_one E co k pid on) (r1, n1, s1) apps = Inr (rows', nums', t)"
      unfolding a by (auto simp: bindE_Inr)
    have mx: "money x" and ms: "\<forall>(i, x) \<in> set apps. money x" using m a by auto
    note one = apply_one_applied [OF o1 ok mx]
    have "rows_ok co ar s1" using one(1) by (simp add: applied_to_def)
    then show ?thesis
      using Cons.IH [OF rest _ ms] applied_to_trans [OF one(1)] one(3) by (simp add: a)
  qed
  case 1 then show ?case by (rule step [THEN conjunct1])
  case 2 then show ?case by (rule step [THEN conjunct2])
qed

end

lemma getOrCreate_other:
  assumes run: "getOrCreateSystemAccount co n s = Inr (a, t)" and ok: "ledger_ok s"
    and ar: "by_number s co' m = Some ar" and ne: "m \<noteq> n"
  shows "by_number t co' m = Some ar" and "db_fresh s \<le> db_fresh t" and "acc_id a \<noteq> acc_id ar"
proof -
  note k = getOrCreateSystemAccount_keeps [OF run ok]
  have mem: "ar \<in> set (db_accounts s)" "acc_number ar = m" using ar by (auto simp: by_number_def dest: find_Some_mem)
  have upd: "by_number (s\<lparr>db_accounts := update_row acc_id (acc_id b) (\<lambda>a. a\<lparr>acc_active := True\<rparr>) (db_accounts s)\<rparr>) co' m = Some ar"
    if "by_number s co n = Some b" for b
  proof -
    have "b \<in> set (db_accounts s)" "acc_number b = n" using that by (auto simp: by_number_def dest: find_Some_mem)
    then have "acc_id ar \<noteq> acc_id b" using mem ne ledger_ok_ids [OF ok] by (metis option.inject row_with_distinct)
    then show ?thesis using ar by (auto simp: by_number_def update_row_def find_map if_distrib cong: if_cong)
  qed
  have snoc: "find P xs = Some r \<Longrightarrow> find P (xs @ ys) = Some r" for P :: "account \<Rightarrow> bool" and xs ys r
    by (induction xs) auto
  show t: "by_number t co' m = Some ar"
    using run upd ar snoc unfolding getOrCreateSystemAccount_def
    by (auto simp: some_or_Inr save_account_def by_number_def Let_def split: option.splits if_splits)
  show "db_fresh s \<le> db_fresh t"
    using run unfolding getOrCreateSystemAccount_def
    by (auto simp: some_or_Inr save_account_def Let_def split: option.splits if_splits)
  have "ar \<in> set (db_accounts t)" using t by (auto simp: by_number_def dest: find_Some_mem)
  then show "acc_id a \<noteq> acc_id ar"
    using k(2,4) mem(2) ne ledger_ok_ids [OF k(1)] by (metis option.inject row_with_distinct)
qed

lemma money_account_not_receivable:
  assumes "resolveMoneyAccount s co i fallback = Inr bank" and "ledger_ok s"
    and ar: "by_number s co ACCT_AR = Some ar" "acc_subType ar \<notin> set MONEY_ACCOUNT_SUB_TYPES" and "fallback \<noteq> ACCT_AR"
  shows "acc_id bank \<noteq> acc_id ar"
proof (cases i)
  case None
  then have "by_number s co fallback = Some bank" using assms(1) by (simp add: resolveMoneyAccount_def result_simps)
  then show ?thesis using by_number_ids [OF assms(2) ar(1) _ assms(5) [symmetric]] by metis
next
  case (Some j)
  then have "bank \<in> set (db_accounts s)" "acc_subType bank \<in> set MONEY_ACCOUNT_SUB_TYPES"
    using assms(1) by (auto simp: resolveMoneyAccount_def result_simps assertMoneyAccount_def dest: find_Some_mem)
  moreover have "ar \<in> set (db_accounts s)" using ar(1) by (auto simp: by_number_def dest: find_Some_mem)
  ultimately show ?thesis using ar(2) ledger_ok_ids [OF assms(2)] by (metis option.inject row_with_distinct)
qed

context posting_env
begin

text \<open>The lines of a receipt, and what they do to receivables.\<close>

lemma receipt_lines_Inr:
  assumes run: "receipt_lines (dec E) co number d bank applied unapplied numbers s = Inr (lines, t)" and ok: "ledger_ok s"
    and ar: "by_number s co ACCT_AR = Some ar" "acc_type ar = Asset" and bank: "acc_id bank \<noteq> acc_id ar" and m: "money applied"
  shows "input_effect (dec E) lines ar = (if MONEY_TOLERANCE < applied then - applied else 0)"
    and "ledger_ok t" and "by_number t co ACCT_AR = Some ar" and "db_fresh s \<le> db_fresh t"
    and "ledger_db.more t = ledger_db.more s" and "db_entries t = db_entries s"
    and "map (\<lambda>l. (pl_debit l, pl_credit l)) lines = (d_fixed (dec E) 4 (rp_amount d), 0) #
       (if MONEY_TOLERANCE < applied then [(0, applied)] else []) @
       (if MONEY_TOLERANCE < unapplied then [(0, d_fixed (dec E) 4 unapplied)] else [])"
proof -
  let ?in = "post_line (acc_id bank)
            (Some (''Receipt '' @ number @ (case rp_reference d of None \<Rightarrow> [] | Some r \<Rightarrow> if r = [] then [] else dot_text @ r)))
            (d_fixed (dec E) 4 (rp_amount d)) 0"
  let ?ar = "if MONEY_TOLERANCE < applied then [post_line (acc_id ar) (Some (''Applied to '' @ join '', '' numbers)) 0 (d_fixed (dec E) 4 applied)] else []"
  from run obtain held where lines: "lines = number_lines (?in # ?ar @ held)"
    and h: "(if MONEY_TOLERANCE < unapplied
                then bindE (getOrCreateSystemAccount co ACCT_CUSTOMER_ADVANCES s) (\<lambda>(advances, s1).
                     Inr ([post_line (acc_id advances) (Some ''Held as customer advance'') 0 (d_fixed (dec E) 4 unapplied)], s1))
                else Inr ([], s)) = Inr (held, t)"
    using ar(1) by (auto simp: receipt_lines_def Let_def result_simps split: if_splits)
  have nums: "map (\<lambda>l. (pl_debit l, pl_credit l)) (number_lines ls) = map (\<lambda>l. (pl_debit l, pl_credit l)) ls" for ls
  proof -
    have "map (\<lambda>x. (pl_debit (snd x), pl_credit (snd x))) (enumerate k ls) = map (\<lambda>l. (pl_debit l, pl_credit l)) ls" for k
      by (induction ls arbitrary: k) simp_all
    then show ?thesis by (simp add: number_lines_def o_def case_prod_unfold)
  qed
  have held: "input_effect (dec E) held ar = 0 \<and> ledger_ok t \<and> by_number t co ACCT_AR = Some ar \<and> db_fresh s \<le> db_fresh t
     \<and> ledger_db.more t = ledger_db.more s \<and> db_entries t = db_entries s
     \<and> map (\<lambda>l. (pl_debit l, pl_credit l)) held = (if MONEY_TOLERANCE < unapplied then [(0, d_fixed (dec E) 4 unapplied)] else [])"
  proof (cases "MONEY_TOLERANCE < unapplied")
    case False
    then show ?thesis using h ok ar by (simp add: input_effect_def)
  next
    case True
    then obtain a where g: "getOrCreateSystemAccount co ACCT_CUSTOMER_ADVANCES s = Inr (a, t)"
      and held: "held = [post_line (acc_id a) (Some ''Held as customer advance'') 0 (d_fixed (dec E) 4 unapplied)]"
      using h by (auto simp: result_simps)
    show ?thesis
      using getOrCreateSystemAccount_keeps(1,6,8) [OF g ok] getOrCreate_other [OF g ok ar(1) numbers_differ(5)] True
      by (simp add: held input_effect_def post_line_def)
  qed
  then show "ledger_ok t" and "by_number t co ACCT_AR = Some ar" and "db_fresh s \<le> db_fresh t"
    and "ledger_db.more t = ledger_db.more s" and "db_entries t = db_entries s" by simp_all
  show "input_effect (dec E) lines ar = (if MONEY_TOLERANCE < applied then - applied else 0)"
    using held bank ar(2) fixed_id [OF m]
    by (simp add: lines input_effect_numbered input_effect_append input_effect_def [of _ "_ # _"] post_line_def signedDelta_def)
      (simp add: input_effect_def)
  show "map (\<lambda>l. (pl_debit l, pl_credit l)) lines = (d_fixed (dec E) 4 (rp_amount d), 0) #
       (if MONEY_TOLERANCE < applied then [(0, applied)] else []) @
       (if MONEY_TOLERANCE < unapplied then [(0, d_fixed (dec E) 4 unapplied)] else [])"
    using held fixed_id [OF m] by (simp add: lines nums post_line_def)
qed

text \<open>What an entry committed: its stored lines balance exactly.\<close>

lemma committed_balance:
  assumes ce: "createEntry E s1 inp = Inr (e, t1)" and p: "pi_posted inp" and com: "assert_entries_balanced s t"
    and old: "ledger_ok s" "db_fresh s \<le> db_fresh s1" and t: "set (db_entries t1) \<subseteq> set (db_entries t)"
  shows "(\<Sum>(x, y)\<leftarrow>map (\<lambda>l. (pl_debit l, pl_credit l)) (pi_lines inp). d_fixed (dec E) 4 x)
    = (\<Sum>(x, y)\<leftarrow>map (\<lambda>l. (pl_debit l, pl_credit l)) (pi_lines inp). d_fixed (dec E) 4 y)"
    and "2 \<le> length (map (\<lambda>l. (pl_debit l, pl_credit l)) (pi_lines inp))"
proof -
  note c = createEntry_Inr [OF ce]
  have "e \<in> set (db_entries t)" using createEntry_frame [OF ce] t by auto
  moreover have "e \<notin> set (db_entries s)"
    using old c(1) by (auto simp: ledger_ok_def entries_ok_def)
  moreover have "je_status e = JE_posted" using c(5) p by simp
  ultimately have "entry_balanced e" using com by (auto simp: assert_entries_balanced_def)
  moreover have "(\<Sum>l\<leftarrow>stored_lines D k ls. jl_debit l) = (\<Sum>l\<leftarrow>ls. d_fixed D 4 (pl_debit l))"
    "(\<Sum>l\<leftarrow>stored_lines D k ls. jl_credit l) = (\<Sum>l\<leftarrow>ls. d_fixed D 4 (pl_credit l))" for D k ls
    by (induction ls arbitrary: k) simp_all
  ultimately show "(\<Sum>(x, y)\<leftarrow>map (\<lambda>l. (pl_debit l, pl_credit l)) (pi_lines inp). d_fixed (dec E) 4 x)
    = (\<Sum>(x, y)\<leftarrow>map (\<lambda>l. (pl_debit l, pl_credit l)) (pi_lines inp). d_fixed (dec E) 4 y)"
    using c(7) by (simp add: entry_balanced_def o_def)
  show "2 \<le> length (map (\<lambda>l. (pl_debit l, pl_credit l)) (pi_lines inp))" using c(9) by simp
qed

end

definition requested_money :: "application_input list \<Rightarrow> bool" where
  "requested_money apps \<longleftrightarrow> (\<forall>(i, x) \<in> set apps. money x)"

lemma applied_sum: "foldl (\<lambda>t (_, x). t + x) a apps = a + (\<Sum>(i, x)\<leftarrow>apps. x)" for a :: rat
  by (induction apps arbitrary: a) (auto simp: algebra_simps)

lemma requested_money_sum: "requested_money apps \<Longrightarrow> money (\<Sum>(i, x)\<leftarrow>apps. x)"
  unfolding requested_money_def by (intro on_grid_sum_list) auto

lemma receivables_rows: "receivables_ok g co s \<Longrightarrow> by_number s co ACCT_AR = Some ar \<Longrightarrow> rows_ok co ar s"
  by (auto simp: receivables_ok_def rows_ok_def)

text \<open>A step that applies money to invoices of one customer.\<close>

lemma apply_shift:
  assumes ok: "receivables_ok g co s" and ar: "by_number s co ACCT_AR = Some ar"
    and ap: "applied_to co ar k x s0 s1" and s0: "db_invoices s0 = db_invoices s"
    and l: "ledger_ok t" and art: "by_number t co ACCT_AR = Some (ar\<lparr>acc_balance := acc_balance ar + y\<rparr>)"
    and cs: "balances_move co k y (db_customers s) (db_customers t)" and c: "y = 0 \<or> find_customer co k s \<noteq> None"
    and inv: "db_invoices t = db_invoices s1" and fr: "db_fresh s \<le> db_fresh t"
    and es: "set (db_entries s1) \<subseteq> set (db_entries t)" and ks: "db_customers s1 = db_customers s"
    and h: "\<forall>k. money (h k)" "\<And>j. h j = g j + (if j = k then x + y else 0)"
  shows "receivables_ok h co t"
proof -
  have ids: "map in_id (db_invoices t) = map in_id (db_invoices s)" using ap by (simp add: applied_to_def inv s0)
  have d: "distinct (map in_id (db_invoices s))" and less: "\<forall>w \<in> set (db_invoices s). in_id w < db_fresh s"
    using ok by (simp_all add: receivables_ok_def)
  show ?thesis
  proof (rule receivables_shift [OF ok l _ cs c _ h(1)])
    show "by_number t co ACCT_AR = Some (a\<lparr>acc_balance := acc_balance a + y\<rparr>)" if "by_number s co ACCT_AR = Some a" for a
      using art ar that by simp
    have "owed co j s1 = owed co j s0 - (if j = k then x else 0)" for j using ap by (simp add: applied_to_def)
    then show "owed co j t + h j = owed co j s + g j + (if j = k then y else 0)" for j by (simp add: owed_def inv s0 h(2))
    show "distinct (map in_id (db_invoices t))" using d ids by simp
    have "list_all (\<lambda>i. i < db_fresh s) (map in_id (db_invoices t))" unfolding ids using less by (auto simp: list_all_iff)
    then show "\<forall>w \<in> set (db_invoices t). in_id w < db_fresh t" using fr by (auto simp: list_all_iff)
    show "invoice_row_ok t (a\<lparr>acc_balance := acc_balance a + y\<rparr>) w"
      if "by_number s co ACCT_AR = Some a" "w \<in> set (db_invoices t)" "in_company w = co" for a w
    proof -
      have "invoice_row_ok s1 a w" using ap that ar by (auto simp: applied_to_def rows_ok_def inv)
      then show ?thesis using es balances_move_keys [OF cs] by (intro invoice_row_keeps [where s = s1]) (simp_all add: ks)
    qed
  qed
qed

lemma apply_step:
  assumes ok: "receivables_ok g co s" and "by_number s co ACCT_AR = Some ar"
    and "applied_to co ar k x s0 s1" and "db_invoices s0 = db_invoices s" and "ledger_ok t"
    and art: "by_number t co ACCT_AR = Some (ar\<lparr>acc_balance := acc_balance ar - x\<rparr>)"
    and "balances_move co k (- x) (db_customers s) (db_customers t)" and "x = 0 \<or> find_customer co k s \<noteq> None"
    and "db_invoices t = db_invoices s1" and "db_fresh s \<le> db_fresh t"
    and "set (db_entries s1) \<subseteq> set (db_entries t)" and "db_customers s1 = db_customers s"
  shows "receivables_ok g co t"
  by (rule apply_shift [OF assms(1-5) _ assms(7)]) (use assms in \<open>simp_all add: receivables_ok_def\<close>)

context posting_env
begin

lemma apply_all_positive:
  "foldE (apply_one E co k pid on) (rows, nums, s) apps = Inr r \<Longrightarrow> \<forall>(i, x) \<in> set apps. 0 < x"
proof (induction apps arbitrary: rows nums s)
  case Nil
  then show ?case by simp
next
  case (Cons a apps)
  from Cons.prems obtain r1 n1 s1 where "apply_one E co k pid on (rows, nums, s) a = Inr (r1, n1, s1)"
    and rest: "foldE (apply_one E co k pid on) (r1, n1, s1) apps = Inr r" by (auto simp: bindE_Inr)
  then have "0 < snd a" by (cases a) (auto simp: apply_one_def applyPayment_def result_simps)
  then show ?case using Cons.IH [OF rest] by auto
qed

text \<open>A receipt that commits credits receivables by all it applied: an amount within the tolerance, which has
  no line of its own, would leave the entry unbalanced.\<close>

lemma receipt_applied:
  assumes sums: "(\<Sum>(x, y)\<leftarrow>ls. d_fixed (dec E) 4 x) = (\<Sum>(x, y)\<leftarrow>ls. d_fixed (dec E) 4 y)" "2 \<le> length ls"
    and ls: "ls = (d_fixed (dec E) 4 a, 0) # (if MONEY_TOLERANCE < x then [(0, x)] else []) @
       (if MONEY_TOLERANCE < u then [(0, d_fixed (dec E) 4 u)] else [])"
    and u: "u = max (a - x) 0" and m: "money a" "money x" and x: "0 \<le> x"
  shows "MONEY_TOLERANCE < x \<or> x = 0"
proof (rule ccontr)
  assume "\<not> ?thesis"
  then have small: "\<not> MONEY_TOLERANCE < x" "0 < x" using x by simp_all
  have "MONEY_TOLERANCE < u" using sums(2) small(1) ls by (simp split: if_splits)
  moreover from this have "u = a - x" using u by (auto simp: MONEY_TOLERANCE_def)
  moreover have "money (a - x)" using m by (rule on_grid_diff)
  ultimately show False using sums(1) small fixed_id [OF m(1)] fixed_id [of 4 "a - x"] by (simp add: ls)
qed

lemma chosen_money:
  assumes "chosen_applications (dec E) co d s = Inr apps" and "\<forall>as. rp_applications d = Some as \<longrightarrow> requested_money as"
  shows "requested_money apps"
proof -
  have "requested_money (sweep (dec E) x vs)" for x vs
    by (induction vs arbitrary: x) (auto simp: requested_money_def fixed_grid Let_def)
  moreover have "requested_money []" by (simp add: requested_money_def)
  ultimately show ?thesis
    using assms by (auto simp: chosen_applications_def autoApply_def throw_if_Inr split: option.splits list.splits)
qed

text \<open>The transaction that commits may have begun before the receipt and end after it.\<close>

lemma receive_in_keeps:
  assumes inner: "pay_receiveInTransaction E co user d s = Inr (p, t)" and ok: "receivables_ok g co s"
    and m: "money (rp_amount d)" "\<forall>as. rp_applications d = Some as \<longrightarrow> requested_money as"
    and com: "assert_entries_balanced s0 t0" and s0: "ledger_ok s0" "db_fresh s0 \<le> db_fresh s" "set (db_entries t) \<subseteq> set (db_entries t0)"
  shows "receivables_ok g co t"
proof -
  from inner obtain c apps bank year number s1 s2 rows numbers s3 lines s5 e s6 where
    c: "find_customer co (rp_customer d) s = Some c" and apps: "chosen_applications (dec E) co d s = Inr apps"
    and bank: "resolveMoneyAccount s co (rp_bankAccount d) (if rp_method d = ''cash'' then ACCT_CASH else ACCT_BANK) = Inr bank"
    and n: "nextDocumentNumber (payment_numbers co s) co RCT year s = Inr (number, s1)"
    and s2: "insert_payment (new_payment E co d number bank s1) s1 = Inr s2"
    and ap: "foldE (apply_one E co (rp_customer d) (pm_id (new_payment E co d number bank s1)) None) ([], [], s2) apps = Inr (rows, numbers, s3)"
    and ls: "receipt_lines (dec E) co number d bank (foldl (\<lambda>t (_, x). t + x) 0 apps) (max (rp_amount d - foldl (\<lambda>t (_, x). t + x) 0 apps) 0) numbers
        (add_customer_balance (dec E) co (rp_customer d) (- foldl (\<lambda>t (_, x). t + x) 0 apps) (s3\<lparr>db_applications := db_applications s3 @ rows\<rparr>)) = Inr (lines, s5)"
    and ce: "createEntry E s5
             \<lparr>pi_company = co, pi_date = rp_date d, pi_memo = Some (''Receipt '' @ number @ '' from '' @ cu_name c),
              pi_createdBy = user, pi_lines = lines, pi_posted = True,
              pi_sourceType = Some ''payment'', pi_sourceId = Some (pm_id (new_payment E co d number bank s1)), pi_reversalOf = None\<rparr> = Inr (e, s6)"
    and t: "t = save_payment p s6"
    by (auto simp: pay_receiveInTransaction_def Let_def result_simps split del: if_split)
  define x where "x = (\<Sum>(i, y)\<leftarrow>apps. y)"
  have fx: "foldl (\<lambda>t (_, x). t + x) 0 apps = x" by (simp add: applied_sum x_def)
  have am: "requested_money apps" by (rule chosen_money [OF apps m(2)])
  have mx: "money x" unfolding x_def by (rule requested_money_sum [OF am])
  obtain ar where ar: "by_number s co ACCT_AR = Some ar" "acc_type ar = Asset" "acc_subType ar \<notin> set MONEY_ACCOUNT_SUB_TYPES" and l: "ledger_ok s"
    using ok by (auto simp: receivables_ok_def)
  have bk: "acc_id bank \<noteq> acc_id ar"
    by (rule money_account_not_receivable [OF bank l ar(1,3)]) (simp add: ACCT_CASH_def ACCT_BANK_def ACCT_AR_def)
  obtain q where s1: "s1 = s\<lparr>db_sequences := q\<rparr>" using nextDocumentNumber_frame [OF n] by blast
  have s2': "\<exists>ps. s2 = s1\<lparr>db_payments := ps, db_fresh := db_fresh s1 + 1\<rparr>" using s2 by (auto simp: insert_payment_def throw_if_Inr)
  then obtain ps where s2': "s2 = s\<lparr>db_sequences := q, db_payments := ps, db_fresh := db_fresh s + 1\<rparr>" by (auto simp: s1)
  have r2: "rows_ok co ar s2"
    using receivables_rows [OF ok ar(1)] by (auto simp: rows_ok_def invoice_row_ok_def s2' find_customer_def)
  note ap' = apply_all_applied [OF ap r2 am [unfolded requested_money_def]]
  have ap3: "applied_to co ar (rp_customer d) x s2 s3" using ap'(1) by (simp add: x_def)
  obtain vs ds where s3: "s3 = s2\<lparr>db_invoices := vs, db_deliveries := ds\<rparr>" using ap3 by (auto simp: applied_to_def)
  define s4 where "s4 = add_customer_balance (dec E) co (rp_customer d) (- x) (s3\<lparr>db_applications := db_applications s3 @ rows\<rparr>)"
  have l4: "ledger_ok s4" using l by (rule ledger_ok_same [rotated -1]) (simp_all add: s4_def add_customer_balance_def s3 s2')
  have ar4: "by_number s4 co ACCT_AR = Some ar" using ar(1) by (simp add: s4_def add_customer_balance_def s3 s2' by_number_def)
  note rl = receipt_lines_Inr [OF ls [unfolded fx, folded s4_def] l4 ar4 ar(2) bk mx]
  note tm = trade_more [OF rl(5)]
  note k = createEntry_keeps(1,3,5) [OF refl ce rl(2)]
  note tm6 = trade_more [OF k(3)] and fr6 = createEntry_frame [OF ce]
  have pos: "0 \<le> x" unfolding x_def using apply_all_positive [OF ap] by (intro sum_list_nonneg) auto
  have es: "set (db_entries s6) \<subseteq> set (db_entries t0)" using s0(3) by (simp add: t save_payment_def)
  have fs: "db_fresh s0 \<le> db_fresh s5" using rl(4) s0(2) by (simp add: s4_def add_customer_balance_def s3 s2')
  note cb = committed_balance [OF ce _ com s0(1) fs es, unfolded posting_input.simps, OF TrueI]
  have small: "MONEY_TOLERANCE < x \<or> x = 0" by (rule receipt_applied [OF cb rl(7) refl m(1) mx pos])
  have art: "by_number t co ACCT_AR = Some (ar\<lparr>acc_balance := acc_balance ar - x\<rparr>)"
    using posted_balances [OF ce rl(2), of co ACCT_AR] rl(1,3) small by (auto simp: t save_payment_def by_number_def)
  show ?thesis
  proof (rule apply_step [OF ok ar(1) ap3 _ _ art])
    show "ledger_ok t" using k(1) by (rule ledger_ok_same [rotated -1]) (simp_all add: t save_payment_def)
    show "balances_move co (rp_customer d) (- x) (db_customers s) (db_customers t)"
      using balances_moveI [OF decimal_lib_axioms on_grid_minus [OF mx] customer_balances_money [OF ok]]
      by (simp add: t save_payment_def tm6(1) tm(1) s4_def add_customer_balance_def s3 s2')
    show "set (db_entries s3) \<subseteq> set (db_entries t)"
      using fr6 rl(6) by (auto simp: t save_payment_def s4_def add_customer_balance_def)
    show "db_fresh s \<le> db_fresh t" using k(2) rl(4) by (simp add: t save_payment_def s4_def add_customer_balance_def s3 s2')
    show "db_invoices t = db_invoices s3" by (simp add: t save_payment_def tm6(2) tm(2) s4_def add_customer_balance_def)
  qed (use c in \<open>simp_all add: s3 s2'\<close>)
qed

lemma receive_keeps:
  assumes "pay_receive E co user d s = Inr (p, t)" and ok: "receivables_ok g co s"
    and "money (rp_amount d)" "\<forall>as. rp_applications d = Some as \<longrightarrow> requested_money as"
  shows "receivables_ok g co t"
  by (rule receive_in_keeps [OF _ ok assms(3,4), of user p t s t])
    (use assms(1) ok in \<open>simp_all add: pay_receive_def transaction_Inr receivables_ok_def\<close>)

lemma apply_all_customer:
  assumes "foldE (apply_one E co k pid on) (rows, nums, s) apps = Inr r" and "rows_ok co ar s"
  shows "apps = [] \<or> find_customer co k s \<noteq> None"
proof (cases apps)
  case (Cons a as)
  then obtain r1 where "apply_one E co k pid on (rows, nums, s) a = Inr r1" using assms(1) by (auto simp: bindE_Inr)
  then obtain v where "find_invoice co (fst a) s = Some v" "in_customer v = k"
    by (cases a) (auto simp: apply_one_def assertInvoiceBelongsToCustomer_def result_simps)
  then show ?thesis using assms(2) find_invoice_Some [of co "fst a" s v] by (auto simp: rows_ok_def invoice_row_ok_def)
qed simp

lemma apply_keeps:
  assumes inner: "pay_applyInTransaction E co user i apps on fd s = Inr (u, t)" and ok: "receivables_ok g co s"
    and m: "requested_money apps" and new: "\<forall>p \<in> set (db_payments s). pm_company p = co \<longrightarrow> pm_advancePosted p"
  shows "receivables_ok g co t"
proof -
  define d where "d = (case on of None \<Rightarrow> today E | Some d \<Rightarrow> d)"
  define x where "x = (\<Sum>(i, y)\<leftarrow>apps. y)"
  have fx: "foldl (\<lambda>t (_, x). t + x) 0 apps = x" by (simp add: applied_sum x_def)
  have mx: "money x" unfolding x_def by (rule requested_money_sum [OF m])
  from inner obtain p where p: "find (\<lambda>p. pm_id p = i \<and> pm_company p = co) (db_payments s) = Some p"
    by (auto simp: pay_applyInTransaction_def result_simps)
  then have ad: "pm_advancePosted p" using new by (auto dest: find_Some_mem)
  let ?k = "pm_customer p"
  from inner [unfolded pay_applyInTransaction_def Let_def fx] p ad obtain rows numbers s1 advances s2 ar e s3 memo where
    ap: "foldE (apply_one E co ?k (pm_id p) (Some d)) ([], [], s) apps = Inr (rows, numbers, s1)"
    and g: "getOrCreateSystemAccount co ACCT_CUSTOMER_ADVANCES s1 = Inr (advances, s2)"
    and ar2: "by_number s2 co ACCT_AR = Some ar"
    and ce: "createEntry E s2
               \<lparr>pi_company = co, pi_date = d, pi_memo = memo, pi_createdBy = user,
                pi_lines = number_lines
                  [post_line (acc_id advances) (Some ''Customer advance applied'') (d_fixed (dec E) 4 x) 0,
                   post_line (acc_id ar) (Some (''Applied to '' @ join '', '' numbers)) 0 (d_fixed (dec E) 4 x)],
                pi_posted = True, pi_sourceType = Some ''payment_application'', pi_sourceId = Some (pm_id p), pi_reversalOf = None\<rparr> = Inr (e, s3)"
    and t: "t = (add_customer_balance (dec E) co ?k (- x) s3)\<lparr>db_applications :=
        db_applications (add_customer_balance (dec E) co ?k (- x) s3) @ map (\<lambda>a. a\<lparr>ap_entry := Some (je_id e)\<rparr>) rows\<rparr>"
    by (auto simp: result_simps d_def)
  obtain a where a: "by_number s co ACCT_AR = Some a" "acc_type a = Asset" and l: "ledger_ok s"
    using ok by (auto simp: receivables_ok_def)
  have r: "rows_ok co a s" by (rule receivables_rows [OF ok a(1)])
  have ap1: "applied_to co a ?k x s s1" using apply_all_applied(1) [OF ap r m [unfolded requested_money_def]] by (simp add: x_def)
  obtain vs ds where s1: "s1 = s\<lparr>db_invoices := vs, db_deliveries := ds\<rparr>" using ap1 by (auto simp: applied_to_def)
  have l1: "ledger_ok s1" using l by (rule ledger_ok_same [rotated -1]) (simp_all add: s1)
  have a1: "by_number s1 co ACCT_AR = Some a" using a(1) by (simp add: s1 by_number_def)
  note go = getOrCreate_other [OF g l1 a1 numbers_differ(5)] and gk = getOrCreateSystemAccount_keeps [OF g l1]
  have ar: "ar = a" using go(1) ar2 by simp
  note tm2 = trade_more [OF gk(8)] and k = createEntry_keeps(1,3,5) [OF refl ce gk(1)]
  note tm3 = trade_more [OF k(3)] and fr3 = createEntry_frame [OF ce]
  have "input_effect (dec E) [post_line (acc_id advances) (Some ''Customer advance applied'') (d_fixed (dec E) 4 x) 0,
                   post_line (acc_id a) (Some (''Applied to '' @ join '', '' numbers)) 0 (d_fixed (dec E) 4 x)] a = - x"
    using go(3) a(2) fixed_id [OF mx] by (simp add: input_effect_def post_line_def signedDelta_def)
  then have art: "by_number t co ACCT_AR = Some (a\<lparr>acc_balance := acc_balance a - x\<rparr>)"
    using posted_balances [OF ce gk(1), of co ACCT_AR] go(1)
    by (simp add: t add_customer_balance_def by_number_def input_effect_numbered ar)
  show ?thesis
  proof (rule apply_step [OF ok a(1) ap1 refl _ art])
    show "ledger_ok t" using k(1) by (rule ledger_ok_same [rotated -1]) (simp_all add: t add_customer_balance_def)
    show "balances_move co ?k (- x) (db_customers s) (db_customers t)"
      using balances_moveI [OF decimal_lib_axioms on_grid_minus [OF mx] customer_balances_money [OF ok]]
      by (simp add: t add_customer_balance_def tm3(1) tm2(1) s1)
    show "x = 0 \<or> find_customer co ?k s \<noteq> None" using apply_all_customer [OF ap r] by (auto simp: x_def)
    show "db_invoices t = db_invoices s1" by (simp add: t add_customer_balance_def tm3(2) tm2(2))
    show "db_fresh s \<le> db_fresh t" using k(2) go(2) by (simp add: t add_customer_balance_def s1)
    show "set (db_entries s1) \<subseteq> set (db_entries t)" using fr3 gk(6) by (auto simp: t add_customer_balance_def)
  qed (simp add: s1)
qed

end

end
