(* ===== verification/CreditMemos.thy ===== *)
theory CreditMemos
  imports PaymentLaws
begin

text \<open>
  Credit memos: \<^verbatim>\<open>src/modules/credit-memos/credit-memos.service.ts\<close>. Issuing a memo for goods or money a customer
  gives back, settling an invoice from it, refunding what is left of it, voiding and deleting it.
\<close>

section \<open>Inputs\<close>

record memo_line_input =
  mn_item :: "nat option"
  mn_description :: string
  mn_quantity :: rat
  mn_unitPrice :: rat
  mn_taxRate :: "rat option"
  mn_unitCost :: "rat option"

record memo_input =
  mo_customer :: nat
  mo_date :: date
  mo_originalInvoice :: "nat option"
  mo_reason :: "string option"
  mo_lines :: "memo_line_input list"

record memo_totals =
  mt_subtotal :: rat
  mt_taxAmount :: rat
  mt_total :: rat
  mt_lines :: "credit_memo_line list"

section \<open>Totals\<close>

definition memo_base :: "decimal_js \<Rightarrow> memo_line_input \<Rightarrow> rat" where
  "memo_base D l = d_prec D (mn_quantity l * mn_unitPrice l)"

definition memo_tax :: "decimal_js \<Rightarrow> memo_line_input \<Rightarrow> rat" where
  "memo_tax D l = d_prec D (d_prec D (memo_base D l * toDecimal (mn_taxRate l)) / 100)"

definition memo_line :: "decimal_js \<Rightarrow> nat \<Rightarrow> memo_line_input \<Rightarrow> credit_memo_line" where
  "memo_line D i l =
     \<lparr>ml_item = mn_item l, ml_description = mn_description l, ml_quantity = d_fixed D 4 (mn_quantity l),
      ml_unitPrice = d_fixed D 4 (mn_unitPrice l), ml_taxRate = d_fixed D 4 (toDecimal (mn_taxRate l)),
      ml_lineTotal = d_fixed D 4 (memo_base D l + memo_tax D l),
      ml_restockUnitCost = map_option (d_fixed D 4) (mn_unitCost l), ml_order = i\<rparr>"

definition memo_computeTotals :: "decimal_js \<Rightarrow> memo_line_input list \<Rightarrow> memo_totals" where
  "memo_computeTotals D lines =
     (let (subtotal, tax) = foldl (\<lambda>(s, t) l. (s + memo_base D l, t + memo_tax D l)) (0, 0) lines
      in \<lparr>mt_subtotal = d_fixed D 4 subtotal, mt_taxAmount = d_fixed D 4 tax, mt_total = d_fixed D 4 (subtotal + tax),
          mt_lines = map (\<lambda>(i, l). memo_line D i l) (enumerate 0 lines)\<rparr>)"

section \<open>Stock\<close>

text \<open>
  One line of \<open>postCreditMemoInventory\<close>: the total so far, the line as it is saved, and the tables. A line whose cost
  is not positive is passed over before the stock is touched.
\<close>

definition restock_unit :: "credit_memo_line \<Rightarrow> inv_item \<Rightarrow> rat" where
  "restock_unit l it = (case ml_restockUnitCost l of None \<Rightarrow> it_unitCost it | Some c \<Rightarrow> c)"

definition restocked_item :: "decimal_js \<Rightarrow> bool \<Rightarrow> rat \<Rightarrow> credit_memo_line \<Rightarrow> inv_item \<Rightarrow> inv_item" where
  "restocked_item D reverse cost l it =
     (let onHand = it_onHand it;
          newQty = (if reverse then onHand - ml_quantity l else onHand + ml_quantity l);
          current = d_prec D (onHand * it_unitCost it);
          nextValue = (if reverse then current - cost else current + cost);
          unit = (if 0 < newQty then d_fixed D 4 (d_prec D (nextValue / newQty))
                  else if reverse then 0 else it_unitCost it)
      in it\<lparr>it_unitCost := unit, it_onHand := d_fixed D 4 newQty\<rparr>)"

definition memo_movement :: "bool \<Rightarrow> credit_memo \<Rightarrow> nat \<Rightarrow> rat \<Rightarrow> credit_memo_line \<Rightarrow> inv_item \<Rightarrow> movement_input" where
  "memo_movement reverse cm user cost l it =
     (let qty = ml_quantity l
      in \<lparr>mi_company = cm_company cm, mi_item = it_id it, mi_date = cm_date cm,
          mi_type = (if reverse then ''sale'' else ''return''),
          mi_quantity = (if reverse then - qty else qty),
          mi_balanceAfter = (if reverse then it_onHand it - qty else it_onHand it + qty),
          mi_value = (if reverse then - cost else cost),
          mi_reference = cm_number cm, mi_description = None,
          mi_sourceType = Some (if reverse then ''credit_memo_void'' else ''credit_memo''), mi_sourceId = Some (cm_id cm),
          mi_createdBy = Some user\<rparr>)"

definition memo_stock_line :: "decimal_js \<Rightarrow> credit_memo \<Rightarrow> nat \<Rightarrow> bool \<Rightarrow> rat \<times> credit_memo_line list \<times> 'a trade_db_scheme \<Rightarrow>
    credit_memo_line \<Rightarrow> (rat \<times> credit_memo_line list \<times> 'a trade_db_scheme) result" where
  "memo_stock_line D cm user reverse acc l =
     (let (total, done, s) = acc in
      case Option.bind (ml_item l) (\<lambda>i. find (\<lambda>it. it_id it = i \<and> it_company it = cm_company cm) (db_items s)) of
        None \<Rightarrow> Inr (total, done @ [l], s)
      | Some it \<Rightarrow>
          let unit = restock_unit l it; cost = d_prec D (ml_quantity l * unit) in
          if cost \<le> 0 then Inr (total, done @ [l], s)
          else
            let it' = restocked_item D reverse cost l it;
                l' = (if reverse then l else l\<lparr>ml_restockUnitCost := Some (d_fixed D 4 unit)\<rparr>)
            in bindE (if reverse then assertSufficientStock (it_onHand it) (ml_quantity l) else Inr ()) (\<lambda>_.
               throw_if (it_onHand it' < 0) (DbError ''check_violation'')
              (Inr (total + cost, done @ [l'],
                    recordInventoryMovement D (memo_movement reverse cm user cost l it)
                      (s\<lparr>db_items := update_row it_id (it_id it) (\<lambda>_. it') (db_items s)\<rparr>)))))"

definition postCreditMemoInventory :: "decimal_js \<Rightarrow> credit_memo \<Rightarrow> nat \<Rightarrow> bool \<Rightarrow> 'a trade_db_scheme \<Rightarrow>
    (rat \<times> credit_memo_line list \<times> 'a trade_db_scheme) result" where
  "postCreditMemoInventory D cm user reverse s = foldE (memo_stock_line D cm user reverse) (0, [], s) (cm_lines cm)"

section \<open>Issuing\<close>

definition memo_numbers :: "nat \<Rightarrow> 'a trade_db_scheme \<Rightarrow> string list" where
  "memo_numbers co s = List.map_filter (\<lambda>m. if cm_company m = co then cm_number m else None) (db_memos s)"

definition find_memo :: "nat \<Rightarrow> nat \<Rightarrow> 'a trade_db_scheme \<Rightarrow> credit_memo option" where
  "find_memo co i s = find (\<lambda>m. cm_id m = i \<and> cm_company m = co) (db_memos s)"

definition save_memo :: "credit_memo \<Rightarrow> 'a trade_db_scheme \<Rightarrow> 'a trade_db_scheme" where
  "save_memo m s = s\<lparr>db_memos := update_row cm_id (cm_id m) (\<lambda>_. m) (db_memos s)\<rparr>"

definition new_memo :: "nat \<Rightarrow> nat \<Rightarrow> memo_input \<Rightarrow> string \<Rightarrow> memo_totals \<Rightarrow> 'a ledger_db_scheme \<Rightarrow> credit_memo" where
  "new_memo co user d number tot s =
     \<lparr>cm_id = db_fresh s, cm_company = co, cm_customer = mo_customer d, cm_number = Some number, cm_date = mo_date d,
      cm_originalInvoice = mo_originalInvoice d, cm_reason = mo_reason d, cm_subtotal = mt_subtotal tot,
      cm_taxAmount = mt_taxAmount tot, cm_total = mt_total tot, cm_amountApplied = 0, cm_balance = mt_total tot,
      cm_status = CM_open, cm_entry = None, cm_refundAccount = None, cm_createdBy = Some user, cm_lines = mt_lines tot\<rparr>"

text \<open>The lines of the entry: the sale taken back, and the goods taken back at their cost.\<close>

definition returned_lines :: "decimal_js \<Rightarrow> nat \<Rightarrow> rat \<Rightarrow> 'a ledger_db_scheme \<Rightarrow> posting_line list result" where
  "returned_lines D co cost s =
     (if 0 < cost
      then bindE (getByNumberOrFail s co ACCT_INVENTORY) (\<lambda>iv.
           bindE (getByNumberOrFail s co ACCT_COGS) (\<lambda>cg.
           Inr [post_line (acc_id iv) (Some ''Inventory returned to stock'') (d_fixed D 4 cost) 0,
                post_line (acc_id cg) (Some ''COGS reversed on return'') 0 (d_fixed D 4 cost)]))
      else Inr [])"

definition tax_account :: "nat \<Rightarrow> rat \<Rightarrow> 'a ledger_db_scheme \<Rightarrow> account list result" where
  "tax_account co tax s =
     (if 0 < tax then bindE (getByNumberOrFail s co ACCT_TAX_PAYABLE) (\<lambda>a. Inr [a]) else Inr [])"

definition cm_createInTransaction :: "env \<Rightarrow> nat \<Rightarrow> nat \<Rightarrow> memo_input \<Rightarrow> 'a trade_db_scheme \<Rightarrow>
    (credit_memo \<times> 'a trade_db_scheme) result" where
  "cm_createInTransaction E co user d s =
     some_or (find_customer co (mo_customer d) s) (NotFound ''CUSTOMER_NOT_FOUND'') (\<lambda>_.
     let tot = memo_computeTotals (dec E) (mo_lines d)
     in bindE (series_year (mo_date d)) (\<lambda>year.
        bindE (nextDocumentNumber (memo_numbers co s) co CM year s) (\<lambda>(number, s1).
        let cm = new_memo co user d number tot s1;
            s2 = s1\<lparr>db_memos := db_memos s1 @ [cm], db_fresh := db_fresh s1 + 1\<rparr>
        in bindE (getByNumberOrFail s2 co ACCT_AR) (\<lambda>ar.
           bindE (getByNumberOrFail s2 co ACCT_SALES_REVENUE) (\<lambda>rev.
           bindE (tax_account co (mt_taxAmount tot) s2) (\<lambda>taxes.
           bindE (postCreditMemoInventory (dec E) cm user False s2) (\<lambda>(cost, lines, s3).
           bindE (returned_lines (dec E) co cost s3) (\<lambda>goods.
           bindE (createEntry E s3
             \<lparr>pi_company = co, pi_date = mo_date d, pi_memo = Some (''Credit memo '' @ number), pi_createdBy = user,
              pi_lines = number_lines (
                [post_line (acc_id rev) (Some ''Sales returns / credit'') (mt_subtotal tot) 0]
                @ map (\<lambda>tax. post_line (acc_id tax) (Some ''Tax adjustment'') (mt_taxAmount tot) 0) taxes
                @ [post_line (acc_id ar) (Some (''Credit memo '' @ number)) 0 (mt_total tot)] @ goods),
              pi_posted = True, pi_sourceType = Some ''credit_memo'', pi_sourceId = Some (cm_id cm), pi_reversalOf = None\<rparr>) (\<lambda>(entry, s4).
           let cm' = cm\<lparr>cm_lines := lines, cm_entry := Some (je_id entry)\<rparr>
           in Inr (cm', add_customer_balance (dec E) co (mo_customer d) (- mt_total tot) (save_memo cm' s4)))))))))))"

definition cm_create :: "env \<Rightarrow> nat \<Rightarrow> nat \<Rightarrow> memo_input \<Rightarrow> 'a trade_db_scheme \<Rightarrow> (credit_memo \<times> 'a trade_db_scheme) result" where
  "cm_create E co user d = transaction (cm_createInTransaction E co user d)"

section \<open>Settling an invoice\<close>

definition used_memo :: "decimal_js \<Rightarrow> rat \<Rightarrow> credit_memo \<Rightarrow> credit_memo" where
  "used_memo D amt cm =
     (let applied = d_fixed D 4 (cm_amountApplied cm + amt);
          bal = d_fixed D 4 (cm_total cm - applied)
      in cm\<lparr>cm_amountApplied := applied, cm_balance := bal, cm_status := (if bal \<le> 0 then CM_closed else CM_applied)\<rparr>)"

definition cm_applyInTransaction :: "env \<Rightarrow> nat \<Rightarrow> nat \<Rightarrow> nat \<Rightarrow> rat \<Rightarrow> 'a trade_db_scheme \<Rightarrow> (credit_memo \<times> 'a trade_db_scheme) result" where
  "cm_applyInTransaction E co i invoiceId amt s =
     some_or (find_memo co i s) (NotFound ''CREDIT_MEMO_NOT_FOUND'') (\<lambda>cm.
     throw_if (cm_status cm \<in> {CM_void, CM_refunded, CM_closed}) (BadRequest ''CREDIT_UNAVAILABLE'')
    (throw_if (\<not> isPositive amt) (BadRequest ''VALIDATION_FAILED'')
    (throw_if (cm_balance cm + MONEY_TOLERANCE < amt) (BadRequest ''EXCEEDS_CREDIT'')
    (some_or (find_invoice co invoiceId s) (NotFound ''INVOICE_NOT_FOUND'') (\<lambda>target.
     throw_if (in_customer target \<noteq> cm_customer cm) (BadRequest ''CUSTOMER_MISMATCH'')
    (bindE (applyPayment E co invoiceId (d_fixed (dec E) 4 amt) s) (\<lambda>(_, s1).
     let cm' = used_memo (dec E) amt cm
     in Inr (cm', save_memo cm' s1))))))))"

definition cm_apply :: "env \<Rightarrow> nat \<Rightarrow> nat \<Rightarrow> nat \<Rightarrow> rat \<Rightarrow> 'a trade_db_scheme \<Rightarrow> (credit_memo \<times> 'a trade_db_scheme) result" where
  "cm_apply E co i invoiceId amt = transaction (cm_applyInTransaction E co i invoiceId amt)"

section \<open>Refunding, voiding, deleting\<close>

definition cm_refund :: "env \<Rightarrow> nat \<Rightarrow> nat \<Rightarrow> nat \<Rightarrow> nat option \<Rightarrow> 'a trade_db_scheme \<Rightarrow> (credit_memo \<times> 'a trade_db_scheme) result" where
  "cm_refund E co i user bankAccount =
     transaction (\<lambda>s.
       some_or (find_memo co i s) (NotFound ''CREDIT_MEMO_NOT_FOUND'') (\<lambda>cm.
       throw_if (cm_balance cm \<le> 0) (BadRequest ''NO_BALANCE'')
      (bindE (getByNumberOrFail s co ACCT_AR) (\<lambda>ar.
       bindE (resolveMoneyAccount s co bankAccount ACCT_CASH) (\<lambda>cash.
       let remaining = d_fixed (dec E) 4 (cm_balance cm)
       in bindE (createEntry E s
            \<lparr>pi_company = co, pi_date = today E,
             pi_memo = Some (''Refund credit memo '' @ (case cm_number cm of None \<Rightarrow> ''null'' | Some n \<Rightarrow> n)), pi_createdBy = user,
             pi_lines = number_lines [post_line (acc_id ar) None remaining 0, post_line (acc_id cash) None 0 remaining],
             pi_posted = True, pi_sourceType = Some ''credit_memo_refund'', pi_sourceId = Some (cm_id cm), pi_reversalOf = None\<rparr>) (\<lambda>(_, s1).
          let cm' = cm\<lparr>cm_balance := 0, cm_status := CM_refunded, cm_refundAccount := Some (acc_id cash)\<rparr>
          in Inr (cm', save_memo cm' (add_customer_balance (dec E) co (cm_customer cm) remaining s1))))))))"

definition taken_out_lines :: "decimal_js \<Rightarrow> nat \<Rightarrow> rat \<Rightarrow> 'a ledger_db_scheme \<Rightarrow> posting_line list result" where
  "taken_out_lines D co cost s =
     (if 0 < cost
      then bindE (getByNumberOrFail s co ACCT_COGS) (\<lambda>cg.
           bindE (getByNumberOrFail s co ACCT_INVENTORY) (\<lambda>iv.
           Inr [post_line (acc_id cg) None (d_fixed D 4 cost) 0, post_line (acc_id iv) None 0 (d_fixed D 4 cost)]))
      else Inr [])"

definition reverse_memo :: "env \<Rightarrow> nat \<Rightarrow> nat \<Rightarrow> credit_memo \<Rightarrow> nat \<Rightarrow> 'a trade_db_scheme \<Rightarrow> 'a trade_db_scheme result" where
  "reverse_memo E co user cm entry s =
     bindE (getByNumberOrFail s co ACCT_AR) (\<lambda>ar.
     bindE (getByNumberOrFail s co ACCT_SALES_REVENUE) (\<lambda>rev.
     bindE (tax_account co (cm_taxAmount cm) s) (\<lambda>taxes.
     bindE (postCreditMemoInventory (dec E) cm user True s) (\<lambda>(cost, _, s1).
     bindE (taken_out_lines (dec E) co cost s1) (\<lambda>goods.
     bindE (createEntry E s1
       \<lparr>pi_company = co, pi_date = today E,
        pi_memo = Some (''Void credit memo '' @ (case cm_number cm of None \<Rightarrow> ''null'' | Some n \<Rightarrow> n)), pi_createdBy = user,
        pi_lines = number_lines (
          [post_line (acc_id ar) None (cm_total cm) 0, post_line (acc_id rev) None 0 (cm_subtotal cm)]
          @ map (\<lambda>tax. post_line (acc_id tax) None 0 (cm_taxAmount cm)) taxes @ goods),
        pi_posted = True, pi_sourceType = Some ''credit_memo_void'', pi_sourceId = Some (cm_id cm), pi_reversalOf = Some entry\<rparr>) (\<lambda>(_, s2).
     Inr s2))))))"

definition cm_void :: "env \<Rightarrow> nat \<Rightarrow> nat \<Rightarrow> nat \<Rightarrow> 'a trade_db_scheme \<Rightarrow> (credit_memo \<times> 'a trade_db_scheme) result" where
  "cm_void E co i user =
     transaction (\<lambda>s.
       some_or (find_memo co i s) (NotFound ''CREDIT_MEMO_NOT_FOUND'') (\<lambda>cm.
       throw_if (cm_status cm = CM_void) (BadRequest ''ALREADY_VOID'')
      (throw_if (cm_status cm = CM_refunded) (BadRequest ''ALREADY_REFUNDED'')
      (throw_if (0 < cm_amountApplied cm) (BadRequest ''ALREADY_APPLIED'')
      (bindE (case cm_entry cm of None \<Rightarrow> Inr s | Some e \<Rightarrow> reverse_memo E co user cm e s) (\<lambda>s1.
       let cm' = cm\<lparr>cm_status := CM_void, cm_balance := 0\<rparr>
       in Inr (cm', save_memo cm' (add_customer_balance (dec E) co (cm_customer cm) (cm_total cm) s1))))))))"

text \<open>Deleting voids in a transaction of its own and then removes the row.\<close>

definition cm_delete :: "env \<Rightarrow> nat \<Rightarrow> nat \<Rightarrow> nat \<Rightarrow> 'a trade_db_scheme \<Rightarrow> (unit \<times> 'a trade_db_scheme) result" where
  "cm_delete E co i user s =
     some_or (find_memo co i s) (NotFound ''CREDIT_MEMO_NOT_FOUND'') (\<lambda>cm.
     throw_if (cm_status cm \<noteq> CM_open) (BadRequest ''CANNOT_DELETE'')
    (bindE (if cm_entry cm \<noteq> None then map_sum id snd (cm_void E co i user s) else Inr s) (\<lambda>s1.
     Inr ((), s1\<lparr>db_memos := filter (\<lambda>m. cm_id m \<noteq> cm_id cm) (db_memos s1)\<rparr>))))"

end
