(* ===== verification/CreditMemoLaws.thy ===== *)
theory CreditMemoLaws
  imports CreditMemos
begin

text \<open>
  What credit memos do to receivables: the credit a customer holds is what they owe less than their open invoices. Every
  operation on memos keeps that, and the operations on invoices and receipts leave the memos alone.
\<close>

section \<open>What the customers hold\<close>

definition credit :: "nat \<Rightarrow> nat \<Rightarrow> credit_memo \<Rightarrow> rat" where
  "credit co k m = (if cm_company m = co \<and> cm_customer m = k then cm_balance m else 0)"

definition held :: "nat \<Rightarrow> nat \<Rightarrow> 'a trade_db_scheme \<Rightarrow> rat" where
  "held co k s = (\<Sum>m\<leftarrow>db_memos s. credit co k m)"

definition memo_row_ok :: "'a trade_db_scheme \<Rightarrow> credit_memo \<Rightarrow> bool" where
  "memo_row_ok s m \<longleftrightarrow>
     money (cm_total m) \<and> money (cm_amountApplied m) \<and> 0 \<le> cm_amountApplied m
     \<and> (if cm_status m \<in> {CM_void, CM_refunded} then cm_balance m = 0
        else cm_balance m = cm_total m - cm_amountApplied m \<and> cm_entry m \<noteq> None)
     \<and> find_customer (cm_company m) (cm_customer m) s \<noteq> None"

definition memos_ok :: "nat \<Rightarrow> 'a trade_db_scheme \<Rightarrow> bool" where
  "memos_ok co s \<longleftrightarrow>
     distinct (map cm_id (db_memos s)) \<and> (\<forall>m \<in> set (db_memos s). cm_id m < db_fresh s)
     \<and> (\<forall>m \<in> set (db_memos s). cm_company m = co \<longrightarrow> memo_row_ok s m)"

text \<open>The companies with a receipt from before advances were posted.\<close>

definition unposted :: "'a trade_db_scheme \<Rightarrow> nat set" where
  "unposted s = {pm_company p | p. p \<in> set (db_payments s) \<and> \<not> pm_advancePosted p}"

definition sales_ok :: "nat \<Rightarrow> 'a trade_db_scheme \<Rightarrow> bool" where
  "sales_ok co s \<longleftrightarrow> receivables_ok (\<lambda>k. - held co k s) co s \<and> memos_ok co s \<and> co \<notin> unposted s"

lemma memo_money: "memo_row_ok s m \<Longrightarrow> money (cm_balance m)"
  by (auto simp: memo_row_ok_def on_grid_diff split: if_splits)

lemma held_money: "memos_ok co s \<Longrightarrow> money (held co k s)"
  unfolding held_def by (rule on_grid_sum_list) (auto simp: credit_def memos_ok_def intro: memo_money)

lemma held_same: "db_memos t = db_memos s \<Longrightarrow> held co k t = held co k s"
  by (simp add: held_def)

section \<open>Operations that leave the memos alone\<close>

definition customer_keys :: "'a trade_db_scheme \<Rightarrow> (nat \<times> nat) list" where
  "customer_keys s = map (\<lambda>c. (cu_companyId c, cu_id c)) (db_customers s)"

lemma keys_same [simp]:
  "customer_keys (s\<lparr>db_invoices := vs\<rparr>) = customer_keys s" "customer_keys (s\<lparr>db_applications := as\<rparr>) = customer_keys s"
  "customer_keys (s\<lparr>db_payments := ps\<rparr>) = customer_keys s" "customer_keys (s\<lparr>db_memos := ms\<rparr>) = customer_keys s"
  "customer_keys (s\<lparr>db_items := its\<rparr>) = customer_keys s" "customer_keys (s\<lparr>db_movements := mvs\<rparr>) = customer_keys s"
  "customer_keys (s\<lparr>db_fresh := n\<rparr>) = customer_keys s"
  by (simp_all add: customer_keys_def)

lemma unposted_same [simp]:
  "unposted (s\<lparr>db_invoices := vs\<rparr>) = unposted s" "unposted (s\<lparr>db_applications := as\<rparr>) = unposted s"
  "unposted (s\<lparr>db_memos := ms\<rparr>) = unposted s" "unposted (s\<lparr>db_fresh := n\<rparr>) = unposted s"
  by (simp_all add: unposted_def)

lemma unposted_payments: "db_payments t = db_payments s \<Longrightarrow> unposted t = unposted s"
  by (simp add: unposted_def)

definition leaves_memos :: "'a trade_db_scheme \<Rightarrow> 'a trade_db_scheme \<Rightarrow> bool" where
  "leaves_memos s t \<longleftrightarrow> db_memos t = db_memos s \<and> db_fresh s \<le> db_fresh t \<and> customer_keys t = customer_keys s
     \<and> unposted t = unposted s"

named_theorems memo_frames

lemma leaves_refl [simp]: "leaves_memos s s"
  by (simp add: leaves_memos_def)

lemma leaves_trans [trans]: "leaves_memos s t \<Longrightarrow> leaves_memos t u \<Longrightarrow> leaves_memos s u"
  by (auto simp: leaves_memos_def)

lemma leaves_rows:
  assumes "leaves_memos s t"
  shows "memos_ok co s \<Longrightarrow> memos_ok co t" and "held co k t = held co k s" and "co \<in> unposted t \<Longrightarrow> co \<in> unposted s"
proof -
  have "find_customer c k t \<noteq> None \<longleftrightarrow> find_customer c k s \<noteq> None" for c k
    using assms unfolding find_customer_keys leaves_memos_def customer_keys_def by simp
  then show "memos_ok co s \<Longrightarrow> memos_ok co t"
    using assms unfolding memos_ok_def memo_row_ok_def leaves_memos_def by fastforce
  show "held co k t = held co k s" using assms by (simp add: leaves_memos_def held_def)
  show "co \<in> unposted t \<Longrightarrow> co \<in> unposted s" using assms by (auto simp: leaves_memos_def)
qed

lemma leaves_sales:
  assumes "leaves_memos s t" and "sales_ok co s" and "\<And>g. receivables_ok g co s \<Longrightarrow> receivables_ok g co t"
  shows "sales_ok co t"
  using assms leaves_rows [OF assms(1)] by (auto simp: sales_ok_def)

text \<open>Saving a receipt whose remainder is posted.\<close>

lemma save_payment_sales:
  assumes "pm_advancePosted p" and "sales_ok co s" and "receivables_ok (\<lambda>k. - held co k s) co (save_payment p s)"
  shows "sales_ok co (save_payment p s)"
proof -
  have "unposted (save_payment p s) \<subseteq> unposted s"
    using assms(1) by (auto simp: unposted_def save_payment_def update_row_def)
  moreover have "memos_ok co (save_payment p s) = memos_ok co s" "\<And>k. held co k (save_payment p s) = held co k s"
    by (simp_all add: memos_ok_def save_payment_def memo_row_ok_def find_customer_def held_def)
  ultimately show ?thesis using assms(2,3) by (auto simp: sales_ok_def)
qed

lemma createEntry_leaves [memo_frames]: "createEntry E s inp = Inr (e, t) \<Longrightarrow> leaves_memos s t"
  by (drule createEntry_frame) (auto simp: leaves_memos_def customer_keys_def dest: trade_more(1,12) unposted_payments [OF trade_more(5)])

lemma cogs_leaves [memo_frames]: "postInvoiceCogs D doc user reverse s = Inr (a, ls, t) \<Longrightarrow> leaves_memos s t"
  by (erule postInvoiceCogs_frame) (simp add: leaves_memos_def customer_keys_def unposted_def)

lemma number_leaves [memo_frames]: "nextDocumentNumber nums co series year s = Inr (n, t) \<Longrightarrow> leaves_memos s t"
  by (drule nextDocumentNumber_frame) (auto simp: leaves_memos_def customer_keys_def unposted_def)

lemma credit_leaves [memo_frames]: "enforceCreditLimit D co k x ty i ex ov s = Inr (a, t) \<Longrightarrow> leaves_memos s t"
  by (drule enforceCreditLimit_frame) (auto simp: leaves_memos_def customer_keys_def unposted_def)

lemma balance_leaves [simp]: "leaves_memos s (add_customer_balance D co k x s)"
  by (auto simp: leaves_memos_def customer_keys_def unposted_def add_customer_balance_def)

lemma invoice_leaves [simp]: "leaves_memos s (save_invoice v s)"
  by (simp add: leaves_memos_def customer_keys_def unposted_def save_invoice_def)

lemma refresh_leaves [simp]: "leaves_memos s (refreshDeliveryPaidStatus co v s)"
  using refresh_frame [of co v s] by (auto simp: leaves_memos_def customer_keys_def unposted_def)

lemma insert_leaves [memo_frames]: "insert_invoice v s = Inr t \<Longrightarrow> leaves_memos s t"
  by (auto simp: insert_invoice_def throw_if_Inr leaves_memos_def customer_keys_def unposted_def)

lemma insert_payment_leaves [memo_frames]: "insert_payment p s = Inr t \<Longrightarrow> pm_advancePosted p \<Longrightarrow> leaves_memos s t"
  by (auto simp: insert_payment_def throw_if_Inr leaves_memos_def customer_keys_def unposted_def)

lemmas leaves_unfolded = memo_frames [unfolded leaves_memos_def]

lemma unposted_kept [simp]:
  "unposted (add_customer_balance D co k x s) = unposted s" "unposted (save_invoice v s) = unposted s"
  "unposted (refreshDeliveryPaidStatus co v s) = unposted s"
  using refresh_frame [of co v s] by (auto simp: unposted_def add_customer_balance_def save_invoice_def)

lemma fresh_same [simp]:
  "db_fresh (add_customer_balance D co k x s) = db_fresh s" "db_fresh (save_invoice v s) = db_fresh s"
  "db_fresh (refreshDeliveryPaidStatus co v s) = db_fresh s"
  using refresh_frame [of co v s] by (auto simp: add_customer_balance_def save_invoice_def)

lemmas leaves_simps = leaves_memos_def balance_leaves [unfolded leaves_memos_def] invoice_leaves [unfolded leaves_memos_def]
  refresh_leaves [unfolded leaves_memos_def]

lemma journal_leaves: "createJournalEntryForInvoice E v user s = Inr (v', t) \<Longrightarrow> leaves_memos s t"
  by (auto simp: createJournalEntryForInvoice_def result_simps Let_def leaves_simps dest!: leaves_unfolded)

lemma mirror_leaves: "mirror_entry E co user memo st si e date s = Inr t \<Longrightarrow> leaves_memos s t"
  by (auto simp: mirror_entry_def result_simps Let_def dest: createEntry_leaves split: if_splits)

lemmas more_leaves = journal_leaves [unfolded leaves_memos_def] mirror_leaves [unfolded leaves_memos_def]

lemma create_leaves:
  assumes "inv_createInTransaction E off co user d opts s = Inr (v, t)"
  shows "leaves_memos s t"
proof -
  define tot where "tot = computeTotals (dec E) (ii_lines d) (case ii_discountType d of None \<Rightarrow> D_none | Some t \<Rightarrow> t) (ii_discountValue d)"
  show ?thesis
    using assms [unfolded inv_createInTransaction_def Let_def, folded tot_def]
    by (clarsimp simp: result_simps split del: if_split)
      (auto simp: leaves_simps result_simps dest!: leaves_unfolded more_leaves split: if_splits)
qed

lemma update_leaves: "inv_update E off co i u s = Inr (v, t) \<Longrightarrow> leaves_memos s t"
  by (auto simp: inv_update_def transaction_Inr result_simps Let_def)

lemma send_leaves: "inv_send E co i user ov s = Inr (v, t) \<Longrightarrow> leaves_memos s t"
  by (clarsimp simp: inv_send_def transaction_Inr result_simps Let_def split del: if_split)
    (auto simp: leaves_simps result_simps dest!: leaves_unfolded more_leaves split: if_splits)

lemma void_leaves: "inv_void E co i user reason s = Inr (v, t) \<Longrightarrow> leaves_memos s t"
  by (auto simp: inv_void_def reverse_invoice_def transaction_Inr result_simps Let_def leaves_simps
      dest!: leaves_unfolded split: option.splits)

lemma delete_leaves: "inv_delete E co i user s = Inr (u, t) \<Longrightarrow> leaves_memos s t"
  by (auto simp: inv_delete_def transaction_Inr result_simps Let_def leaves_simps
      dest!: leaves_unfolded more_leaves split: option.splits if_splits)

lemma apply_one_leaves: "apply_one E co k pid on (rows, nums, s) a = Inr (rows', nums', t) \<Longrightarrow> leaves_memos s t"
  by (cases a) (auto simp: apply_one_def applyPayment_def result_simps Let_def leaves_simps)

lemma apply_all_leaves: "foldE (apply_one E co k pid on) (rows, nums, s) apps = Inr (rows', nums', t) \<Longrightarrow> leaves_memos s t"
proof (induction apps arbitrary: rows nums s)
  case (Cons a apps)
  then obtain r n u where "apply_one E co k pid on (rows, nums, s) a = Inr (r, n, u)"
    and "foldE (apply_one E co k pid on) (r, n, u) apps = Inr (rows', nums', t)" by (auto simp: bindE_Inr)
  then show ?case using Cons.IH apply_one_leaves leaves_trans by blast
qed simp

lemma account_leaves: "getOrCreateSystemAccount co n s = Inr (a, t) \<Longrightarrow> leaves_memos s t"
  by (auto simp: getOrCreateSystemAccount_def some_or_Inr Let_def leaves_memos_def customer_keys_def unposted_def save_account_def split: option.splits if_splits)

lemma receipt_lines_leaves: "receipt_lines D co n d bank x y nums s = Inr (ls, t) \<Longrightarrow> leaves_memos s t"
  by (auto simp: receipt_lines_def result_simps Let_def dest: account_leaves split: if_splits)

lemmas payment_leaves = apply_all_leaves [unfolded leaves_memos_def] account_leaves [unfolded leaves_memos_def]
  receipt_lines_leaves [unfolded leaves_memos_def]

lemma receive_leaves:
  assumes "pay_receiveInTransaction E co user d s = Inr (p, t)"
  obtains u where "leaves_memos s u" and "t = save_payment p u" and "pm_advancePosted p"
proof -
  have "\<exists>u. t = save_payment p u \<and> pm_advancePosted p \<and> leaves_memos s u"
    using assms
    apply (clarsimp simp: pay_receiveInTransaction_def result_simps Let_def split del: if_split)
    apply (rule exI, rule conjI, rule refl)
    apply (auto simp: leaves_simps new_payment_def dest!: leaves_unfolded payment_leaves)
    done
  then show thesis using that by blast
qed

lemma apply_leaves:
  assumes "pay_applyInTransaction E co user i apps on fd s = Inr (u, t)"
  shows "leaves_memos s t"
  using assms
  apply (clarsimp simp: pay_applyInTransaction_def result_simps Let_def split del: if_split)
  apply (drule apply_all_leaves)
  apply (simp only: Let_def split: if_splits)
  apply (clarsimp simp: result_simps)
  apply (drule account_leaves createEntry_leaves)+
  apply (simp add: leaves_simps)
  apply (clarsimp simp: leaves_simps)
  done

section \<open>Moving stock for a memo\<close>

lemma memo_stock_frame:
  "memo_stock_line D cm user reverse (a, ls, s) l = Inr (b, ls', t) \<Longrightarrow> \<exists>its mvs. t = s\<lparr>db_items := its, db_movements := mvs\<rparr>"
  by (cases s) (auto simp: memo_stock_line_def result_simps Let_def recordInventoryMovement_def split: option.splits if_splits)

lemma postCreditMemoInventory_frame:
  assumes "postCreditMemoInventory D cm user reverse s = Inr (a, ls, t)"
  obtains its mvs where "t = s\<lparr>db_items := its, db_movements := mvs\<rparr>"
proof -
  let ?P = "\<lambda>(_, _, t). \<exists>its mvs. t = s\<lparr>db_items := its, db_movements := mvs\<rparr>"
  have "?P (a, ls, t)"
    using assms unfolding postCreditMemoInventory_def
  proof (rule foldE_invariant)
    show "?P (0, [], s)" by (cases s) auto
  next
    fix x l y assume "?P x" and "memo_stock_line D cm user reverse x l = Inr y"
    then show "?P y" by (cases x; cases y) (fastforce dest: memo_stock_frame)
  qed
  then show thesis using that by auto
qed

lemma returned_no_effect:
  assumes "ledger_ok s" and "by_number s co ACCT_AR = Some ar"
  shows "returned_lines D co cost s = Inr ls \<Longrightarrow> input_effect D ls ar = 0"
    and "taken_out_lines D co cost s = Inr ls \<Longrightarrow> input_effect D ls ar = 0"
    and "tax_account co tax s = Inr taxes \<Longrightarrow> \<forall>a \<in> set taxes. acc_id a \<noteq> acc_id ar"
  using by_number_ids [OF assms] numbers_differ
  by (fastforce simp: returned_lines_def taken_out_lines_def tax_account_def result_simps input_effect_def post_line_def split: if_splits)+

context posting_env
begin

lemma tax_lines_no_effect:
  assumes "\<forall>a \<in> set taxes. acc_id a \<noteq> acc_id ar"
  shows "input_effect D (map (\<lambda>a. post_line (acc_id a) txt d c) taxes) ar = 0"
  using assms by (induction taxes) (auto simp: input_effect_def post_line_def)

end

section \<open>One step of the memos\<close>

lemma memo_row_keeps:
  assumes "memo_row_ok s m" and "map (\<lambda>c. (cu_companyId c, cu_id c)) (db_customers t) = map (\<lambda>c. (cu_companyId c, cu_id c)) (db_customers s)"
  shows "memo_row_ok t m"
  using assms unfolding memo_row_ok_def find_customer_keys by simp

text \<open>Account 1100 and one customer move by \<open>x\<close>, and what the customer holds moves by as much the other way.\<close>

lemma memo_step:
  assumes ok: "sales_ok co s" and l: "ledger_ok t"
    and ar: "\<And>ar. by_number s co ACCT_AR = Some ar \<Longrightarrow> by_number t co ACCT_AR = Some (ar\<lparr>acc_balance := acc_balance ar + x\<rparr>)"
    and cs: "balances_move co k x (db_customers s) (db_customers t)" and k: "x = 0 \<or> find_customer co k s \<noteq> None"
    and inv: "db_invoices t = db_invoices s" and fr: "db_fresh s \<le> db_fresh t" and es: "set (db_entries s) \<subseteq> set (db_entries t)"
    and ps: "db_payments t = db_payments s"
    and hd: "\<And>j. held co j t = held co j s - (if j = k then x else 0)" and mx: "money x"
    and ids: "distinct (map cm_id (db_memos t))" "\<forall>m \<in> set (db_memos t). cm_id m < db_fresh t"
    and rows: "\<And>m. m \<in> set (db_memos t) \<Longrightarrow> cm_company m = co \<Longrightarrow> m \<in> set (db_memos s) \<or> memo_row_ok t m"
  shows "sales_ok co t"
proof -
  have rc: "receivables_ok (\<lambda>k. - held co k s) co s" and ms: "memos_ok co s" using ok by (simp_all add: sales_ok_def)
  have "receivables_ok (\<lambda>k. - held co k t) co t"
  proof (rule receivables_shift [OF rc l ar cs k])
    show "owed co j t + - held co j t = owed co j s + - held co j s + (if j = k then x else 0)" for j
      by (simp add: hd owed_def inv)
    have "money (held co j t)" for j by (simp add: hd on_grid_diff held_money [OF ms] mx)
    then show "\<forall>j. money (- held co j t)" by (simp add: on_grid_minus)
    show "distinct (map in_id (db_invoices t))" "\<forall>v \<in> set (db_invoices t). in_id v < db_fresh t"
      using rc fr by (auto simp: receivables_ok_def inv)
    show "invoice_row_ok t (a\<lparr>acc_balance := acc_balance a + x\<rparr>) v"
      if "by_number s co ACCT_AR = Some a" "v \<in> set (db_invoices t)" "in_company v = co" for a v
      using that by (intro old_row_keeps [OF rc _ _ _ es cs]) (simp_all add: inv)
  qed
  moreover have "memo_row_ok t m" if "m \<in> set (db_memos s)" "cm_company m = co" for m
  proof -
    have "memo_row_ok s m" using ms that by (simp add: memos_ok_def)
    then show ?thesis using balances_move_keys [OF cs] by (rule memo_row_keeps)
  qed
  moreover have "co \<notin> unposted t" using ok unposted_payments [OF ps] by (simp add: sales_ok_def)
  ultimately show ?thesis using ids rows unfolding sales_ok_def memos_ok_def by blast
qed

lemma find_memo_Some:
  "find_memo co i s = Some m \<Longrightarrow> m \<in> set (db_memos s) \<and> cm_id m = i \<and> cm_company m = co"
  by (auto simp: find_memo_def dest: find_Some_mem)

text \<open>A step that replaces one memo.\<close>

lemma memo_replaced:
  assumes ms: "memos_ok co s" and m: "m \<in> set (db_memos s)" "cm_company m = co"
    and m': "cm_id m' = cm_id m" "cm_company m' = co" "cm_customer m' = cm_customer m"
    and t: "db_memos t = update_row cm_id (cm_id m) (\<lambda>_. m') (db_memos s)" and fr: "db_fresh s \<le> db_fresh t"
  shows "held co j t = held co j s - (if j = cm_customer m then cm_balance m - cm_balance m' else 0)"
    and "distinct (map cm_id (db_memos t))"
    and "set (db_memos t) \<subseteq> insert m' (set (db_memos s))"
    and "\<forall>w \<in> set (db_memos t). cm_id w < db_fresh t"
proof -
  have d: "distinct (map cm_id (db_memos s))" using ms by (simp add: memos_ok_def)
  show "held co j t = held co j s - (if j = cm_customer m then cm_balance m - cm_balance m' else 0)"
    unfolding held_def t sum_replaced [OF d m(1)] using m m' by (simp add: credit_def)
  have "map cm_id (db_memos t) = map cm_id (db_memos s)" unfolding t update_row_def using m' by auto
  then show "distinct (map cm_id (db_memos t))" using d by simp
  show sub: "set (db_memos t) \<subseteq> insert m' (set (db_memos s))" unfolding t update_row_def by auto
  have less: "\<forall>w \<in> set (db_memos s). cm_id w < db_fresh s" using ms by (simp add: memos_ok_def)
  show "\<forall>w \<in> set (db_memos t). cm_id w < db_fresh t"
  proof
    fix w assume "w \<in> set (db_memos t)"
    then have "cm_id w < db_fresh s" using sub less m(1) m'(1) by auto
    then show "cm_id w < db_fresh t" using fr by simp
  qed
qed

context posting_env
begin

lemma create_memo_keeps:
  assumes run: "cm_createInTransaction E co user d s = Inr (cm', t)" and ok: "sales_ok co s"
  shows "sales_ok co t"
proof -
  define tot where "tot = memo_computeTotals (dec E) (mo_lines d)"
  from run [unfolded cm_createInTransaction_def Let_def, folded tot_def] obtain year number s1 ar rev taxes cost ls s3 goods e s4 where
    c: "find_customer co (mo_customer d) s \<noteq> None"
    and n: "nextDocumentNumber (memo_numbers co s) co CM year s = Inr (number, s1)"
    and accs: "by_number (s1\<lparr>db_memos := db_memos s1 @ [new_memo co user d number tot s1], db_fresh := db_fresh s1 + 1\<rparr>) co ACCT_AR = Some ar"
      "by_number (s1\<lparr>db_memos := db_memos s1 @ [new_memo co user d number tot s1], db_fresh := db_fresh s1 + 1\<rparr>) co ACCT_SALES_REVENUE = Some rev"
    and taxes: "tax_account co (mt_taxAmount tot)
      (s1\<lparr>db_memos := db_memos s1 @ [new_memo co user d number tot s1], db_fresh := db_fresh s1 + 1\<rparr>) = Inr taxes"
    and st: "postCreditMemoInventory (dec E) (new_memo co user d number tot s1) user False
      (s1\<lparr>db_memos := db_memos s1 @ [new_memo co user d number tot s1], db_fresh := db_fresh s1 + 1\<rparr>) = Inr (cost, ls, s3)"
    and goods: "returned_lines (dec E) co cost s3 = Inr goods"
    and ce: "createEntry E s3
             \<lparr>pi_company = co, pi_date = mo_date d, pi_memo = Some (''Credit memo '' @ number), pi_createdBy = user,
              pi_lines = number_lines (
                [post_line (acc_id rev) (Some ''Sales returns / credit'') (mt_subtotal tot) 0]
                @ map (\<lambda>tax. post_line (acc_id tax) (Some ''Tax adjustment'') (mt_taxAmount tot) 0) taxes
                @ [post_line (acc_id ar) (Some (''Credit memo '' @ number)) 0 (mt_total tot)] @ goods),
              pi_posted = True, pi_sourceType = Some ''credit_memo'', pi_sourceId = Some (cm_id (new_memo co user d number tot s1)), pi_reversalOf = None\<rparr> = Inr (e, s4)"
    and cm': "cm' = (new_memo co user d number tot s1)\<lparr>cm_lines := ls, cm_entry := Some (je_id e)\<rparr>"
    and t: "t = add_customer_balance (dec E) co (mo_customer d) (- mt_total tot) (save_memo cm' s4)"
    by (clarsimp simp: result_simps)
  define cm where "cm = new_memo co user d number tot s1"
  define s2 where "s2 = s1\<lparr>db_memos := db_memos s1 @ [cm], db_fresh := db_fresh s1 + 1\<rparr>"
  note accs = accs [folded cm_def, folded s2_def] and taxes = taxes [folded cm_def, folded s2_def] and st = st [folded cm_def, folded s2_def]
    and ce = ce [folded cm_def] and cm' = cm' [folded cm_def]
  obtain q where s1: "s1 = s\<lparr>db_sequences := q\<rparr>" using nextDocumentNumber_frame [OF n] by blast
  have rc: "receivables_ok (\<lambda>k. - held co k s) co s" and ms: "memos_ok co s" using ok by (simp_all add: sales_ok_def)
  obtain ar' where ar': "by_number s co ACCT_AR = Some ar'" "acc_type ar' = Asset" and l: "ledger_ok s" using rc by (rule receivable_account)
  have l2: "ledger_ok s2" using l by (rule ledger_ok_same [rotated -1]) (simp_all add: s2_def s1)
  have same: "ar = ar'" using accs(1) ar'(1) by (simp add: s2_def s1 by_number_def)
  obtain its mvs where s3: "s3 = s2\<lparr>db_items := its, db_movements := mvs\<rparr>" using st by (rule postCreditMemoInventory_frame)
  have l3: "ledger_ok s3" using l2 by (rule ledger_ok_same [rotated -1]) (simp_all add: s3)
  have ar3: "by_number s3 co ACCT_AR = Some ar" using accs(1) by (simp add: s3 by_number_def)
  have m: "money (mt_total tot)" by (simp add: tot_def memo_computeTotals_def Let_def case_prod_unfold fixed_grid)
  have "input_effect (dec E) ([post_line (acc_id rev) (Some ''Sales returns / credit'') (mt_subtotal tot) 0]
                @ map (\<lambda>tax. post_line (acc_id tax) (Some ''Tax adjustment'') (mt_taxAmount tot) 0) taxes
                @ [post_line (acc_id ar) (Some (''Credit memo '' @ number)) 0 (mt_total tot)] @ goods) ar = - mt_total tot"
    using by_number_ids [OF l2 accs(1,2) numbers_differ(1)] tax_lines_no_effect [OF returned_no_effect(3) [OF l2 accs(1) taxes]]
      returned_no_effect(1) [OF l3 ar3 goods] ar'(2) fixed_id [OF m] fixed_zero
    unfolding input_effect_append by (simp add: input_effect_def post_line_def signedDelta_def same)
  then have "moves_receivable co (- mt_total tot) s2 s4"
    by (intro moves_receivableI [OF posting_env_axioms ce l2 _ s3]) (simp_all add: input_effect_numbered accs)
  note mv = moves_receivableD [OF this]
  have fresh: "\<forall>m \<in> set (db_memos s). cm_id m \<noteq> cm_id cm" "cm_id cm = db_fresh s" "distinct (map cm_id (db_memos s))"
    using ms by (auto simp: memos_ok_def cm_def new_memo_def s1)
  have "update_row cm_id (cm_id cm) (\<lambda>_. cm') (db_memos s) = db_memos s"
    unfolding update_row_def using fresh(1) by (intro map_idI) auto
  then have memos: "db_memos t = db_memos s @ [cm']"
    by (simp add: t add_customer_balance_def save_memo_def mv(9) s2_def s1 cm') (simp add: update_row_def)
  have row: "cm_company cm' = co" "cm_customer cm' = mo_customer d" "cm_balance cm' = mt_total tot" "cm_id cm' = db_fresh s"
    by (simp_all add: cm' cm_def new_memo_def s1)
  have fresh_t: "db_fresh t = db_fresh s4" by (simp add: t save_memo_def)
  show ?thesis
  proof (rule memo_step [OF ok])
    show "ledger_ok t" using mv(1) by (rule ledger_ok_same [rotated -1]) (simp_all add: t add_customer_balance_def save_memo_def)
    show "by_number t co ACCT_AR = Some (a\<lparr>acc_balance := acc_balance a + - mt_total tot\<rparr>)" if "by_number s co ACCT_AR = Some a" for a
      using mv(2) [OF accs(1)] that ar' by (simp add: t add_customer_balance_def save_memo_def by_number_def same)
    show "balances_move co (mo_customer d) (- mt_total tot) (db_customers s) (db_customers t)"
      using balances_moveI [OF decimal_lib_axioms on_grid_minus [OF m] customer_balances_money [OF rc]]
      by (simp add: t add_customer_balance_def save_memo_def mv(3) s2_def s1)
    show "- mt_total tot = 0 \<or> find_customer co (mo_customer d) s \<noteq> None" using c by simp
    show "db_invoices t = db_invoices s" "set (db_entries s) \<subseteq> set (db_entries t)" "db_payments t = db_payments s"
      using mv(4,6,7) by (simp_all add: t add_customer_balance_def save_memo_def s2_def s1)
    show fr: "db_fresh s \<le> db_fresh t" using mv(5) by (simp add: t add_customer_balance_def save_memo_def s2_def s1)
    show "held co j t = held co j s - (if j = mo_customer d then - mt_total tot else 0)" for j
      by (simp add: held_def memos credit_def row)
    show "money (- mt_total tot)" using m by (rule on_grid_minus)
    show "distinct (map cm_id (db_memos t))" using fresh by (auto simp: memos row)
    show "\<forall>m \<in> set (db_memos t). cm_id m < db_fresh t"
      using ms mv(5) fresh_t by (auto simp: memos row memos_ok_def s2_def s1)
    have "find_customer co (mo_customer d) t \<noteq> None"
      using c balances_move_keys [OF \<open>balances_move co (mo_customer d) (- mt_total tot) (db_customers s) (db_customers t)\<close>]
      by (simp only: find_customer_keys)
    then show "m \<in> set (db_memos s) \<or> memo_row_ok t m" if "m \<in> set (db_memos t)" for m
      using that m by (auto simp: memos memo_row_ok_def cm' cm_def new_memo_def)
  qed
qed

lemma apply_memo_keeps:
  assumes run: "cm_applyInTransaction E co i invoiceId amt s = Inr (cm', t)" and ok: "sales_ok co s" and m: "money amt"
  shows "sales_ok co t"
proof -
  from run obtain cm v v' s1 where f: "find_memo co i s = Some cm" and st: "cm_status cm \<notin> {CM_void, CM_refunded, CM_closed}" and pos: "0 < amt"
    and v: "find_invoice co invoiceId s = Some v" "in_customer v = cm_customer cm"
    and ap: "applyPayment E co invoiceId amt s = Inr (v', s1)" and cm': "cm' = used_memo (dec E) amt cm" and t: "t = save_memo cm' s1"
    by (auto simp: cm_applyInTransaction_def result_simps Let_def fixed_id [OF m] isPositive_def)
  note cm = find_memo_Some [OF f]
  have rc: "receivables_ok (\<lambda>k. - held co k s) co s" and ms: "memos_ok co s" using ok by (simp_all add: sales_ok_def)
  obtain ar where ar: "by_number s co ACCT_AR = Some ar" and l: "ledger_ok s" using rc by (rule receivable_account)
  let ?k = "cm_customer cm" and ?u = "refreshDeliveryPaidStatus co v' s1"
  have "apply_one E co ?k 0 None ([], [], s) (invoiceId, amt)
      = Inr ([\<lparr>ap_payment = 0, ap_invoice = invoiceId, ap_amount = d_fixed (dec E) 4 amt, ap_appliedOn = None, ap_entry = None\<rparr>],
             [in_number v'], ?u)"
    by (simp add: apply_one_def assertInvoiceBelongsToCustomer_def v ap)
  then have ap': "applied_to co ar ?k amt s ?u" using receivables_rows [OF rc ar] m by (rule apply_one_applied(1))
  then obtain vs ds where u: "?u = s\<lparr>db_invoices := vs, db_deliveries := ds\<rparr>" by (auto simp: applied_to_def)
  have s1: "\<exists>vs. s1 = s\<lparr>db_invoices := vs\<rparr>"
    using ap by (auto simp: applyPayment_def result_simps Let_def save_invoice_def)
  have row: "memo_row_ok s cm" using ms cm by (auto simp: memos_ok_def)
  then have mm: "money (cm_amountApplied cm + amt)" "money (cm_total cm - (cm_amountApplied cm + amt))" "money (cm_total cm)"
    using m by (auto simp: memo_row_ok_def intro: on_grid_add on_grid_diff)
  have new: "cm_id cm' = cm_id cm" "cm_company cm' = co" "cm_customer cm' = ?k" "cm_balance cm' = cm_balance cm - amt"
    using cm row st fixed_id [OF mm(1)] fixed_id [OF mm(2)]
    by (auto simp: cm' used_memo_def Let_def memo_row_ok_def)
  have memos: "db_memos t = update_row cm_id (cm_id cm) (\<lambda>_. cm') (db_memos s)"
    using s1 new(1) by (auto simp: t save_memo_def)
  have fr: "db_fresh s \<le> db_fresh t" using s1 by (auto simp: t save_memo_def)
  note rep = memo_replaced [OF ms conjunct1 [OF cm] _ new(1,2,3) memos fr]
  have hd: "- held co j t = - held co j s + (if j = ?k then amt + 0 else 0)" for j
    using rep(1) cm new(4) by simp
  have inv: "db_invoices t = db_invoices ?u" using refresh_frame [of co v' s1] by (auto simp: t save_memo_def)
  have rest: "db_customers t = db_customers s" "db_accounts t = db_accounts s" "db_entries t = db_entries s" "db_fresh t = db_fresh s"
    "db_gl t = db_gl s" "db_payments t = db_payments s" using s1 by (auto simp: t save_memo_def)
  have "receivables_ok (\<lambda>k. - held co k t) co t"
  proof (rule apply_shift [OF rc ar ap' refl, where y = 0])
    show "ledger_ok t" using l by (rule ledger_ok_same [rotated -1]) (simp_all add: rest)
    show "by_number t co ACCT_AR = Some (ar\<lparr>acc_balance := acc_balance ar + 0\<rparr>)" using ar by (simp add: by_number_def rest)
    show "balances_move co ?k 0 (db_customers s) (db_customers t)" by (simp add: rest balances_stay)
    show "set (db_entries ?u) \<subseteq> set (db_entries t)" by (simp add: u rest)
    show "\<forall>j. money (- held co j t)" unfolding hd using held_money [OF ms] m by (auto intro: on_grid_add on_grid_minus on_grid_diff)
  qed (use inv hd in \<open>simp_all add: rest u\<close>)
  moreover have "memos_ok co t"
  proof -
    have keys: "memo_row_ok t w \<longleftrightarrow> memo_row_ok s w" for w by (simp add: memo_row_ok_def find_customer_def rest)
    have "memo_row_ok s cm'" using row st mm new pos fixed_id [OF mm(1)]
      by (auto simp: memo_row_ok_def cm' used_memo_def Let_def)
    then show ?thesis using ms rep(2,3,4) cm unfolding memos_ok_def keys by (metis insert_iff subsetD)
  qed
  ultimately show ?thesis using ok unposted_payments [OF rest(6)] by (simp add: sales_ok_def)
qed

lemma refund_keeps:
  assumes run: "cm_refund E co i user bank s = Inr (cm', t)" and ok: "sales_ok co s"
  shows "sales_ok co t"
proof -
  from run obtain cm ar cash e s1 where f: "find_memo co i s = Some cm" and pos: "0 < cm_balance cm"
    and ar: "by_number s co ACCT_AR = Some ar" and cash: "resolveMoneyAccount s co bank ACCT_CASH = Inr cash"
    and ce: "createEntry E s
            \<lparr>pi_company = co, pi_date = today E,
             pi_memo = Some (''Refund credit memo '' @ (case cm_number cm of None \<Rightarrow> ''null'' | Some n \<Rightarrow> n)), pi_createdBy = user,
             pi_lines = number_lines [post_line (acc_id ar) None (d_fixed (dec E) 4 (cm_balance cm)) 0,
                                      post_line (acc_id cash) None 0 (d_fixed (dec E) 4 (cm_balance cm))],
             pi_posted = True, pi_sourceType = Some ''credit_memo_refund'', pi_sourceId = Some (cm_id cm), pi_reversalOf = None\<rparr> = Inr (e, s1)"
    and cm': "cm' = cm\<lparr>cm_balance := 0, cm_status := CM_refunded, cm_refundAccount := Some (acc_id cash)\<rparr>"
    and t: "t = save_memo cm' (add_customer_balance (dec E) co (cm_customer cm) (d_fixed (dec E) 4 (cm_balance cm)) s1)"
    by (auto simp: cm_refund_def transaction_Inr result_simps Let_def not_le)
  note cm = find_memo_Some [OF f]
  have rc: "receivables_ok (\<lambda>k. - held co k s) co s" and ms: "memos_ok co s" using ok by (simp_all add: sales_ok_def)
  have a: "acc_type ar = Asset" "acc_subType ar \<notin> set MONEY_ACCOUNT_SUB_TYPES" and l: "ledger_ok s"
    using rc ar by (auto simp: receivables_ok_def)
  have row: "memo_row_ok s cm" using ms cm by (auto simp: memos_ok_def)
  note m = memo_money [OF row] and bal = fixed_id [OF memo_money [OF row]]
  have other: "acc_id cash \<noteq> acc_id ar"
    by (rule money_account_not_receivable [OF cash l ar a(2)]) (simp add: ACCT_CASH_def ACCT_AR_def)
  have "input_effect (dec E) [post_line (acc_id ar) None (d_fixed (dec E) 4 (cm_balance cm)) 0,
      post_line (acc_id cash) None 0 (d_fixed (dec E) 4 (cm_balance cm))] ar = cm_balance cm"
    using other a(1) bal by (simp add: input_effect_def post_line_def signedDelta_def)
  then have "moves_receivable co (cm_balance cm) s s1"
    by (intro moves_receivableI [OF posting_env_axioms ce l _, of "db_movements s" "db_items s"]) (simp_all add: input_effect_numbered ar)
  note mv = moves_receivableD [OF this]
  have new: "cm_id cm' = cm_id cm" "cm_company cm' = co" "cm_customer cm' = cm_customer cm" using cm by (simp_all add: cm')
  have memos: "db_memos t = update_row cm_id (cm_id cm) (\<lambda>_. cm') (db_memos s)"
    by (simp add: t save_memo_def add_customer_balance_def mv(9) new)
  have fr: "db_fresh s \<le> db_fresh t" using mv(5) by (simp add: t save_memo_def)
  note rep = memo_replaced [OF ms conjunct1 [OF cm] _ new memos fr]
  have cs: "balances_move co (cm_customer cm) (cm_balance cm) (db_customers s) (db_customers t)"
    using balances_moveI [OF decimal_lib_axioms m customer_balances_money [OF rc]]
    by (simp add: t add_customer_balance_def save_memo_def mv(3) bal)
  have c: "find_customer co (cm_customer cm) s \<noteq> None" using row cm by (auto simp: memo_row_ok_def)
  then have c': "find_customer co (cm_customer cm) t \<noteq> None" using balances_move_keys [OF cs] by (simp only: find_customer_keys)
  show ?thesis
  proof (rule memo_step [OF ok _ _ cs])
    show "ledger_ok t" using mv(1) by (rule ledger_ok_same [rotated -1]) (simp_all add: t add_customer_balance_def save_memo_def)
    show "by_number t co ACCT_AR = Some (b\<lparr>acc_balance := acc_balance b + cm_balance cm\<rparr>)" if "by_number s co ACCT_AR = Some b" for b
      using mv(2) [OF that] by (simp add: t add_customer_balance_def save_memo_def by_number_def)
    show "held co j t = held co j s - (if j = cm_customer cm then cm_balance cm else 0)" for j
      using rep(1) cm by (simp add: cm')
    show "cm_balance cm = 0 \<or> find_customer co (cm_customer cm) s \<noteq> None" using c by simp
    show "distinct (map cm_id (db_memos t))" using rep(2) cm by simp
    show "\<forall>w \<in> set (db_memos t). cm_id w < db_fresh t"
      using rep(4) cm by simp
    show "w \<in> set (db_memos s) \<or> memo_row_ok t w" if "w \<in> set (db_memos t)" for w
    proof -
      have "memo_row_ok t cm'" using row c' cm by (simp add: memo_row_ok_def cm')
      then show ?thesis using that rep(3) cm by auto
    qed
  qed (simp_all add: m t save_memo_def add_customer_balance_def mv)
qed

lemma reverse_memo_moves:
  assumes run: "reverse_memo E co user cm entry s = Inr t" and l: "ledger_ok s"
    and ar: "by_number s co ACCT_AR = Some ar" "acc_type ar = Asset" and m: "money (cm_total cm)"
  shows "moves_receivable co (cm_total cm) s t"
proof -
  from run ar(1) obtain rev taxes cost ls s1 goods e where
    rv: "by_number s co ACCT_SALES_REVENUE = Some rev" and taxes: "tax_account co (cm_taxAmount cm) s = Inr taxes"
    and st: "postCreditMemoInventory (dec E) cm user True s = Inr (cost, ls, s1)"
    and goods: "taken_out_lines (dec E) co cost s1 = Inr goods"
    and ce: "createEntry E s1
       \<lparr>pi_company = co, pi_date = today E,
        pi_memo = Some (''Void credit memo '' @ (case cm_number cm of None \<Rightarrow> ''null'' | Some n \<Rightarrow> n)), pi_createdBy = user,
        pi_lines = number_lines (
          [post_line (acc_id ar) None (cm_total cm) 0, post_line (acc_id rev) None 0 (cm_subtotal cm)]
          @ map (\<lambda>tax. post_line (acc_id tax) None 0 (cm_taxAmount cm)) taxes @ goods),
        pi_posted = True, pi_sourceType = Some ''credit_memo_void'', pi_sourceId = Some (cm_id cm), pi_reversalOf = Some entry\<rparr> = Inr (e, t)"
    by (auto simp: reverse_memo_def result_simps)
  obtain its mvs where s1: "s1 = s\<lparr>db_items := its, db_movements := mvs\<rparr>" using st by (rule postCreditMemoInventory_frame)
  have l1: "ledger_ok s1" using l by (rule ledger_ok_same [rotated -1]) (simp_all add: s1)
  have ar1: "by_number s1 co ACCT_AR = Some ar" using ar(1) by (simp add: s1 by_number_def)
  have "input_effect (dec E) ([post_line (acc_id ar) None (cm_total cm) 0, post_line (acc_id rev) None 0 (cm_subtotal cm)]
          @ map (\<lambda>tax. post_line (acc_id tax) None 0 (cm_taxAmount cm)) taxes @ goods) ar = cm_total cm"
    using by_number_ids [OF l ar(1) rv numbers_differ(1)] tax_lines_no_effect [OF returned_no_effect(3) [OF l ar(1) taxes]]
      returned_no_effect(2) [OF l1 ar1 goods] ar(2) fixed_id [OF m] fixed_zero
    unfolding input_effect_append by (simp add: input_effect_def post_line_def signedDelta_def)
  then show ?thesis
    by (intro moves_receivableI [OF posting_env_axioms ce l _ s1]) (simp_all add: input_effect_numbered ar)
qed

lemma void_memo_keeps:
  assumes run: "cm_void E co i user s = Inr (cm', t)" and ok: "sales_ok co s"
  shows "sales_ok co t" and "cm_id cm' = i \<and> cm_company cm' = co \<and> cm' \<in> set (db_memos t) \<and> cm_balance cm' = 0"
proof -
  from run obtain cm s1 where f: "find_memo co i s = Some cm" and st: "cm_status cm \<notin> {CM_void, CM_refunded}"
    and ap: "cm_amountApplied cm \<le> 0"
    and rev: "(case cm_entry cm of None \<Rightarrow> Inr s | Some e \<Rightarrow> reverse_memo E co user cm e s) = Inr s1"
    and cm': "cm' = cm\<lparr>cm_status := CM_void, cm_balance := 0\<rparr>"
    and t: "t = save_memo cm' (add_customer_balance (dec E) co (cm_customer cm) (cm_total cm) s1)"
    by (auto simp: cm_void_def transaction_Inr result_simps Let_def not_less)
  note cm = find_memo_Some [OF f]
  have rc: "receivables_ok (\<lambda>k. - held co k s) co s" and ms: "memos_ok co s" using ok by (simp_all add: sales_ok_def)
  obtain ar where ar: "by_number s co ACCT_AR = Some ar" "acc_type ar = Asset" and l: "ledger_ok s" using rc by (rule receivable_account)
  have row: "memo_row_ok s cm" using ms cm by (auto simp: memos_ok_def)
  then have bal: "cm_balance cm = cm_total cm" and m: "money (cm_total cm)" and e: "cm_entry cm \<noteq> None"
    using st ap by (auto simp: memo_row_ok_def)
  then have "moves_receivable co (cm_total cm) s s1"
    using rev by (auto intro: reverse_memo_moves [OF _ l ar])
  note mv = moves_receivableD [OF this]
  have new: "cm_id cm' = cm_id cm" "cm_company cm' = co" "cm_customer cm' = cm_customer cm" using cm by (simp_all add: cm')
  have memos: "db_memos t = update_row cm_id (cm_id cm) (\<lambda>_. cm') (db_memos s)"
    by (simp add: t save_memo_def add_customer_balance_def mv(9) new)
  have fr: "db_fresh s \<le> db_fresh t" using mv(5) by (simp add: t save_memo_def)
  note rep = memo_replaced [OF ms conjunct1 [OF cm] _ new memos fr]
  have cs: "balances_move co (cm_customer cm) (cm_total cm) (db_customers s) (db_customers t)"
    using balances_moveI [OF decimal_lib_axioms m customer_balances_money [OF rc]]
    by (simp add: t add_customer_balance_def save_memo_def mv(3))
  have c: "find_customer co (cm_customer cm) s \<noteq> None" using row cm by (auto simp: memo_row_ok_def)
  then have c': "find_customer co (cm_customer cm) t \<noteq> None" using balances_move_keys [OF cs] by (simp only: find_customer_keys)
  show "sales_ok co t"
  proof (rule memo_step [OF ok _ _ cs])
    show "ledger_ok t" using mv(1) by (rule ledger_ok_same [rotated -1]) (simp_all add: t add_customer_balance_def save_memo_def)
    show "by_number t co ACCT_AR = Some (b\<lparr>acc_balance := acc_balance b + cm_total cm\<rparr>)" if "by_number s co ACCT_AR = Some b" for b
      using mv(2) [OF that] by (simp add: t add_customer_balance_def save_memo_def by_number_def)
    show "held co j t = held co j s - (if j = cm_customer cm then cm_total cm else 0)" for j
      using rep(1) cm bal by (simp add: cm')
    show "cm_total cm = 0 \<or> find_customer co (cm_customer cm) s \<noteq> None" using c by simp
    show "distinct (map cm_id (db_memos t))" "\<forall>w \<in> set (db_memos t). cm_id w < db_fresh t" using rep(2,4) cm by simp_all
    show "w \<in> set (db_memos s) \<or> memo_row_ok t w" if "w \<in> set (db_memos t)" for w
    proof -
      have "memo_row_ok t cm'" using row c' cm by (simp add: memo_row_ok_def cm')
      then show ?thesis using that rep(3) cm by auto
    qed
  qed (simp_all add: m t save_memo_def add_customer_balance_def mv)
  show "cm_id cm' = i \<and> cm_company cm' = co \<and> cm' \<in> set (db_memos t) \<and> cm_balance cm' = 0"
    using cm new by (auto simp: memos update_row_def cm')
qed

lemma delete_memo_keeps:
  assumes run: "cm_delete E co i user s = Inr (u, t)" and ok: "sales_ok co s"
  shows "sales_ok co t"
proof -
  from run obtain cm s1 where f: "find_memo co i s = Some cm" and st: "cm_status cm = CM_open"
    and v: "(if cm_entry cm \<noteq> None then map_sum id snd (cm_void E co i user s) else Inr s) = Inr s1"
    and t: "t = s1\<lparr>db_memos := filter (\<lambda>m. cm_id m \<noteq> cm_id cm) (db_memos s1)\<rparr>"
    by (auto simp: cm_delete_def result_simps split del: if_split)
  note cm = find_memo_Some [OF f]
  have "memo_row_ok s cm" using ok cm by (auto simp: sales_ok_def memos_ok_def)
  then have "cm_entry cm \<noteq> None" using st by (auto simp: memo_row_ok_def)
  then obtain cm' where "cm_void E co i user s = Inr (cm', s1)" using v by (auto simp: map_sum_Inr)
  note vk = void_memo_keeps [OF this ok]
  have id: "cm_id cm = cm_id cm'" using vk(2) cm by simp
  have ms: "memos_ok co s1" using vk(1) by (simp add: sales_ok_def)
  have "held co k t = held co k s1" for k
    using sum_removed [of cm_id "db_memos s1" cm' "credit co k"] ms vk(2)
    by (simp add: held_def t id memos_ok_def credit_def [of co k cm'])
  moreover have "memos_ok co t"
    using ms by (auto simp: memos_ok_def t memo_row_ok_def find_customer_def distinct_map_filter)
  moreover have "receivables_ok g co t" if "receivables_ok g co s1" for g
    by (rule receivables_step [OF that, where x = 0 and k = 0])
      (use that in \<open>auto simp: t receivables_ok_def balances_stay by_number_def owed_def invoice_row_ok_def find_customer_def
        intro: ledger_ok_same [rotated -1]\<close>)
  moreover have "unposted t = unposted s1" by (simp add: t)
  ultimately show ?thesis using vk(1) by (simp add: sales_ok_def)
qed

end

end
