(* ===== verification/Settlement.thy ===== *)
theory Settlement
  imports CreditMemoLaws
begin

text \<open>
  Settling a customer's invoices from what they have on account and from new money, in one transaction:
  \<open>settle\<close> of \<^verbatim>\<open>src/modules/payments/payments.service.ts\<close>. Advances go first, receipt by receipt, then credit memos,
  then the new receipt over what these left.
\<close>

section \<open>Inputs and result\<close>

datatype credit_kind = Advance_credit | Memo_credit

record credit_use =
  us_kind :: credit_kind
  us_id :: nat
  us_invoice :: nat
  us_amount :: rat

record settle_cash =
  sc_method :: string
  sc_amount :: rat
  sc_bankAccount :: "nat option"
  sc_reference :: "string option"
  sc_memo :: "string option"
  sc_applications :: "application_input list option"
  sc_holdAsAdvance :: bool

record settle_input =
  si_customer :: nat
  si_date :: date
  si_credits :: "credit_use list"
  si_cash :: "settle_cash option"

record used_credit =
  uc_kind :: credit_kind
  uc_id :: nat
  uc_reference :: "string option"
  uc_invoice :: nat
  uc_amount :: rat

record settlement =
  st_payment :: "nat option"
  st_credits :: "used_credit list"
  st_creditTotal :: rat
  st_cashTotal :: rat
  st_invoices :: "(nat \<times> string \<times> rat \<times> invoice_status) list"

section \<open>The three parts\<close>

definition uses_of :: "nat \<Rightarrow> credit_use list \<Rightarrow> credit_use list" where
  "uses_of receipt credits = filter (\<lambda>c. us_kind c = Advance_credit \<and> us_id c = receipt) credits"

definition settle_advance :: "env \<Rightarrow> nat \<Rightarrow> nat \<Rightarrow> settle_input \<Rightarrow> used_credit list \<times> 'a trade_db_scheme \<Rightarrow> nat \<Rightarrow>
    (used_credit list \<times> 'a trade_db_scheme) result" where
  "settle_advance E co user d = (\<lambda>(used, s) receiptId.
     some_or (find (\<lambda>p. pm_id p = receiptId \<and> pm_company p = co) (db_payments s)) (NotFound ''PAYMENT_NOT_FOUND'') (\<lambda>receipt.
     throw_if (pm_customer receipt \<noteq> si_customer d) (BadRequest ''CUSTOMER_MISMATCH'')
    (let uses = uses_of receiptId (si_credits d)
     in bindE (pay_applyInTransaction E co user receiptId (map (\<lambda>u. (us_invoice u, us_amount u)) uses) (Some (si_date d)) None s) (\<lambda>(_, s1).
        Inr (used @ map (\<lambda>u. \<lparr>uc_kind = Advance_credit, uc_id = receiptId, uc_reference = pm_number receipt,
                               uc_invoice = us_invoice u, uc_amount = d_fixed (dec E) 4 (us_amount u)\<rparr>) uses, s1)))))"

definition settle_memo :: "env \<Rightarrow> nat \<Rightarrow> settle_input \<Rightarrow> used_credit list \<times> 'a trade_db_scheme \<Rightarrow> credit_use \<Rightarrow>
    (used_credit list \<times> 'a trade_db_scheme) result" where
  "settle_memo E co d = (\<lambda>(used, s) c.
     bindE (assertInvoiceBelongsToCustomer co (us_invoice c) (si_customer d) s) (\<lambda>_.
     bindE (cm_applyInTransaction E co (us_id c) (us_invoice c) (us_amount c) s) (\<lambda>(memo, s1).
     Inr (used @ [\<lparr>uc_kind = Memo_credit, uc_id = cm_id memo, uc_reference = cm_number memo,
                   uc_invoice = us_invoice c, uc_amount = d_fixed (dec E) 4 (us_amount c)\<rparr>], s1))))"

definition receipt_of :: "settle_input \<Rightarrow> settle_cash \<Rightarrow> receive_input" where
  "receipt_of d c =
     \<lparr>rp_customer = si_customer d, rp_date = si_date d, rp_method = sc_method c, rp_amount = sc_amount c,
      rp_bankAccount = sc_bankAccount c, rp_reference = sc_reference c, rp_memo = sc_memo c,
      rp_applications = sc_applications c, rp_holdAsAdvance = sc_holdAsAdvance c\<rparr>"

definition settle_receipt :: "env \<Rightarrow> nat \<Rightarrow> nat \<Rightarrow> settle_input \<Rightarrow> 'a trade_db_scheme \<Rightarrow> (payment option \<times> 'a trade_db_scheme) result" where
  "settle_receipt E co user d s =
     (case si_cash d of
        None \<Rightarrow> Inr (None, s)
      | Some c \<Rightarrow> map_sum id (\<lambda>(p, t). (Some p, t)) (pay_receiveInTransaction E co user (receipt_of d c) s))"

section \<open>The whole\<close>

definition settled_invoices :: "nat \<Rightarrow> settle_input \<Rightarrow> payment option \<Rightarrow> 'a trade_db_scheme \<Rightarrow> invoice list" where
  "settled_invoices co d p s =
     (let ids = map us_invoice (si_credits d)
            @ (case p of None \<Rightarrow> [] | Some p \<Rightarrow> map ap_invoice (filter (\<lambda>a. ap_payment a = pm_id p) (db_applications s)))
      in filter (\<lambda>v. in_id v \<in> set ids \<and> in_company v = co) (db_invoices s))"

definition pay_settleInTransaction :: "env \<Rightarrow> nat \<Rightarrow> nat \<Rightarrow> settle_input \<Rightarrow> 'a trade_db_scheme \<Rightarrow>
    (settlement \<times> 'a trade_db_scheme) result" where
  "pay_settleInTransaction E co user d s =
     some_or (find_customer co (si_customer d) s) (NotFound ''CUSTOMER_NOT_FOUND'') (\<lambda>_.
     throw_if (case si_cash d of None \<Rightarrow> False | Some c \<Rightarrow> \<not> isPositive (sc_amount c)) (BadRequest ''VALIDATION_FAILED'')
    (throw_if (si_credits d = [] \<and> si_cash d = None) (BadRequest ''NOTHING_TO_SETTLE'')
    (bindE (foldE (settle_advance E co user d) ([], s)
              (uniq (map us_id (filter (\<lambda>c. us_kind c = Advance_credit) (si_credits d))))) (\<lambda>acc1.
     bindE (foldE (settle_memo E co d) acc1 (filter (\<lambda>c. us_kind c = Memo_credit) (si_credits d))) (\<lambda>(used, s2).
     bindE (settle_receipt E co user d s2) (\<lambda>(p, s3).
     Inr (\<lparr>st_payment = map_option pm_id p, st_credits = used,
           st_creditTotal = d_fixed (dec E) 4 (foldl (\<lambda>t c. t + uc_amount c) 0 used),
           st_cashTotal = (case p of None \<Rightarrow> 0 | Some p \<Rightarrow> d_fixed (dec E) 4 (pm_amount p)),
           st_invoices = map (\<lambda>v. (in_id v, in_number v, in_balance v, in_status v)) (settled_invoices co d p s3)\<rparr>, s3)))))))"

definition pay_settle :: "env \<Rightarrow> nat \<Rightarrow> nat \<Rightarrow> settle_input \<Rightarrow> 'a trade_db_scheme \<Rightarrow> (settlement \<times> 'a trade_db_scheme) result" where
  "pay_settle E co user d = transaction (pay_settleInTransaction E co user d)"

section \<open>Receivables\<close>

definition settle_money :: "settle_input \<Rightarrow> bool" where
  "settle_money d \<longleftrightarrow> (\<forall>c \<in> set (si_credits d). money (us_amount c))
     \<and> (\<forall>c. si_cash d = Some c \<longrightarrow> money (sc_amount c) \<and> (\<forall>as. sc_applications c = Some as \<longrightarrow> requested_money as))"


context posting_env
begin

lemma apply_sales:
  assumes "pay_applyInTransaction E co user i apps on fd s = Inr (u, t)" and "sales_ok co s" and "requested_money apps"
  shows "sales_ok co t"
proof (rule leaves_sales [OF apply_leaves [OF assms(1)] assms(2)])
  have "\<forall>p \<in> set (db_payments s). pm_company p = co \<longrightarrow> pm_advancePosted p"
    using assms(2) by (auto simp: sales_ok_def unposted_def)
  then show "receivables_ok g co t" if "receivables_ok g co s" for g using apply_keeps [OF assms(1) that assms(3)] by blast
qed

lemma receive_sales:
  assumes run: "pay_receiveInTransaction E co user d s = Inr (p, t)" and ok: "sales_ok co s"
    and "money (rp_amount d)" "\<forall>as. rp_applications d = Some as \<longrightarrow> requested_money as"
    and "assert_entries_balanced s0 t0" "ledger_ok s0" "db_fresh s0 \<le> db_fresh s" "set (db_entries t) \<subseteq> set (db_entries t0)"
  shows "sales_ok co t"
proof -
  obtain u where u: "leaves_memos s u" "t = save_payment p u" "pm_advancePosted p" using run by (rule receive_leaves)
  have "receivables_ok (\<lambda>k. - held co k s) co t"
    using ok by (intro receive_in_keeps [OF run _ assms(3-8)]) (simp add: sales_ok_def)
  moreover have "receivables_ok g co u" if "receivables_ok g co t" for g
    using that unfolding u(2) by (auto simp: receivables_ok_def save_payment_def by_number_def invoice_row_ok_def find_customer_def
      owed_def customers_total_def intro: ledger_ok_same [rotated -1])
  ultimately have "sales_ok co u" and r: "receivables_ok (\<lambda>k. - held co k s) co t"
    using ok leaves_rows [OF u(1)] by (auto simp: sales_ok_def)
  then show ?thesis using leaves_rows(2) [OF u(1)] u(2,3) by (auto intro: save_payment_sales)
qed

lemma settle_advance_step:
  assumes "settle_advance E co user d (used, s) i = Inr (used', t)" and "sales_ok co s" and "settle_money d"
  shows "sales_ok co t \<and> db_fresh s \<le> db_fresh t"
proof -
  obtain u where ap: "pay_applyInTransaction E co user i (map (\<lambda>u. (us_invoice u, us_amount u)) (uses_of i (si_credits d))) (Some (si_date d)) None s
      = Inr (u, t)"
    using assms(1) by (auto simp: settle_advance_def result_simps Let_def)
  have "requested_money (map (\<lambda>u. (us_invoice u, us_amount u)) (uses_of i (si_credits d)))"
    using assms(3) by (auto simp: requested_money_def settle_money_def uses_of_def)
  then show ?thesis using apply_sales [OF ap assms(2)] apply_leaves [OF ap] by (simp add: leaves_memos_def)
qed

lemma settle_memo_step:
  assumes "settle_memo E co d (used, s) c = Inr (used', t)" and "sales_ok co s" and "money (us_amount c)"
  shows "sales_ok co t \<and> db_fresh s \<le> db_fresh t"
proof -
  obtain m where ap: "cm_applyInTransaction E co (us_id c) (us_invoice c) (us_amount c) s = Inr (m, t)"
    using assms(1) by (auto simp: settle_memo_def result_simps)
  then have "db_fresh t = db_fresh s"
    by (auto simp: cm_applyInTransaction_def applyPayment_def result_simps Let_def save_memo_def)
  then show ?thesis using apply_memo_keeps [OF ap assms(2,3)] by simp
qed

lemma settle_keeps:
  assumes run: "pay_settle E co user d s = Inr (r, t)" and ok: "sales_ok co s" and m: "settle_money d"
  shows "sales_ok co t"
proof -
  have com: "assert_entries_balanced s t" using run by (simp add: pay_settle_def transaction_Inr)
  let ?P = "\<lambda>(_ :: used_credit list, u). sales_ok co u \<and> db_fresh s \<le> db_fresh u"
  from run obtain acc1 used s2 p where
    a: "foldE (settle_advance E co user d) ([], s) (uniq (map us_id (filter (\<lambda>c. us_kind c = Advance_credit) (si_credits d)))) = Inr acc1"
    and b: "foldE (settle_memo E co d) acc1 (filter (\<lambda>c. us_kind c = Memo_credit) (si_credits d)) = Inr (used, s2)"
    and c: "settle_receipt E co user d s2 = Inr (p, t)"
    by (auto simp: pay_settle_def pay_settleInTransaction_def transaction_Inr result_simps)
  have "?P acc1"
    using a
  proof (rule foldE_invariant)
    show "?P ([], s)" using ok by simp
    show "?P y" if "?P x" "settle_advance E co user d x i = Inr y" for x i y
      using that settle_advance_step [of co user d _ _ i] m by (cases x; cases y) fastforce
  qed
  with b have P2: "?P (used, s2)"
  proof (rule foldE_invariant)
    show "?P y" if "?P x" "settle_memo E co d x c = Inr y" "c \<in> set (filter (\<lambda>c. us_kind c = Memo_credit) (si_credits d))" for x c y
      using that settle_memo_step [of co d _ _ c] m by (cases x; cases y) (fastforce simp: settle_money_def)
  qed
  show ?thesis
  proof (cases "si_cash d")
    case None
    then show ?thesis using c P2 by (simp add: settle_receipt_def)
  next
    case (Some sc)
    then obtain q where rc: "pay_receiveInTransaction E co user (receipt_of d sc) s2 = Inr (q, t)"
      using c by (auto simp: settle_receipt_def map_sum_Inr)
    show ?thesis
      using P2 ok m Some
      by (intro receive_sales [OF rc _ _ _ com]) (auto simp: settle_money_def receipt_of_def sales_ok_def receivables_ok_def)
  qed
qed

end

end
