(* ===== verification/Sales.thy ===== *)
theory Sales
  imports Settlement
begin

text \<open>
  The sales side of a company as a whole: the steps its invoices and receipts take, what holds after any run of them,
  and what the operations promise one by one. The arithmetic is one and the same in every step, and the day may differ.
\<close>

section \<open>The steps\<close>

inductive sales_step :: "decimal_js \<Rightarrow> nat \<Rightarrow> 'a trade_db_scheme \<Rightarrow> 'a trade_db_scheme \<Rightarrow> bool"
  for D :: decimal_js and co :: nat where
  created: "dec E = D \<Longrightarrow> inv_create E off co user d opts s = Inr (v, t) \<Longrightarrow> sales_step D co s t"
| updated: "dec E = D \<Longrightarrow> inv_update E off co i u s = Inr (v, t) \<Longrightarrow> sales_step D co s t"
| sent: "dec E = D \<Longrightarrow> inv_send E co i user ov s = Inr (v, t) \<Longrightarrow> sales_step D co s t"
| voided: "dec E = D \<Longrightarrow> inv_void E co i user reason s = Inr (v, t) \<Longrightarrow>
    \<forall>v. find_invoice co i s = Some v \<longrightarrow> in_status v \<noteq> IN_void \<Longrightarrow> sales_step D co s t"
| deleted: "dec E = D \<Longrightarrow> inv_delete E co i user s = Inr (u, t) \<Longrightarrow> sales_step D co s t"
| received: "dec E = D \<Longrightarrow> pay_receive E co user d s = Inr (p, t) \<Longrightarrow> money (rp_amount d) \<Longrightarrow>
    \<forall>as. rp_applications d = Some as \<longrightarrow> requested_money as \<Longrightarrow> sales_step D co s t"
| applied: "dec E = D \<Longrightarrow> pay_apply E co user i apps on s = Inr (u, t) \<Longrightarrow> requested_money apps \<Longrightarrow> sales_step D co s t"
| settled: "dec E = D \<Longrightarrow> pay_settle E co user sd s = Inr (r, t) \<Longrightarrow> settle_money sd \<Longrightarrow> sales_step D co s t"
| credited: "dec E = D \<Longrightarrow> cm_create E co user md s = Inr (m, t) \<Longrightarrow> sales_step D co s t"
| used: "dec E = D \<Longrightarrow> cm_apply E co i invoiceId amt s = Inr (m, t) \<Longrightarrow> money amt \<Longrightarrow> sales_step D co s t"
| refunded: "dec E = D \<Longrightarrow> cm_refund E co i user bank s = Inr (m, t) \<Longrightarrow> sales_step D co s t"
| uncredited: "dec E = D \<Longrightarrow> cm_void E co i user s = Inr (m, t) \<Longrightarrow> sales_step D co s t"
| removed: "dec E = D \<Longrightarrow> cm_delete E co i user s = Inr (u, t) \<Longrightarrow> sales_step D co s t"

text \<open>A company starts selling with a chart of accounts and customers that owe nothing.\<close>

definition opening_books :: "nat \<Rightarrow> 'a trade_db_scheme \<Rightarrow> bool" where
  "opening_books co s \<longleftrightarrow>
     ledger_ok s \<and> db_invoices s = [] \<and> db_payments s = [] \<and> db_memos s = [] \<and> distinct (map cu_id (db_customers s))
     \<and> (\<forall>c \<in> set (db_customers s). cu_companyId c = co \<longrightarrow> cu_balance c = 0)
     \<and> (\<exists>ar. by_number s co ACCT_AR = Some ar \<and> acc_type ar = Asset \<and> acc_balance ar = 0
          \<and> acc_subType ar \<notin> set MONEY_ACCOUNT_SUB_TYPES)"

inductive sales_reachable :: "decimal_js \<Rightarrow> nat \<Rightarrow> 'a trade_db_scheme \<Rightarrow> bool"
  for D :: decimal_js and co :: nat where
  start: "opening_books co s \<Longrightarrow> sales_reachable D co s"
| step: "sales_reachable D co s \<Longrightarrow> sales_step D co s t \<Longrightarrow> sales_reachable D co t"

lemma opening_sales:
  assumes "opening_books co s"
  shows "sales_ok co s"
proof -
  have "company_total co cs = 0" if "\<forall>c \<in> set cs. cu_companyId c = co \<longrightarrow> cu_balance c = 0" for cs
    using that by (induction cs) (auto simp: company_total_def)
  then show ?thesis
    using assms by (auto simp: opening_books_def sales_ok_def memos_ok_def held_def unposted_def receivables_ok_def customers_total_def owed_def)
qed

lemma env_laws: "decimal_lib D \<Longrightarrow> dec E = D \<Longrightarrow> posting_env E"
  by (simp add: posting_env_def)

lemma step_keeps_sales:
  assumes D: "decimal_lib D" and "sales_step D co s t" and ok: "sales_ok co s"
  shows "sales_ok co t"
  using assms(2)
proof cases
  case (created E off user d opts v)
  then have run: "inv_createInTransaction E off co user d opts s = Inr (v, t)" by (simp add: inv_create_def transaction_Inr)
  show ?thesis using leaves_sales [OF create_leaves [OF run] ok] posting_env.create_keeps [OF env_laws [OF D created(1)] run] by blast
next
  case (updated E off i u v)
  then show ?thesis using leaves_sales [OF update_leaves ok] posting_env.update_keeps [OF env_laws [OF D updated(1)]] by blast
next
  case (sent E i user ov v)
  then show ?thesis using leaves_sales [OF send_leaves ok] posting_env.send_keeps [OF env_laws [OF D sent(1)]] by blast
next
  case (voided E i user reason v)
  then show ?thesis using leaves_sales [OF void_leaves ok] posting_env.void_keeps [OF env_laws [OF D voided(1)]] by blast
next
  case (deleted E i user u)
  then show ?thesis using leaves_sales [OF delete_leaves ok] posting_env.delete_keeps [OF env_laws [OF D deleted(1)]] by blast
next
  case (received E user d p)
  then show ?thesis
    using ok by (intro posting_env.receive_sales [OF env_laws [OF D received(1)], of co user d s p t s t])
      (auto simp: pay_receive_def transaction_Inr sales_ok_def receivables_ok_def)
next
  case (applied E user i apps on u)
  then show ?thesis using ok posting_env.apply_sales [OF env_laws [OF D applied(1)]] by (auto simp: pay_apply_def transaction_Inr)
next
  case (settled E user sd r)
  then show ?thesis using ok posting_env.settle_keeps [OF env_laws [OF D settled(1)]] by blast
next
  case (credited E user md m)
  then show ?thesis using ok posting_env.create_memo_keeps [OF env_laws [OF D credited(1)]] by (auto simp: cm_create_def transaction_Inr)
next
  case (used E i invoiceId amt m)
  then show ?thesis using ok posting_env.apply_memo_keeps [OF env_laws [OF D used(1)]] by (auto simp: cm_apply_def transaction_Inr)
next
  case (refunded E i user bank m)
  then show ?thesis using ok posting_env.refund_keeps [OF env_laws [OF D refunded(1)]] by blast
next
  case (uncredited E i user m)
  then show ?thesis using ok posting_env.void_memo_keeps(1) [OF env_laws [OF D uncredited(1)]] by blast
next
  case (removed E i user u)
  then show ?thesis using ok posting_env.delete_memo_keeps [OF env_laws [OF D removed(1)]] by blast
qed

lemma reachable_sales:
  assumes "decimal_lib D" and "sales_reachable D co s"
  shows "sales_ok co s"
  using assms(2) by induction (blast intro: opening_sales step_keeps_sales [OF assms(1)])+

lemma reachable_receivables:
  assumes "decimal_lib D" and "sales_reachable D co s"
  shows "receivables_ok (\<lambda>k. - held co k s) co s"
  using reachable_sales [OF assms] by (simp add: sales_ok_def)

section \<open>A shop that sells\<close>

definition shop_account :: "nat \<Rightarrow> string \<Rightarrow> acct_type \<Rightarrow> account" where
  "shop_account i number ty =
     \<lparr>acc_id = i, acc_company = 7, acc_number = number, acc_name = [], acc_type = ty, acc_subType = [],
      acc_parent = None, acc_description = None, acc_openingBalance = 0, acc_balance = 0, acc_active = True\<rparr>"

definition demo_shop :: trade_db where
  "demo_shop = demo_trade\<lparr>db_fresh := 30, db_items := [], db_orders := [],
     db_customers := [demo_customer\<lparr>cu_name := [], cu_code := None, cu_paymentTerms := []\<rparr>],
     db_accounts := [shop_account 10 ''1100'' Asset, shop_account 11 ''2300'' Liability,
       shop_account 12 ''4000'' Revenue, shop_account 13 ''1000'' Asset]\<rparr>"

definition demo_line :: "rat \<Rightarrow> rat option \<Rightarrow> invoice_line_input" where
  "demo_line price tax =
     \<lparr>li_description = [], li_quantity = 1, li_unitPrice = price, li_taxRate = tax, li_account = None,
      li_item = None, li_kind = Some Service_line\<rparr>"

definition demo_sale :: "invoice_line_input \<Rightarrow> rat option \<Rightarrow> invoice_input" where
  "demo_sale l discount =
     \<lparr>ii_customer = 3, ii_date = ''2025-03-01'', ii_dueDate = ''2025-03-31'',
      ii_discountType = (case discount of None \<Rightarrow> None | Some _ \<Rightarrow> Some D_percent), ii_discountValue = discount,
      ii_sent = Some True, ii_paymentTerms = None, ii_notes = None, ii_lines = [l]\<rparr>"

definition demo_options :: create_options where
  "demo_options = \<lparr>op_freeTextAsService = False, op_skipCredit = False, op_exceptOrder = None, op_override = None\<rparr>"

definition state_after :: "('r \<times> 'a) result \<Rightarrow> 'a \<Rightarrow> 'a" where
  "state_after r s = (case r of Inr (_, t) \<Rightarrow> t | Inl _ \<Rightarrow> s)"

definition demo_issued :: trade_db where
  "demo_issued = state_after (inv_create demo_env False 7 1 (demo_sale (demo_line 300 None) None) demo_options demo_shop) demo_shop"

definition demo_receipt_of :: "rat \<Rightarrow> receive_input" where
  "demo_receipt_of amount = \<lparr>rp_customer = 3, rp_date = ''2025-03-05'', rp_method = ''cash'', rp_amount = amount,
     rp_bankAccount = None, rp_reference = None, rp_memo = None, rp_applications = None, rp_holdAsAdvance = False\<rparr>"

definition demo_received :: trade_db where
  "demo_received = state_after (pay_receive demo_env 7 1 (demo_receipt_of 120) demo_issued) demo_shop"

definition demo_credit :: memo_input where
  "demo_credit = \<lparr>mo_customer = 3, mo_date = ''2025-03-06'', mo_originalInvoice = None, mo_reason = None,
     mo_lines = [\<lparr>mn_item = None, mn_description = [], mn_quantity = 1, mn_unitPrice = 30, mn_taxRate = None, mn_unitCost = None\<rparr>]\<rparr>"

definition demo_credited :: trade_db where
  "demo_credited = state_after (cm_create demo_env 7 1 demo_credit demo_received) demo_shop"

declare bindE_def [code_unfold] throw_if_def [code_unfold] some_or_def [code_unfold]

lemma shop_issues: "\<not> isl (inv_create demo_env False 7 1 (demo_sale (demo_line 300 None) None) demo_options demo_shop)"
  by code_simp

lemma shop_receives: "\<not> isl (pay_receive demo_env 7 1 (demo_receipt_of 120) demo_issued)"
  by code_simp

lemma shop_owed: "balance_of demo_received 7 ACCT_AR = 180"
  by code_simp

lemma shop_credits: "\<not> isl (cm_create demo_env 7 1 demo_credit demo_received)"
  by code_simp

lemma credited_owed: "balance_of demo_credited 7 ACCT_AR = 150"
  by code_simp

lemma on_grid_numeral: "on_grid n (numeral k)"
  by (metis of_int_numeral on_grid_of_int)

lemma state_after_Inr: "\<not> isl r \<Longrightarrow> \<exists>x. r = Inr (x, state_after r s)"
  by (cases r) (auto simp: state_after_def)

lemma shop_opening: "opening_books 7 demo_shop"
proof -
  have "ledger_ok demo_shop"
    by (simp add: demo_shop_def demo_trade_def shop_account_def ledger_ok_def accounts_ok_def entries_ok_def
        balance_ok_def account_sum_def last_balance_def refs_in_sequence_def company_entries_def posted_lines_def)
  then show ?thesis
    by (simp add: opening_books_def demo_shop_def demo_trade_def demo_customer_def shop_account_def by_number_def ACCT_AR_def
        MONEY_ACCOUNT_SUB_TYPES_def)
qed

lemma shop_reachable:
  "sales_reachable decimal_half_up 7 demo_shop" "sales_reachable decimal_half_up 7 demo_issued"
  "sales_reachable decimal_half_up 7 demo_received" "sales_reachable decimal_half_up 7 demo_credited"
proof -
  show a: "sales_reachable decimal_half_up 7 demo_shop" by (rule start [OF shop_opening])
  obtain v where "inv_create demo_env False 7 1 (demo_sale (demo_line 300 None) None) demo_options demo_shop = Inr (v, demo_issued)"
    using state_after_Inr [OF shop_issues, of demo_shop] unfolding demo_issued_def by blast
  then have "sales_step decimal_half_up 7 demo_shop demo_issued" by (rule created [rotated]) simp
  then show b: "sales_reachable decimal_half_up 7 demo_issued" using a step by blast
  obtain p where "pay_receive demo_env 7 1 (demo_receipt_of 120) demo_issued = Inr (p, demo_received)"
    using state_after_Inr [OF shop_receives, of demo_shop] unfolding demo_received_def by blast
  then have "sales_step decimal_half_up 7 demo_issued demo_received"
    by (rule received [rotated]) (simp_all add: demo_receipt_of_def on_grid_numeral)
  then show c: "sales_reachable decimal_half_up 7 demo_received" using b step by blast
  obtain m where "cm_create demo_env 7 1 demo_credit demo_received = Inr (m, demo_credited)"
    using state_after_Inr [OF shop_credits, of demo_shop] unfolding demo_credited_def by blast
  then have "sales_step decimal_half_up 7 demo_received demo_credited" by (rule credited [rotated]) simp
  then show "sales_reachable decimal_half_up 7 demo_credited" using c step by blast
qed

section \<open>What the invoices and the receipts keep\<close>




lemma shop_invoice: "map (\<lambda>v. (in_total v, in_amountPaid v, in_entry v \<noteq> None, in_company v)) (db_invoices demo_received) = [(300, 120, True, 7)]"
  by code_simp


end
