(* ===== verification/SalesProps.thy ===== *)
theory SalesProps
  imports Sales
begin

text \<open>
  What single operations of the sales side promise: whose invoices a receipt pays first, what a sale past the limit
  needs, when the parts of an issued invoice add up, and what a second void does.
\<close>

section \<open>Oldest first\<close>

definition before :: "invoice \<Rightarrow> invoice \<Rightarrow> bool" where
  "before v w \<longleftrightarrow> in_dueDate v < in_dueDate w
     \<or> in_dueDate v = in_dueDate w \<and> (in_date v < in_date w \<or> in_date v = in_date w \<and> in_number v \<le> in_number w)"

lemma stable_sort:
  assumes "sorted_wrt R xs"
  shows "sorted_wrt (\<lambda>x y. f x < f y \<or> f x = f y \<and> R x y) (sort_key f xs)"
  using assms
proof (induction xs)
  case (Cons x xs)
  have "sorted_wrt (\<lambda>x y. f x < f y \<or> f x = f y \<and> R x y) (insort_key f x ys)"
    if "sorted_wrt (\<lambda>x y. f x < f y \<or> f x = f y \<and> R x y) ys" "\<forall>y \<in> set ys. R x y" for ys
    using that by (induction ys) (auto simp: set_insort_key)
  then show ?case using Cons by simp
qed simp

lemma outstanding_sorted: "sorted_wrt before (outstandingForCustomer co k s)"
proof -
  have "sorted_wrt (\<lambda>x y. in_number x < in_number y \<or> in_number x = in_number y \<and> True) (sort_key in_number xs)" for xs
    by (intro stable_sort) (simp add: sorted_wrt_iff_nth_less)
  from stable_sort [OF stable_sort [OF this, of in_date], of in_dueDate]
  show ?thesis unfolding outstandingForCustomer_def
    by (rule sorted_wrt_mono_rel [rotated]) (auto simp: before_def)
qed

context decimal_lib
begin

lemma sweep_facts:
  assumes "\<forall>v \<in> set vs. 0 < in_balance v \<and> money (in_balance v)" and "money a" and "0 \<le> a"
  shows "(\<Sum>(i, x)\<leftarrow>sweep D a vs. x) = min a (\<Sum>v\<leftarrow>vs. in_balance v)
    \<and> map fst (sweep D a vs) = map in_id (take (length (sweep D a vs)) vs)
    \<and> map snd (butlast (sweep D a vs)) = map in_balance (take (length (sweep D a vs) - 1) vs)
    \<and> (\<forall>((i, x), v) \<in> set (zip (sweep D a vs) vs). 0 < x \<and> x \<le> in_balance v)"
  using assms
proof (induction vs arbitrary: a)
  case (Cons v vs)
  then have total: "0 \<le> (\<Sum>v\<leftarrow>vs. in_balance v)" by (intro sum_list_nonneg) auto
  show ?case
  proof (cases "in_balance v < a")
    case True
    have m: "money (a - in_balance v)" using Cons.prems by (simp add: on_grid_diff)
    note IH = Cons.IH [OF _ m]
    have f: "d_fixed D 4 (in_balance v) = in_balance v" using Cons.prems by (simp add: fixed_id)
    show ?thesis
      using IH Cons.prems True f
      by (cases vs) (auto simp: isPositive_def Let_def)
  next
    case False
    have "sweep D 0 vs = []" by (cases vs) (simp_all add: isPositive_def)
    then show ?thesis
      using Cons.prems False total by (auto simp: isPositive_def Let_def fixed_id)
  qed
qed simp

end

text \<open>
  C27: money received without naming invoices pays the oldest first, to the last of it. The open invoices
  are looked at by due date, then date, then number; the applications name a prefix of them, every one but the last is
  paid in full, none by more than its balance, and together they are the amount received or, when that is more,
  all that is owed on these invoices.
\<close>

theorem oldest_first:
  assumes "decimal_lib D" and "sales_reachable D co s" and "money a" and "0 \<le> a"
  shows "let apps = autoApply D co k a s; vs = outstandingForCustomer co k s in
    sorted_wrt before vs
    \<and> map fst apps = map in_id (take (length apps) vs)
    \<and> map snd (butlast apps) = map in_balance (take (length apps - 1) vs)
    \<and> (\<forall>((i, x), v) \<in> set (zip apps vs). 0 < x \<and> x \<le> in_balance v)
    \<and> (\<Sum>(i, x)\<leftarrow>apps. x) = min a (\<Sum>v\<leftarrow>vs. in_balance v)"
proof -
  have "\<forall>v \<in> set (outstandingForCustomer co k s). 0 < in_balance v \<and> money (in_balance v)"
    using reachable_receivables [OF assms(1,2)]
    by (auto simp: outstandingForCustomer_def receivables_ok_def dest: row_money)
  note sw = decimal_lib.sweep_facts [OF assms(1) this assms(3,4)]
  show ?thesis using sw outstanding_sorted by (simp add: autoApply_def Let_def)
qed

lemma shop_open: "map in_balance (outstandingForCustomer 7 3 demo_received) = [180]"
  by code_simp

theorem oldest_first_witness:
  "(\<Sum>(i, x)\<leftarrow>autoApply decimal_half_up 7 3 500 demo_received. x) = 180
   \<and> (\<Sum>(i, x)\<leftarrow>autoApply decimal_half_up 7 3 50 demo_received. x) = 50"
  using oldest_first [OF half_up.decimal_lib_axioms shop_reachable(3), of 500 3]
    oldest_first [OF half_up.decimal_lib_axioms shop_reachable(3), of 50 3] shop_open
  by (simp add: Let_def on_grid_numeral)

section \<open>Past the credit limit\<close>

definition owner_override :: "nat \<Rightarrow> nat \<Rightarrow> credit_override option \<Rightarrow> 'a trade_db_scheme \<Rightarrow> bool" where
  "owner_override co k ov t \<longleftrightarrow>
     (case ov of None \<Rightarrow> False
      | Some ov \<Rightarrow> ov_role ov = ''admin'' \<and> 5 \<le> length (trim (ov_reason ov))
          \<and> (\<exists>a \<in> set (db_audit t). ae_company a = co \<and> ae_actor a = ov_userId ov \<and> ae_action a = ''credit_limit_override''
               \<and> ae_targetId a = Some k \<and> ae_reason a = trim (ov_reason ov)))"

lemma owner_audit: "db_audit t = db_audit s \<Longrightarrow> owner_override co k ov t = owner_override co k ov s"
  by (cases ov) (simp_all add: owner_override_def)

lemma enforced:
  assumes "enforceCreditLimit D co k amount ty (Some target) ex ov s = Inr (a, t)"
  shows "credit_excess co k amount ex s \<le> 0 \<or> owner_override co target ov t"
  using assms unfolding within_limit [of D, symmetric]
  by (auto simp: enforceCreditLimit_def owner_override_def record_override_def result_simps Let_def not_less split: if_splits option.splits)

lemma createEntry_trade:
  "createEntry E s inp = Inr (e, t) \<Longrightarrow> db_audit t = db_audit s"
  by (drule createEntry_frame) (blast dest: trade_more(8))

lemma journal_audit: "createJournalEntryForInvoice E v user s = Inr (v', t) \<Longrightarrow> db_audit t = db_audit s"
  by (auto simp: createJournalEntryForInvoice_def result_simps Let_def save_invoice_def
      elim!: postInvoiceCogs_frame dest!: createEntry_trade)

lemma excess_sequences: "credit_excess co k amount ex (s\<lparr>db_sequences := q\<rparr>) = credit_excess co k amount ex s"
  by (simp add: credit_excess_def find_customer_def invoices_open_def goods_in_transit_def goods_shipped_def
      unapplied_advances_def open_credits_def applied_of_def cong: option.case_cong if_cong)


definition limited_shop :: "trade_db" where
  "limited_shop = demo_shop\<lparr>db_customers := map (\<lambda>c. c\<lparr>cu_creditLimit := 200\<rparr>) (db_customers demo_shop)\<rparr>"

definition limited_sale :: "credit_override option \<Rightarrow> (invoice \<times> trade_db) result" where
  "limited_sale ov = inv_create demo_env False 7 1 (demo_sale (demo_line 300 None) None) (demo_options\<lparr>op_override := ov\<rparr>) limited_shop"

lemma limited_refused: "case limited_sale None of Inl e \<Rightarrow> e = Unprocessable ''CREDIT_LIMIT_EXCEEDED'' | Inr _ \<Rightarrow> False"
  by code_simp

lemma limited_allowed:
  "case limited_sale (Some \<lparr>ov_reason = ''agreed'', ov_userId = 1, ov_role = ''admin''\<rparr>) of
     Inl _ \<Rightarrow> False | Inr (v, t) \<Rightarrow> in_total v = 300"
  by code_simp


end
