(* ===== verification/InvoiceTotals.thy ===== *)
theory InvoiceTotals
  imports SalesProps
begin

text \<open>
  The totals of an invoice: its parts add up when it is issued, and a second void takes it off
  a second time.
\<close>

section \<open>Parts and total\<close>

lemma map_number_lines:
  assumes "\<And>l n. f (l\<lparr>pl_order := n\<rparr>) = f l"
  shows "map f (number_lines ls) = map f ls"
proof -
  have "map (\<lambda>(i, l). f (l\<lparr>pl_order := Some i\<rparr>)) (enumerate n ls) = map f ls" for n
    by (induction ls arbitrary: n) (simp_all add: assms)
  then show ?thesis by (simp add: number_lines_def o_def case_prod_unfold)
qed

context posting_env
begin

lemma cost_lines_cancel:
  "cost_lines (dec E) co False cogs s = Inr costs \<Longrightarrow>
   (\<Sum>l\<leftarrow>costs. d_fixed (dec E) 4 (pl_debit l)) = (\<Sum>l\<leftarrow>costs. d_fixed (dec E) 4 (pl_credit l))"
  by (auto simp: cost_lines_def result_simps Let_def post_line_def split: if_splits)

lemma journal_adds_up:
  assumes run: "createJournalEntryForInvoice E v user s1 = Inr (v', t1)" and com: "assert_entries_balanced s t"
    and old: "ledger_ok s" "db_fresh s \<le> db_fresh s1" and t: "set (db_entries t1) \<subseteq> set (db_entries t)"
    and m: "money (in_total v)" "money (in_taxAmount v)" "money (in_subtotal v)" "money (in_discountAmount v)"
  shows "in_total v = in_subtotal v - in_discountAmount v + max (in_taxAmount v) 0"
proof -
  from run obtain ar revenue tax cogs ls s2 costs e t2 where
    cg: "postInvoiceCogs (dec E) v user False s1 = Inr (cogs, ls, s2)"
    and cl: "cost_lines (dec E) (in_company v) False cogs s2 = Inr costs"
    and ce: "createEntry E s2
       \<lparr>pi_company = in_company v, pi_date = in_date v, pi_memo = Some (''Invoice '' @ in_number v), pi_createdBy = user,
        pi_lines = number_lines (sale_lines (dec E) False v (acc_id (ar :: account)) (acc_id (revenue :: account)) (acc_id (tax :: account)) @ costs),
        pi_posted = True, pi_sourceType = Some ''invoice'', pi_sourceId = Some (in_id v), pi_reversalOf = None\<rparr> = Inr (e, t2)"
    and t1: "t1 = save_invoice v' t2"
    by (auto simp: createJournalEntryForInvoice_def result_simps Let_def)
  have fr: "db_fresh s \<le> db_fresh s2" using old(2) cg by (auto elim!: postInvoiceCogs_frame)
  have "set (db_entries t2) \<subseteq> set (db_entries t)" using t by (simp add: t1 save_invoice_def)
  note cb = committed_balance(1) [OF ce _ com old(1) fr this, unfolded posting_input.simps, OF TrueI]
  have net: "d_fixed (dec E) 4 (d_fixed (dec E) 4 (in_subtotal v - in_discountAmount v)) = in_subtotal v - in_discountAmount v"
    using m(3,4) by (simp add: fixed_id on_grid_diff)
  show ?thesis
    using cb cost_lines_cancel [OF cl] m(1,2) net
    by (simp add: map_number_lines sale_lines_def post_line_def fixed_id fixed_zero o_def max_def split: if_splits)
qed

end

lemma totals_money:
  assumes "decimal_lib D"
  shows "money (tt_total (computeTotals D ls t v))" "money (tt_taxAmount (computeTotals D ls t v))"
    "money (tt_subtotal (computeTotals D ls t v))" "money (tt_discountAmount (computeTotals D ls t v))"
  by (simp_all add: computeTotals_def Let_def case_prod_unfold decimal_lib.fixed_grid [OF assms])


lemma shop_taxed:
  "case inv_create demo_env False 7 1 (demo_sale (demo_line 300 (Some 17)) None) demo_options demo_shop of
     Inl _ \<Rightarrow> False | Inr (v, _) \<Rightarrow> in_total v = 351 \<and> in_taxAmount v = 51"
  by code_simp



section \<open>A second void\<close>

text \<open>
  C31: voiding a void invoice takes it off a second time. An unpaid invoice with an entry that is already void
  passes the checks of the void operation again, and whenever the reversing entry posts, account 1100
  goes down by the total once more.
\<close>

theorem second_void_reverses_again:
  assumes "decimal_lib (dec E)" and "ledger_ok s" and ar: "by_number s co ACCT_AR = Some ar" "acc_type ar = Asset"
    and v: "find_invoice co i s = Some v" "in_status v = IN_void" "in_entry v = Some e" "money (in_total v)"
    and run: "inv_void E co i user reason s = Inr (v', t)"
  shows "balance_of t co ACCT_AR = balance_of s co ACCT_AR - in_total v"
proof -
  from run v(1,3) obtain s1 where rev: "reverse_invoice E co user reason v e s = Inr s1" and t: "t = save_invoice v' s1"
    by (auto simp: inv_void_def transaction_Inr result_simps Let_def)
  obtain t1 where "moves_receivable co (- in_total v) s t1" and s1: "s1 = add_customer_balance (dec E) co (in_customer v) (- in_total v) t1"
    by (rule posting_env.reversing_posting [OF env_laws [OF assms(1) refl] rev assms(2) ar v(4)])
  then show ?thesis
    using moves_receivableD(2) [OF _ ar(1)] ar(1)
    by (fastforce simp: balance_of_def t s1 save_invoice_def add_customer_balance_def by_number_def)
qed

definition demo_voided_once :: trade_db where
  "demo_voided_once = state_after (inv_void demo_env 7 30 1 ''wrong'' demo_issued) demo_shop"

definition demo_voided_twice :: trade_db where
  "demo_voided_twice = state_after (inv_void demo_env 7 30 1 ''again'' demo_voided_once) demo_shop"

lemma voided_once: "\<not> isl (inv_void demo_env 7 30 1 ''wrong'' demo_issued)"
  by code_simp

lemma voided_twice: "\<not> isl (inv_void demo_env 7 30 1 ''again'' demo_voided_once)"
  by code_simp

lemma voided_row:
  "case find_invoice 7 30 demo_voided_once of
     Some v \<Rightarrow> in_status v = IN_void \<and> in_entry v \<noteq> None \<and> in_total v = 300 | None \<Rightarrow> False"
  by code_simp

lemma issued_row: "map (\<lambda>v. (in_id v, in_status v)) (db_invoices demo_issued) = [(30, IN_sent)]"
  by code_simp

lemma voided_reachable: "sales_reachable decimal_half_up 7 demo_voided_once"
proof -
  obtain v where "inv_void demo_env 7 30 1 ''wrong'' demo_issued = Inr (v, demo_voided_once)"
    using state_after_Inr [OF voided_once, of demo_shop] unfolding demo_voided_once_def by blast
  moreover have "\<forall>v. find_invoice 7 30 demo_issued = Some v \<longrightarrow> in_status v \<noteq> IN_void"
    using issued_row by (auto simp: find_invoice_def dest!: find_Some_mem)
  ultimately have "sales_step decimal_half_up 7 demo_issued demo_voided_once" by (rule voided [OF dec_demo_env])
  then show ?thesis using shop_reachable(2) step by blast
qed

theorem second_void_reverses_again_witness:
  "sales_reachable decimal_half_up 7 demo_voided_once \<and> balance_of demo_voided_once 7 ACCT_AR = 0
   \<and> balance_of demo_voided_twice 7 ACCT_AR = - 300"
proof -
  obtain v where v: "find_invoice 7 30 demo_voided_once = Some v" "in_status v = IN_void" "in_total v = 300"
    and e: "in_entry v \<noteq> None"
    using voided_row by (auto split: option.splits)
  from e obtain n where n: "in_entry v = Some n" by blast
  have ok: "sales_ok 7 demo_voided_once" by (rule reachable_sales [OF half_up.decimal_lib_axioms voided_reachable])
  then obtain ar where ar: "by_number demo_voided_once 7 ACCT_AR = Some ar" "acc_type ar = Asset" and l: "ledger_ok demo_voided_once"
    by (auto simp: sales_ok_def receivables_ok_def)
  have zero: "balance_of demo_voided_once 7 ACCT_AR = 0" by code_simp
  obtain w where run: "inv_void demo_env 7 30 1 ''again'' demo_voided_once = Inr (w, demo_voided_twice)"
    using state_after_Inr [OF voided_twice, of demo_shop] unfolding demo_voided_twice_def by blast
  then show ?thesis
    using second_void_reverses_again [OF _ l ar v(1,2) n _ run] v(3) zero voided_reachable
    by (simp add: half_up.decimal_lib_axioms on_grid_numeral)
qed

end
