(* ===== verification/StockFlow.thy ===== *)
theory StockFlow
  imports Sales
begin

text \<open>The stock an invoice takes out or a void puts back, and the movements that record it.\<close>

section \<open>Stock on hand\<close>

text \<open>The quantity of an item that the movements recorded since a state say.\<close>

definition moved_quantity :: "movement list \<Rightarrow> nat \<Rightarrow> rat" where
  "moved_quantity ms i = (\<Sum>m\<leftarrow>ms. if mv_item m = i then mv_quantity m else 0)"

definition on_hand :: "'a trade_db_scheme \<Rightarrow> nat \<Rightarrow> rat" where
  "on_hand s i = (case row_with it_id i (db_items s) of None \<Rightarrow> 0 | Some it \<Rightarrow> it_onHand it)"

definition stock_ok :: "'a trade_db_scheme \<Rightarrow> bool" where
  "stock_ok s \<longleftrightarrow> distinct (map it_id (db_items s)) \<and> (\<forall>it \<in> set (db_items s). money (it_onHand it) \<and> 0 \<le> it_onHand it)"

definition moves_stock :: "'a trade_db_scheme \<Rightarrow> 'a trade_db_scheme \<Rightarrow> bool" where
  "moves_stock s t \<longleftrightarrow> stock_ok t \<and> map it_id (db_items t) = map it_id (db_items s)
     \<and> (\<exists>ms. db_movements t = db_movements s @ ms \<and> (\<forall>i. on_hand t i = on_hand s i + moved_quantity ms i)
          \<and> (\<forall>m \<in> set ms. money (mv_quantity m) \<and> mv_item m \<in> it_id ` set (db_items s)))"

lemma moves_stock_refl: "stock_ok s \<Longrightarrow> moves_stock s s"
  by (auto simp: moves_stock_def moved_quantity_def)

lemma moves_stock_trans:
  assumes "moves_stock s t" and "moves_stock t u"
  shows "moves_stock s u"
proof -
  obtain ms ns where "db_movements t = db_movements s @ ms" "\<forall>i. on_hand t i = on_hand s i + moved_quantity ms i"
    "\<forall>m \<in> set ms. money (mv_quantity m) \<and> mv_item m \<in> it_id ` set (db_items s)"
    "db_movements u = db_movements t @ ns" "\<forall>i. on_hand u i = on_hand t i + moved_quantity ns i"
    "\<forall>m \<in> set ns. money (mv_quantity m) \<and> mv_item m \<in> it_id ` set (db_items t)"
    using assms unfolding moves_stock_def by blast
  moreover have "set (map it_id (db_items t)) = set (map it_id (db_items s))" using assms(1) by (simp add: moves_stock_def)
  ultimately show ?thesis using assms
    by (auto simp: moves_stock_def moved_quantity_def intro!: exI [of _ "ms @ ns"])
qed

context decimal_lib
begin

lemma moved_item_stock:
  assumes ok: "stock_ok s" and it: "it \<in> set (db_items s)" and q: "money x"
    and it': "it_id it' = it_id it" "it_onHand it' = it_onHand it + x" "0 \<le> it_onHand it'"
    and t: "t = recordInventoryMovement D mi (s\<lparr>db_items := update_row it_id (it_id it) (\<lambda>_. it') (db_items s)\<rparr>)"
    and mi: "mi_quantity mi = x" "mi_item mi = it_id it"
  shows "moves_stock s t"
proof -
  let ?f = "\<lambda>r. if it_id r = it_id it then it' else r"
  have rows: "db_items t = map ?f (db_items s)" by (simp add: t recordInventoryMovement_def update_row_def)
  have ids: "map it_id (db_items t) = map it_id (db_items s)" by (auto simp: rows it')
  have "row_with it_id (it_id it) (db_items s) = Some it" using ok it by (intro row_with_distinct) (simp_all add: stock_ok_def)
  moreover have "row_with it_id i (db_items t) = map_option ?f (row_with it_id i (db_items s))" for i
    unfolding rows by (rule row_with_mapped) (simp add: it')
  ultimately have "on_hand t i = on_hand s i + (if it_id it = i then x else 0)" for i
    by (auto simp: on_hand_def it' split: option.split dest: row_with_Some)
  moreover have "stock_ok t"
    unfolding stock_ok_def ids using ok it it' q by (auto simp: rows stock_ok_def on_grid_add)
  ultimately show ?thesis
    using ids it q mi fixed_id [OF q] by (auto simp: moves_stock_def t recordInventoryMovement_def moved_quantity_def)
qed

lemma cogs_line_moves:
  assumes run: "cogs_line D doc user reverse (c, ls, s) l = Inr (c', ls', t)" and ok: "stock_ok s" and q: "money (il_quantity l)"
  shows "moves_stock s t"
proof (cases "Option.bind (il_item l) (\<lambda>i. find (\<lambda>it. it_id it = i \<and> it_company it = in_company doc) (db_items s))")
  case None
  then show ?thesis using run ok by (simp add: cogs_line_def moves_stock_refl)
next
  case (Some it)
  then have it: "it \<in> set (db_items s)" by (auto simp: Option.bind_eq_Some_conv dest: find_Some_mem)
  let ?it = "moved_item D reverse (line_cost D reverse l it) l it" and ?x = "if reverse then il_quantity l else - il_quantity l"
  have m: "money ?x" using q by (simp add: on_grid_minus)
  have it': "it_id ?it = it_id it" "it_onHand ?it = it_onHand it + ?x"
    using ok it q by (auto simp: moved_item_def Let_def stock_ok_def fixed_id on_grid_add on_grid_diff)
  show ?thesis
  proof (cases "reverse \<and> \<not> moved_stock doc (it_id it) s")
    case True
    then show ?thesis using run ok Some by (simp add: cogs_line_def moves_stock_refl)
  next
    case False
    then have posted: "(reverse \<and> \<not> moved_stock doc (it_id it) s) = False" by simp
    have "\<not> it_onHand ?it < 0"
      and t: "t = recordInventoryMovement D (cogs_movement reverse doc user (line_cost D reverse l it) l it)
         (s\<lparr>db_items := update_row it_id (it_id it) (\<lambda>_. ?it) (db_items s)\<rparr>)"
      using run by (simp_all add: cogs_line_def Some posted Let_def bindE_Inr throw_if_Inr)
    then show ?thesis
      by (intro moved_item_stock [OF ok it m it' _ t]) (simp_all add: cogs_movement_def Let_def)
  qed
qed

text \<open>All lines of the document, in order.\<close>

lemma cogs_moves:
  "foldE (cogs_line D doc user reverse) (c, ls, s) lines = Inr (c', ls', t) \<Longrightarrow> stock_ok s \<Longrightarrow>
   \<forall>l \<in> set lines. money (il_quantity l) \<Longrightarrow> moves_stock s t"
proof (induction lines arbitrary: c ls s)
  case (Cons l lines)
  then obtain c1 ls1 s1 where one: "cogs_line D doc user reverse (c, ls, s) l = Inr (c1, ls1, s1)"
    and rest: "foldE (cogs_line D doc user reverse) (c1, ls1, s1) lines = Inr (c', ls', t)"
    by (auto simp: bindE_Inr)
  have first: "moves_stock s s1" using cogs_line_moves [OF one] Cons.prems by simp
  then have "moves_stock s1 t" using Cons.IH [OF rest] Cons.prems by (simp add: moves_stock_def)
  then show ?case by (rule moves_stock_trans [OF first])
qed (simp add: moves_stock_refl)

end


definition stocked_invoice :: invoice where
  "stocked_invoice =
     new_invoice demo_env 7 1 (demo_sale (demo_line 300 None) None) demo_customer ''INV-1''
       (computeTotals decimal_half_up [(demo_line 150 None)\<lparr>li_quantity := 2, li_item := Some 4\<rparr>] D_none None) demo_trade"

lemma stocked_out:
  "case postInvoiceCogs decimal_half_up stocked_invoice 1 False demo_trade of
     Inl _ \<Rightarrow> False | Inr (c, _, t) \<Rightarrow> c = 200 \<and> map mv_quantity (db_movements t) = [- 2] \<and> map mv_item (db_movements t) = [4]"
  by code_simp


end
