(* ===== verification/DeliveryCollection.thy ===== *)
theory DeliveryCollection
  imports Credit
begin

text \<open>
  Who has paid for a delivery, and how much the rider is to collect:
  \<^verbatim>\<open>src/modules/deliveries/delivery-collection.util.ts\<close>. Amounts are the numbers the texts stand for;
  a figure from outside may be missing or not a number.
\<close>

section \<open>What is due\<close>

definition COLLECTION_TOLERANCE :: rat where
  "COLLECTION_TOLERANCE = 5 / 1000"

record priced_line =
  pr_quantity :: rat
  pr_unitPrice :: rat
  pr_taxRate :: "rat option"

record collection =
  cl_paidStatus :: string
  cl_amountCollected :: rat
  cl_amountDue :: rat
  cl_advanceApplied :: rat

datatype figure = Missing | Not_a_number | Figure rat

definition grossOf :: "decimal_js \<Rightarrow> priced_line list \<Rightarrow> rat" where
  "grossOf D lines = foldl (\<lambda>sum l. sum + grossValue D (pr_quantity l) (pr_unitPrice l) (toDecimal (pr_taxRate l))) 0 lines"

definition split_advance :: "rat \<Rightarrow> rat \<Rightarrow> rat \<times> rat" where
  "split_advance gross advance =
     (let g = max gross 0; applied = min (max advance 0) g in (applied, g - applied))"

definition outOfRange :: "'a result" where
  "outOfRange = Inl (BadRequest ''COLLECTED_OUT_OF_RANGE'')"

definition settle_as :: "decimal_js \<Rightarrow> string \<Rightarrow> rat \<Rightarrow> rat \<times> rat \<Rightarrow> collection" where
  "settle_as D status collected = (\<lambda>(advance, due).
     \<lparr>cl_paidStatus = status, cl_amountCollected = d_fixed D 4 collected, cl_amountDue = d_fixed D 4 due,
      cl_advanceApplied = d_fixed D 4 advance\<rparr>)"

section \<open>From an amount, from an answer\<close>

definition collectionFromAmount :: "decimal_js \<Rightarrow> rat \<Rightarrow> rat \<Rightarrow> figure \<Rightarrow> collection result" where
  "collectionFromAmount D gross advance amount =
     (let sp = split_advance gross advance; due = snd sp in
      if \<not> MONEY_TOLERANCE < due then Inr (settle_as D ''paid'' 0 sp)
      else case amount of
        Figure collected \<Rightarrow>
          if collected < 0 then outOfRange
          else if due + COLLECTION_TOLERANCE < collected then outOfRange
          else if due - COLLECTION_TOLERANCE \<le> collected then Inr (settle_as D ''paid'' due sp)
          else if \<not> MONEY_TOLERANCE < collected then Inr (settle_as D ''unpaid'' 0 sp)
          else Inr (settle_as D ''partial'' (d_fixed D 4 collected) sp)
      | _ \<Rightarrow> outOfRange)"

definition resolveCollection :: "decimal_js \<Rightarrow> rat \<Rightarrow> rat \<Rightarrow> string option \<Rightarrow> figure \<Rightarrow> collection result" where
  "resolveCollection D gross advance paidStatus amountCollected =
     (let sp = split_advance gross advance; due = snd sp;
          status = (case paidStatus of None \<Rightarrow> ''unpaid'' | Some t \<Rightarrow> t)
      in if \<not> MONEY_TOLERANCE < due then Inr (settle_as D ''paid'' 0 sp)
         else if status = ''paid'' then Inr (settle_as D ''paid'' due sp)
         else if status = ''unpaid'' then Inr (settle_as D ''unpaid'' 0 sp)
         else if status = ''partial''
         then throw_if (amountCollected = Missing) (BadRequest ''COLLECTED_OUT_OF_RANGE'')
             (bindE (collectionFromAmount D gross advance amountCollected) (\<lambda>settled.
              throw_if (cl_paidStatus settled = ''unpaid'') (BadRequest ''COLLECTED_OUT_OF_RANGE'') (Inr settled)))
         else Inl (BadRequest ''VALIDATION_FAILED''))"

section \<open>Of a delivery\<close>

record delivery_line_like =
  dk_item :: nat
  dk_orderedQty :: rat
  dk_quantity :: rat
  dk_unitPrice :: rat
  dk_taxRate :: "rat option"

definition dispatchedQty :: "rat \<Rightarrow> rat \<Rightarrow> rat" where
  "dispatchedQty orderedQty quantity = (if 0 < orderedQty then orderedQty else quantity)"

definition kept_quantity :: "delivery_line_like \<Rightarrow> (nat \<Rightarrow> rat option) \<Rightarrow> rat" where
  "kept_quantity l delivered =
     (let dispatched = dispatchedQty (dk_orderedQty l) (dk_quantity l);
          asked = (case delivered (dk_item l) of None \<Rightarrow> dispatched | Some q \<Rightarrow> q)
      in min (max asked 0) dispatched)"

definition deliveredGross :: "decimal_js \<Rightarrow> delivery_line_like list \<Rightarrow> (nat \<Rightarrow> rat option) \<Rightarrow> rat" where
  "deliveredGross D lines delivered =
     grossOf D (map (\<lambda>l. \<lparr>pr_quantity = kept_quantity l delivered, pr_unitPrice = dk_unitPrice l, pr_taxRate = dk_taxRate l\<rparr>) lines)"

definition deliveryAdvance :: "bool \<Rightarrow> nat option \<Rightarrow> rat option \<Rightarrow> rat \<Rightarrow> rat" where
  "deliveryAdvance prepaid advancePaymentId advanceAmount gross =
     (if prepaid \<and> advancePaymentId = None then gross else toDecimal advanceAmount)"

definition acceptsCollectionAnswer :: "string \<Rightarrow> bool" where
  "acceptsCollectionAnswer ledgerStatus \<longleftrightarrow> ledgerStatus = ''none'' \<or> ledgerStatus = ''in_transit''"

section \<open>Never more than is due\<close>

lemma split_money:
  assumes "money gross" and "money advance" and "split_advance gross advance = (a, due)"
  shows "money a" "money due" "0 \<le> a" "0 \<le> due" "a + due = max gross 0"
  using assms by (auto simp: split_advance_def Let_def max_def min_def intro: on_grid_diff split: if_splits)

text \<open>What a settled collection says: the advance and the cash are parts of the sale, and the status reads the cash.\<close>

definition collection_ok :: "rat \<Rightarrow> collection \<Rightarrow> bool" where
  "collection_ok gross c \<longleftrightarrow>
     0 \<le> cl_advanceApplied c \<and> 0 \<le> cl_amountCollected c \<and> cl_amountCollected c \<le> cl_amountDue c
     \<and> cl_advanceApplied c + cl_amountDue c = max gross 0
     \<and> (MONEY_TOLERANCE < cl_amountDue c \<longrightarrow>
         (cl_paidStatus c = ''paid'' \<and> cl_amountCollected c = cl_amountDue c)
         \<or> (cl_paidStatus c = ''unpaid'' \<and> cl_amountCollected c = 0)
         \<or> (cl_paidStatus c = ''partial'' \<and> 0 < cl_amountCollected c \<and> cl_amountCollected c < cl_amountDue c))
     \<and> (\<not> MONEY_TOLERANCE < cl_amountDue c \<longrightarrow> cl_paidStatus c = ''paid'' \<and> cl_amountCollected c = 0)"

context decimal_lib
begin

lemma fixed_between:
  assumes "x < due - 5 / 1000" and "MONEY_TOLERANCE < x"
  shows "0 < d_fixed D 4 x \<and> d_fixed D 4 x < due \<and> 0 \<le> d_fixed D 4 x \<and> d_fixed D 4 x \<le> due"
  using abs_le_D1 [OF fixed_4_near [of x]] abs_le_D2 [OF fixed_4_near [of x]] assms by (simp add: MONEY_TOLERANCE_def)

lemma from_amount_ok:
  assumes "collectionFromAmount D gross advance amount = Inr c" and "money gross" and "money advance"
  shows "collection_ok gross c"
proof -
  obtain a due where sp: "split_advance gross advance = (a, due)" by fastforce
  note m = split_money [OF assms(2,3) sp]
  show ?thesis
    using assms(1) m fixed_id [OF m(1)] fixed_id [OF m(2)] fixed_between [of _ due]
    by (auto simp: collectionFromAmount_def sp Let_def settle_as_def collection_ok_def outOfRange_def COLLECTION_TOLERANCE_def
        fixed_id fixed_grid split: if_splits figure.splits)
qed

lemma resolve_ok:
  assumes "resolveCollection D gross advance st amount = Inr c" and "money gross" and "money advance"
  shows "collection_ok gross c"
proof -
  obtain a due where sp: "split_advance gross advance = (a, due)" by fastforce
  note m = split_money [OF assms(2,3) sp]
  show ?thesis
    using assms(1) m fixed_id [OF m(1)] fixed_id [OF m(2)] from_amount_ok [OF _ assms(2,3)]
    by (auto simp: resolveCollection_def sp Let_def settle_as_def collection_ok_def throw_if_Inr bindE_Inr split: if_splits option.splits)
qed

end



text \<open>A figure of zero is not always unpaid: when half a paisa or less is due, it is taken as paying it.\<close>

lemma zero_pays_half_a_paisa:
  "\<exists>c. collectionFromAmount decimal_half_up (4 / 1000) 0 (Figure 0) = Inr c \<and> cl_paidStatus c = ''paid''
     \<and> cl_amountCollected c = 4 / 1000"
proof -
  have "case collectionFromAmount decimal_half_up (4 / 1000) 0 (Figure 0) of
      Inl _ \<Rightarrow> False | Inr c \<Rightarrow> cl_paidStatus c = ''paid'' \<and> cl_amountCollected c = 4 / 1000"
    by code_simp
  then show ?thesis by (auto split: sum.splits)
qed

end
