(* ===== verification/Bills.thy ===== *)
theory Bills
  imports PaymentLaws
begin

text \<open>
  Vendor bills: \<^verbatim>\<open>src/modules/bills/bills.service.ts\<close>. Entering, editing, posting and deleting a bill, paying bills out of
  a cash or bank account against an uploaded proof, spending a vendor credit on a bill, and settling with credits and
  cash in one transaction; with the tables of the purchase side. What is queued for messaging and the row locks are not
  modelled: a handler runs alone. The store that keeps the bytes of a proof is an argument.
\<close>

section \<open>Rows\<close>

datatype bill_status = BS_draft | BS_open | BS_partial | BS_paid | BS_overdue | BS_void

record bill_line =
  bn_account :: nat
  bn_description :: string
  bn_amount :: rat
  bn_taxRate :: rat
  bn_taxAmount :: rat
  bn_order :: nat
  bn_poLine :: "nat option"
  bn_quantity :: "rat option"
  bn_grni :: "rat option"

record bill =
  bi_id :: nat
  bi_company :: nat
  bi_vendor :: nat
  bi_number :: string
  bi_date :: date
  bi_dueDate :: date
  bi_subtotal :: rat
  bi_taxAmount :: rat
  bi_total :: rat
  bi_amountPaid :: rat
  bi_balance :: rat
  bi_status :: bill_status
  bi_memo :: "string option"
  bi_entry :: "nat option"
  bi_po :: "nat option"
  bi_lines :: "bill_line list"

record bill_payment =
  bp_id :: nat
  bp_company :: nat
  bp_vendor :: nat
  bp_bankAccount :: nat
  bp_date :: date
  bp_method :: string
  bp_reference :: "string option"
  bp_total :: rat
  bp_entry :: "nat option"
  bp_proofKey :: "string option"
  bp_proofUrl :: "string option"

record bill_application =
  ba_payment :: nat
  ba_bill :: nat
  ba_amount :: rat

record payment_proof =
  pf_id :: nat
  pf_company :: nat
  pf_storageKey :: string
  pf_url :: string
  pf_mimeType :: string
  pf_originalName :: string
  pf_size :: nat
  pf_uploadedBy :: nat
  pf_consumedBy :: "nat option"

datatype vendor_credit_status = VS_open | VS_applied | VS_closed | VS_void

record vendor_credit_line =
  vl_account :: "nat option"
  vl_item :: "nat option"
  vl_quantity :: "rat option"
  vl_description :: string
  vl_amount :: rat
  vl_taxRate :: rat
  vl_order :: nat

record vendor_credit =
  vc_id :: nat
  vc_company :: nat
  vc_vendor :: nat
  vc_number :: "string option"
  vc_date :: date
  vc_originalBill :: "nat option"
  vc_reason :: "string option"
  vc_subtotal :: rat
  vc_taxAmount :: rat
  vc_total :: rat
  vc_amountApplied :: rat
  vc_balance :: rat
  vc_status :: vendor_credit_status
  vc_entry :: "nat option"
  vc_createdBy :: "nat option"
  vc_lines :: "vendor_credit_line list"

datatype po_status = PS_draft | PS_sent | PS_partial | PS_received | PS_closed

record po_line =
  pn_id :: nat
  pn_item :: "nat option"
  pn_description :: string
  pn_ordered :: rat
  pn_received :: rat
  pn_billed :: rat
  pn_grniAccrued :: rat
  pn_grniCleared :: rat
  pn_unitCost :: rat
  pn_taxRate :: rat
  pn_lineTotal :: rat
  pn_account :: "nat option"
  pn_order :: nat

record purchase_order =
  po_id :: nat
  po_company :: nat
  po_vendor :: nat
  po_number :: string
  po_orderDate :: date
  po_expectedDate :: "date option"
  po_subtotal :: rat
  po_taxAmount :: rat
  po_total :: rat
  po_status :: po_status
  po_notes :: "string option"
  po_lines :: "po_line list"

record purchase_db = trade_db +
  db_bills :: "bill list"
  db_billPayments :: "bill_payment list"
  db_billApplications :: "bill_application list"
  db_proofs :: "payment_proof list"
  db_vendorCredits :: "vendor_credit list"
  db_pos :: "purchase_order list"

section \<open>Inputs\<close>

record bill_line_input =
  bx_account :: "nat option"
  bx_description :: string
  bx_amount :: "rat option"
  bx_quantity :: "rat option"
  bx_unitPrice :: "rat option"
  bx_taxRate :: "rat option"

record bill_input =
  bc_vendor :: nat
  bc_number :: "string option"
  bc_date :: date
  bc_dueDate :: date
  bc_memo :: "string option"
  bc_draft :: "bool option"     \<comment> \<open>\<open>status\<close>: absent, open or draft\<close>
  bc_po :: "nat option"
  bc_lines :: "bill_line_input list"

record bill_update =
  bu_number :: "string option"
  bu_date :: "date option"
  bu_dueDate :: "date option"
  bu_memo :: "string option option"
  bu_lines :: "bill_line_input list option"

text \<open>What a bill line raised from a purchase order bills.\<close>

record po_link =
  lk_line :: nat
  lk_quantity :: rat
  lk_grni :: "rat option"

record bill_payment_input =
  pb_vendor :: nat
  pb_date :: date
  pb_method :: string
  pb_bank :: nat
  pb_reference :: "string option"
  pb_proof :: nat
  pb_applications :: "(nat \<times> rat) list"

section \<open>Totals\<close>

record resolved_line =
  rl_account :: "nat option"
  rl_description :: string
  rl_amount :: rat
  rl_taxRate :: rat

text \<open>\<open>getByNumberOrFail(...).catch(() => null)\<close>.\<close>

definition account_or_null :: "'a ledger_db_scheme \<Rightarrow> nat \<Rightarrow> string \<Rightarrow> nat option" where
  "account_or_null s co n = (case getByNumberOrFail s co n of Inl _ \<Rightarrow> None | Inr a \<Rightarrow> Some (acc_id a))"

definition resolve_line :: "decimal_js \<Rightarrow> nat option \<Rightarrow> bill_line_input \<Rightarrow> resolved_line" where
  "resolve_line D cogs l =
     \<lparr>rl_account = (case bx_account l of Some a \<Rightarrow> Some a | None \<Rightarrow> cogs), rl_description = bx_description l,
      rl_amount = (case bx_amount l of
          Some a \<Rightarrow> a
        | None \<Rightarrow> (case (bx_quantity l, bx_unitPrice l) of
              (Some q, Some p) \<Rightarrow> d_fixed D 4 (d_prec D (q * p)) | _ \<Rightarrow> 0)),
      rl_taxRate = toDecimal (bx_taxRate l)\<rparr>"

definition resolved_tax :: "decimal_js \<Rightarrow> resolved_line \<Rightarrow> rat" where
  "resolved_tax D l = d_prec D (d_prec D (rl_amount l * rl_taxRate l) / 100)"

definition bill_line_of :: "decimal_js \<Rightarrow> nat \<Rightarrow> resolved_line \<Rightarrow> bill_line" where
  "bill_line_of D i l =
     \<lparr>bn_account = (case rl_account l of None \<Rightarrow> 0 | Some a \<Rightarrow> a), bn_description = rl_description l,
      bn_amount = d_fixed D 4 (rl_amount l), bn_taxRate = d_fixed D 4 (rl_taxRate l),
      bn_taxAmount = d_fixed D 4 (resolved_tax D l), bn_order = i, bn_poLine = None, bn_quantity = None, bn_grni = None\<rparr>"

record bill_totals =
  bt_subtotal :: rat
  bt_taxAmount :: rat
  bt_total :: rat
  bt_lines :: "bill_line list"

definition bill_computeTotals :: "decimal_js \<Rightarrow> resolved_line list \<Rightarrow> bill_totals" where
  "bill_computeTotals D lines =
     (let (subtotal, tax) = foldl (\<lambda>(s, t) l. (s + rl_amount l, t + resolved_tax D l)) (0, 0) lines
      in \<lparr>bt_subtotal = d_fixed D 4 subtotal, bt_taxAmount = d_fixed D 4 tax, bt_total = d_fixed D 4 (subtotal + tax),
          bt_lines = map (\<lambda>(i, l). bill_line_of D i l) (enumerate 0 lines)\<rparr>)"

text \<open>A line whose account is the empty text is not looked up; the database refuses it when the line is saved.\<close>

definition assertLineAccountsValid :: "nat \<Rightarrow> nat option list \<Rightarrow> 'a ledger_db_scheme \<Rightarrow> unit result" where
  "assertLineAccountsValid co accountIds s =
     (let ids = uniq (List.map_filter (\<lambda>a. a) accountIds)
      in throw_if (ids = []) (BadRequest ''ACCOUNT_REQUIRED'')
        (foldE (\<lambda>_ i.
           some_or (find (\<lambda>a. acc_id a = i \<and> acc_company a = co) (db_accounts s)) (NotFound ''ACCOUNT_NOT_FOUND'') (\<lambda>a.
           throw_if (\<not> acc_active a) (BadRequest ''ACCOUNT_INACTIVE'') (Inr ()))) () ids))"

text \<open>The resolved lines of a request with their totals, or why they are refused.\<close>

definition checked_totals :: "decimal_js \<Rightarrow> nat \<Rightarrow> bill_line_input list \<Rightarrow> 'a ledger_db_scheme \<Rightarrow> bill_totals result" where
  "checked_totals D co inputs s =
     (let lines = map (resolve_line D (account_or_null s co ACCT_COGS)) inputs
      in bindE (assertLineAccountsValid co (map rl_account lines) s) (\<lambda>_.
         let tot = bill_computeTotals D lines
         in throw_if (\<not> isPositive (bt_total tot)) (BadRequest ''VALIDATION_FAILED'')
           (throw_if (\<exists>l \<in> set lines. rl_account l = None) (DbError ''22P02'') (Inr tot))))"

section \<open>Reading and saving\<close>

definition find_bill :: "nat \<Rightarrow> nat \<Rightarrow> 'a purchase_db_scheme \<Rightarrow> bill option" where
  "find_bill co i s = find (\<lambda>b. bi_id b = i \<and> bi_company b = co) (db_bills s)"

definition save_bill :: "bill \<Rightarrow> 'a purchase_db_scheme \<Rightarrow> 'a purchase_db_scheme" where
  "save_bill b s = s\<lparr>db_bills := update_row bi_id (bi_id b) (\<lambda>_. b) (db_bills s)\<rparr>"

definition find_vendor :: "nat \<Rightarrow> nat \<Rightarrow> 'a party_db_scheme \<Rightarrow> vendor option" where
  "find_vendor co k s = find (\<lambda>v. ve_id v = k \<and> ve_companyId v = co) (db_vendors s)"

definition add_vendor_balance :: "decimal_js \<Rightarrow> nat \<Rightarrow> nat \<Rightarrow> rat \<Rightarrow> 'a party_db_scheme \<Rightarrow> 'a party_db_scheme" where
  "add_vendor_balance D co k delta s =
     s\<lparr>db_vendors := map (\<lambda>v. if ve_companyId v = co \<and> ve_id v = k
         then v\<lparr>ve_balance := d_fixed D 4 (ve_balance v + delta)\<rparr> else v) (db_vendors s)\<rparr>"

definition bill_numbers :: "nat \<Rightarrow> 'a purchase_db_scheme \<Rightarrow> string list" where
  "bill_numbers co s = map bi_number (filter (\<lambda>b. bi_company b = co) (db_bills s))"

definition find_po :: "nat \<Rightarrow> nat \<Rightarrow> 'a purchase_db_scheme \<Rightarrow> purchase_order option" where
  "find_po co i s = find (\<lambda>p. po_id p = i \<and> po_company p = co) (db_pos s)"

definition save_po :: "purchase_order \<Rightarrow> 'a purchase_db_scheme \<Rightarrow> 'a purchase_db_scheme" where
  "save_po p s = s\<lparr>db_pos := update_row po_id (po_id p) (\<lambda>_. p) (db_pos s)\<rparr>"

section \<open>Posting\<close>

text \<open>
  A line that bills received goods clears what its receipts accrued; the difference to its cost is a landed-cost
  variance in cost of goods sold.
\<close>

definition bill_line_cost :: "bool \<Rightarrow> bill_line \<Rightarrow> rat" where
  "bill_line_cost reclaim l = (if reclaim then bn_amount l else bn_amount l + bn_taxAmount l)"

definition bill_line_debit :: "decimal_js \<Rightarrow> bool \<Rightarrow> bill_line \<Rightarrow> posting_line" where
  "bill_line_debit D reclaim l =
     post_line (bn_account l) (Some (bn_description l))
       (d_fixed D 4 (case bn_grni l of Some g \<Rightarrow> g | None \<Rightarrow> bill_line_cost reclaim l)) 0"

definition bill_variance :: "bool \<Rightarrow> bill_line list \<Rightarrow> rat" where
  "bill_variance reclaim lines =
     foldl (\<lambda>v l. case bn_grni l of Some g \<Rightarrow> v + (bill_line_cost reclaim l - g) | None \<Rightarrow> v) 0 lines"

definition variance_lines :: "decimal_js \<Rightarrow> nat \<Rightarrow> string \<Rightarrow> rat \<Rightarrow> 'a ledger_db_scheme \<Rightarrow> posting_line list result" where
  "variance_lines D co number v s =
     (if v \<noteq> 0
      then bindE (getByNumberOrFail s co ACCT_COGS) (\<lambda>cogs.
           Inr [post_line (acc_id cogs) (Some (''Landed cost variance'' @ dash_text @ ''Bill '' @ number))
                  (if 0 < v then d_fixed D 4 v else 0) (if v < 0 then d_fixed D 4 (- v) else 0)])
      else Inr [])"

definition input_tax_lines :: "decimal_js \<Rightarrow> nat \<Rightarrow> string \<Rightarrow> bool \<Rightarrow> rat \<Rightarrow> 'a ledger_db_scheme \<Rightarrow>
    (posting_line list \<times> 'a ledger_db_scheme) result" where
  "input_tax_lines D co number reclaim tax s =
     (if reclaim \<and> 0 < tax
      then bindE (getOrCreateSystemAccount co ACCT_INPUT_TAX s) (\<lambda>(a, s1).
           Inr ([post_line (acc_id a) (Some (''Input tax (recoverable)'' @ dash_text @ ''Bill '' @ number)) (d_fixed D 4 tax) 0], s1))
      else Inr ([], s))"

definition reclaims_input_tax :: "nat \<Rightarrow> 'a ledger_db_scheme \<Rightarrow> bool" where
  "reclaims_input_tax co s =
     (case row_with co_id co (db_companies s) of None \<Rightarrow> False | Some c \<Rightarrow> co_salesTaxRegistered c)"

definition createJournalEntryForBill :: "env \<Rightarrow> bill \<Rightarrow> nat \<Rightarrow> 'a purchase_db_scheme \<Rightarrow> (bill \<times> 'a purchase_db_scheme) result" where
  "createJournalEntryForBill E b user s =
     bindE (getByNumberOrFail s (bi_company b) ACCT_AP) (\<lambda>ap.
     let reclaim = reclaims_input_tax (bi_company b) s;
         totalTax = foldl (\<lambda>t l. t + bn_taxAmount l) 0 (bi_lines b)
     in bindE (variance_lines (dec E) (bi_company b) (bi_number b) (bill_variance reclaim (bi_lines b)) s) (\<lambda>variance.
        bindE (input_tax_lines (dec E) (bi_company b) (bi_number b) reclaim totalTax s) (\<lambda>(tax, s1).
        bindE (createEntry E s1
          \<lparr>pi_company = bi_company b, pi_date = bi_date b, pi_memo = Some (''Bill '' @ bi_number b), pi_createdBy = user,
           pi_lines = number_lines (map (bill_line_debit (dec E) reclaim) (bi_lines b) @ variance @ tax
             @ [post_line (acc_id ap) (Some (''Bill '' @ bi_number b)) 0 (bi_total b)]),
           pi_posted = True, pi_sourceType = Some ''bill'', pi_sourceId = Some (bi_id b), pi_reversalOf = None\<rparr>) (\<lambda>(entry, s2).
        let b' = b\<lparr>bi_entry := Some (je_id entry)\<rparr> in Inr (b', save_bill b' s2)))))"

section \<open>Entering, editing, posting\<close>

text \<open>
  Received goods are billed from their purchase order, which knows what was accrued: a bill that names the order and
  debits no goods-received account is refused.
\<close>

definition assertPoGoodsBilledThroughReceipt :: "nat \<Rightarrow> bill_input \<Rightarrow> 'a purchase_db_scheme \<Rightarrow> unit result" where
  "assertPoGoodsBilledThroughReceipt co d s =
     (case bc_po d of
        None \<Rightarrow> Inr ()
      | Some p \<Rightarrow>
          if \<not> (case find_po co p s of None \<Rightarrow> False
                | Some order \<Rightarrow> list_ex (\<lambda>l. pn_item l \<noteq> None \<and> 0 < pn_received l) (po_lines order)) then Inr ()
          else (case account_or_null s co ACCT_GRNI of
                  None \<Rightarrow> Inr ()
                | Some g \<Rightarrow> throw_if (\<not> list_ex (\<lambda>l. bx_account l = Some g) (bc_lines d)) (BadRequest ''BILL_PO_VIA_RECEIPT'') (Inr ())))"

definition bill_number_for :: "nat \<Rightarrow> bill_input \<Rightarrow> 'a purchase_db_scheme \<Rightarrow> (string \<times> 'a purchase_db_scheme) result" where
  "bill_number_for co d s =
     (case bc_number d of
        Some n \<Rightarrow> if n \<noteq> [] then Inr (n, s)
                  else bindE (series_year (bc_date d)) (\<lambda>year. nextDocumentNumber (bill_numbers co s) co BILL year s)
      | None \<Rightarrow> bindE (series_year (bc_date d)) (\<lambda>year. nextDocumentNumber (bill_numbers co s) co BILL year s))"

definition linked_line :: "po_link option list \<Rightarrow> nat \<times> bill_line \<Rightarrow> bill_line" where
  "linked_line links = (\<lambda>(i, l). case (if i < length links then links ! i else None) of
      None \<Rightarrow> l
    | Some k \<Rightarrow> l\<lparr>bn_poLine := Some (lk_line k), bn_quantity := Some (lk_quantity k), bn_grni := lk_grni k\<rparr>)"

definition new_bill :: "nat \<Rightarrow> bill_input \<Rightarrow> string \<Rightarrow> bill_totals \<Rightarrow> po_link option list \<Rightarrow> 'a ledger_db_scheme \<Rightarrow> bill" where
  "new_bill co d number tot links s =
     \<lparr>bi_id = db_fresh s, bi_company = co, bi_vendor = bc_vendor d, bi_number = number, bi_date = bc_date d,
      bi_dueDate = bc_dueDate d, bi_subtotal = bt_subtotal tot, bi_taxAmount = bt_taxAmount tot, bi_total = bt_total tot,
      bi_amountPaid = 0, bi_balance = bt_total tot, bi_status = (if bc_draft d = Some True then BS_draft else BS_open),
      bi_memo = bc_memo d, bi_entry = None, bi_po = bc_po d,
      bi_lines = map (linked_line links) (enumerate 0 (bt_lines tot))\<rparr>"

definition bill_createInTransaction :: "env \<Rightarrow> nat \<Rightarrow> nat \<Rightarrow> bill_input \<Rightarrow> po_link option list \<Rightarrow> 'a purchase_db_scheme \<Rightarrow>
    (bill \<times> 'a purchase_db_scheme) result" where
  "bill_createInTransaction E co user d links s =
     bindE (assertPoGoodsBilledThroughReceipt co d s) (\<lambda>_.
     some_or (find_vendor co (bc_vendor d) s) (NotFound ''VENDOR_NOT_FOUND'') (\<lambda>_.
     bindE (bill_number_for co d s) (\<lambda>(number, s1).
     bindE (checked_totals (dec E) co (bc_lines d) s1) (\<lambda>tot.
     let b = new_bill co d number tot links s1;
         s2 = s1\<lparr>db_bills := db_bills s1 @ [b], db_fresh := db_fresh s1 + 1\<rparr>
     in if bi_status b = BS_draft then Inr (b, s2)
        else bindE (createJournalEntryForBill E b user s2) (\<lambda>(b', s3).
             Inr (b', add_vendor_balance (dec E) co (bc_vendor d) (bi_total b) s3))))))"

definition bill_create :: "env \<Rightarrow> nat \<Rightarrow> nat \<Rightarrow> bill_input \<Rightarrow> 'a purchase_db_scheme \<Rightarrow> (bill \<times> 'a purchase_db_scheme) result" where
  "bill_create E co user d = transaction (bill_createInTransaction E co user d [])"

definition edited_bill :: "bill_update \<Rightarrow> bill \<Rightarrow> bill" where
  "edited_bill u b =
     b\<lparr>bi_number := if_sent (bu_number u) (bi_number b), bi_date := if_sent (bu_date u) (bi_date b),
       bi_dueDate := if_sent (bu_dueDate u) (bi_dueDate b), bi_memo := if_sent (bu_memo u) (bi_memo b)\<rparr>"

definition bill_updateInTransaction :: "env \<Rightarrow> nat \<Rightarrow> nat \<Rightarrow> bill_update \<Rightarrow> 'a purchase_db_scheme \<Rightarrow>
    (bill \<times> 'a purchase_db_scheme) result" where
  "bill_updateInTransaction E co i u s =
     some_or (find_bill co i s) (NotFound ''BILL_NOT_FOUND'') (\<lambda>b.
     throw_if (bi_status b \<noteq> BS_draft) (BadRequest ''CANNOT_EDIT_POSTED'')
    (let b1 = edited_bill u b
     in bindE (case bu_lines u of
                 None \<Rightarrow> Inr b1
               | Some lines \<Rightarrow> bindE (checked_totals (dec E) co lines s) (\<lambda>tot.
                   Inr (b1\<lparr>bi_subtotal := bt_subtotal tot, bi_taxAmount := bt_taxAmount tot, bi_total := bt_total tot,
                           bi_balance := bt_total tot, bi_lines := bt_lines tot\<rparr>))) (\<lambda>b2.
        Inr (b2, save_bill b2 s))))"

definition bill_update :: "env \<Rightarrow> nat \<Rightarrow> nat \<Rightarrow> bill_update \<Rightarrow> 'a purchase_db_scheme \<Rightarrow> (bill \<times> 'a purchase_db_scheme) result" where
  "bill_update E co i u = transaction (bill_updateInTransaction E co i u)"

definition bill_post :: "env \<Rightarrow> nat \<Rightarrow> nat \<Rightarrow> nat \<Rightarrow> 'a purchase_db_scheme \<Rightarrow> (bill \<times> 'a purchase_db_scheme) result" where
  "bill_post E co i user =
     transaction (\<lambda>s.
       some_or (find_bill co i s) (NotFound ''BILL_NOT_FOUND'') (\<lambda>b.
       throw_if (bi_status b \<noteq> BS_draft) (BadRequest ''ALREADY_POSTED'')
      (some_or (find_vendor co (bi_vendor b) s) (NotFound ''VENDOR_NOT_FOUND'') (\<lambda>_.
       let b1 = b\<lparr>bi_status := BS_open\<rparr>
       in bindE (createJournalEntryForBill E b1 user (save_bill b1 s)) (\<lambda>(b2, s1).
          Inr (b2, add_vendor_balance (dec E) co (bi_vendor b) (bi_total b) s1))))))"

section \<open>Paying\<close>

definition paid_bill :: "decimal_js \<Rightarrow> rat \<Rightarrow> bill \<Rightarrow> bill" where
  "paid_bill D amt b =
     (let paid = d_fixed D 4 (bi_amountPaid b + amt)
      in b\<lparr>bi_amountPaid := paid, bi_balance := d_fixed D 4 (bi_total b - paid),
           bi_status := (if moneyEquals paid (bi_total b) then BS_paid else if isPositive paid then BS_partial else bi_status b)\<rparr>)"

definition pay_one_bill :: "decimal_js \<Rightarrow> nat \<Rightarrow> nat \<Rightarrow> nat \<Rightarrow> bill_application list \<times> 'a purchase_db_scheme \<Rightarrow> nat \<times> rat \<Rightarrow>
    (bill_application list \<times> 'a purchase_db_scheme) result" where
  "pay_one_bill D co vendor paymentId = (\<lambda>(apps, s) (billId, amt).
     some_or (find_bill co billId s) (NotFound ''BILL_NOT_FOUND'') (\<lambda>b.
     throw_if (bi_vendor b \<noteq> vendor) (BadRequest ''VALIDATION_FAILED'')
    (throw_if (bi_status b = BS_draft \<or> bi_status b = BS_void) (BadRequest ''BILL_NOT_POSTED'')
    (throw_if (\<not> isPositive amt) (BadRequest ''VALIDATION_FAILED'')
    (throw_if (bi_balance b < amt) (BadRequest ''PAYMENT_EXCEEDS_BALANCE'')
    (Inr (apps @ [\<lparr>ba_payment = paymentId, ba_bill = billId, ba_amount = d_fixed D 4 amt\<rparr>], save_bill (paid_bill D amt b) s)))))))"

definition claim_proof :: "nat \<Rightarrow> nat \<Rightarrow> 'a purchase_db_scheme \<Rightarrow> payment_proof result" where
  "claim_proof co i s =
     some_or (find (\<lambda>p. pf_id p = i \<and> pf_company p = co) (db_proofs s)) (BadRequest ''PAYMENT_PROOF_NOT_FOUND'') (\<lambda>p.
     throw_if (pf_consumedBy p \<noteq> None) (BadRequest ''PAYMENT_PROOF_ALREADY_USED'') (Inr p))"

definition new_bill_payment :: "decimal_js \<Rightarrow> nat \<Rightarrow> bill_payment_input \<Rightarrow> rat \<Rightarrow> payment_proof \<Rightarrow> 'a ledger_db_scheme \<Rightarrow> bill_payment" where
  "new_bill_payment D co d paid proof s =
     \<lparr>bp_id = db_fresh s, bp_company = co, bp_vendor = pb_vendor d, bp_bankAccount = pb_bank d, bp_date = pb_date d,
      bp_method = pb_method d, bp_reference = pb_reference d, bp_total = d_fixed D 4 paid, bp_entry = None,
      bp_proofKey = Some (pf_storageKey proof), bp_proofUrl = Some (pf_url proof)\<rparr>"

definition bill_payInTransaction :: "env \<Rightarrow> nat \<Rightarrow> nat \<Rightarrow> bill_payment_input \<Rightarrow> 'a purchase_db_scheme \<Rightarrow>
    (bill_payment \<times> 'a purchase_db_scheme) result" where
  "bill_payInTransaction E co user d s =
     throw_if (pb_applications d = []) (BadRequest ''VALIDATION_FAILED'')
    (some_or (find_vendor co (pb_vendor d) s) (NotFound ''VENDOR_NOT_FOUND'') (\<lambda>v.
     some_or (find (\<lambda>a. acc_id a = pb_bank d \<and> acc_company a = co) (db_accounts s)) (NotFound ''ACCOUNT_NOT_FOUND'') (\<lambda>bank.
     bindE (assertMoneyAccount bank) (\<lambda>_.
     let paid = foldl (\<lambda>t (_, x). t + x) 0 (pb_applications d)
     in bindE (claim_proof co (pb_proof d) s) (\<lambda>proof.
        let p = new_bill_payment (dec E) co d paid proof s;
            s1 = s\<lparr>db_billPayments := db_billPayments s @ [p], db_fresh := db_fresh s + 1,
                   db_proofs := update_row pf_id (pf_id proof) (\<lambda>f. f\<lparr>pf_consumedBy := Some (bp_id p)\<rparr>) (db_proofs s)\<rparr>
        in bindE (foldE (pay_one_bill (dec E) co (pb_vendor d) (bp_id p)) ([], s1) (pb_applications d)) (\<lambda>(apps, s2).
           let s3 = add_vendor_balance (dec E) co (pb_vendor d) (- paid)
                      (s2\<lparr>db_billApplications := db_billApplications s2 @ apps\<rparr>)
           in bindE (getByNumberOrFail s3 co ACCT_AP) (\<lambda>ap.
              bindE (createEntry E s3
                \<lparr>pi_company = co, pi_date = pb_date d, pi_memo = Some (''Bill payment to '' @ ve_companyName v), pi_createdBy = user,
                 pi_lines = number_lines [post_line (acc_id ap) None (d_fixed (dec E) 4 paid) 0,
                                          post_line (acc_id bank) None 0 (d_fixed (dec E) 4 paid)],
                 pi_posted = True, pi_sourceType = Some ''bill_payment'', pi_sourceId = Some (bp_id p), pi_reversalOf = None\<rparr>) (\<lambda>(entry, s4).
              let p' = p\<lparr>bp_entry := Some (je_id entry)\<rparr>
              in Inr (p', s4\<lparr>db_billPayments := update_row bp_id (bp_id p) (\<lambda>_. p') (db_billPayments s4)\<rparr>)))))))))"

definition bill_pay :: "env \<Rightarrow> nat \<Rightarrow> nat \<Rightarrow> bill_payment_input \<Rightarrow> 'a purchase_db_scheme \<Rightarrow> (bill_payment \<times> 'a purchase_db_scheme) result" where
  "bill_pay E co user d = transaction (bill_payInTransaction E co user d)"

section \<open>Vendor credit on a bill\<close>

definition credited_bill :: "decimal_js \<Rightarrow> rat \<Rightarrow> bill \<Rightarrow> bill" where
  "credited_bill D amt b =
     (let paid = d_fixed D 4 (bi_amountPaid b + amt)
      in b\<lparr>bi_amountPaid := paid, bi_balance := d_fixed D 4 (bi_total b - paid),
           bi_status := (if moneyEquals paid (bi_total b) then BS_paid else BS_partial)\<rparr>)"

definition applyCredit :: "decimal_js \<Rightarrow> nat \<Rightarrow> nat \<Rightarrow> rat \<Rightarrow> 'a purchase_db_scheme \<Rightarrow> (bill \<times> 'a purchase_db_scheme) result" where
  "applyCredit D co i amt s =
     some_or (find_bill co i s) (NotFound ''BILL_NOT_FOUND'') (\<lambda>b.
     throw_if (bi_status b = BS_draft \<or> bi_status b = BS_void) (BadRequest ''BILL_NOT_POSTED'')
    (throw_if (\<not> isPositive amt) (BadRequest ''VALIDATION_FAILED'')
    (throw_if (bi_balance b < amt) (BadRequest ''PAYMENT_EXCEEDS_BALANCE'')
    (let b' = credited_bill D amt b in Inr (b', save_bill b' s)))))"

definition find_vendor_credit :: "nat \<Rightarrow> nat \<Rightarrow> 'a purchase_db_scheme \<Rightarrow> vendor_credit option" where
  "find_vendor_credit co i s = find (\<lambda>c. vc_id c = i \<and> vc_company c = co) (db_vendorCredits s)"

definition save_vendor_credit :: "vendor_credit \<Rightarrow> 'a purchase_db_scheme \<Rightarrow> 'a purchase_db_scheme" where
  "save_vendor_credit c s = s\<lparr>db_vendorCredits := update_row vc_id (vc_id c) (\<lambda>_. c) (db_vendorCredits s)\<rparr>"

definition used_credit_of :: "decimal_js \<Rightarrow> rat \<Rightarrow> vendor_credit \<Rightarrow> vendor_credit" where
  "used_credit_of D amt c =
     (let applied = d_fixed D 4 (vc_amountApplied c + amt);
          bal = d_fixed D 4 (vc_total c - applied)
      in c\<lparr>vc_amountApplied := applied, vc_balance := bal, vc_status := (if bal \<le> 0 then VS_closed else VS_applied)\<rparr>)"

definition applyVendorCredit :: "decimal_js \<Rightarrow> nat \<Rightarrow> nat \<Rightarrow> nat \<Rightarrow> rat \<Rightarrow> nat option \<Rightarrow> 'a purchase_db_scheme \<Rightarrow>
    ((vendor_credit \<times> bill) \<times> 'a purchase_db_scheme) result" where
  "applyVendorCredit D co creditId billId amt expectedVendor s =
     some_or (find_vendor_credit co creditId s) (NotFound ''VENDOR_CREDIT_NOT_FOUND'') (\<lambda>c.
     throw_if (case expectedVendor of None \<Rightarrow> False | Some v \<Rightarrow> vc_vendor c \<noteq> v) (BadRequest ''VENDOR_MISMATCH'')
    (throw_if (vc_status c = VS_void \<or> vc_status c = VS_closed) (BadRequest ''CREDIT_UNAVAILABLE'')
    (throw_if (\<not> isPositive amt) (BadRequest ''VALIDATION_FAILED'')
    (throw_if (vc_balance c + MONEY_TOLERANCE < amt) (BadRequest ''EXCEEDS_CREDIT'')
    (some_or (find_bill co billId s) (NotFound ''BILL_NOT_FOUND'') (\<lambda>target.
     throw_if (bi_vendor target \<noteq> vc_vendor c) (BadRequest ''VENDOR_MISMATCH'')
    (bindE (applyCredit D co billId (d_fixed D 4 amt) s) (\<lambda>(b, s1).
     let c' = used_credit_of D amt c in Inr ((c', b), save_vendor_credit c' s1)))))))))"

section \<open>Settling\<close>

record vendor_credit_use =
  vu_credit :: nat
  vu_bill :: nat
  vu_amount :: rat

record settle_bills_cash =
  sb_method :: string
  sb_bank :: nat
  sb_reference :: "string option"
  sb_proof :: nat
  sb_applications :: "(nat \<times> rat) list"

record settle_bills_input =
  sbi_vendor :: nat
  sbi_date :: date
  sbi_credits :: "vendor_credit_use list"
  sbi_cash :: "settle_bills_cash option"

record settled_vendor_credit =
  sv_credit :: nat
  sv_creditNumber :: "string option"
  sv_bill :: nat
  sv_billNumber :: string
  sv_amount :: rat

record bill_settlement =
  bs_payment :: "bill_payment option"
  bs_credits :: "settled_vendor_credit list"
  bs_creditTotal :: rat
  bs_cashTotal :: rat
  bs_bills :: "(nat \<times> string \<times> rat \<times> bill_status) list"

definition settle_credit :: "env \<Rightarrow> nat \<Rightarrow> nat \<Rightarrow> settled_vendor_credit list \<times> 'a purchase_db_scheme \<Rightarrow> vendor_credit_use \<Rightarrow>
    (settled_vendor_credit list \<times> 'a purchase_db_scheme) result" where
  "settle_credit E co vendor = (\<lambda>(used, s) c.
     bindE (applyVendorCredit (dec E) co (vu_credit c) (vu_bill c) (vu_amount c) (Some vendor) s) (\<lambda>((credit, b), s1).
     Inr (used @ [\<lparr>sv_credit = vc_id credit, sv_creditNumber = vc_number credit, sv_bill = bi_id b, sv_billNumber = bi_number b,
                   sv_amount = d_fixed (dec E) 4 (vu_amount c)\<rparr>], s1)))"

definition cash_applications :: "settle_bills_input \<Rightarrow> (nat \<times> rat) list" where
  "cash_applications d = (case sbi_cash d of None \<Rightarrow> [] | Some c \<Rightarrow> sb_applications c)"

definition settle_cash_leg :: "env \<Rightarrow> nat \<Rightarrow> nat \<Rightarrow> settle_bills_input \<Rightarrow> 'a purchase_db_scheme \<Rightarrow>
    (bill_payment option \<times> 'a purchase_db_scheme) result" where
  "settle_cash_leg E co user d s =
     (case sbi_cash d of
        None \<Rightarrow> Inr (None, s)
      | Some c \<Rightarrow> if sb_applications c = [] then Inr (None, s)
          else map_sum id (\<lambda>(p, t). (Some p, t)) (bill_payInTransaction E co user
            \<lparr>pb_vendor = sbi_vendor d, pb_date = sbi_date d, pb_method = sb_method c, pb_bank = sb_bank c,
             pb_reference = sb_reference c, pb_proof = sb_proof c, pb_applications = sb_applications c\<rparr> s))"

definition bill_settleInTransaction :: "env \<Rightarrow> nat \<Rightarrow> nat \<Rightarrow> settle_bills_input \<Rightarrow> 'a purchase_db_scheme \<Rightarrow>
    (bill_settlement \<times> 'a purchase_db_scheme) result" where
  "bill_settleInTransaction E co user d s =
     some_or (find_vendor co (sbi_vendor d) s) (NotFound ''VENDOR_NOT_FOUND'') (\<lambda>_.
     throw_if (sbi_credits d = [] \<and> cash_applications d = []) (BadRequest ''NOTHING_TO_SETTLE'')
    (bindE (foldE (settle_credit E co (sbi_vendor d)) ([], s) (sbi_credits d)) (\<lambda>(used, s1).
     bindE (settle_cash_leg E co user d s1) (\<lambda>(p, s2).
     let ids = map vu_bill (sbi_credits d) @ map fst (cash_applications d)
     in Inr (\<lparr>bs_payment = p, bs_credits = used,
              bs_creditTotal = d_fixed (dec E) 4 (foldl (\<lambda>t c. t + sv_amount c) 0 used),
              bs_cashTotal = (case p of None \<Rightarrow> 0 | Some p \<Rightarrow> d_fixed (dec E) 4 (bp_total p)),
              bs_bills = map (\<lambda>b. (bi_id b, bi_number b, bi_balance b, bi_status b))
                (filter (\<lambda>b. bi_id b \<in> set ids \<and> bi_company b = co) (db_bills s2))\<rparr>, s2)))))"

definition bill_settle :: "env \<Rightarrow> nat \<Rightarrow> nat \<Rightarrow> settle_bills_input \<Rightarrow> 'a purchase_db_scheme \<Rightarrow> (bill_settlement \<times> 'a purchase_db_scheme) result" where
  "bill_settle E co user d = transaction (bill_settleInTransaction E co user d)"

section \<open>Deleting\<close>

text \<open>What a deleted bill gives back to the line of the order it billed.\<close>

definition released_line :: "decimal_js \<Rightarrow> bill_line \<Rightarrow> po_line \<Rightarrow> po_line" where
  "released_line D bl l =
     l\<lparr>pn_billed := d_fixed D 4 (max (pn_billed l - toDecimal (bn_quantity bl)) 0),
       pn_grniCleared := (case bn_grni bl of None \<Rightarrow> pn_grniCleared l | Some g \<Rightarrow> d_fixed D 4 (pn_grniCleared l - g))\<rparr>"

definition released_status :: "po_line list \<Rightarrow> po_status" where
  "released_status ls =
     (if list_all (\<lambda>l. pn_ordered l \<le> pn_received l) ls then PS_received
      else if list_ex (\<lambda>l. 0 < pn_received l) ls then PS_partial else PS_sent)"

definition releasePurchaseOrderBilling :: "decimal_js \<Rightarrow> nat \<Rightarrow> bill \<Rightarrow> 'a purchase_db_scheme \<Rightarrow> 'a purchase_db_scheme" where
  "releasePurchaseOrderBilling D co b s =
     (case Option.bind (bi_po b) (\<lambda>p. find_po co p s) of
        None \<Rightarrow> s
      | Some order \<Rightarrow>
          let ls = foldl (\<lambda>ls bl. case bn_poLine bl of None \<Rightarrow> ls
                       | Some i \<Rightarrow> update_row pn_id i (released_line D bl) ls) (po_lines order) (bi_lines b)
          in save_po (order\<lparr>po_lines := ls,
               po_status := (if po_status order = PS_closed then released_status ls else po_status order)\<rparr>) s)"

definition bill_deleteInTransaction :: "env \<Rightarrow> nat \<Rightarrow> nat \<Rightarrow> nat \<Rightarrow> 'a purchase_db_scheme \<Rightarrow> (unit \<times> 'a purchase_db_scheme) result" where
  "bill_deleteInTransaction E co i user s =
     some_or (find_bill co i s) (NotFound ''BILL_NOT_FOUND'') (\<lambda>b.
     throw_if (isPositive (bi_amountPaid b)) (BadRequest ''BILL_HAS_PAYMENTS'')
    (bindE (case bi_entry b of
              None \<Rightarrow> Inr s
            | Some e \<Rightarrow> bindE (mirror_entry E co user (''Delete bill '' @ bi_number b) ''bill_void'' (bi_id b) e (today E) s) (\<lambda>s1.
                Inr (add_vendor_balance (dec E) co (bi_vendor b) (- bi_total b) s1))) (\<lambda>s2.
     let s3 = releasePurchaseOrderBilling (dec E) co b s2
     in Inr ((), s3\<lparr>db_bills := filter (\<lambda>w. bi_id w \<noteq> i) (db_bills s3)\<rparr>))))"

definition bill_delete :: "env \<Rightarrow> nat \<Rightarrow> nat \<Rightarrow> nat \<Rightarrow> 'a purchase_db_scheme \<Rightarrow> (unit \<times> 'a purchase_db_scheme) result" where
  "bill_delete E co i user = transaction (bill_deleteInTransaction E co i user)"

section \<open>Proofs\<close>

text \<open>
  The row is saved before the bytes are, since the address of the file is made from its id; this is no transaction, so
  a store that fails leaves the row without a key. \<open>put\<close> is the store: the key and the address, from the id.
\<close>

definition createPaymentProof :: "(nat \<Rightarrow> (string \<times> string) result) \<Rightarrow> nat \<Rightarrow> nat \<Rightarrow> string \<Rightarrow> string \<Rightarrow> nat \<Rightarrow>
    'a purchase_db_scheme \<Rightarrow> payment_proof result \<times> 'a purchase_db_scheme" where
  "createPaymentProof put co user mimeType originalName sz s =
     (let f = \<lparr>pf_id = db_fresh s, pf_company = co, pf_storageKey = [], pf_url = [], pf_mimeType = mimeType,
               pf_originalName = originalName, pf_size = sz, pf_uploadedBy = user, pf_consumedBy = None\<rparr>;
          s1 = s\<lparr>db_proofs := db_proofs s @ [f], db_fresh := db_fresh s + 1\<rparr>
      in case put (pf_id f) of
           Inl e \<Rightarrow> (Inl e, s1)
         | Inr (key, url) \<Rightarrow> let f' = f\<lparr>pf_storageKey := key, pf_url := url\<rparr>
             in (Inr f', s1\<lparr>db_proofs := update_row pf_id (pf_id f) (\<lambda>_. f') (db_proofs s1)\<rparr>))"

definition readPaymentProof :: "(string \<Rightarrow> 'b option) \<Rightarrow> nat \<Rightarrow> nat \<Rightarrow> 'a purchase_db_scheme \<Rightarrow> ('b \<times> payment_proof) result" where
  "readPaymentProof read co i s =
     some_or (find (\<lambda>p. pf_id p = i \<and> pf_company p = co) (db_proofs s)) (NotFound ''PAYMENT_PROOF_NOT_FOUND'') (\<lambda>p.
     some_or (read (pf_storageKey p)) (NotFound ''PAYMENT_PROOF_MISSING'') (\<lambda>f. Inr (f, p)))"

section \<open>Reading\<close>

fun bill_status_text :: "bill_status \<Rightarrow> string" where
  "bill_status_text BS_draft = ''draft''"
| "bill_status_text BS_open = ''open''"
| "bill_status_text BS_partial = ''partial''"
| "bill_status_text BS_paid = ''paid''"
| "bill_status_text BS_overdue = ''overdue''"
| "bill_status_text BS_void = ''void''"

definition BILL_OPEN_STATUSES :: "string list" where
  "BILL_OPEN_STATUSES = [''open'', ''partial'']"

definition withDerivedStatus :: "date \<Rightarrow> bill \<Rightarrow> string" where
  "withDerivedStatus day b =
     derivedStatus \<lparr>doc_status = bill_status_text (bi_status b), doc_dueDate = Some (bi_dueDate b), doc_balance = Some (bi_balance b)\<rparr>
       BILL_OPEN_STATUSES day"

definition payments_of_bill :: "nat \<Rightarrow> nat \<Rightarrow> 'a purchase_db_scheme \<Rightarrow> bill_payment list" where
  "payments_of_bill co billId s =
     filter (\<lambda>p. bp_company p = co \<and> list_ex (\<lambda>a. ba_payment a = bp_id p \<and> ba_bill a = billId) (db_billApplications s)) (db_billPayments s)"

definition getBillPaymentHistory :: "nat \<Rightarrow> nat \<Rightarrow> 'a purchase_db_scheme \<Rightarrow> (bill_payment \<times> bill_application list) list" where
  "getBillPaymentHistory co billId s =
     map (\<lambda>p. (p, filter (\<lambda>a. ba_payment a = bp_id p) (db_billApplications s)))
       (rev (sort_key bp_date (rev (payments_of_bill co billId s))))"

end
