(* ===== verification/VendorCredits.thy ===== *)
theory VendorCredits
  imports Bills
begin

text \<open>
  Vendor credits: \<^verbatim>\<open>src/modules/vendor-credits/vendor-credits.service.ts\<close>. Entering a credit for goods sent back or for
  money, spending it on a bill (in \<^verbatim>\<open>bills.service.ts\<close>), voiding and deleting it, and the stock that goes back.
\<close>

section \<open>Inputs and totals\<close>

record vendor_credit_line_input =
  vx_description :: string
  vx_amount :: rat
  vx_taxRate :: "rat option"
  vx_item :: "nat option"
  vx_quantity :: "rat option"
  vx_account :: "nat option"

record vendor_credit_input =
  vd_vendor :: nat
  vd_date :: date
  vd_originalBill :: "nat option"
  vd_reason :: "string option"
  vd_lines :: "vendor_credit_line_input list"

definition vendor_credit_tax :: "decimal_js \<Rightarrow> vendor_credit_line_input \<Rightarrow> rat" where
  "vendor_credit_tax D l = d_prec D (d_prec D (vx_amount l * toDecimal (vx_taxRate l)) / 100)"

record vendor_credit_totals =
  vt_subtotal :: rat
  vt_taxAmount :: rat
  vt_total :: rat

definition vendor_credit_computeTotals :: "decimal_js \<Rightarrow> vendor_credit_line_input list \<Rightarrow> vendor_credit_totals" where
  "vendor_credit_computeTotals D lines =
     (let (subtotal, tax) = foldl (\<lambda>(s, t) l. (s + vx_amount l, t + vendor_credit_tax D l)) (0, 0) lines
      in \<lparr>vt_subtotal = d_fixed D 4 subtotal, vt_taxAmount = d_fixed D 4 tax, vt_total = d_fixed D 4 (subtotal + tax)\<rparr>)"

section \<open>Stock\<close>

text \<open>The goods leave at the value the credit gives them; a void puts them back at the same value.\<close>

definition sent_back_item :: "decimal_js \<Rightarrow> bool \<Rightarrow> rat \<Rightarrow> rat \<Rightarrow> inv_item \<Rightarrow> inv_item" where
  "sent_back_item D reverse qty moved it =
     (let onHand = it_onHand it;
          newQty = (if reverse then onHand + qty else onHand - qty);
          current = d_prec D (onHand * it_unitCost it);
          next = (if reverse then current + moved else current - moved)
      in it\<lparr>it_unitCost := (if 0 < newQty then d_fixed D 4 (d_prec D (next / newQty)) else 0), it_onHand := d_fixed D 4 newQty\<rparr>)"

definition sent_back_movement :: "bool \<Rightarrow> vendor_credit \<Rightarrow> rat \<Rightarrow> rat \<Rightarrow> inv_item \<Rightarrow> movement_input" where
  "sent_back_movement reverse c qty moved it =
     \<lparr>mi_company = vc_company c, mi_item = it_id it, mi_date = vc_date c, mi_type = (if reverse then ''return'' else ''sale''),
      mi_quantity = (if reverse then qty else - qty),
      mi_balanceAfter = (if reverse then it_onHand it + qty else it_onHand it - qty),
      mi_value = (if reverse then moved else - moved), mi_reference = vc_number c, mi_description = None,
      mi_sourceType = Some (if reverse then ''vendor_credit_void'' else ''vendor_credit''), mi_sourceId = Some (vc_id c),
      mi_createdBy = None\<rparr>"

definition relieve_line :: "decimal_js \<Rightarrow> nat \<Rightarrow> vendor_credit \<Rightarrow> bool \<Rightarrow> 'a trade_db_scheme \<Rightarrow> vendor_credit_line \<Rightarrow>
    ('a trade_db_scheme) result" where
  "relieve_line D co c reverse s l =
     (case vl_item l of
        None \<Rightarrow> Inr s
      | Some i \<Rightarrow>
          let qty = toDecimal (vl_quantity l) in
          if \<not> 0 < qty then Inr s
          else some_or (find (\<lambda>it. it_id it = i \<and> it_company it = co) (db_items s)) (NotFound ''ITEM_NOT_FOUND'') (\<lambda>it.
               bindE (if reverse then Inr () else assertSufficientStock (it_onHand it) qty) (\<lambda>_.
               let it' = sent_back_item D reverse qty (vl_amount l) it
               in throw_if (it_onHand it' < 0) (DbError ''check_violation'')
                 (Inr (recordInventoryMovement D (sent_back_movement reverse c qty (vl_amount l) it)
                    (s\<lparr>db_items := update_row it_id (it_id it) (\<lambda>_. it') (db_items s)\<rparr>))))))"

definition relieveReturnedStock :: "decimal_js \<Rightarrow> nat \<Rightarrow> vendor_credit \<Rightarrow> bool \<Rightarrow> 'a trade_db_scheme \<Rightarrow> ('a trade_db_scheme) result" where
  "relieveReturnedStock D co c reverse s = foldE (relieve_line D co c reverse) s (vc_lines c)"

section \<open>Entering\<close>

text \<open>A line credits the stock account only when it names the item and how much of it goes back.\<close>

definition check_credit_lines :: "nat \<Rightarrow> vendor_credit_line_input list \<Rightarrow> unit result" where
  "check_credit_lines inventoryAccount lines =
     foldE (\<lambda>_ l.
       throw_if (vx_item l = None \<and> vx_account l = Some inventoryAccount) (BadRequest ''INVENTORY_LINE_NEEDS_ITEM'')
      (throw_if (vx_item l \<noteq> None \<and> \<not> 0 < toDecimal (vx_quantity l)) (BadRequest ''QUANTITY_REQUIRED'') (Inr ()))) () lines"

definition vendor_credit_numbers :: "nat \<Rightarrow> 'a purchase_db_scheme \<Rightarrow> string list" where
  "vendor_credit_numbers co s = List.map_filter (\<lambda>c. if vc_company c = co then vc_number c else None) (db_vendorCredits s)"

definition credit_line_of :: "decimal_js \<Rightarrow> nat \<Rightarrow> nat \<Rightarrow> nat \<Rightarrow> vendor_credit_line_input \<Rightarrow> vendor_credit_line" where
  "credit_line_of D inventory cogs i l =
     \<lparr>vl_account = (if vx_item l \<noteq> None then Some inventory else Some (case vx_account l of None \<Rightarrow> cogs | Some a \<Rightarrow> a)),
      vl_item = vx_item l, vl_quantity = (if vx_item l \<noteq> None then Some (d_fixed D 4 (toDecimal (vx_quantity l))) else None),
      vl_description = vx_description l, vl_amount = d_fixed D 4 (vx_amount l), vl_taxRate = d_fixed D 4 (toDecimal (vx_taxRate l)),
      vl_order = i\<rparr>"

definition new_vendor_credit :: "decimal_js \<Rightarrow> nat \<Rightarrow> nat \<Rightarrow> vendor_credit_input \<Rightarrow> string \<Rightarrow> nat \<Rightarrow> nat \<Rightarrow> 'a ledger_db_scheme \<Rightarrow>
    vendor_credit" where
  "new_vendor_credit D co user d number inventory cogs s =
     (let tot = vendor_credit_computeTotals D (vd_lines d)
      in \<lparr>vc_id = db_fresh s, vc_company = co, vc_vendor = vd_vendor d, vc_number = Some number, vc_date = vd_date d,
          vc_originalBill = vd_originalBill d, vc_reason = vd_reason d, vc_subtotal = vt_subtotal tot,
          vc_taxAmount = vt_taxAmount tot, vc_total = vt_total tot, vc_amountApplied = 0, vc_balance = vt_total tot,
          vc_status = VS_open, vc_entry = None, vc_createdBy = Some user,
          vc_lines = map (\<lambda>(i, l). credit_line_of D inventory cogs i l) (enumerate 0 (vd_lines d))\<rparr>)"

text \<open>The other side of payables: the accounts of the lines, and the input tax claimed on the bill.\<close>

definition line_account :: "vendor_credit_line \<Rightarrow> nat" where
  "line_account l = (case vl_account l of None \<Rightarrow> 0 | Some a \<Rightarrow> a)"

definition credited_tax :: "nat \<Rightarrow> rat \<Rightarrow> 'a ledger_db_scheme \<Rightarrow> (nat list \<times> 'a ledger_db_scheme) result" where
  "credited_tax co tax s =
     (if 0 < tax then bindE (getOrCreateSystemAccount co ACCT_INPUT_TAX s) (\<lambda>(a, s1). Inr ([acc_id a], s1)) else Inr ([], s))"

definition vendor_credit_create :: "env \<Rightarrow> nat \<Rightarrow> nat \<Rightarrow> vendor_credit_input \<Rightarrow> 'a purchase_db_scheme \<Rightarrow>
    (vendor_credit \<times> 'a purchase_db_scheme) result" where
  "vendor_credit_create E co user d =
     transaction (\<lambda>s.
       some_or (find_vendor co (vd_vendor d) s) (NotFound ''VENDOR_NOT_FOUND'') (\<lambda>_.
       bindE (getByNumberOrFail s co ACCT_COGS) (\<lambda>cogs.
       bindE (getByNumberOrFail s co ACCT_INVENTORY) (\<lambda>inventory.
       bindE (check_credit_lines (acc_id inventory) (vd_lines d)) (\<lambda>_.
       bindE (series_year (vd_date d)) (\<lambda>year.
       bindE (nextDocumentNumber (vendor_credit_numbers co s) co VC year s) (\<lambda>(number, s1).
       let c = new_vendor_credit (dec E) co user d number (acc_id inventory) (acc_id cogs) s1
       in bindE (relieveReturnedStock (dec E) co c False
                  (s1\<lparr>db_vendorCredits := db_vendorCredits s1 @ [c], db_fresh := db_fresh s1 + 1\<rparr>)) (\<lambda>s2.
          bindE (getByNumberOrFail s2 co ACCT_AP) (\<lambda>ap.
          bindE (credited_tax co (vc_taxAmount c) s2) (\<lambda>(taxes, s3).
          bindE (createEntry E s3
            \<lparr>pi_company = co, pi_date = vd_date d, pi_memo = Some (''Vendor credit '' @ number), pi_createdBy = user,
             pi_lines = number_lines ([post_line (acc_id ap) (Some (''Vendor credit '' @ number)) (vc_total c) 0]
               @ map (\<lambda>l. post_line (line_account l) (Some (vl_description l)) 0 (vl_amount l)) (vc_lines c)
               @ map (\<lambda>a. post_line a (Some ''Input tax reversed on vendor credit'') 0 (vc_taxAmount c)) taxes),
             pi_posted = True, pi_sourceType = Some ''vendor_credit'', pi_sourceId = Some (vc_id c), pi_reversalOf = None\<rparr>) (\<lambda>(entry, s4).
          let c' = c\<lparr>vc_entry := Some (je_id entry)\<rparr>
          in Inr (c', add_vendor_balance (dec E) co (vd_vendor d) (- vc_total c) (save_vendor_credit c' s4)))))))))))))"

definition applyToBill :: "env \<Rightarrow> nat \<Rightarrow> nat \<Rightarrow> nat \<Rightarrow> rat \<Rightarrow> 'a purchase_db_scheme \<Rightarrow> (vendor_credit \<times> 'a purchase_db_scheme) result" where
  "applyToBill E co i billId amt =
     transaction (\<lambda>s. map_sum id (\<lambda>((c, _), t). (c, t)) (applyVendorCredit (dec E) co i billId amt None s))"

section \<open>Voiding and deleting\<close>

definition reverse_vendor_credit :: "env \<Rightarrow> nat \<Rightarrow> nat \<Rightarrow> vendor_credit \<Rightarrow> nat \<Rightarrow> 'a purchase_db_scheme \<Rightarrow> ('a purchase_db_scheme) result" where
  "reverse_vendor_credit E co user c entry s =
     bindE (getByNumberOrFail s co ACCT_AP) (\<lambda>ap.
     bindE (credited_tax co (vc_taxAmount c) s) (\<lambda>(taxes, s1).
     map_sum id snd (createEntry E s1
       \<lparr>pi_company = co, pi_date = today E,
        pi_memo = Some (''Void vendor credit '' @ (case vc_number c of None \<Rightarrow> ''null'' | Some n \<Rightarrow> n)), pi_createdBy = user,
        pi_lines = number_lines ([post_line (acc_id ap) None 0 (vc_total c)]
          @ map (\<lambda>l. post_line (line_account l) None (vl_amount l) 0) (vc_lines c)
          @ map (\<lambda>a. post_line a None (vc_taxAmount c) 0) taxes),
        pi_posted = True, pi_sourceType = Some ''vendor_credit_void'', pi_sourceId = Some (vc_id c), pi_reversalOf = Some entry\<rparr>)))"

definition vendor_credit_void :: "env \<Rightarrow> nat \<Rightarrow> nat \<Rightarrow> nat \<Rightarrow> 'a purchase_db_scheme \<Rightarrow> (vendor_credit \<times> 'a purchase_db_scheme) result" where
  "vendor_credit_void E co i user =
     transaction (\<lambda>s.
       some_or (find_vendor_credit co i s) (NotFound ''VENDOR_CREDIT_NOT_FOUND'') (\<lambda>c.
       throw_if (vc_status c = VS_void) (BadRequest ''ALREADY_VOID'')
      (throw_if (0 < vc_amountApplied c) (BadRequest ''ALREADY_APPLIED'')
      (bindE (case vc_entry c of None \<Rightarrow> Inr s | Some e \<Rightarrow> reverse_vendor_credit E co user c e s) (\<lambda>s1.
       bindE (relieveReturnedStock (dec E) co c True s1) (\<lambda>s2.
       let c' = c\<lparr>vc_status := VS_void, vc_balance := 0\<rparr>
       in Inr (c', save_vendor_credit c' (add_vendor_balance (dec E) co (vc_vendor c) (vc_total c) s2))))))))"

definition vendor_credit_delete :: "env \<Rightarrow> nat \<Rightarrow> nat \<Rightarrow> nat \<Rightarrow> 'a purchase_db_scheme \<Rightarrow> (unit \<times> 'a purchase_db_scheme) result" where
  "vendor_credit_delete E co i user s =
     some_or (find_vendor_credit co i s) (NotFound ''VENDOR_CREDIT_NOT_FOUND'') (\<lambda>c.
     throw_if (vc_status c \<noteq> VS_open) (BadRequest ''CANNOT_DELETE'')
    (bindE (if vc_entry c \<noteq> None then map_sum id snd (vendor_credit_void E co i user s) else Inr s) (\<lambda>s1.
     Inr ((), s1\<lparr>db_vendorCredits := filter (\<lambda>w. vc_id w \<noteq> vc_id c) (db_vendorCredits s1)\<rparr>))))"

end
