(* ===== verification/Payables.thy ===== *)
theory Payables
  imports VendorCredits CreditMemoLaws
begin

text \<open>
  The payables of a company: account 2000 is the sum of what the vendors are owed, and what a vendor is owed is the sum of the
  open balances of the bills posted for them less what is left of their credits. What a posting does to the account, and
  the step of the tables that every operation on bills and credits is an instance of.
\<close>

section \<open>The state of payables\<close>

definition bill_due :: "nat \<Rightarrow> nat \<Rightarrow> bill \<Rightarrow> rat" where
  "bill_due co k b = (if bi_company b = co \<and> bi_vendor b = k \<and> bi_entry b \<noteq> None then bi_balance b else 0)"

definition credit_left :: "nat \<Rightarrow> nat \<Rightarrow> vendor_credit \<Rightarrow> rat" where
  "credit_left co k c = (if vc_company c = co \<and> vc_vendor c = k then vc_balance c else 0)"

definition billed_to :: "nat \<Rightarrow> nat \<Rightarrow> 'a purchase_db_scheme \<Rightarrow> rat" where
  "billed_to co k s = (\<Sum>b\<leftarrow>db_bills s. bill_due co k b)"

definition credited_to :: "nat \<Rightarrow> nat \<Rightarrow> 'a purchase_db_scheme \<Rightarrow> rat" where
  "credited_to co k s = (\<Sum>c\<leftarrow>db_vendorCredits s. credit_left co k c)"

definition vendor_total :: "nat \<Rightarrow> vendor list \<Rightarrow> rat" where
  "vendor_total co vs = (\<Sum>v\<leftarrow>vs. if ve_companyId v = co then ve_balance v else 0)"

definition vendors_total :: "nat \<Rightarrow> 'a purchase_db_scheme \<Rightarrow> rat" where
  "vendors_total co s = vendor_total co (db_vendors s)"

definition avoids :: "account \<Rightarrow> bill_line list \<Rightarrow> bool" where
  "avoids a ls \<longleftrightarrow> (\<forall>l \<in> set ls. bn_account l \<noteq> acc_id a)"

definition bill_row_ok :: "'a purchase_db_scheme \<Rightarrow> account \<Rightarrow> bill \<Rightarrow> bool" where
  "bill_row_ok s ap b \<longleftrightarrow>
     money (bi_total b) \<and> money (bi_amountPaid b) \<and> bi_balance b = bi_total b - bi_amountPaid b \<and> 0 \<le> bi_amountPaid b
     \<and> find_vendor (bi_company b) (bi_vendor b) s \<noteq> None
     \<and> (bi_entry b = None \<longrightarrow> bi_amountPaid b = 0 \<and> bi_status b = BS_draft \<and> avoids ap (bi_lines b))
     \<and> (\<forall>n. bi_entry b = Some n \<longrightarrow> bi_amountPaid b \<le> bi_total b \<and> bi_status b \<noteq> BS_draft \<and>
          (\<exists>e \<in> set (db_entries s). je_id e = n \<and> je_company e = bi_company b \<and> entry_effect e ap = bi_total b))"

definition credit_row_ok :: "'a purchase_db_scheme \<Rightarrow> account \<Rightarrow> vendor_credit \<Rightarrow> bool" where
  "credit_row_ok s ap c \<longleftrightarrow>
     money (vc_total c) \<and> money (vc_amountApplied c) \<and> 0 \<le> vc_amountApplied c
     \<and> vc_balance c = (if vc_status c = VS_void then 0 else vc_total c - vc_amountApplied c)
     \<and> (vc_status c = VS_open \<longrightarrow> vc_amountApplied c = 0)
     \<and> find_vendor (vc_company c) (vc_vendor c) s \<noteq> None \<and> vc_entry c \<noteq> None
     \<and> (\<forall>l \<in> set (vc_lines c). line_account l \<noteq> acc_id ap)"

definition keyed :: "('r \<Rightarrow> nat) \<Rightarrow> 'r list \<Rightarrow> nat \<Rightarrow> bool" where
  "keyed key rows fresh \<longleftrightarrow> distinct (map key rows) \<and> (\<forall>r \<in> set rows. key r < fresh)"

definition payables_ok :: "nat \<Rightarrow> 'a purchase_db_scheme \<Rightarrow> bool" where
  "payables_ok co s \<longleftrightarrow>
     ledger_ok s
     \<and> (\<exists>ap. by_number s co ACCT_AP = Some ap \<and> acc_type ap = Liability \<and> acc_balance ap = vendors_total co s
          \<and> (\<forall>b \<in> set (db_bills s). bi_company b = co \<longrightarrow> bill_row_ok s ap b)
          \<and> (\<forall>c \<in> set (db_vendorCredits s). vc_company c = co \<longrightarrow> credit_row_ok s ap c))
     \<and> distinct (map ve_id (db_vendors s)) \<and> keyed bi_id (db_bills s) (db_fresh s) \<and> keyed vc_id (db_vendorCredits s) (db_fresh s)
     \<and> (\<forall>v \<in> set (db_vendors s). ve_companyId v = co \<longrightarrow> ve_balance v = billed_to co (ve_id v) s - credited_to co (ve_id v) s)"

lemma payables_account:
  assumes "payables_ok co s"
  obtains ap where "by_number s co ACCT_AP = Some ap" and "acc_type ap = Liability" and "acc_balance ap = vendors_total co s"
    and "\<forall>b \<in> set (db_bills s). bi_company b = co \<longrightarrow> bill_row_ok s ap b"
    and "\<forall>c \<in> set (db_vendorCredits s). vc_company c = co \<longrightarrow> credit_row_ok s ap c"
  using assms unfolding payables_ok_def by blast

lemma payables_ledger: "payables_ok co s \<Longrightarrow> ledger_ok s"
  by (simp add: payables_ok_def)

section \<open>Rows carry over\<close>

definition vendor_keys :: "'a party_db_scheme \<Rightarrow> (nat \<times> nat) list" where
  "vendor_keys s = map (\<lambda>v. (ve_companyId v, ve_id v)) (db_vendors s)"

lemma find_vendor_keys: "find_vendor co k s \<noteq> None \<longleftrightarrow> (co, k) \<in> set (vendor_keys s)"
  by (force simp: find_vendor_def find_None_iff vendor_keys_def)

lemma bill_row_keeps:
  assumes "bill_row_ok s ap b" and "set (db_entries s) \<subseteq> set (db_entries t)" and "vendor_keys t = vendor_keys s"
  shows "bill_row_ok t (ap\<lparr>acc_balance := x\<rparr>) b"
  using assms subsetD [OF assms(2)] unfolding bill_row_ok_def find_vendor_keys avoids_def by (simp (no_asm_simp)) blast

lemma credit_row_keeps:
  assumes "credit_row_ok s ap c" and "vendor_keys t = vendor_keys s"
  shows "credit_row_ok t (ap\<lparr>acc_balance := x\<rparr>) c"
  using assms unfolding credit_row_ok_def find_vendor_keys by simp

lemma bill_row_balance [simp]: "bill_row_ok s (ap\<lparr>acc_balance := x\<rparr>) b = bill_row_ok s ap b"
  by (simp add: bill_row_ok_def avoids_def)

lemma credit_row_balance [simp]: "credit_row_ok s (ap\<lparr>acc_balance := x\<rparr>) c = credit_row_ok s ap c"
  by (simp add: credit_row_ok_def)

section \<open>One vendor's balance moves\<close>

definition vendors_move :: "nat \<Rightarrow> nat \<Rightarrow> rat \<Rightarrow> vendor list \<Rightarrow> vendor list \<Rightarrow> bool" where
  "vendors_move co k x = list_all2 (\<lambda>v v'. ve_id v' = ve_id v \<and> ve_companyId v' = ve_companyId v
     \<and> ve_balance v' = ve_balance v + (if ve_companyId v = co \<and> ve_id v = k then x else 0))"

lemma vendors_stay: "vendors_move co k 0 vs vs"
  by (simp add: vendors_move_def list.rel_refl)

lemma vendors_move_keys:
  "vendors_move co k x vs vs' \<Longrightarrow> map (\<lambda>v. (ve_companyId v, ve_id v)) vs' = map (\<lambda>v. (ve_companyId v, ve_id v)) vs"
  unfolding vendors_move_def by (induction rule: list_all2_induct) simp_all

lemma vendors_move_row:
  assumes "vendors_move co k x vs vs'" and "v' \<in> set vs'"
  obtains v where "v \<in> set vs" and "ve_id v' = ve_id v" and "ve_companyId v' = ve_companyId v"
    and "ve_balance v' = ve_balance v + (if ve_companyId v = co \<and> ve_id v = k then x else 0)"
  using assms unfolding vendors_move_def by (induction rule: list_all2_induct) auto

lemma vendors_move_absent:
  "vendors_move co k x vs vs' \<Longrightarrow> x = 0 \<or> k \<notin> ve_id ` set vs \<Longrightarrow> vendor_total co vs' = vendor_total co vs"
  unfolding vendors_move_def by (induction rule: list_all2_induct) (auto simp: vendor_total_def)

lemma vendors_move_total:
  "vendors_move co k x vs vs' \<Longrightarrow> distinct (map ve_id vs) \<Longrightarrow> (co, k) \<in> (\<lambda>v. (ve_companyId v, ve_id v)) ` set vs \<Longrightarrow>
   vendor_total co vs' = vendor_total co vs + x"
  unfolding vendors_move_def
proof (induction rule: list_all2_induct)
  case Nil
  then show ?case by simp
next
  case (Cons v vs v' vs')
  show ?case
  proof (cases "ve_companyId v = co \<and> ve_id v = k")
    case True
    then have "vendor_total co vs' = vendor_total co vs"
      using Cons by (intro vendors_move_absent [unfolded vendors_move_def]) auto
    then show ?thesis using True Cons by (simp add: vendor_total_def)
  next
    case False
    then show ?thesis using Cons by (auto simp: vendor_total_def)
  qed
qed

section \<open>The step\<close>

text \<open>
  The account, one vendor's balance, and the bills and credits of that vendor move by the same amount; the rows that are
  new or changed are in order.
\<close>

lemma payables_step:
  assumes ok: "payables_ok co s" and l: "ledger_ok t"
    and ap: "\<And>ap. by_number s co ACCT_AP = Some ap \<Longrightarrow> by_number t co ACCT_AP = Some (ap\<lparr>acc_balance := acc_balance ap + x\<rparr>)"
    and vs: "vendors_move co k x (db_vendors s) (db_vendors t)" and k: "x = 0 \<or> find_vendor co k s \<noteq> None"
    and ow: "\<And>j. billed_to co j t - credited_to co j t = billed_to co j s - credited_to co j s + (if j = k then x else 0)"
    and ids: "keyed bi_id (db_bills t) (db_fresh t)" "keyed vc_id (db_vendorCredits t) (db_fresh t)"
    and es: "set (db_entries s) \<subseteq> set (db_entries t)"
    and bills: "\<And>ap b. by_number s co ACCT_AP = Some ap \<Longrightarrow> acc_type ap = Liability \<Longrightarrow> vendor_keys t = vendor_keys s \<Longrightarrow>
       b \<in> set (db_bills t) \<Longrightarrow> bi_company b = co \<Longrightarrow> b \<in> set (db_bills s) \<or> bill_row_ok t ap b"
    and credits: "\<And>ap c. by_number s co ACCT_AP = Some ap \<Longrightarrow> acc_type ap = Liability \<Longrightarrow> vendor_keys t = vendor_keys s \<Longrightarrow>
       c \<in> set (db_vendorCredits t) \<Longrightarrow> vc_company c = co \<Longrightarrow> c \<in> set (db_vendorCredits s) \<or> credit_row_ok t ap c"
  shows "payables_ok co t"
proof -
  obtain a where a: "by_number s co ACCT_AP = Some a" "acc_type a = Liability" "acc_balance a = vendors_total co s"
    and rows: "\<forall>b \<in> set (db_bills s). bi_company b = co \<longrightarrow> bill_row_ok s a b"
      "\<forall>c \<in> set (db_vendorCredits s). vc_company c = co \<longrightarrow> credit_row_ok s a c"
    using ok by (rule payables_account)
  have keys: "vendor_keys t = vendor_keys s" using vendors_move_keys [OF vs] by (simp add: vendor_keys_def)
  have d: "distinct (map ve_id (db_vendors s))" using ok by (simp add: payables_ok_def)
  have tot: "vendors_total co t = vendors_total co s + x"
    using vendors_move_total [OF vs d] vendors_move_absent [OF vs, unfolded vendors_total_def] k
    unfolding vendors_total_def find_vendor_keys by (auto simp: vendor_keys_def)
  have "map ve_id (db_vendors t) = map ve_id (db_vendors s)"
    using arg_cong [OF vendors_move_keys [OF vs], of "map snd"] by (simp add: o_def)
  then have dt: "distinct (map ve_id (db_vendors t))" using d by metis
  have b: "bill_row_ok t a b" if "b \<in> set (db_bills t)" "bi_company b = co" for b
    using bills [OF a(1,2) keys that] bill_row_keeps [OF _ es keys, of a b] rows(1) that by auto
  have c: "credit_row_ok t a c" if "c \<in> set (db_vendorCredits t)" "vc_company c = co" for c
    using credits [OF a(1,2) keys that] credit_row_keeps [OF _ keys, of a c] rows(2) that by auto
  have v: "ve_balance v' = billed_to co (ve_id v') t - credited_to co (ve_id v') t"
    if v': "v' \<in> set (db_vendors t)" "ve_companyId v' = co" for v'
  proof -
    obtain v where "v \<in> set (db_vendors s)" "ve_id v' = ve_id v" "ve_companyId v' = ve_companyId v"
      "ve_balance v' = ve_balance v + (if ve_companyId v = co \<and> ve_id v = k then x else 0)"
      using vs v'(1) by (rule vendors_move_row)
    then show ?thesis using ok v'(2) unfolding ow payables_ok_def by auto
  qed
  show ?thesis
    unfolding payables_ok_def
    using l ap [OF a(1)] a(2,3) tot b c v dt ids by auto
qed

end
