(* ===== verification/PayableLaws.thy ===== *)
theory PayableLaws
  imports Payables
begin

text \<open>
  Every operation on bills and vendor credits keeps the payables: entering, editing, posting, paying and deleting a bill,
  entering, using, voiding and deleting a credit, and settling.
\<close>

section \<open>What a posting moves\<close>

definition moves_payable :: "nat \<Rightarrow> rat \<Rightarrow> 'a purchase_db_scheme \<Rightarrow> 'a purchase_db_scheme \<Rightarrow> bool" where
  "moves_payable co x s t \<longleftrightarrow>
     ledger_ok t \<and> (\<forall>ap. by_number s co ACCT_AP = Some ap \<longrightarrow>
       by_number t co ACCT_AP = Some (ap\<lparr>acc_balance := acc_balance ap + x\<rparr>))
     \<and> db_vendors t = db_vendors s \<and> trade_db.more t = trade_db.more s
     \<and> db_fresh s \<le> db_fresh t \<and> set (db_entries s) \<subseteq> set (db_entries t)"

lemma purchase_more:
  fixes s t :: "'a purchase_db_scheme"
  assumes "trade_db.more t = trade_db.more s"
  shows "db_bills t = db_bills s" and "db_vendorCredits t = db_vendorCredits s" and "db_pos t = db_pos s"
    and "db_proofs t = db_proofs s" and "db_billPayments t = db_billPayments s" and "db_billApplications t = db_billApplications s"
  using assms by (cases s; cases t; simp only: trade_db.ext_inject purchase_db.ext_inject purchase_db.select_convs trade_db.select_convs)+

lemma moves_payableD:
  assumes "moves_payable co x s t"
  shows "ledger_ok t" "by_number s co ACCT_AP = Some ap \<Longrightarrow> by_number t co ACCT_AP = Some (ap\<lparr>acc_balance := acc_balance ap + x\<rparr>)"
    "db_vendors t = db_vendors s" "db_bills t = db_bills s" "db_vendorCredits t = db_vendorCredits s" "db_pos t = db_pos s"
    "db_fresh s \<le> db_fresh t" "set (db_entries s) \<subseteq> set (db_entries t)"
  using assms purchase_more [of t s] by (simp_all add: moves_payable_def)

lemma input_effect_absent: "(\<And>l. l \<in> set ls \<Longrightarrow> pl_account l \<noteq> acc_id a) \<Longrightarrow> input_effect D ls a = 0"
  by (induction ls) (simp_all add: input_effect_def)

lemma input_effect_single:
  "input_effect D [post_line i d x y] a = (if i = acc_id a then signedDelta (acc_type a) (d_fixed D 4 x) (d_fixed D 4 y) else 0)"
  by (simp add: input_effect_def post_line_def)

lemma payable_numbers:
  "ACCT_AP \<noteq> ACCT_COGS" "ACCT_AP \<noteq> ACCT_INPUT_TAX" "ACCT_AP \<noteq> ACCT_GRNI" "ACCT_AP \<noteq> ACCT_INVENTORY"
  by (simp_all add: ACCT_AP_def ACCT_COGS_def ACCT_INPUT_TAX_def ACCT_GRNI_def ACCT_INVENTORY_def)

text \<open>A state that differs in tables no posting reads.\<close>

definition same_books :: "nat \<Rightarrow> 'a purchase_db_scheme \<Rightarrow> 'a purchase_db_scheme \<Rightarrow> bool" where
  "same_books co s t \<longleftrightarrow> ledger_ok t \<and> (\<forall>ap. by_number s co ACCT_AP = Some ap \<longrightarrow> by_number t co ACCT_AP = Some ap)
     \<and> db_vendors t = db_vendors s \<and> trade_db.more t = trade_db.more s \<and> db_entries t = db_entries s \<and> db_fresh s \<le> db_fresh t"

lemma same_books_refl: "ledger_ok s \<Longrightarrow> same_books co s s"
  by (simp add: same_books_def)

lemma system_account_books:
  assumes "getOrCreateSystemAccount co n s = Inr (a, t)" and ok: "ledger_ok s" and ne: "ACCT_AP \<noteq> n"
  shows "same_books co s t" and "by_number s co ACCT_AP = Some ap \<Longrightarrow> acc_id a \<noteq> acc_id ap"
proof -
  note k = getOrCreateSystemAccount_keeps [OF assms(1) ok] and o = getOrCreate_other [OF assms(1) ok _ ne]
  have "db_fresh s \<le> db_fresh t"
    using assms(1) unfolding getOrCreateSystemAccount_def
    by (auto simp: some_or_Inr save_account_def Let_def split: option.splits if_splits)
  then show "same_books co s t" using k o(1) trade_more [OF k(8)] by (simp add: same_books_def)
  show "by_number s co ACCT_AP = Some ap \<Longrightarrow> acc_id a \<noteq> acc_id ap" by (rule o(3))
qed

context posting_env
begin

lemma moves_payableI:
  fixes s t :: "'a purchase_db_scheme"
  assumes ce: "createEntry E s1 inp = Inr (e, t)" and b: "same_books co s s1" and p: "pi_posted inp"
    and eff: "\<And>ap. by_number s co ACCT_AP = Some ap \<Longrightarrow> input_effect (dec E) (pi_lines inp) ap = x"
  shows "moves_payable co x s t" and "by_number s co ACCT_AP = Some ap \<Longrightarrow> e \<in> set (db_entries t) \<and> je_company e = pi_company inp \<and> entry_effect e ap = x"
proof -
  have l: "ledger_ok s1" using b by (simp add: same_books_def)
  note k = createEntry_keeps(1,3,5) [OF refl ce l] and tm = trade_more [OF createEntry_keeps(5) [OF refl ce l]]
  show "moves_payable co x s t"
    using b k(1,2) tm(9,14) eff posted_balances [OF ce l p] createEntry_frame [OF ce]
    by (auto simp: moves_payable_def same_books_def)
  show "by_number s co ACCT_AP = Some ap \<Longrightarrow> e \<in> set (db_entries t) \<and> je_company e = pi_company inp \<and> entry_effect e ap = x"
    using stored_effect [OF createEntry_Inr(7) [OF ce]] eff createEntry_frame [OF ce] createEntry_Inr(2) [OF ce] by simp
qed

lemma last_line_positive:
  assumes "createEntry E s inp = Inr (e, t)" and "pi_lines inp = number_lines (ls @ [post_line i d 0 x])"
  shows "0 < d_fixed (dec E) 4 x"
proof -
  have "je_lines e = stored_lines (dec E) 0 (number_lines (ls @ [post_line i d 0 x]))"
    using createEntry_Inr(7) [OF assms(1)] assms(2) by simp
  moreover have "\<exists>l \<in> set (stored_lines (dec E) k ms). jl_debit l = d_fixed (dec E) 4 (pl_debit m) \<and> jl_credit l = d_fixed (dec E) 4 (pl_credit m)"
    if "m \<in> set ms" for k m ms
    using that by (induction ms arbitrary: k) auto
  moreover have "(post_line i d 0 x)\<lparr>pl_order := Some (length ls)\<rparr> \<in> set (number_lines (ls @ [post_line i d 0 x]))"
    by (auto simp: number_lines_def enumerate_append_eq)
  ultimately obtain l where "l \<in> set (je_lines e)" "jl_debit l = 0" "jl_credit l = d_fixed (dec E) 4 x"
    by (fastforce simp: post_line_def)
  then show ?thesis using createEntry_Inr(10) [OF assms(1)] by (fastforce simp: chk_line_shape_def)
qed

lemma bill_posting:
  assumes run: "createJournalEntryForBill E b user s = Inr (b', t)" and ok: "ledger_ok s"
    and ap: "by_number s (bi_company b) ACCT_AP = Some ap" "acc_type ap = Liability" and m: "money (bi_total b)"
    and av: "avoids ap (bi_lines b)"
  obtains t1 n where "moves_payable (bi_company b) (bi_total b) s t1" and "t = save_bill b' t1" and "b' = b\<lparr>bi_entry := Some n\<rparr>"
    and "0 < bi_total b" and "\<exists>e \<in> set (db_entries t1). je_id e = n \<and> je_company e = bi_company b \<and> entry_effect e ap = bi_total b"
proof -
  let ?co = "bi_company b" and ?reclaim = "reclaims_input_tax (bi_company b) s"
  from run obtain vl tx s1 e t1 where
    vl: "variance_lines (dec E) ?co (bi_number b) (bill_variance ?reclaim (bi_lines b)) s = Inr vl"
    and tx: "input_tax_lines (dec E) ?co (bi_number b) ?reclaim (foldl (\<lambda>t l. t + bn_taxAmount l) 0 (bi_lines b)) s = Inr (tx, s1)"
    and ce: "createEntry E s1
          \<lparr>pi_company = ?co, pi_date = bi_date b, pi_memo = Some (''Bill '' @ bi_number b), pi_createdBy = user,
           pi_lines = number_lines (map (bill_line_debit (dec E) ?reclaim) (bi_lines b) @ vl @ tx
             @ [post_line (acc_id ap) (Some (''Bill '' @ bi_number b)) 0 (bi_total b)]),
           pi_posted = True, pi_sourceType = Some ''bill'', pi_sourceId = Some (bi_id b), pi_reversalOf = None\<rparr> = Inr (e, t1)"
    and b': "b' = b\<lparr>bi_entry := Some (je_id e)\<rparr>" and t: "t = save_bill b' t1"
    using ap(1) by (auto simp: createJournalEntryForBill_def result_simps Let_def)
  have "pl_account l \<noteq> acc_id ap" if "l \<in> set vl" for l
    using vl that by_number_ids [OF ok ap(1) _ payable_numbers(1)]
    by (auto simp: variance_lines_def result_simps post_line_def split: if_splits)
  then have v0: "input_effect (dec E) vl ap = 0" by (rule input_effect_absent)
  have "same_books ?co s s1 \<and> input_effect (dec E) tx ap = 0"
  proof (cases "?reclaim \<and> 0 < foldl (\<lambda>t l. t + bn_taxAmount l) 0 (bi_lines b)")
    case True
    then obtain a d x where g: "getOrCreateSystemAccount ?co ACCT_INPUT_TAX s = Inr (a, s1)" and "tx = [post_line (acc_id a) d x 0]"
      using tx unfolding input_tax_lines_def if_P [OF True] by (auto simp: result_simps)
    then show ?thesis using system_account_books [OF g ok payable_numbers(2)] ap(1) by (simp add: input_effect_single)
  next
    case False
    then show ?thesis using tx ok unfolding input_tax_lines_def if_not_P [OF False] by (auto simp: same_books_refl input_effect_def)
  qed
  moreover have "input_effect (dec E) (map (bill_line_debit (dec E) ?reclaim) (bi_lines b)) ap = 0"
    using av by (intro input_effect_absent) (auto simp: avoids_def bill_line_debit_def post_line_def)
  ultimately have eff: "input_effect (dec E) (number_lines (map (bill_line_debit (dec E) ?reclaim) (bi_lines b) @ vl @ tx
             @ [post_line (acc_id ap) (Some (''Bill '' @ bi_number b)) 0 (bi_total b)])) ap = bi_total b"
    and sb: "same_books ?co s s1"
    using v0 ap(2) fixed_id [OF m] by (simp_all add: input_effect_numbered input_effect_append input_effect_single signedDelta_def)
  note mv = moves_payableI [OF ce sb, of "bi_total b"]
  have "0 < bi_total b"
    using last_line_positive [OF ce, of "map (bill_line_debit (dec E) ?reclaim) (bi_lines b) @ vl @ tx"
      "acc_id ap" "Some (''Bill '' @ bi_number b)" "bi_total b"] fixed_id [OF m] by simp
  then show thesis using that [of t1 "je_id e"] mv(1) mv(2) [of ap] eff ap(1) t b' by auto
qed

end

section \<open>Rows added, replaced and removed\<close>

lemma keyed_added: "keyed key xs n \<Longrightarrow> key x = n \<Longrightarrow> n < m \<Longrightarrow> keyed key (xs @ [x]) m"
  by (auto simp: keyed_def)

lemma keyed_later: "keyed key xs n \<Longrightarrow> n \<le> m \<Longrightarrow> keyed key xs m"
  by (auto simp: keyed_def)

lemma keyed_replaced:
  assumes "keyed key xs n" and "x \<in> set xs" and "key x' = key x" and "n \<le> m"
  shows "keyed key (update_row key (key x) (\<lambda>_. x') xs) m"
proof -
  have "map key (update_row key (key x) (\<lambda>_. x') xs) = map key xs" using assms(3) by (auto simp: update_row_def)
  moreover have "set (update_row key (key x) (\<lambda>_. x') xs) \<subseteq> insert x' (set xs)" by (auto simp: update_row_def)
  ultimately show ?thesis using assms by (fastforce simp: keyed_def)
qed

lemma keyed_removed: "keyed key xs n \<Longrightarrow> n \<le> m \<Longrightarrow> keyed key (filter P xs) m"
  by (auto simp: keyed_def distinct_map_filter)

lemma saved_last:
  "keyed key xs n \<Longrightarrow> key x = n \<Longrightarrow> key x' = n \<Longrightarrow> update_row key n (\<lambda>_. x') (xs @ [x]) = xs @ [x']"
proof -
  assume "keyed key xs n" "key x = n" "key x' = n"
  then have "update_row key n (\<lambda>_. x') xs = xs" by (intro update_row_absent) (auto simp: keyed_def)
  then show ?thesis using \<open>key x = n\<close> by (simp add: update_row_def)
qed

lemma vendor_stays: "vendor_keys t = vendor_keys s \<Longrightarrow> find_vendor co k s \<noteq> None \<Longrightarrow> find_vendor co k t \<noteq> None"
  by (simp only: find_vendor_keys)

lemma vendor_moves:
  assumes "decimal_lib D" and "payables_ok co s" and "money x" and "db_vendors t = db_vendors s"
  shows "vendors_move co k x (db_vendors s) (db_vendors (add_vendor_balance D co k x t))"
proof -
  obtain ap where rows: "\<forall>b \<in> set (db_bills s). bi_company b = co \<longrightarrow> bill_row_ok s ap b"
    "\<forall>c \<in> set (db_vendorCredits s). vc_company c = co \<longrightarrow> credit_row_ok s ap c"
    using assms(2) by (rule payables_account)
  have "money (billed_to co j s)" for j
    unfolding billed_to_def using rows(1) by (intro on_grid_sum_list) (auto simp: bill_due_def bill_row_ok_def intro: on_grid_diff)
  moreover have "money (credited_to co j s)" for j
    unfolding credited_to_def using rows(2)
    by (intro on_grid_sum_list) (auto simp: credit_left_def credit_row_ok_def intro: on_grid_diff)
  ultimately have "\<forall>v \<in> set (db_vendors s). ve_companyId v = co \<longrightarrow> money (ve_balance v)"
    using assms(2) by (auto simp: payables_ok_def intro: on_grid_diff)
  then show ?thesis
    using assms(3,4) decimal_lib.fixed_id [OF assms(1)]
    by (auto simp: vendors_move_def add_vendor_balance_def list.rel_map on_grid_add intro!: list.rel_refl_strong)
qed

lemma find_bill_Some: "find_bill co i s = Some b \<Longrightarrow> b \<in> set (db_bills s) \<and> bi_id b = i \<and> bi_company b = co"
  by (auto simp: find_bill_def dest: find_Some_mem)

lemma find_credit_Some: "find_vendor_credit co i s = Some c \<Longrightarrow> c \<in> set (db_vendorCredits s) \<and> vc_id c = i \<and> vc_company c = co"
  by (auto simp: find_vendor_credit_def dest: find_Some_mem)

text \<open>A step that adds a bill, and one that replaces a bill.\<close>

lemma add_bill_step:
  assumes ok: "payables_ok co s" and l: "ledger_ok t"
    and ap: "\<And>ap. by_number s co ACCT_AP = Some ap \<Longrightarrow> by_number t co ACCT_AP = Some (ap\<lparr>acc_balance := acc_balance ap + x\<rparr>)"
    and vs: "vendors_move co (bi_vendor b) x (db_vendors s) (db_vendors t)" and k: "find_vendor co (bi_vendor b) s \<noteq> None"
    and bills: "db_bills t = db_bills s @ [b]" "db_vendorCredits t = db_vendorCredits s" and b: "bi_id b = db_fresh s" "bi_company b = co"
    and x: "bill_due co (bi_vendor b) b = x" and fr: "db_fresh s < db_fresh t" "set (db_entries s) \<subseteq> set (db_entries t)"
    and row: "\<And>ap. by_number s co ACCT_AP = Some ap \<Longrightarrow> find_vendor co (bi_vendor b) t \<noteq> None \<Longrightarrow> bill_row_ok t ap b"
  shows "payables_ok co t"
proof (rule payables_step [OF ok l ap vs])
  have tab: "keyed bi_id (db_bills s) (db_fresh s)" "keyed vc_id (db_vendorCredits s) (db_fresh s)" using ok by (simp_all add: payables_ok_def)
  show "keyed bi_id (db_bills t) (db_fresh t)" using keyed_added [OF tab(1) b(1) fr(1)] bills(1) by simp
  show "keyed vc_id (db_vendorCredits t) (db_fresh t)" using keyed_later [OF tab(2)] fr(1) bills(2) by simp
  have "bill_due co j b = (if j = bi_vendor b then x else 0)" for j using x by (auto simp: bill_due_def)
  then show "billed_to co j t - credited_to co j t = billed_to co j s - credited_to co j s + (if j = bi_vendor b then x else 0)" for j
    by (simp add: billed_to_def credited_to_def bills)
  show "w \<in> set (db_bills s) \<or> bill_row_ok t ap w"
    if "by_number s co ACCT_AP = Some ap" "vendor_keys t = vendor_keys s" "w \<in> set (db_bills t)" for ap w
    using that row [of ap] vendor_stays [OF _ k, of t] bills(1) by auto
qed (use k fr bills in simp_all)

lemma replace_bill_step:
  assumes ok: "payables_ok co s" and l: "ledger_ok t"
    and ap: "\<And>ap. by_number s co ACCT_AP = Some ap \<Longrightarrow> by_number t co ACCT_AP = Some (ap\<lparr>acc_balance := acc_balance ap + x\<rparr>)"
    and vs: "vendors_move co (bi_vendor b) x (db_vendors s) (db_vendors t)"
    and bills: "db_bills t = update_row bi_id (bi_id b) (\<lambda>_. b') (db_bills s)" "db_vendorCredits t = db_vendorCredits s"
    and b: "b \<in> set (db_bills s)" "bi_company b = co" "bi_id b' = bi_id b" "bi_company b' = co" "bi_vendor b' = bi_vendor b"
    and x: "bill_due co (bi_vendor b) b' = bill_due co (bi_vendor b) b + x"
    and fr: "db_fresh s \<le> db_fresh t" "set (db_entries s) \<subseteq> set (db_entries t)"
    and row: "\<And>ap. by_number s co ACCT_AP = Some ap \<Longrightarrow> find_vendor co (bi_vendor b) t \<noteq> None \<Longrightarrow> bill_row_ok s ap b \<Longrightarrow> bill_row_ok t ap b'"
  shows "payables_ok co t"
proof (rule payables_step [OF ok l ap vs])
  have tab: "keyed bi_id (db_bills s) (db_fresh s)" "keyed vc_id (db_vendorCredits s) (db_fresh s)" using ok by (simp_all add: payables_ok_def)
  show "keyed bi_id (db_bills t) (db_fresh t)" using keyed_replaced [OF tab(1) b(1,3) fr(1)] bills(1) by simp
  show "keyed vc_id (db_vendorCredits t) (db_fresh t)" using keyed_later [OF tab(2) fr(1)] bills(2) by simp
  have bo: "bill_row_ok s ap b" if "by_number s co ACCT_AP = Some ap" for ap
    using payables_account [OF ok] b(1,2) that by (metis option.inject)
  then show k: "x = 0 \<or> find_vendor co (bi_vendor b) s \<noteq> None"
    using payables_account [OF ok] b(2) by (metis bill_row_ok_def)
  have d: "distinct (map bi_id (db_bills s))" using tab(1) by (simp add: keyed_def)
  have "bill_due co j b' = bill_due co j b + (if j = bi_vendor b then x else 0)" for j using x b by (auto simp: bill_due_def)
  then show "billed_to co j t - credited_to co j t = billed_to co j s - credited_to co j s + (if j = bi_vendor b then x else 0)" for j
    by (simp add: billed_to_def credited_to_def bills sum_replaced [OF d b(1)])
  show "w \<in> set (db_bills s) \<or> bill_row_ok t ap w"
    if a: "by_number s co ACCT_AP = Some ap" and ks: "vendor_keys t = vendor_keys s" and w: "w \<in> set (db_bills t)" for ap w
  proof (cases "w = b'")
    case True
    have "find_vendor co (bi_vendor b) t \<noteq> None" using bo [OF a] b(2) by (intro vendor_stays [OF ks]) (auto simp: bill_row_ok_def)
    then show ?thesis using row [OF a _ bo [OF a]] True by simp
  next
    case False
    then show ?thesis using w bills(1) by (auto simp: update_row_def split: if_splits)
  qed
qed (use fr bills in simp_all)

end
