(* ===== verification/BillSteps.thy ===== *)
theory BillSteps
  imports PayableLaws
begin

text \<open>
  Entering, editing, posting and deleting a bill keeps the payables, provided no line of the bill names the payables
  account itself.
\<close>

section \<open>Lines\<close>

definition input_avoids :: "nat \<Rightarrow> bill_line_input list \<Rightarrow> 'a ledger_db_scheme \<Rightarrow> bool" where
  "input_avoids co ls s \<longleftrightarrow> (\<forall>ap. by_number s co ACCT_AP = Some ap \<longrightarrow> (\<forall>l \<in> set ls. bx_account l \<noteq> Some (acc_id ap)))"

lemma account_or_null_other:
  assumes "account_or_null s co n = Some i" and "ledger_ok s" and "by_number s co m = Some a" and "m \<noteq> n"
  shows "i \<noteq> acc_id a"
  using assms by_number_ids [OF assms(2,3) _ assms(4)]
  by (auto simp: account_or_null_def getByNumber_Inr split: sum.splits)

lemma snd_enumerate: "x \<in> set (enumerate n ls) \<Longrightarrow> snd x \<in> set ls"
  by (cases x) (auto simp: enumerate_eq_zip dest: set_zip_rightD)

context posting_env
begin

lemma checked_totals_Inr:
  assumes run: "checked_totals (dec E) co inputs s = Inr tot" and ok: "ledger_ok s" and ap: "by_number s co ACCT_AP = Some ap"
    and av: "input_avoids co inputs s"
  shows "money (bt_total tot)" and "0 < bt_total tot" and "avoids ap (bt_lines tot)"
proof -
  let ?ls = "map (resolve_line (dec E) (account_or_null s co ACCT_COGS)) inputs"
  have tot: "tot = bill_computeTotals (dec E) ?ls" and pos: "isPositive (bt_total tot)" and all: "\<forall>l \<in> set ?ls. rl_account l \<noteq> None"
    using run by (auto simp: checked_totals_def result_simps Let_def)
  show "money (bt_total tot)" by (simp add: tot bill_computeTotals_def case_prod_unfold fixed_grid Let_def)
  show "0 < bt_total tot" using pos by (simp add: isPositive_def)
  have "rl_account l \<noteq> Some (acc_id ap)" if "l \<in> set ?ls" for l
    using that av ap account_or_null_other [OF _ ok ap payable_numbers(1)]
    by (auto simp: input_avoids_def resolve_line_def split: option.splits)
  then have "(case rl_account l of None \<Rightarrow> 0 | Some a \<Rightarrow> a) \<noteq> acc_id ap" if "l \<in> set ?ls" for l
    using that all by (auto split: option.split)
  moreover have "snd x \<in> set ?ls" if "x \<in> set (enumerate 0 ?ls)" for x using that by (rule snd_enumerate)
  ultimately show "avoids ap (bt_lines tot)"
    by (auto simp: avoids_def tot bill_computeTotals_def case_prod_unfold bill_line_of_def Let_def)
qed

lemma avoids_linked: "avoids a ls \<Longrightarrow> avoids a (map (linked_line links) (enumerate 0 ls))"
proof -
  assume a: "avoids a ls"
  have "bn_account (linked_line links x) = bn_account (snd x)" for x
    by (cases x) (auto simp: linked_line_def split: option.split)
  moreover have "snd x \<in> set ls" if "x \<in> set (enumerate 0 ls)" for x using that by (rule snd_enumerate)
  ultimately show ?thesis using a by (auto simp: avoids_def)
qed

lemma bill_number_frame: "bill_number_for co d s = Inr (n, t) \<Longrightarrow> \<exists>q. t = s\<lparr>db_sequences := q\<rparr>"
  by (cases s) (auto simp: bill_number_for_def result_simps dest: nextDocumentNumber_frame split: option.splits if_splits)

lemma posted_bill_row:
  assumes "money (bi_total b)" and "bi_amountPaid b = 0" and "bi_balance b = bi_total b" and "0 < bi_total b"
    and "find_vendor (bi_company b) (bi_vendor b) t \<noteq> None" and "bi_status b \<noteq> BS_draft" and "bi_entry b = Some n"
    and "\<exists>e \<in> set (db_entries t). je_id e = n \<and> je_company e = bi_company b \<and> entry_effect e ap = bi_total b"
  shows "bill_row_ok t ap b"
  using assms by (simp add: bill_row_ok_def)

lemma create_bill_keeps:
  assumes run: "bill_createInTransaction E co user d links s = Inr (b', t)" and ok: "payables_ok co s"
    and av: "input_avoids co (bc_lines d) s"
  shows "payables_ok co t"
proof -
  from run obtain number s1 tot where
    v: "find_vendor co (bc_vendor d) s \<noteq> None" and n: "bill_number_for co d s = Inr (number, s1)"
    and ct: "checked_totals (dec E) co (bc_lines d) s1 = Inr tot"
    and rest: "(if bi_status (new_bill co d number tot links s1) = BS_draft
        then Inr (new_bill co d number tot links s1,
          s1\<lparr>db_bills := db_bills s1 @ [new_bill co d number tot links s1], db_fresh := Suc (db_fresh s1)\<rparr>)
        else bindE (createJournalEntryForBill E (new_bill co d number tot links s1) user
          (s1\<lparr>db_bills := db_bills s1 @ [new_bill co d number tot links s1], db_fresh := Suc (db_fresh s1)\<rparr>)) (\<lambda>(b', s3).
             Inr (b', add_vendor_balance (dec E) co (bc_vendor d) (bi_total (new_bill co d number tot links s1)) s3))) = Inr (b', t)"
    by (auto simp: bill_createInTransaction_def result_simps Let_def split del: if_split)
  define b where "b = new_bill co d number tot links s1"
  define s2 where "s2 = s1\<lparr>db_bills := db_bills s1 @ [b], db_fresh := db_fresh s1 + 1\<rparr>"
  obtain q where s1: "s1 = s\<lparr>db_sequences := q\<rparr>" using bill_number_frame [OF n] by blast
  have l: "ledger_ok s" using ok by (rule payables_ledger)
  then have l1: "ledger_ok s1" and l2: "ledger_ok s2" by (rule ledger_ok_same [rotated -1]; simp add: s2_def s1)+
  obtain ap where ap: "by_number s co ACCT_AP = Some ap" "acc_type ap = Liability" using ok by (rule payables_account)
  have ap12: "by_number s1 co ACCT_AP = Some ap" "by_number s2 co ACCT_AP = Some ap" using ap(1) by (simp_all add: s1 s2_def by_number_def)
  have "input_avoids co (bc_lines d) s1" using av by (simp add: input_avoids_def s1 by_number_def)
  note tot = checked_totals_Inr [OF ct l1 ap12(1) this]
  have b: "bi_id b = db_fresh s" "bi_company b = co" "bi_vendor b = bc_vendor d" "bi_total b = bt_total tot" "bi_amountPaid b = 0"
    "bi_balance b = bt_total tot" "bi_entry b = None" and lines: "bi_lines b = map (linked_line links) (enumerate 0 (bt_lines tot))"
    by (simp_all add: b_def new_bill_def s1)
  have tab: "keyed bi_id (db_bills s) (db_fresh s)" using ok by (simp add: payables_ok_def)
  have avb: "avoids ap (bi_lines b)" unfolding lines by (rule avoids_linked [OF tot(3)])
  show ?thesis
  proof (cases "bi_status b = BS_draft")
    case True
    then have t: "t = s2" using rest by (auto simp: b_def s2_def)
    show ?thesis
      unfolding t
      by (rule add_bill_step [where x = 0 and b = b, OF ok l2])
        (use v ap ap12 b tot avb True in \<open>auto simp: s2_def s1 vendors_stay bill_due_def bill_row_ok_def\<close>)
  next
    case False
    then obtain s3 where ce: "createJournalEntryForBill E b user s2 = Inr (b', s3)"
      and t: "t = add_vendor_balance (dec E) co (bc_vendor d) (bt_total tot) s3"
      using rest b(4) by (auto simp: b_def s2_def result_simps)
    obtain t1 e where raw: "moves_payable (bi_company b) (bi_total b) s2 t1" and s3: "s3 = save_bill b' t1" and b': "b' = b\<lparr>bi_entry := Some e\<rparr>"
      and raw': "\<exists>x \<in> set (db_entries t1). je_id x = e \<and> je_company x = bi_company b \<and> entry_effect x ap = bi_total b"
      by (rule bill_posting [OF ce l2, of ap]) (use ap12(2) ap(2) avb tot(1) b(2,4) in simp_all)
    have mv: "moves_payable co (bt_total tot) s2 t1"
      and en: "\<exists>x \<in> set (db_entries t1). je_id x = e \<and> je_company x = co \<and> entry_effect x ap = bt_total tot"
      using raw raw' by (simp_all add: b(2,4))
    note m = moves_payableD [OF mv]
    have st: "bi_status b' \<noteq> BS_draft" using False b' by simp
    show ?thesis
    proof (rule add_bill_step [where x = "bt_total tot" and b = b', OF ok])
      show "ledger_ok t" using m(1) by (rule ledger_ok_same [rotated -1]) (simp_all add: t s3 add_vendor_balance_def save_bill_def)
      show "by_number t co ACCT_AP = Some (a\<lparr>acc_balance := acc_balance a + bt_total tot\<rparr>)" if "by_number s co ACCT_AP = Some a" for a
        using m(2) [of a] that ap(1) ap12(2) by (simp add: t s3 add_vendor_balance_def save_bill_def by_number_def)
      have "db_vendors s3 = db_vendors s" by (simp add: s3 save_bill_def m(3) s2_def s1)
      then show "vendors_move co (bi_vendor b') (bt_total tot) (db_vendors s) (db_vendors t)"
        using vendor_moves [OF decimal_lib_axioms ok tot(1), of s3 "bc_vendor d"] by (simp add: t b' b)
      have "update_row bi_id (db_fresh s) (\<lambda>_. b') (db_bills s @ [b]) = db_bills s @ [b']"
        by (rule saved_last [OF tab]) (simp_all add: b b')
      then show "db_bills t = db_bills s @ [b']"
        by (simp add: t s3 add_vendor_balance_def save_bill_def m(4) s2_def s1 b b')
      show "bill_row_ok t a b'" if "by_number s co ACCT_AP = Some a" "find_vendor co (bi_vendor b') t \<noteq> None" for a
        using that ap(1) tot(1,2) st en b
        by (intro posted_bill_row [where n = e]) (auto simp: b' t s3 add_vendor_balance_def save_bill_def)
    qed (use v b m ap in \<open>simp_all add: b' t s3 add_vendor_balance_def save_bill_def s2_def s1 bill_due_def\<close>)
  qed
qed

lemma update_bill_keeps:
  assumes run: "bill_updateInTransaction E co i u s = Inr (b2, t)" and ok: "payables_ok co s"
    and av: "\<forall>ls. bu_lines u = Some ls \<longrightarrow> input_avoids co ls s"
  shows "payables_ok co t"
proof -
  from run obtain b where f: "find_bill co i s = Some b" and st: "bi_status b = BS_draft"
    and b2: "(case bu_lines u of
                 None \<Rightarrow> Inr (edited_bill u b)
               | Some lines \<Rightarrow> bindE (checked_totals (dec E) co lines s) (\<lambda>tot.
                   Inr ((edited_bill u b)\<lparr>bi_subtotal := bt_subtotal tot, bi_taxAmount := bt_taxAmount tot, bi_total := bt_total tot,
                           bi_balance := bt_total tot, bi_lines := bt_lines tot\<rparr>))) = Inr b2"
    and t: "t = save_bill b2 s"
    by (auto simp: bill_updateInTransaction_def result_simps Let_def)
  note b = find_bill_Some [OF f]
  obtain ap where ap: "by_number s co ACCT_AP = Some ap" and rows: "\<forall>b \<in> set (db_bills s). bi_company b = co \<longrightarrow> bill_row_ok s ap b"
    using ok by (rule payables_account)
  have l: "ledger_ok s" using ok by (rule payables_ledger)
  have bo: "bill_row_ok s ap b" using rows b by blast
  have e: "bi_entry b = None" using bo st by (auto simp: bill_row_ok_def)
  have same: "bi_id b2 = bi_id b" "bi_company b2 = bi_company b" "bi_vendor b2 = bi_vendor b" "bi_status b2 = BS_draft"
    "bi_entry b2 = None" "bi_amountPaid b2 = bi_amountPaid b"
    using b2 e st by (auto simp: edited_bill_def result_simps split: option.splits)
  have new: "bi_total b2 = bi_total b \<and> bi_balance b2 = bi_balance b \<and> bi_lines b2 = bi_lines b
      \<or> money (bi_total b2) \<and> bi_balance b2 = bi_total b2 \<and> avoids ap (bi_lines b2)"
  proof (cases "bu_lines u")
    case None
    then show ?thesis using b2 by (auto simp: edited_bill_def)
  next
    case (Some ls)
    then obtain tot where ct: "checked_totals (dec E) co ls s = Inr tot"
      and "b2 = (edited_bill u b)\<lparr>bi_subtotal := bt_subtotal tot, bi_taxAmount := bt_taxAmount tot, bi_total := bt_total tot,
                           bi_balance := bt_total tot, bi_lines := bt_lines tot\<rparr>"
      using b2 by (auto simp: result_simps)
    then show ?thesis using checked_totals_Inr [OF ct l ap] av Some by simp
  qed
  show ?thesis
  proof (rule replace_bill_step [where x = 0 and b = b and b' = b2, OF ok])
    show "ledger_ok t" using l by (rule ledger_ok_same [rotated -1]) (simp_all add: t save_bill_def)
    show "by_number t co ACCT_AP = Some (a\<lparr>acc_balance := acc_balance a + 0\<rparr>)" if "by_number s co ACCT_AP = Some a" for a
      using that by (simp add: t save_bill_def by_number_def)
    show "bill_row_ok t a b2" if "by_number s co ACCT_AP = Some a" "find_vendor co (bi_vendor b) t \<noteq> None" "bill_row_ok s a b" for a
      using that new same b ap e by (auto simp: bill_row_ok_def)
  qed (use b same e in \<open>simp_all add: t save_bill_def vendors_stay bill_due_def\<close>)
qed

lemma post_bill_keeps:
  assumes run: "bill_post E co i user s = Inr (b2, t)" and ok: "payables_ok co s"
  shows "payables_ok co t"
proof -
  from run obtain b s3 where f: "find_bill co i s = Some b" and st: "bi_status b = BS_draft"
    and ce: "createJournalEntryForBill E (b\<lparr>bi_status := BS_open\<rparr>) user (save_bill (b\<lparr>bi_status := BS_open\<rparr>) s) = Inr (b2, s3)"
    and t: "t = add_vendor_balance (dec E) co (bi_vendor b) (bi_total b) s3"
    by (auto simp: bill_post_def transaction_Inr result_simps Let_def)
  note b = find_bill_Some [OF f]
  define s1 where "s1 = save_bill (b\<lparr>bi_status := BS_open\<rparr>) s"
  obtain ap where ap: "by_number s co ACCT_AP = Some ap" "acc_type ap = Liability"
    and rows: "\<forall>b \<in> set (db_bills s). bi_company b = co \<longrightarrow> bill_row_ok s ap b"
    using ok by (rule payables_account)
  have bo: "bill_row_ok s ap b" using rows b by blast
  then have m: "money (bi_total b)" "bi_entry b = None" "bi_amountPaid b = 0" "bi_balance b = bi_total b" "avoids ap (bi_lines b)"
    using st by (auto simp: bill_row_ok_def)
  have l1: "ledger_ok s1" using payables_ledger [OF ok] by (rule ledger_ok_same [rotated -1]) (simp_all add: s1_def save_bill_def)
  have ap1: "by_number s1 co ACCT_AP = Some ap" using ap(1) by (simp add: s1_def save_bill_def by_number_def)
  let ?b = "b\<lparr>bi_status := BS_open\<rparr>"
  have pre: "by_number s1 (bi_company ?b) ACCT_AP = Some ap" "money (bi_total ?b)" "avoids ap (bi_lines ?b)" using ap1 b m by simp_all
  obtain t1 e where raw: "moves_payable (bi_company ?b) (bi_total ?b) s1 t1" and s3: "s3 = save_bill b2 t1"
    and b2': "b2 = ?b\<lparr>bi_entry := Some e\<rparr>" and pos': "0 < bi_total ?b"
    and raw': "\<exists>x \<in> set (db_entries t1). je_id x = e \<and> je_company x = bi_company ?b \<and> entry_effect x ap = bi_total ?b"
    by (rule bill_posting [OF ce [folded s1_def] l1 pre(1) ap(2) pre(2,3)])
  have mv: "moves_payable co (bi_total b) s1 t1" using raw b by simp
  have b2: "b2 = b\<lparr>bi_status := BS_open, bi_entry := Some e\<rparr>" using b2' by simp
  have pos: "0 < bi_total b" using pos' by simp
  have en: "\<exists>x \<in> set (db_entries t1). je_id x = e \<and> je_company x = co \<and> entry_effect x ap = bi_total b" using raw' b by simp
  note mv = moves_payableD [OF mv]
  show ?thesis
  proof (rule replace_bill_step [where x = "bi_total b" and b = b and b' = b2, OF ok])
    show "ledger_ok t" using mv(1) by (rule ledger_ok_same [rotated -1]) (simp_all add: t s3 add_vendor_balance_def save_bill_def)
    show "by_number t co ACCT_AP = Some (a\<lparr>acc_balance := acc_balance a + bi_total b\<rparr>)" if "by_number s co ACCT_AP = Some a" for a
      using mv(2) [of a] that ap(1) ap1 by (simp add: t s3 add_vendor_balance_def save_bill_def by_number_def)
    have "db_vendors s3 = db_vendors s" by (simp add: s3 save_bill_def mv(3) s1_def)
    then show "vendors_move co (bi_vendor b) (bi_total b) (db_vendors s) (db_vendors t)"
      using vendor_moves [OF decimal_lib_axioms ok m(1), of s3 "bi_vendor b"] by (simp add: t)
    show "db_bills t = update_row bi_id (bi_id b) (\<lambda>_. b2) (db_bills s)"
      by (auto simp: t s3 add_vendor_balance_def save_bill_def mv(4) s1_def b2 update_row_def)
    show "bill_row_ok t a b2" if "by_number s co ACCT_AP = Some a" "find_vendor co (bi_vendor b) t \<noteq> None" for a
      using that ap(1) m pos en b
      by (intro posted_bill_row [where n = e]) (auto simp: b2 t s3 add_vendor_balance_def save_bill_def)
  qed (use b m mv in \<open>simp_all add: b2 t s3 add_vendor_balance_def save_bill_def s1_def bill_due_def\<close>)
qed

end

text \<open>Giving back what a bill billed touches the orders only.\<close>

lemma release_frame: "\<exists>ps. releasePurchaseOrderBilling D co b s = s\<lparr>db_pos := ps\<rparr>"
  by (cases s) (auto simp: releasePurchaseOrderBilling_def save_po_def Let_def split: option.split)

context posting_env
begin

lemma mirror_payable:
  fixes s t :: "'a purchase_db_scheme"
  assumes run: "mirror_entry E co user memo st sid n date s = Inr t" and ok: "ledger_ok s"
    and e: "e \<in> set (db_entries s)" "je_id e = n" and ap: "by_number s co ACCT_AP = Some ap"
  shows "moves_payable co (- entry_effect e ap) s t"
proof -
  have dist: "distinct (map je_id (db_entries s))" and lines: "list_all line_ok (je_lines e)"
    using ok e by (auto simp: ledger_ok_def entries_ok_def entry_ok_def list_all_iff)
  have row: "row_with je_id n (db_entries s) = Some e" using row_with_distinct [OF dist e(1)] e(2) by simp
  show ?thesis
  proof (cases "je_lines e = []")
    case True
    then have "t = s" using run row by (simp add: mirror_entry_def)
    then show ?thesis using ok ap True by (auto simp: moves_payable_def entry_effect_def)
  next
    case False
    then obtain r where ce: "createEntry E s
           \<lparr>pi_company = co, pi_date = date, pi_memo = Some memo, pi_createdBy = user,
            pi_lines = reversalLines (je_lines e), pi_posted = True,
            pi_sourceType = Some st, pi_sourceId = Some sid, pi_reversalOf = Some n\<rparr> = Inr (r, t)"
      using run row by (auto simp: mirror_entry_def map_sum_Inr)
    have lr: "je_lines r = stored_lines (dec E) 0 (reversalLines (je_lines e))" using createEntry_Inr(7) [OF ce] by simp
    have "input_effect (dec E) (reversalLines (je_lines e)) ap = - entry_effect e ap"
      using reversal_effect [OF lines lr] stored_effect [OF lr] by simp
    then show ?thesis using ap by (intro moves_payableI(1) [OF ce same_books_refl [OF ok]]) simp_all
  qed
qed

lemma delete_bill_keeps:
  assumes run: "bill_deleteInTransaction E co i user s = Inr (u, t)" and ok: "payables_ok co s"
  shows "payables_ok co t"
proof -
  from run obtain b s2 where f: "find_bill co i s = Some b" and paid: "\<not> 0 < bi_amountPaid b"
    and rev: "(case bi_entry b of None \<Rightarrow> Inr s
            | Some e \<Rightarrow> bindE (mirror_entry E co user (''Delete bill '' @ bi_number b) ''bill_void'' (bi_id b) e (today E) s) (\<lambda>s1.
                Inr (add_vendor_balance (dec E) co (bi_vendor b) (- bi_total b) s1))) = Inr s2"
    and t: "t = (releasePurchaseOrderBilling (dec E) co b s2)\<lparr>db_bills := filter (\<lambda>w. bi_id w \<noteq> i)
       (db_bills (releasePurchaseOrderBilling (dec E) co b s2))\<rparr>"
    by (auto simp: bill_deleteInTransaction_def result_simps Let_def isPositive_def)
  note b = find_bill_Some [OF f]
  obtain ap where ap: "by_number s co ACCT_AP = Some ap" "acc_type ap = Liability"
    and rows: "\<forall>b \<in> set (db_bills s). bi_company b = co \<longrightarrow> bill_row_ok s ap b"
    using ok by (rule payables_account)
  have bo: "bill_row_ok s ap b" using rows b by blast
  have l: "ledger_ok s" using ok by (rule payables_ledger)
  define x where "x = (if bi_entry b = None then 0 else bi_total b)"
  obtain s1 where mv: "moves_payable co (- x) s s1"
    and vs: "vendors_move co (bi_vendor b) (- x) (db_vendors s) (db_vendors s2)"
    and s2: "ledger_db.truncate s2 = ledger_db.truncate s1" "db_bills s2 = db_bills s1" "db_vendorCredits s2 = db_vendorCredits s1"
  proof (cases "bi_entry b")
    case None
    then show thesis using rev that [of s] l by (simp add: x_def moves_payable_def vendors_stay)
  next
    case (Some n)
    then obtain s1 where mi: "mirror_entry E co user (''Delete bill '' @ bi_number b) ''bill_void'' (bi_id b) n (today E) s = Inr s1"
      and s2: "s2 = add_vendor_balance (dec E) co (bi_vendor b) (- bi_total b) s1"
      using rev by (auto simp: result_simps)
    obtain e where e: "e \<in> set (db_entries s)" "je_id e = n" "entry_effect e ap = bi_total b"
      using bo Some by (auto simp: bill_row_ok_def)
    have mv: "moves_payable co (- bi_total b) s s1" using mirror_payable [OF mi l e(1,2) ap(1)] e(3) by simp
    have "money (- bi_total b)" using bo by (simp add: bill_row_ok_def on_grid_minus)
    then have "vendors_move co (bi_vendor b) (- bi_total b) (db_vendors s) (db_vendors s2)"
      unfolding s2 by (rule vendor_moves [OF decimal_lib_axioms ok]) (rule moves_payableD(3) [OF mv])
    then show thesis using that [of s1] mv Some by (simp add: x_def s2 add_vendor_balance_def ledger_db.truncate_def)
  qed
  note m = moves_payableD [OF mv]
  obtain ps where ps: "releasePurchaseOrderBilling (dec E) co b s2 = s2\<lparr>db_pos := ps\<rparr>" using release_frame by blast
  have led: "db_accounts t = db_accounts s1" "db_gl t = db_gl s1" "db_entries t = db_entries s1" "db_fresh t = db_fresh s1"
    using s2(1) by (simp_all add: t ps ledger_db.truncate_def)
  have bills: "db_bills t = filter (\<lambda>w. bi_id w \<noteq> bi_id b) (db_bills s)" "db_vendorCredits t = db_vendorCredits s"
    using b by (simp_all add: t ps s2 m)
  have tab: "keyed bi_id (db_bills s) (db_fresh s)" "keyed vc_id (db_vendorCredits s) (db_fresh s)" using ok by (simp_all add: payables_ok_def)
  have "bi_balance b = bi_total b" using bo paid by (auto simp: bill_row_ok_def)
  then have due: "bill_due co j b = (if j = bi_vendor b then x else 0)" for j using b by (auto simp: bill_due_def x_def)
  have d: "distinct (map bi_id (db_bills s))" using tab(1) by (simp add: keyed_def)
  show ?thesis
  proof (rule payables_step [where x = "- x" and k = "bi_vendor b", OF ok])
    show "ledger_ok t" using m(1) by (rule ledger_ok_same [rotated -1]) (simp_all add: led)
    show "by_number t co ACCT_AP = Some (a\<lparr>acc_balance := acc_balance a + - x\<rparr>)" if "by_number s co ACCT_AP = Some a" for a
      using m(2) [OF that] by (simp add: by_number_def led)
    show "vendors_move co (bi_vendor b) (- x) (db_vendors s) (db_vendors t)" using vs by (simp add: t ps)
    show "- x = 0 \<or> find_vendor co (bi_vendor b) s \<noteq> None" using bo b by (auto simp: bill_row_ok_def)
    show "billed_to co j t - credited_to co j t = billed_to co j s - credited_to co j s + (if j = bi_vendor b then - x else 0)" for j
      using sum_removed [OF d conjunct1 [OF b], of "bill_due co j"] due by (simp add: billed_to_def credited_to_def bills)
    show "keyed bi_id (db_bills t) (db_fresh t)" using keyed_removed [OF tab(1)] m(7) bills(1) led(4) by simp
    show "keyed vc_id (db_vendorCredits t) (db_fresh t)" using keyed_later [OF tab(2)] m(7) bills(2) led(4) by simp
  qed (use m bills led in auto)
qed

end

end
