(* ===== verification/VendorSteps.thy ===== *)
theory VendorSteps
  imports BillSteps
begin

text \<open>
  Paying bills, spending a vendor credit on a bill, settling with both, and entering, voiding and deleting a vendor credit
  keep the payables.
\<close>

section \<open>Money on a bill\<close>

definition settled_by :: "rat \<Rightarrow> bill \<Rightarrow> bill \<Rightarrow> bool" where
  "settled_by amt b b' \<longleftrightarrow> bi_id b' = bi_id b \<and> bi_company b' = bi_company b \<and> bi_vendor b' = bi_vendor b \<and> bi_entry b' = bi_entry b
     \<and> bi_total b' = bi_total b \<and> bi_amountPaid b' = bi_amountPaid b + amt \<and> bi_balance b' = bi_balance b - amt
     \<and> bi_status b' \<noteq> BS_draft"

lemma settled_row:
  assumes "settled_by amt b b'" and "bill_row_ok s ap b" and "bi_status b \<noteq> BS_draft" and "money amt" and "0 < amt" and "amt \<le> bi_balance b"
  shows "bill_row_ok s ap b'" and "bill_due co j b' = bill_due co j b - (if bi_company b = co \<and> j = bi_vendor b then amt else 0)"
proof -
  have "bi_entry b \<noteq> None" using assms(2,3) by (auto simp: bill_row_ok_def)
  then show "bill_row_ok s ap b'" and "bill_due co j b' = bill_due co j b - (if bi_company b = co \<and> j = bi_vendor b then amt else 0)"
    using assms by (auto simp: settled_by_def bill_row_ok_def bill_due_def on_grid_add)
qed

lemma keyed_same_keys:
  assumes "map key ys = map key xs" and "keyed key xs n" and "n \<le> m"
  shows "keyed key ys m"
proof -
  have "key ` set ys = key ` set xs" using arg_cong [OF assms(1), of set] by simp
  moreover have "\<forall>i \<in> key ` set xs. i < m" using assms(2,3) by (auto simp: keyed_def)
  ultimately have "\<forall>r \<in> set ys. key r < m" by blast
  then show ?thesis using assms(1,2) by (simp add: keyed_def)
qed

lemma new_bill_payment_id [simp]: "bp_id (new_bill_payment D co d x pf s) = db_fresh s"
  by (simp add: new_bill_payment_def)

definition bill_rows :: "nat \<Rightarrow> 'a purchase_db_scheme \<Rightarrow> account \<Rightarrow> bill list \<Rightarrow> bool" where
  "bill_rows co s ap bs \<longleftrightarrow> distinct (map bi_id bs) \<and> (\<forall>b \<in> set bs. bi_company b = co \<longrightarrow> bill_row_ok s ap b)"

lemma settled_rows:
  assumes "bill_rows co s ap bs" and "b \<in> set bs" and "bi_company b = co" and "settled_by amt b b'"
    and "bi_status b \<noteq> BS_draft" and "money amt" and "0 < amt" and "amt \<le> bi_balance b"
  shows "bill_rows co s ap (update_row bi_id (bi_id b) (\<lambda>_. b') bs)"
    and "map bi_id (update_row bi_id (bi_id b) (\<lambda>_. b') bs) = map bi_id bs"
    and "(\<Sum>w\<leftarrow>update_row bi_id (bi_id b) (\<lambda>_. b') bs. bill_due co j w) = (\<Sum>w\<leftarrow>bs. bill_due co j w) - (if j = bi_vendor b then amt else 0)"
proof -
  have d: "distinct (map bi_id bs)" and bo: "bill_row_ok s ap b" using assms(1-3) by (auto simp: bill_rows_def)
  note r = settled_row [OF assms(4) bo assms(5-8)]
  show m: "map bi_id (update_row bi_id (bi_id b) (\<lambda>_. b') bs) = map bi_id bs"
    using assms(4) by (auto simp: update_row_def settled_by_def)
  show "bill_rows co s ap (update_row bi_id (bi_id b) (\<lambda>_. b') bs)"
    using assms(1) r(1) unfolding bill_rows_def m by (auto simp: update_row_def)
  show "(\<Sum>w\<leftarrow>update_row bi_id (bi_id b) (\<lambda>_. b') bs. bill_due co j w) = (\<Sum>w\<leftarrow>bs. bill_due co j w) - (if j = bi_vendor b then amt else 0)"
    using r(2) [of co j] assms(3) by (simp add: sum_replaced [OF d assms(2)])
qed

context posting_env
begin

lemma settled_bills:
  assumes "bill_row_ok s ap b" and "money amt" and "bi_status b \<noteq> BS_draft"
  shows "settled_by amt b (paid_bill (dec E) amt b)" and "settled_by amt b (credited_bill (dec E) amt b)"
proof -
  have m: "money (bi_amountPaid b + amt)" "money (bi_total b - (bi_amountPaid b + amt))"
    using assms by (auto simp: bill_row_ok_def intro: on_grid_add on_grid_diff)
  show "settled_by amt b (paid_bill (dec E) amt b)" "settled_by amt b (credited_bill (dec E) amt b)"
    using assms(1,3) fixed_id [OF m(1)] fixed_id [OF m(2)]
    by (auto simp: settled_by_def paid_bill_def credited_bill_def Let_def bill_row_ok_def)
qed

lemma pay_all_bills:
  assumes "foldE (pay_one_bill (dec E) co k p) (apps, u) xs = Inr (apps', u')" and "bill_rows co s ap (db_bills u)"
    and "\<forall>(i, x) \<in> set xs. money x"
  shows "\<exists>bs. u' = u\<lparr>db_bills := bs\<rparr> \<and> bill_rows co s ap bs \<and> map bi_id bs = map bi_id (db_bills u)
    \<and> (\<forall>j. (\<Sum>b\<leftarrow>bs. bill_due co j b) = (\<Sum>b\<leftarrow>db_bills u. bill_due co j b) - (if j = k then (\<Sum>(i, x)\<leftarrow>xs. x) else 0))"
  using assms
proof (induction xs arbitrary: apps u)
  case Nil
  then show ?case by (intro exI [of _ "db_bills u"]) auto
next
  case (Cons y xs)
  obtain i x where y: "y = (i, x)" by (cases y)
  from Cons.prems(1) obtain apps1 u1 where one: "pay_one_bill (dec E) co k p (apps, u) (i, x) = Inr (apps1, u1)"
    and rest: "foldE (pay_one_bill (dec E) co k p) (apps1, u1) xs = Inr (apps', u')"
    by (auto simp: y bindE_Inr)
  from one obtain b where f: "find_bill co i u = Some b" and v: "bi_vendor b = k" and st: "bi_status b \<noteq> BS_draft"
    and x: "0 < x" "x \<le> bi_balance b" and u1: "u1 = save_bill (paid_bill (dec E) x b) u"
    by (auto simp: pay_one_bill_def result_simps isPositive_def not_less)
  note b = find_bill_Some [OF f]
  have m: "money x" and ms: "\<forall>(i, x) \<in> set xs. money x" using Cons.prems(3) by (auto simp: y)
  have bo: "bill_row_ok s ap b" using Cons.prems(2) b by (auto simp: bill_rows_def)
  note sb = settled_bills(1) [OF bo m st]
  note sr = settled_rows [OF Cons.prems(2) conjunct1 [OF b] _ sb st m x]
  have bills: "db_bills u1 = update_row bi_id (bi_id b) (\<lambda>_. paid_bill (dec E) x b) (db_bills u)"
    using sb by (simp add: u1 save_bill_def settled_by_def)
  have "bill_rows co s ap (db_bills u1)" using sr(1) b bills by simp
  from Cons.IH [OF rest this ms] obtain bs where bs: "u' = u1\<lparr>db_bills := bs\<rparr>" "bill_rows co s ap bs" "map bi_id bs = map bi_id (db_bills u1)"
    "\<forall>j. (\<Sum>b\<leftarrow>bs. bill_due co j b) = (\<Sum>b\<leftarrow>db_bills u1. bill_due co j b) - (if j = k then (\<Sum>(i, x)\<leftarrow>xs. x) else 0)"
    by blast
  have "(\<Sum>b\<leftarrow>db_bills u1. bill_due co j b) = (\<Sum>b\<leftarrow>db_bills u. bill_due co j b) - (if j = k then x else 0)" for j
    using sr(3) [of j] b v bills by simp
  then show ?case
    using bs sr(2) b bills by (intro exI [of _ bs]) (auto simp: y u1 save_bill_def)
qed

lemma pay_bills_keeps:
  assumes run: "bill_payInTransaction E co user d s = Inr (p', t)" and ok: "payables_ok co s"
    and m: "\<forall>(i, x) \<in> set (pb_applications d). money x"
  shows "payables_ok co t"
proof -
  define paid where "paid = foldl (\<lambda>t (_, x). t + x) 0 (pb_applications d)"
  from run obtain v bank pf apps s2 ap e s4 where
    v: "find_vendor co (pb_vendor d) s = Some v"
    and bank: "find (\<lambda>a. acc_id a = pb_bank d \<and> acc_company a = co) (db_accounts s) = Some bank" "assertMoneyAccount bank = Inr ()"
    and fold: "foldE (pay_one_bill (dec E) co (pb_vendor d) (db_fresh s))
        ([], s\<lparr>db_billPayments := db_billPayments s @ [new_bill_payment (dec E) co d paid pf s], db_fresh := Suc (db_fresh s),
               db_proofs := update_row pf_id (pf_id pf) (\<lambda>f. f\<lparr>pf_consumedBy := Some (db_fresh s)\<rparr>) (db_proofs s)\<rparr>)
        (pb_applications d) = Inr (apps, s2)"
    and ap': "by_number (add_vendor_balance (dec E) co (pb_vendor d) (- paid)
        (s2\<lparr>db_billApplications := db_billApplications s2 @ apps\<rparr>)) co ACCT_AP = Some ap"
    and ce: "createEntry E (add_vendor_balance (dec E) co (pb_vendor d) (- paid)
        (s2\<lparr>db_billApplications := db_billApplications s2 @ apps\<rparr>))
                \<lparr>pi_company = co, pi_date = pb_date d, pi_memo = Some (''Bill payment to '' @ ve_companyName v), pi_createdBy = user,
                 pi_lines = number_lines [post_line (acc_id ap) None (d_fixed (dec E) 4 paid) 0,
                                          post_line (acc_id bank) None 0 (d_fixed (dec E) 4 paid)],
                 pi_posted = True, pi_sourceType = Some ''bill_payment'', pi_sourceId = Some (db_fresh s), pi_reversalOf = None\<rparr> = Inr (e, s4)"
    and t: "t = s4\<lparr>db_billPayments := update_row bp_id (db_fresh s) (\<lambda>_. p') (db_billPayments s4)\<rparr>"
    unfolding paid_def by (auto simp: bill_payInTransaction_def result_simps Let_def)
  obtain a where a: "by_number s co ACCT_AP = Some a" "acc_type a = Liability"
    and rows: "\<forall>b \<in> set (db_bills s). bi_company b = co \<longrightarrow> bill_row_ok s a b"
    using ok by (rule payables_account)
  have tab: "keyed bi_id (db_bills s) (db_fresh s)" "keyed vc_id (db_vendorCredits s) (db_fresh s)" and l: "ledger_ok s"
    using ok by (simp_all add: payables_ok_def)
  have "bill_rows co s a (db_bills s)" using rows tab by (simp add: bill_rows_def keyed_def)
  from pay_all_bills [OF fold _ m, of s a] this obtain bs where s2: "s2 = s\<lparr>db_billPayments := db_billPayments s @ [new_bill_payment (dec E) co d paid pf s], db_fresh := Suc (db_fresh s),
               db_proofs := update_row pf_id (pf_id pf) (\<lambda>f. f\<lparr>pf_consumedBy := Some (db_fresh s)\<rparr>) (db_proofs s), db_bills := bs\<rparr>"
    and bs: "bill_rows co s a bs" "map bi_id bs = map bi_id (db_bills s)"
      "\<And>j. (\<Sum>b\<leftarrow>bs. bill_due co j b) = billed_to co j s - (if j = pb_vendor d then (\<Sum>(i, x)\<leftarrow>pb_applications d. x) else 0)"
    by (auto simp: billed_to_def)
  have paid: "paid = (\<Sum>(i, x)\<leftarrow>pb_applications d. x)"
    unfolding paid_def using foldl_plus_sum [of "\<lambda>(i, x). x" 0 "pb_applications d"] by (simp add: case_prod_unfold)
  have mp: "money paid" unfolding paid using m by (intro on_grid_sum_list) auto
  define s3 where "s3 = add_vendor_balance (dec E) co (pb_vendor d) (- paid) (s2\<lparr>db_billApplications := db_billApplications s2 @ apps\<rparr>)"
  have l3: "ledger_ok s3" using l by (rule ledger_ok_same [rotated -1]) (simp_all add: s3_def add_vendor_balance_def s2)
  have ap3: "by_number s3 co ACCT_AP = Some a" using a(1) by (simp add: s3_def add_vendor_balance_def s2 by_number_def)
  have ap: "ap = a" using ap' [folded s3_def] ap3 by simp
  have "bank \<in> set (db_accounts s)" "acc_type bank = Asset" and am: "a \<in> set (db_accounts s)"
    using bank by_number_Some [OF a(1)] by (auto simp: assertMoneyAccount_def result_simps dest: find_Some_mem)
  then have other: "acc_id bank \<noteq> acc_id a" using a(2) ledger_ok_ids [OF l] by (metis acct_type.distinct(1) option.inject row_with_distinct)
  have eff: "input_effect (dec E) (number_lines [post_line (acc_id a) None (d_fixed (dec E) 4 paid) 0,
      post_line (acc_id bank) None 0 (d_fixed (dec E) 4 paid)]) a = - paid"
    using other a(2) fixed_id [OF mp]
    by (simp add: input_effect_numbered input_effect_append [of _ "[_]" "[_]", simplified] input_effect_single signedDelta_def)
  have mv: "moves_payable co (- paid) s3 s4"
    by (rule moves_payableI(1) [OF ce [folded s3_def] same_books_refl [OF l3]]) (use eff ap ap3 in simp_all)
  note mv = moves_payableD [OF mv]
  show ?thesis
  proof (rule payables_step [where x = "- paid" and k = "pb_vendor d", OF ok])
    show "ledger_ok t" using mv(1) by (rule ledger_ok_same [rotated -1]) (simp_all add: t)
    show "by_number t co ACCT_AP = Some (b\<lparr>acc_balance := acc_balance b + - paid\<rparr>)" if "by_number s co ACCT_AP = Some b" for b
      using mv(2) [of b] that a(1) ap3 by (simp add: t by_number_def)
    have "db_vendors (s2\<lparr>db_billApplications := db_billApplications s2 @ apps\<rparr>) = db_vendors s" by (simp add: s2)
    then show "vendors_move co (pb_vendor d) (- paid) (db_vendors s) (db_vendors t)"
      using vendor_moves [OF decimal_lib_axioms ok, of "- paid" "s2\<lparr>db_billApplications := db_billApplications s2 @ apps\<rparr>" "pb_vendor d"] mp
      by (simp add: t mv(3) s3_def on_grid_minus)
    have bt: "db_bills t = bs" "db_vendorCredits t = db_vendorCredits s"
      using mv(4,5) by (simp_all add: t s3_def add_vendor_balance_def s2)
    then show "billed_to co j t - credited_to co j t = billed_to co j s - credited_to co j s + (if j = pb_vendor d then - paid else 0)" for j
      using bs(3) [of j] paid by (simp add: billed_to_def credited_to_def)
    have fr: "db_fresh s \<le> db_fresh t" using mv(7) by (simp add: t s3_def add_vendor_balance_def s2)
    show "keyed bi_id (db_bills t) (db_fresh t)" using keyed_same_keys [OF bs(2) tab(1) fr] bt by simp
    show "keyed vc_id (db_vendorCredits t) (db_fresh t)" using keyed_later [OF tab(2) fr] bt by simp
    show es: "set (db_entries s) \<subseteq> set (db_entries t)" using mv(8) by (simp add: t s3_def add_vendor_balance_def s2)
    show "w \<in> set (db_bills s) \<or> bill_row_ok t b w"
      if "by_number s co ACCT_AP = Some b" "vendor_keys t = vendor_keys s" "w \<in> set (db_bills t)" "bi_company w = co" for b w
      using that bs(1) bt a(1) bill_row_keeps [of s a w t "acc_balance a"] es by (auto simp: bill_rows_def)
    show "c \<in> set (db_vendorCredits s) \<or> credit_row_ok t b c" if "c \<in> set (db_vendorCredits t)" for b c
      using that bt by simp
  qed (use v in simp)
qed

section \<open>A credit on a bill\<close>

text \<open>The bill and the credit move by the same amount, and the vendor's balance not at all.\<close>

lemma use_credit_keeps:
  assumes run: "applyVendorCredit (dec E) co i billId amt expected s = Inr (r, t)" and ok: "payables_ok co s" and m: "money amt"
  shows "payables_ok co t"
proof -
  from run obtain c b where fc: "find_vendor_credit co i s = Some c" and st: "vc_status c \<noteq> VS_void"
    and pos: "0 < amt" and fb: "find_bill co billId s = Some b" and v: "bi_vendor b = vc_vendor c"
    and bs: "bi_status b \<noteq> BS_draft" and le: "d_fixed (dec E) 4 amt \<le> bi_balance b"
    and t: "t = save_vendor_credit (used_credit_of (dec E) amt c) (save_bill (credited_bill (dec E) (d_fixed (dec E) 4 amt) b) s)"
    by (auto simp: applyVendorCredit_def applyCredit_def result_simps isPositive_def Let_def not_less)
  note b = find_bill_Some [OF fb] and c = find_credit_Some [OF fc]
  obtain ap where ap: "by_number s co ACCT_AP = Some ap" "\<forall>b \<in> set (db_bills s). bi_company b = co \<longrightarrow> bill_row_ok s ap b"
    "\<forall>c \<in> set (db_vendorCredits s). vc_company c = co \<longrightarrow> credit_row_ok s ap c"
    using ok by (rule payables_account)
  have tab: "keyed bi_id (db_bills s) (db_fresh s)" "keyed vc_id (db_vendorCredits s) (db_fresh s)" and l: "ledger_ok s"
    using ok by (simp_all add: payables_ok_def)
  have bo: "bill_row_ok s ap b" and co': "credit_row_ok s ap c" using ap b c by auto
  define b' where "b' = credited_bill (dec E) amt b"
  define c' where "c' = used_credit_of (dec E) amt c"
  have sb: "settled_by amt b b'" unfolding b'_def by (rule settled_bills(2) [OF bo m bs])
  have "bill_rows co s ap (db_bills s)" using ap tab by (simp add: bill_rows_def keyed_def)
  note sr = settled_rows [OF this conjunct1 [OF b] _ sb bs m pos]
  have mc: "money (vc_amountApplied c + amt)" "money (vc_total c - (vc_amountApplied c + amt))"
    using co' m by (auto simp: credit_row_ok_def intro: on_grid_add on_grid_diff)
  have cn: "vc_id c' = vc_id c" "vc_company c' = vc_company c" "vc_vendor c' = vc_vendor c" "vc_balance c' = vc_balance c - amt"
    using co' st fixed_id [OF mc(1)] fixed_id [OF mc(2)] by (auto simp: c'_def used_credit_of_def Let_def credit_row_ok_def)
  have cr: "credit_row_ok s ap c'"
    using co' st pos mc fixed_id [OF mc(1)] fixed_id [OF mc(2)] by (auto simp: c'_def used_credit_of_def Let_def credit_row_ok_def)
  have t': "t = s\<lparr>db_bills := update_row bi_id (bi_id b) (\<lambda>_. b') (db_bills s),
      db_vendorCredits := update_row vc_id (vc_id c) (\<lambda>_. c') (db_vendorCredits s)\<rparr>"
    using sb cn fixed_id [OF m] by (simp add: t save_bill_def save_vendor_credit_def b'_def c'_def settled_by_def)
  have row: "bill_row_ok t a w \<longleftrightarrow> bill_row_ok s a w" "credit_row_ok t a u \<longleftrightarrow> credit_row_ok s a u" for a w u
    by (simp_all add: t' bill_row_ok_def credit_row_ok_def find_vendor_def)
  have dc: "distinct (map vc_id (db_vendorCredits s))" using tab by (simp add: keyed_def)
  show ?thesis
  proof (rule payables_step [where x = 0 and k = 0, OF ok])
    show "ledger_ok t" using l by (rule ledger_ok_same [rotated -1]) (simp_all add: t')
    show "by_number t co ACCT_AP = Some (a\<lparr>acc_balance := acc_balance a + 0\<rparr>)" if "by_number s co ACCT_AP = Some a" for a
      using that by (simp add: t' by_number_def)
    show "vendors_move co 0 0 (db_vendors s) (db_vendors t)" by (simp add: t' vendors_stay)
    have "credit_left co j c' = credit_left co j c - (if j = vc_vendor c then amt else 0)" for j
      using cn c by (simp add: credit_left_def)
    then show "billed_to co j t - credited_to co j t = billed_to co j s - credited_to co j s + (if j = 0 then 0 else 0)" for j
      using sr(3) [of j] b le fixed_id [OF m] v
      by (simp add: billed_to_def credited_to_def t' sum_replaced [OF dc conjunct1 [OF c]])
    show "keyed bi_id (db_bills t) (db_fresh t)" using keyed_same_keys [OF sr(2) tab(1)] b le fixed_id [OF m] by (simp add: t')
    show "keyed vc_id (db_vendorCredits t) (db_fresh t)"
      using keyed_replaced [OF tab(2) conjunct1 [OF c] cn(1) order_refl] by (simp add: t')
    show "w \<in> set (db_bills s) \<or> bill_row_ok t a w"
      if "by_number s co ACCT_AP = Some a" "w \<in> set (db_bills t)" "bi_company w = co" for a w
      using that sr(1) b le fixed_id [OF m] ap(1) unfolding row by (auto simp: bill_rows_def t')
    show "u \<in> set (db_vendorCredits s) \<or> credit_row_ok t a u"
      if "by_number s co ACCT_AP = Some a" "u \<in> set (db_vendorCredits t)" for a u
      using that cr ap(1) unfolding row by (auto simp: t' update_row_def split: if_splits)
  qed (simp_all add: t')
qed

lemma settle_bills_keeps:
  assumes run: "bill_settleInTransaction E co user d s = Inr (r, t)" and ok: "payables_ok co s"
    and m: "\<forall>c \<in> set (sbi_credits d). money (vu_amount c)" "\<forall>(i, x) \<in> set (cash_applications d). money x"
  shows "payables_ok co t"
proof -
  from run obtain used s1 p where f: "foldE (settle_credit E co (sbi_vendor d)) ([], s) (sbi_credits d) = Inr (used, s1)"
    and cash: "settle_cash_leg E co user d s1 = Inr (p, t)"
    by (auto simp: bill_settleInTransaction_def result_simps Let_def)
  let ?P = "\<lambda>(_ :: settled_vendor_credit list, u). payables_ok co u"
  from f have "?P (used, s1)"
  proof (rule foldE_invariant)
    show "?P y" if "?P x" "settle_credit E co (sbi_vendor d) x c = Inr y" "c \<in> set (sbi_credits d)" for x c y
      using that m(1) by (cases x; cases y) (auto simp: settle_credit_def result_simps intro: use_credit_keeps)
  qed (use ok in simp)
  then have ok1: "payables_ok co s1" by simp
  show ?thesis
  proof (cases "cash_applications d = []")
    case True
    then show ?thesis using cash ok1 by (auto simp: settle_cash_leg_def cash_applications_def split: option.splits)
  next
    case False
    then show ?thesis using cash m(2) ok1
      by (auto simp: settle_cash_leg_def cash_applications_def map_sum_Inr split: option.splits intro: pay_bills_keeps)
  qed
qed

end

section \<open>Entering, voiding and deleting a credit\<close>

lemma relieve_frame:
  assumes "relieveReturnedStock D co c reverse s = Inr t"
  obtains its mvs where "t = s\<lparr>db_items := its, db_movements := mvs\<rparr>"
proof -
  let ?P = "\<lambda>t. \<exists>its mvs. t = s\<lparr>db_items := its, db_movements := mvs\<rparr>"
  have "?P t"
    using assms unfolding relieveReturnedStock_def
  proof (rule foldE_invariant)
    show "?P s" by (cases s) auto
    show "?P y" if "?P x" "relieve_line D co c reverse x l = Inr y" for x l y
      using that by (fastforce simp: relieve_line_def recordInventoryMovement_def result_simps Let_def split: option.splits if_splits)
  qed
  then show thesis using that by blast
qed

definition credit_avoids :: "nat \<Rightarrow> vendor_credit_line_input list \<Rightarrow> 'a ledger_db_scheme \<Rightarrow> bool" where
  "credit_avoids co ls s \<longleftrightarrow> (\<forall>ap. by_number s co ACCT_AP = Some ap \<longrightarrow> (\<forall>l \<in> set ls. vx_account l \<noteq> Some (acc_id ap)))"

lemma credit_lines_avoid:
  assumes "credit_avoids co (vd_lines d) s" and ap: "by_number s co ACCT_AP = Some ap" and l: "ledger_ok s"
    and "by_number s co ACCT_COGS = Some cogs" and "by_number s co ACCT_INVENTORY = Some iv"
    and "x \<in> set (vc_lines (new_vendor_credit D co user d number (acc_id iv) (acc_id cogs) s1))"
  shows "line_account x \<noteq> acc_id ap"
proof -
  obtain y where y: "y \<in> set (enumerate 0 (vd_lines d))" "x = credit_line_of D (acc_id iv) (acc_id cogs) (fst y) (snd y)"
    using assms(6) by (auto simp: new_vendor_credit_def Let_def case_prod_unfold)
  have "snd y \<in> set (vd_lines d)" using y(1) by (rule snd_enumerate)
  then have "vx_account (snd y) \<noteq> Some (acc_id ap)" using assms(1) ap by (auto simp: credit_avoids_def)
  moreover have "acc_id cogs \<noteq> acc_id ap" "acc_id iv \<noteq> acc_id ap"
    using by_number_ids [OF l ap assms(4) payable_numbers(1)] by_number_ids [OF l ap assms(5) payable_numbers(4)] by metis+
  ultimately show ?thesis by (auto simp: y(2) credit_line_of_def line_account_def split: option.splits)
qed

lemma credited_tax_books:
  assumes run: "credited_tax co tax s = Inr (taxes, t)" and ok: "ledger_ok s" and ap: "by_number s co ACCT_AP = Some ap"
  shows "same_books co s t" and "\<forall>a \<in> set taxes. a \<noteq> acc_id ap"
proof -
  have "same_books co s t \<and> (\<forall>a \<in> set taxes. a \<noteq> acc_id ap)"
  proof (cases "0 < tax")
    case True
    then obtain a where g: "getOrCreateSystemAccount co ACCT_INPUT_TAX s = Inr (a, t)" and x: "taxes = [acc_id a]"
      using run by (auto simp: credited_tax_def result_simps)
    show ?thesis using system_account_books [OF g ok payable_numbers(2)] ap x by auto
  next
    case False
    then show ?thesis using run same_books_refl [OF ok] by (simp add: credited_tax_def)
  qed
  then show "same_books co s t" "\<forall>a \<in> set taxes. a \<noteq> acc_id ap" by simp_all
qed

lemma same_books_trans:
  fixes s u t :: "'a purchase_db_scheme"
  shows "same_books co s u \<Longrightarrow> same_books co u t \<Longrightarrow> same_books co s t"
  by (auto simp: same_books_def)

context posting_env
begin

lemma create_credit_keeps:
  assumes run: "vendor_credit_create E co user d s = Inr (c', t)" and ok: "payables_ok co s"
    and av: "credit_avoids co (vd_lines d) s"
  shows "payables_ok co t"
proof -
  from run obtain cogs iv number s1 s2 ap taxes s3 e s4 where
    v: "find_vendor co (vd_vendor d) s \<noteq> None"
    and cogs: "by_number s co ACCT_COGS = Some cogs" and iv: "by_number s co ACCT_INVENTORY = Some iv"
    and n: "\<exists>year. nextDocumentNumber (vendor_credit_numbers co s) co VC year s = Inr (number, s1)"
    and st: "relieveReturnedStock (dec E) co (new_vendor_credit (dec E) co user d number (acc_id iv) (acc_id cogs) s1) False
      (s1\<lparr>db_vendorCredits := db_vendorCredits s1 @ [new_vendor_credit (dec E) co user d number (acc_id iv) (acc_id cogs) s1],
          db_fresh := Suc (db_fresh s1)\<rparr>) = Inr s2"
    and ap': "by_number s2 co ACCT_AP = Some ap"
    and tx: "credited_tax co (vc_taxAmount (new_vendor_credit (dec E) co user d number (acc_id iv) (acc_id cogs) s1)) s2 = Inr (taxes, s3)"
    and ce: "createEntry E s3
            \<lparr>pi_company = co, pi_date = vd_date d, pi_memo = Some (''Vendor credit '' @ number), pi_createdBy = user,
             pi_lines = number_lines ([post_line (acc_id ap) (Some (''Vendor credit '' @ number))
                 (vc_total (new_vendor_credit (dec E) co user d number (acc_id iv) (acc_id cogs) s1)) 0]
               @ map (\<lambda>l. post_line (line_account l) (Some (vl_description l)) 0 (vl_amount l))
                   (vc_lines (new_vendor_credit (dec E) co user d number (acc_id iv) (acc_id cogs) s1))
               @ map (\<lambda>a. post_line a (Some ''Input tax reversed on vendor credit'') 0
                   (vc_taxAmount (new_vendor_credit (dec E) co user d number (acc_id iv) (acc_id cogs) s1))) taxes),
             pi_posted = True, pi_sourceType = Some ''vendor_credit'',
             pi_sourceId = Some (vc_id (new_vendor_credit (dec E) co user d number (acc_id iv) (acc_id cogs) s1)),
             pi_reversalOf = None\<rparr> = Inr (e, s4)"
    and c': "c' = (new_vendor_credit (dec E) co user d number (acc_id iv) (acc_id cogs) s1)\<lparr>vc_entry := Some (je_id e)\<rparr>"
    and t: "t = add_vendor_balance (dec E) co (vd_vendor d)
        (- vc_total (new_vendor_credit (dec E) co user d number (acc_id iv) (acc_id cogs) s1)) (save_vendor_credit c' s4)"
    by (simp add: vendor_credit_create_def transaction_Inr result_simps Let_def) blast
  define c where "c = new_vendor_credit (dec E) co user d number (acc_id iv) (acc_id cogs) s1"
  note folds = st [folded c_def] tx [folded c_def] ce [folded c_def] c' [folded c_def] t [folded c_def]
  obtain q where s1: "s1 = s\<lparr>db_sequences := q\<rparr>" using n nextDocumentNumber_frame by blast
  obtain its mvs where s2: "s2 = s1\<lparr>db_vendorCredits := db_vendorCredits s1 @ [c], db_fresh := Suc (db_fresh s1), db_items := its, db_movements := mvs\<rparr>"
    using relieve_frame [OF folds(1)] by blast
  obtain a where a: "by_number s co ACCT_AP = Some a" "acc_type a = Liability" using ok by (rule payables_account)
  have l: "ledger_ok s" using ok by (rule payables_ledger)
  then have l2: "ledger_ok s2" by (rule ledger_ok_same [rotated -1]) (simp_all add: s2 s1)
  have ap2: "by_number s2 co ACCT_AP = Some a" using a(1) by (simp add: s2 s1 by_number_def)
  have ap: "ap = a" using ap' ap2 by simp
  have c: "vc_id c = db_fresh s" "vc_company c = co" "vc_vendor c = vd_vendor d" "vc_amountApplied c = 0" "vc_balance c = vc_total c"
    "vc_status c = VS_open" and m: "money (vc_total c)"
    by (simp_all add: c_def new_vendor_credit_def Let_def s1 vendor_credit_computeTotals_def case_prod_unfold fixed_grid)
  have lines: "line_account x \<noteq> acc_id a" if "x \<in> set (vc_lines c)" for x
    using credit_lines_avoid [OF av a(1) l cogs iv] that by (simp add: c_def)
  note tb = credited_tax_books [OF folds(2) l2 ap2]
  have e1: "input_effect (dec E) (map (\<lambda>l. post_line (line_account l) (Some (vl_description l)) 0 (vl_amount l)) (vc_lines c)) a = 0"
    using lines by (intro input_effect_absent) (auto simp: post_line_def)
  have e2: "input_effect (dec E) (map (\<lambda>x. post_line x (Some ''Input tax reversed on vendor credit'') 0 (vc_taxAmount c)) taxes) a = 0"
    using tb(2) by (intro input_effect_absent) (auto simp: post_line_def)
  have mv: "moves_payable co (- vc_total c) s2 s4"
    by (rule moves_payableI(1) [OF folds(3) tb(1)])
      (use e1 e2 a(2) ap ap2 fixed_id [OF m] in \<open>simp_all add: input_effect_numbered input_effect_append input_effect_single signedDelta_def del: append.simps\<close>)
  note mv = moves_payableD [OF mv]
  have cn: "vc_id c' = db_fresh s" "vc_company c' = co" "vc_vendor c' = vd_vendor d" "vc_balance c' = vc_total c"
    using c by (simp_all add: folds(4))
  have tab: "keyed bi_id (db_bills s) (db_fresh s)" "keyed vc_id (db_vendorCredits s) (db_fresh s)" using ok by (simp_all add: payables_ok_def)
  have crs: "db_vendorCredits t = db_vendorCredits s @ [c']"
    using saved_last [OF tab(2) c(1) cn(1)] cn(1) by (simp add: folds(5) add_vendor_balance_def save_vendor_credit_def mv(5) s2 s1)
  have rest: "db_bills t = db_bills s" "db_entries t = db_entries s4" "db_fresh t = db_fresh s4"
    by (simp_all add: folds(5) add_vendor_balance_def save_vendor_credit_def mv(4) s2 s1)
  show ?thesis
  proof (rule payables_step [where x = "- vc_total c" and k = "vd_vendor d", OF ok])
    show "ledger_ok t" using mv(1) by (rule ledger_ok_same [rotated -1]) (simp_all add: folds(5) add_vendor_balance_def save_vendor_credit_def)
    show "by_number t co ACCT_AP = Some (b\<lparr>acc_balance := acc_balance b + - vc_total c\<rparr>)" if "by_number s co ACCT_AP = Some b" for b
      using mv(2) [of b] that a(1) ap2 by (simp add: folds(5) add_vendor_balance_def save_vendor_credit_def by_number_def)
    have "db_vendors (save_vendor_credit c' s4) = db_vendors s" by (simp add: save_vendor_credit_def mv(3) s2 s1)
    then show "vendors_move co (vd_vendor d) (- vc_total c) (db_vendors s) (db_vendors t)"
      unfolding folds(5) by (intro vendor_moves [OF decimal_lib_axioms ok]) (simp_all add: m on_grid_minus)
    have "credit_left co j c' = (if j = vd_vendor d then vc_total c else 0)" for j using cn by (simp add: credit_left_def)
    then show "billed_to co j t - credited_to co j t = billed_to co j s - credited_to co j s + (if j = vd_vendor d then - vc_total c else 0)" for j
      by (simp add: billed_to_def credited_to_def crs rest)
    show "keyed bi_id (db_bills t) (db_fresh t)" using keyed_later [OF tab(1)] mv(7) by (simp add: rest s2 s1)
    show "keyed vc_id (db_vendorCredits t) (db_fresh t)" using keyed_added [OF tab(2) cn(1)] mv(7) by (simp add: crs rest s2 s1)
    show "set (db_entries s) \<subseteq> set (db_entries t)" using mv(8) by (simp add: rest s2 s1)
    show "u \<in> set (db_vendorCredits s) \<or> credit_row_ok t b u"
      if "by_number s co ACCT_AP = Some b" "vendor_keys t = vendor_keys s" "u \<in> set (db_vendorCredits t)" for b u
    proof (cases "u = c'")
      case True
      have "credit_row_ok t a c'"
        using c m lines vendor_stays [OF that(2) v] by (simp add: credit_row_ok_def folds(4))
      then show ?thesis using True a(1) that(1) by simp
    next
      case False
      then show ?thesis using that(3) by (simp add: crs)
    qed
  qed (use v rest in simp_all)
qed

lemma void_credit_keeps:
  assumes run: "vendor_credit_void E co i user s = Inr (c', t)" and ok: "payables_ok co s"
  shows "payables_ok co t" and "c' \<in> set (db_vendorCredits t)" and "vc_id c' = i" and "vc_balance c' = 0"
proof -
  from run obtain c e s1 s2 where f: "find_vendor_credit co i s = Some c" and st: "vc_status c \<noteq> VS_void"
    and ap0: "\<not> 0 < vc_amountApplied c"
    and rev: "(case vc_entry c of None \<Rightarrow> Inr s | Some e \<Rightarrow> reverse_vendor_credit E co user c e s) = Inr s1"
    and st2: "relieveReturnedStock (dec E) co c True s1 = Inr s2"
    and c': "c' = c\<lparr>vc_status := VS_void, vc_balance := 0\<rparr>"
    and t: "t = save_vendor_credit c' (add_vendor_balance (dec E) co (vc_vendor c) (vc_total c) s2)"
    by (auto simp: vendor_credit_void_def transaction_Inr result_simps Let_def)
  note c = find_credit_Some [OF f]
  obtain a where a: "by_number s co ACCT_AP = Some a" "acc_type a = Liability"
    and rows: "\<forall>c \<in> set (db_vendorCredits s). vc_company c = co \<longrightarrow> credit_row_ok s a c"
    using ok by (rule payables_account)
  have co': "credit_row_ok s a c" using rows c by blast
  then obtain e where e: "vc_entry c = Some e" by (auto simp: credit_row_ok_def)
  have m: "money (vc_total c)" "vc_balance c = vc_total c" "\<forall>l \<in> set (vc_lines c). line_account l \<noteq> acc_id a"
    using co' st ap0 by (auto simp: credit_row_ok_def)
  have l: "ledger_ok s" using ok by (rule payables_ledger)
  from rev e obtain taxes s0 r where tx: "credited_tax co (vc_taxAmount c) s = Inr (taxes, s0)"
    and ce: "createEntry E s0
       \<lparr>pi_company = co, pi_date = today E,
        pi_memo = Some (''Void vendor credit '' @ (case vc_number c of None \<Rightarrow> ''null'' | Some n \<Rightarrow> n)), pi_createdBy = user,
        pi_lines = number_lines ([post_line (acc_id a) None 0 (vc_total c)]
          @ map (\<lambda>l. post_line (line_account l) None (vl_amount l) 0) (vc_lines c)
          @ map (\<lambda>a. post_line a None (vc_taxAmount c) 0) taxes),
        pi_posted = True, pi_sourceType = Some ''vendor_credit_void'', pi_sourceId = Some (vc_id c), pi_reversalOf = Some e\<rparr> = Inr (r, s1)"
    using a(1) by (auto simp: reverse_vendor_credit_def result_simps map_sum_Inr)
  note tb = credited_tax_books [OF tx l a(1)]
  have e1: "input_effect (dec E) (map (\<lambda>l. post_line (line_account l) None (vl_amount l) 0) (vc_lines c)) a = 0"
    using m(3) by (intro input_effect_absent) (auto simp: post_line_def)
  have e2: "input_effect (dec E) (map (\<lambda>x. post_line x None (vc_taxAmount c) 0) taxes) a = 0"
    using tb(2) by (intro input_effect_absent) (auto simp: post_line_def)
  have mv: "moves_payable co (vc_total c) s s1"
    by (rule moves_payableI(1) [OF ce tb(1)])
      (use e1 e2 a fixed_id [OF m(1)] in \<open>simp_all add: input_effect_numbered input_effect_append input_effect_single signedDelta_def del: append.simps\<close>)
  note mv = moves_payableD [OF mv]
  obtain its mvs where s2: "s2 = s1\<lparr>db_items := its, db_movements := mvs\<rparr>" using st2 by (rule relieve_frame)
  have tab: "keyed bi_id (db_bills s) (db_fresh s)" "keyed vc_id (db_vendorCredits s) (db_fresh s)" using ok by (simp_all add: payables_ok_def)
  have d: "distinct (map vc_id (db_vendorCredits s))" using tab(2) by (simp add: keyed_def)
  have cn: "vc_id c' = vc_id c" by (simp add: c')
  have crs: "db_vendorCredits t = update_row vc_id (vc_id c) (\<lambda>_. c') (db_vendorCredits s)"
    by (simp add: t save_vendor_credit_def add_vendor_balance_def s2 mv cn)
  have rest: "db_bills t = db_bills s" "db_entries t = db_entries s1" "db_fresh t = db_fresh s1"
    by (simp_all add: t add_vendor_balance_def save_vendor_credit_def s2 mv(4))
  have row: "credit_row_ok t b c'" if "by_number s co ACCT_AP = Some b" "vendor_keys t = vendor_keys s" for b
  proof -
    have "find_vendor (vc_company c) (vc_vendor c) t \<noteq> None" using co' by (intro vendor_stays [OF that(2)]) (simp add: credit_row_ok_def)
    then show ?thesis using co' that(1) a(1) by (auto simp: c' credit_row_ok_def)
  qed
  show "payables_ok co t"
  proof (rule payables_step [where x = "vc_total c" and k = "vc_vendor c", OF ok])
    show "ledger_ok t" using mv(1) by (rule ledger_ok_same [rotated -1]) (simp_all add: t add_vendor_balance_def save_vendor_credit_def s2)
    show "by_number t co ACCT_AP = Some (b\<lparr>acc_balance := acc_balance b + vc_total c\<rparr>)" if "by_number s co ACCT_AP = Some b" for b
      using mv(2) [OF that] by (simp add: t add_vendor_balance_def save_vendor_credit_def by_number_def s2)
    have "db_vendors s2 = db_vendors s" by (simp add: s2 mv(3))
    from vendor_moves [OF decimal_lib_axioms ok m(1) this, of "vc_vendor c"]
    show "vendors_move co (vc_vendor c) (vc_total c) (db_vendors s) (db_vendors t)" by (simp add: t save_vendor_credit_def)
    have "credit_left co j c' = credit_left co j c - (if j = vc_vendor c then vc_total c else 0)" for j
      using c m(2) by (simp add: credit_left_def c')
    then show "billed_to co j t - credited_to co j t = billed_to co j s - credited_to co j s + (if j = vc_vendor c then vc_total c else 0)" for j
      by (simp add: billed_to_def credited_to_def crs rest sum_replaced [OF d conjunct1 [OF c]])
    show "keyed bi_id (db_bills t) (db_fresh t)" using keyed_later [OF tab(1)] mv(7) by (simp add: rest)
    show "keyed vc_id (db_vendorCredits t) (db_fresh t)" using keyed_replaced [OF tab(2) conjunct1 [OF c] cn] mv(7) by (simp add: crs rest)
    show "set (db_entries s) \<subseteq> set (db_entries t)" using mv(8) by (simp add: rest)
    show "u \<in> set (db_vendorCredits s) \<or> credit_row_ok t b u"
      if "by_number s co ACCT_AP = Some b" "vendor_keys t = vendor_keys s" "u \<in> set (db_vendorCredits t)" for b u
      using that row [OF that(1,2)] by (auto simp: crs update_row_def split: if_splits)
    show "vc_total c = 0 \<or> find_vendor co (vc_vendor c) s \<noteq> None" using co' c by (auto simp: credit_row_ok_def)
  qed (use rest in simp_all)
  show "c' \<in> set (db_vendorCredits t)" using c by (force simp: crs update_row_def)
  show "vc_id c' = i" "vc_balance c' = 0" using c cn by (simp_all add: c')
qed

lemma delete_credit_keeps:
  assumes run: "vendor_credit_delete E co i user s = Inr (u, t)" and ok: "payables_ok co s"
  shows "payables_ok co t"
proof -
  from run obtain c s1 where f: "find_vendor_credit co i s = Some c"
    and v: "(if vc_entry c \<noteq> None then map_sum id snd (vendor_credit_void E co i user s) else Inr s) = Inr s1"
    and t: "t = s1\<lparr>db_vendorCredits := filter (\<lambda>w. vc_id w \<noteq> vc_id c) (db_vendorCredits s1)\<rparr>"
    by (auto simp: vendor_credit_delete_def result_simps)
  note c = find_credit_Some [OF f]
  have "vc_entry c \<noteq> None" using payables_account [OF ok] c by (metis credit_row_ok_def)
  then obtain c' where run1: "vendor_credit_void E co i user s = Inr (c', s1)" using v by (auto simp: map_sum_Inr)
  note k = void_credit_keeps [OF run1 ok]
  have tab: "keyed bi_id (db_bills s1) (db_fresh s1)" "keyed vc_id (db_vendorCredits s1) (db_fresh s1)" using k(1) by (simp_all add: payables_ok_def)
  have d: "distinct (map vc_id (db_vendorCredits s1))" using tab(2) by (simp add: keyed_def)
  have id: "vc_id c = vc_id c'" using c k(3) by simp
  show ?thesis
  proof (rule payables_step [where x = 0 and k = 0, OF k(1)])
    show "ledger_ok t" using payables_ledger [OF k(1)] by (rule ledger_ok_same [rotated -1]) (simp_all add: t)
    show "by_number t co ACCT_AP = Some (a\<lparr>acc_balance := acc_balance a + 0\<rparr>)" if "by_number s1 co ACCT_AP = Some a" for a
      using that by (simp add: t by_number_def)
    show "billed_to co j t - credited_to co j t = billed_to co j s1 - credited_to co j s1 + (if j = 0 then 0 else 0)" for j
      using sum_removed [OF d k(2), of "credit_left co j"] k(4) by (simp add: billed_to_def credited_to_def t id credit_left_def)
    show "keyed vc_id (db_vendorCredits t) (db_fresh t)" using keyed_removed [OF tab(2) order_refl] by (simp add: t)
    show "keyed bi_id (db_bills t) (db_fresh t)" using tab(1) by (simp add: t)
    show "vendors_move co 0 0 (db_vendors s1) (db_vendors t)" by (simp add: t vendors_stay)
  qed (auto simp: t)
qed

end

end
