(* ===== verification/PurchaseOrders.thy ===== *)
theory PurchaseOrders
  imports VendorSteps
begin

text \<open>
  Purchase orders: \<^verbatim>\<open>src/modules/purchase-orders/purchase-orders.service.ts\<close>. Writing an order, receiving its goods into
  stock against the account for goods received and not yet billed, billing what was received, editing, deleting and moving
  an order between its states. Row locks, reading and what is queued for messaging are not modelled: a handler runs alone.
\<close>

section \<open>Inputs\<close>

datatype purchase_line_kind = PK_item | PK_expense

record po_line_input =
  px_description :: string
  px_ordered :: rat
  px_unitCost :: rat
  px_taxRate :: "rat option"
  px_kind :: "purchase_line_kind option"
  px_item :: "nat option"
  px_account :: "nat option"

record po_input =
  pc_vendor :: nat
  pc_orderDate :: date
  pc_expectedDate :: "date option"
  pc_notes :: "string option"
  pc_lines :: "po_line_input list"

record po_bill_input =
  pq_number :: "string option"
  pq_date :: "date option"
  pq_dueDate :: "date option"
  pq_defaultAccount :: "nat option"

section \<open>Lines\<close>

text \<open>\<open>toDecimalPlaces(4, ROUND_HALF_UP)\<close>: what \<open>toFixed\<close> does under the library's own rounding mode.\<close>

definition round4 :: "decimal_js \<Rightarrow> rat \<Rightarrow> rat" where
  "round4 D x = d_fixed D 4 x"

definition po_line_tax :: "decimal_js \<Rightarrow> po_line_input \<Rightarrow> rat" where
  "po_line_tax D l = d_prec D (d_prec D (d_prec D (px_ordered l * px_unitCost l) * toDecimal (px_taxRate l)) / 100)"

definition po_line_of :: "decimal_js \<Rightarrow> nat \<Rightarrow> nat \<times> po_line_input \<Rightarrow> po_line" where
  "po_line_of D firstId = (\<lambda>(i, l).
     \<lparr>pn_id = firstId + i, pn_item = px_item l, pn_description = px_description l, pn_ordered = d_fixed D 4 (px_ordered l),
      pn_received = 0, pn_billed = 0, pn_grniAccrued = 0, pn_grniCleared = 0, pn_unitCost = d_fixed D 4 (px_unitCost l),
      pn_taxRate = d_fixed D 4 (toDecimal (px_taxRate l)),
      pn_lineTotal = d_fixed D 4 (d_prec D (px_ordered l * px_unitCost l) + po_line_tax D l),
      pn_account = px_account l, pn_order = i\<rparr>)"

record po_totals =
  ot_subtotal :: rat
  ot_tax :: rat
  ot_lines :: "po_line list"

definition computeLines :: "decimal_js \<Rightarrow> nat \<Rightarrow> po_line_input list \<Rightarrow> po_totals" where
  "computeLines D firstId lines =
     (let (subtotal, tax) = foldl (\<lambda>(s, t) l. (s + d_prec D (px_ordered l * px_unitCost l), t + po_line_tax D l)) (0, 0) lines
      in \<lparr>ot_subtotal = subtotal, ot_tax = tax, ot_lines = map (po_line_of D firstId) (enumerate 0 lines)\<rparr>)"

text \<open>A line is stock, which names an item, or an expense, which names the account it is billed to.\<close>

definition assertLinesClassified :: "nat \<Rightarrow> bool \<Rightarrow> po_line_input list \<Rightarrow> 'a trade_db_scheme \<Rightarrow> unit result" where
  "assertLinesClassified co allowUnclassified lines s =
     (let itemIds = uniq (List.map_filter px_item lines);
          accountIds = uniq (List.map_filter px_account lines);
          accounts = filter (\<lambda>a. acc_id a \<in> set accountIds \<and> acc_company a = co) (db_accounts s)
      in throw_if (length (filter (\<lambda>it. it_id it \<in> set itemIds \<and> it_company it = co) (db_items s)) \<noteq> length itemIds)
          (BadRequest ''ITEM_NOT_FOUND'')
        (throw_if (length accounts \<noteq> length accountIds) (BadRequest ''ACCOUNT_NOT_FOUND'')
        (throw_if (list_ex (\<lambda>a. \<not> acc_active a) accounts) (BadRequest ''ACCOUNT_INACTIVE'')
        (foldE (\<lambda>_ l.
           throw_if (px_kind l = Some PK_item \<and> px_item l = None) (BadRequest ''LINE_ITEM_REQUIRED'')
          (throw_if (px_item l = None \<and> px_account l = None \<and> \<not> allowUnclassified) (BadRequest ''EXPENSE_ACCOUNT_REQUIRED'')
            (Inr ()))) () lines))))"

section \<open>States\<close>

definition deriveStatus :: "bool \<Rightarrow> po_line list \<Rightarrow> po_status" where
  "deriveStatus ignoreBilling lines =
     (let allReceived = lines \<noteq> [] \<and> list_all (\<lambda>l. pn_ordered l \<le> pn_received l) lines;
          anyReceived = list_ex (\<lambda>l. 0 < pn_received l) lines;
          allBilled = lines \<noteq> [] \<and> list_all (\<lambda>l. pn_ordered l \<le> pn_billed l) lines
      in if allReceived \<and> allBilled \<and> \<not> ignoreBilling then PS_closed
         else if allReceived then PS_received else if anyReceived then PS_partial else PS_sent)"

definition assertIssued :: "purchase_order \<Rightarrow> unit result" where
  "assertIssued p =
     throw_if (po_status p = PS_draft) (BadRequest ''PO_NOT_ISSUED'')
    (throw_if (po_status p = PS_closed) (BadRequest ''PO_CLOSED'') (Inr ()))"

definition po_numbers :: "nat \<Rightarrow> 'a purchase_db_scheme \<Rightarrow> string list" where
  "po_numbers co s = map po_number (filter (\<lambda>p. po_company p = co) (db_pos s))"

definition new_po :: "decimal_js \<Rightarrow> nat \<Rightarrow> po_input \<Rightarrow> string \<Rightarrow> 'a ledger_db_scheme \<Rightarrow> purchase_order" where
  "new_po D co d number s =
     (let tot = computeLines D (db_fresh s + 1) (pc_lines d)
      in \<lparr>po_id = db_fresh s, po_company = co, po_vendor = pc_vendor d, po_number = number, po_orderDate = pc_orderDate d,
          po_expectedDate = pc_expectedDate d, po_subtotal = d_fixed D 4 (ot_subtotal tot), po_taxAmount = d_fixed D 4 (ot_tax tot),
          po_total = d_fixed D 4 (ot_subtotal tot + ot_tax tot), po_status = PS_draft, po_notes = pc_notes d,
          po_lines = ot_lines tot\<rparr>)"

definition po_create :: "decimal_js \<Rightarrow> nat \<Rightarrow> bool \<Rightarrow> po_input \<Rightarrow> 'a purchase_db_scheme \<Rightarrow>
    (purchase_order \<times> 'a purchase_db_scheme) result" where
  "po_create D co allowUnclassified d =
     transaction (\<lambda>s.
       some_or (find_vendor co (pc_vendor d) s) (NotFound ''VENDOR_NOT_FOUND'') (\<lambda>_.
       bindE (assertLinesClassified co allowUnclassified (pc_lines d) s) (\<lambda>_.
       bindE (series_year (pc_orderDate d)) (\<lambda>year.
       bindE (nextDocumentNumber (po_numbers co s) co PO year s) (\<lambda>(number, s1).
       let p = new_po D co d number s1
       in throw_if (number \<in> set (po_numbers co s1)) (DbError ''unique_violation'')
         (Inr (p, s1\<lparr>db_pos := db_pos s1 @ [p], db_fresh := db_fresh s1 + 1 + length (pc_lines d)\<rparr>)))))))"

definition po_update :: "decimal_js \<Rightarrow> nat \<Rightarrow> nat \<Rightarrow> po_input \<Rightarrow> 'a purchase_db_scheme \<Rightarrow>
    (purchase_order \<times> 'a purchase_db_scheme) result" where
  "po_update D co i d =
     transaction (\<lambda>s.
       some_or (find_po co i s) (NotFound ''NOT_FOUND'') (\<lambda>p.
       throw_if (po_status p = PS_closed \<or> list_ex (\<lambda>l. 0 < pn_received l) (po_lines p)) (BadRequest ''PO_HAS_RECEIPTS'')
      (throw_if (pc_vendor d \<noteq> po_vendor p \<and> find_vendor co (pc_vendor d) s = None) (NotFound ''VENDOR_NOT_FOUND'')
      (bindE (assertLinesClassified co False (pc_lines d) s) (\<lambda>_.
       let tot = computeLines D (db_fresh s) (pc_lines d);
           p' = p\<lparr>po_vendor := pc_vendor d, po_orderDate := pc_orderDate d,
                  po_expectedDate := (case pc_expectedDate d of None \<Rightarrow> po_expectedDate p | Some x \<Rightarrow> Some x),
                  po_notes := (case pc_notes d of None \<Rightarrow> po_notes p | Some x \<Rightarrow> Some x),
                  po_subtotal := d_fixed D 4 (ot_subtotal tot), po_taxAmount := d_fixed D 4 (ot_tax tot),
                  po_total := d_fixed D 4 (ot_subtotal tot + ot_tax tot), po_lines := ot_lines tot\<rparr>
       in Inr (p', (save_po p' s)\<lparr>db_fresh := db_fresh s + length (pc_lines d)\<rparr>))))))"

definition po_delete :: "nat \<Rightarrow> nat \<Rightarrow> 'a purchase_db_scheme \<Rightarrow> (unit \<times> 'a purchase_db_scheme) result" where
  "po_delete co i =
     transaction (\<lambda>s.
       some_or (find_po co i s) (NotFound ''NOT_FOUND'') (\<lambda>p.
       throw_if (list_ex (\<lambda>b. bi_company b = co \<and> bi_po b = Some (po_id p)) (db_bills s)
           \<or> list_ex (\<lambda>l. 0 < pn_received l) (po_lines p)) (BadRequest ''PO_HAS_RECEIPTS'')
        (Inr ((), s\<lparr>db_pos := filter (\<lambda>q. po_id q \<noteq> po_id p) (db_pos s)\<rparr>))))"

text \<open>\<open>updateStatus\<close>: what the user asks for, against the state of the order and of its receipts.\<close>

definition moved_status :: "purchase_order \<Rightarrow> po_status \<Rightarrow> po_status result" where
  "moved_status p target =
     (let anyReceived = list_ex (\<lambda>l. 0 < pn_received l) (po_lines p);
          refuse = BadRequest ''INVALID_STATUS_TRANSITION''
      in case target of
        PS_sent \<Rightarrow> if po_status p = PS_closed then Inr (deriveStatus True (po_lines p))
                  else if po_status p = PS_draft then Inr PS_sent else Inl refuse
      | PS_draft \<Rightarrow> if po_status p \<noteq> PS_sent \<or> anyReceived then Inl refuse else Inr PS_draft
      | PS_closed \<Rightarrow> throw_if (po_status p = PS_draft) refuse
                    (throw_if (list_ex (\<lambda>l. pn_billed l < pn_received l) (po_lines p)) (BadRequest ''PO_HAS_UNBILLED_RECEIPTS'')
                      (Inr PS_closed))
      | _ \<Rightarrow> Inl refuse)"

definition po_updateStatus :: "nat \<Rightarrow> nat \<Rightarrow> po_status \<Rightarrow> 'a purchase_db_scheme \<Rightarrow> (unit \<times> 'a purchase_db_scheme) result" where
  "po_updateStatus co i target =
     transaction (\<lambda>s.
       some_or (find_po co i s) (NotFound ''NOT_FOUND'') (\<lambda>p.
       if po_status p = target then Inr ((), s)
       else bindE (moved_status p target) (\<lambda>st. Inr ((), save_po (p\<lparr>po_status := st\<rparr>) s))))"

section \<open>Receiving\<close>

text \<open>What the goods cost, with the tax of the purchase when it cannot be reclaimed.\<close>

definition landed_cost :: "decimal_js \<Rightarrow> bool \<Rightarrow> rat \<Rightarrow> po_line \<Rightarrow> rat" where
  "landed_cost D netOfTax qty l =
     (let base = round4 D (d_prec D (qty * pn_unitCost l))
      in if netOfTax then base else base + round4 D (d_prec D (d_prec D (base * pn_taxRate l) / 100)))"

definition stocked_item :: "decimal_js \<Rightarrow> rat \<Rightarrow> rat \<Rightarrow> inv_item \<Rightarrow> inv_item" where
  "stocked_item D delta landed it =
     (let newQty = it_onHand it + delta
      in it\<lparr>it_unitCost := (if 0 < newQty
              then d_fixed D 4 (d_prec D ((d_prec D (it_onHand it * it_unitCost it) + landed) / newQty)) else it_unitCost it),
            it_onHand := d_fixed D 4 newQty\<rparr>)"

definition receipt_movement :: "env \<Rightarrow> nat \<Rightarrow> nat \<Rightarrow> purchase_order \<Rightarrow> rat \<Rightarrow> rat \<Rightarrow> inv_item \<Rightarrow> movement_input" where
  "receipt_movement E co user p delta impact it =
     \<lparr>mi_company = co, mi_item = it_id it, mi_date = today E, mi_type = ''receipt'', mi_quantity = delta,
      mi_balanceAfter = it_onHand it, mi_value = impact, mi_reference = Some (po_number p), mi_description = None,
      mi_sourceType = Some ''purchase_order'', mi_sourceId = Some (po_id p), mi_createdBy = Some user\<rparr>"

definition save_stock :: "env \<Rightarrow> nat \<Rightarrow> nat \<Rightarrow> purchase_order \<Rightarrow> rat \<Rightarrow> rat \<Rightarrow> inv_item \<Rightarrow> 'a trade_db_scheme \<Rightarrow>
    'a trade_db_scheme result" where
  "save_stock E co user p delta impact it s =
     throw_if (it_onHand it < 0) (DbError ''check_violation'')
       (Inr (recordInventoryMovement (dec E) (receipt_movement E co user p delta impact it)
          (s\<lparr>db_items := update_row it_id (it_id it) (\<lambda>_. it) (db_items s)\<rparr>)))"

text \<open>What a receipt, or its correction, does to the line and to the accounts.\<close>

definition accrued_line :: "decimal_js \<Rightarrow> rat \<Rightarrow> po_line \<Rightarrow> po_line" where
  "accrued_line D landed l = l\<lparr>pn_grniAccrued := d_fixed D 4 (pn_grniAccrued l + landed)\<rparr>"

definition grni_reversal :: "rat \<Rightarrow> po_line \<Rightarrow> rat" where
  "grni_reversal landed l = min landed (max (pn_grniAccrued l - pn_grniCleared l) 0)"

type_synonym net_amounts = "(string \<times> rat) list"

definition receive_goods :: "env \<Rightarrow> nat \<Rightarrow> nat \<Rightarrow> purchase_order \<Rightarrow> bool \<Rightarrow> rat \<Rightarrow> po_line \<Rightarrow> inv_item \<Rightarrow>
    net_amounts \<times> 'a trade_db_scheme \<Rightarrow> (net_amounts \<times> po_line \<times> 'a trade_db_scheme) result" where
  "receive_goods E co user p netOfTax delta l it = (\<lambda>(net, s).
     let landed = landed_cost (dec E) netOfTax \<bar>delta\<bar> l
     in if 0 < delta
        then bindE (save_stock E co user p delta landed (stocked_item (dec E) delta landed it) s) (\<lambda>s1.
             Inr (add_at ACCT_GRNI (- landed) (add_at ACCT_INVENTORY landed net), accrued_line (dec E) landed l, s1))
        else bindE (assertSufficientStock (it_onHand it) (- delta)) (\<lambda>_.
             let stockValue = round4 (dec E) (d_prec (dec E) (- delta * it_unitCost it));
                 reversal = grni_reversal landed l
             in bindE (save_stock E co user p delta (- stockValue)
                  (it\<lparr>it_onHand := d_fixed (dec E) 4 (it_onHand it - - delta)\<rparr>) s) (\<lambda>s1.
                Inr (add_at ACCT_COGS (stockValue - reversal) (add_at ACCT_GRNI reversal (add_at ACCT_INVENTORY (- stockValue) net)),
                     accrued_line (dec E) (- reversal) l, s1))))"

definition receive_line :: "env \<Rightarrow> nat \<Rightarrow> nat \<Rightarrow> purchase_order \<Rightarrow> bool \<Rightarrow>
    net_amounts \<times> po_line list \<times> 'a trade_db_scheme \<Rightarrow> nat \<times> rat \<Rightarrow> (net_amounts \<times> po_line list \<times> 'a trade_db_scheme) result" where
  "receive_line E co user p netOfTax = (\<lambda>(net, ls, s) (lineId, q).
     some_or (row_with pn_id lineId ls) (BadRequest ''VALIDATION_FAILED'') (\<lambda>l.
     throw_if (q < 0) (BadRequest ''VALIDATION_FAILED'')
    (throw_if (pn_ordered l < q) (BadRequest ''VALIDATION_FAILED'')
    (throw_if (q < pn_billed l) (BadRequest ''RECEIPT_BELOW_BILLED'')
    (let delta = q - pn_received l;
         l1 = l\<lparr>pn_received := d_fixed (dec E) 4 q\<rparr>
     in case pn_item l of
          None \<Rightarrow> Inr (net, update_row pn_id lineId (\<lambda>_. l1) ls, s)
        | Some i \<Rightarrow>
            if delta = 0 then Inr (net, update_row pn_id lineId (\<lambda>_. l1) ls, s)
            else some_or (find (\<lambda>it. it_id it = i \<and> it_company it = co) (db_items s)) (BadRequest ''ITEM_NOT_FOUND'') (\<lambda>it.
                 bindE (receive_goods E co user p netOfTax delta l1 it (net, s)) (\<lambda>(net', l2, s1).
                 Inr (net', update_row pn_id lineId (\<lambda>_. l2) ls, s1))))))))"

definition receipt_description :: "string \<Rightarrow> string \<Rightarrow> string" where
  "receipt_description number account =
     (if account = ACCT_INVENTORY then ''Goods received'' @ dash_text @ number
      else if account = ACCT_GRNI then ''Received, not yet billed'' @ dash_text @ number
      else ''Receipt correction cost difference'' @ dash_text @ number)"

definition receipt_entry_line :: "decimal_js \<Rightarrow> nat \<Rightarrow> string \<Rightarrow> posting_line list \<times> 'a ledger_db_scheme \<Rightarrow> string \<times> rat \<Rightarrow>
    (posting_line list \<times> 'a ledger_db_scheme) result" where
  "receipt_entry_line D co number = (\<lambda>(ls, s) (n, amt).
     if \<bar>amt\<bar> < MONEY_TOLERANCE then Inr (ls, s)
     else bindE (if n = ACCT_GRNI then getOrCreateSystemAccount co ACCT_GRNI s
                 else map_sum id (\<lambda>a. (a, s)) (getByNumberOrFail s co n)) (\<lambda>(a, s1).
          Inr (ls @ [post_line (acc_id a) (Some (receipt_description number n))
                 (if 0 < amt then d_fixed D 4 amt else 0) (if amt < 0 then d_fixed D 4 (- amt) else 0)], s1)))"

definition post_receipt :: "env \<Rightarrow> nat \<Rightarrow> nat \<Rightarrow> purchase_order \<Rightarrow> net_amounts \<Rightarrow> 'a ledger_db_scheme \<Rightarrow> ('a ledger_db_scheme) result" where
  "post_receipt E co user p net s =
     bindE (foldE (receipt_entry_line (dec E) co (po_number p)) ([], s) net) (\<lambda>(ls, s1).
     if length ls < 2 then Inr s1
     else map_sum id snd (createEntry E s1
       \<lparr>pi_company = co, pi_date = today E, pi_memo = Some (''Goods received'' @ dash_text @ ''PO '' @ po_number p),
        pi_createdBy = user, pi_lines = number_lines ls, pi_posted = True, pi_sourceType = Some ''po_receipt'',
        pi_sourceId = Some (po_id p), pi_reversalOf = None\<rparr>))"

definition po_receive :: "env \<Rightarrow> nat \<Rightarrow> nat \<Rightarrow> nat \<Rightarrow> (nat \<times> rat) list \<Rightarrow> 'a purchase_db_scheme \<Rightarrow>
    (unit \<times> 'a purchase_db_scheme) result" where
  "po_receive E co user i received =
     transaction (\<lambda>s.
       some_or (find_po co i s) (NotFound ''NOT_FOUND'') (\<lambda>p.
       bindE (assertIssued p) (\<lambda>_.
       bindE (foldE (receive_line E co user p (reclaims_input_tax co s)) ([], po_lines p, s) received) (\<lambda>(net, ls, s1).
       bindE (post_receipt E co user p net s1) (\<lambda>s2.
       Inr ((), save_po (p\<lparr>po_lines := ls, po_status := deriveStatus False ls\<rparr>) s2))))))"

section \<open>Billing what was received\<close>

definition unbilled :: "po_line \<Rightarrow> rat" where
  "unbilled l = pn_received l - pn_billed l"

definition po_bill_line :: "decimal_js \<Rightarrow> nat \<Rightarrow> nat option \<Rightarrow> (bill_line_input \<times> po_link) list \<Rightarrow> po_line \<Rightarrow>
    ((bill_line_input \<times> po_link) list) result" where
  "po_bill_line D grni defaultAccount billed l =
     (if \<not> 0 < unbilled l then Inr billed
      else some_or (if pn_item l \<noteq> None then Some grni else case pn_account l of None \<Rightarrow> defaultAccount | Some a \<Rightarrow> Some a)
             (BadRequest ''EXPENSE_ACCOUNT_REQUIRED'') (\<lambda>account.
           Inr (billed @ [(\<lparr>bx_account = Some account, bx_description = pn_description l,
                 bx_amount = Some (d_fixed D 4 (round4 D (d_prec D (unbilled l * pn_unitCost l)))), bx_quantity = None,
                 bx_unitPrice = None, bx_taxRate = Some (pn_taxRate l)\<rparr>,
               \<lparr>lk_line = pn_id l, lk_quantity = d_fixed D 4 (unbilled l),
                lk_grni = (if pn_item l \<noteq> None then Some (d_fixed D 4 (pn_grniAccrued l - pn_grniCleared l)) else None)\<rparr>)])))"

definition billed_po_line :: "decimal_js \<Rightarrow> po_line \<Rightarrow> po_line" where
  "billed_po_line D l =
     (if 0 < unbilled l
      then l\<lparr>pn_billed := d_fixed D 4 (pn_billed l + unbilled l),
             pn_grniCleared := (if pn_item l \<noteq> None
               then d_fixed D 4 (pn_grniCleared l + (pn_grniAccrued l - pn_grniCleared l)) else pn_grniCleared l)\<rparr>
      else l)"

definition po_bill_input_of :: "purchase_order \<Rightarrow> po_bill_input \<Rightarrow> date \<Rightarrow> date \<Rightarrow> bill_line_input list \<Rightarrow> bill_input" where
  "po_bill_input_of p d billDate dueDate lines =
     \<lparr>bc_vendor = po_vendor p,
      bc_number = (case pq_number d of None \<Rightarrow> None | Some n \<Rightarrow> if trim n = [] then None else Some (trim n)),
      bc_date = billDate, bc_dueDate = dueDate, bc_memo = Some (''Goods received on '' @ po_number p), bc_draft = Some False,
      bc_po = Some (po_id p), bc_lines = lines\<rparr>"

definition po_createBill :: "env \<Rightarrow> nat \<Rightarrow> nat \<Rightarrow> nat \<Rightarrow> po_bill_input \<Rightarrow> 'a purchase_db_scheme \<Rightarrow>
    (bill \<times> 'a purchase_db_scheme) result" where
  "po_createBill E co user i d =
     transaction (\<lambda>s.
       some_or (find_po co i s) (NotFound ''NOT_FOUND'') (\<lambda>p.
       bindE (assertIssued p) (\<lambda>_.
       let terms = (case find_vendor co (po_vendor p) s of None \<Rightarrow> None | Some v \<Rightarrow> Some (ve_paymentTerms v));
           billDate = (case pq_date d of None \<Rightarrow> today E | Some x \<Rightarrow> x);
           dueDate = (case pq_dueDate d of None \<Rightarrow> addDaysIso billDate (termsDays terms 30) | Some x \<Rightarrow> x)
       in throw_if (dueDate < billDate) (BadRequest ''VALIDATION_FAILED'')
         (bindE (getOrCreateSystemAccount co ACCT_GRNI s) (\<lambda>(grni, s1).
          bindE (foldE (po_bill_line (dec E) (acc_id grni) (pq_defaultAccount d)) [] (po_lines p)) (\<lambda>billed.
          throw_if (billed = []) (BadRequest ''NOTHING_TO_BILL'')
         (bindE (bill_createInTransaction E co user (po_bill_input_of p d billDate dueDate (map fst billed))
                   (map (\<lambda>x. Some (snd x)) billed) s1) (\<lambda>(b, s2).
          let ls = map (billed_po_line (dec E)) (po_lines p)
          in Inr (b, save_po (p\<lparr>po_lines := ls, po_status := deriveStatus False ls\<rparr>) s2)))))))))"

section \<open>Reading\<close>

definition line_gross :: "decimal_js \<Rightarrow> po_line \<Rightarrow> rat \<Rightarrow> rat" where
  "line_gross D l qty =
     (let base = round4 D (d_prec D (qty * pn_unitCost l)) in base + round4 D (d_prec D (d_prec D (base * pn_taxRate l) / 100)))"

record value_summary =
  vs_received :: rat
  vs_billed :: rat
  vs_unbilled :: rat

definition valueSummary :: "decimal_js \<Rightarrow> po_line list \<Rightarrow> value_summary" where
  "valueSummary D ls =
     (let (received, billed) = foldl (\<lambda>(r, b) l. (r + line_gross D l (pn_received l), b + line_gross D l (pn_billed l))) (0, 0) ls
      in \<lparr>vs_received = d_fixed D 4 received, vs_billed = d_fixed D 4 billed, vs_unbilled = d_fixed D 4 (max (received - billed) 0)\<rparr>)"

end
