(* ===== verification/OrderLaws.thy ===== *)
theory OrderLaws
  imports PurchaseOrders
begin

text \<open>
  What the operations on purchase orders keep: no line is billed past what was received, or received past what was ordered,
  and what a receipt moves in the books and in stock.
\<close>

section \<open>Lines in order\<close>

definition po_line_ok :: "po_line \<Rightarrow> bool" where
  "po_line_ok l \<longleftrightarrow> money (pn_ordered l) \<and> money (pn_received l) \<and> money (pn_billed l) \<and> money (pn_grniAccrued l) \<and> money (pn_grniCleared l)
     \<and> 0 \<le> pn_billed l \<and> pn_billed l \<le> pn_received l \<and> pn_received l \<le> pn_ordered l"

definition lines_ok :: "po_line list \<Rightarrow> bool" where
  "lines_ok ls \<longleftrightarrow> distinct (map pn_id ls) \<and> list_all po_line_ok ls"

definition orders_ok :: "nat \<Rightarrow> 'a purchase_db_scheme \<Rightarrow> bool" where
  "orders_ok co s \<longleftrightarrow> (\<forall>p \<in> set (db_pos s). po_company p = co \<longrightarrow> lines_ok (po_lines p))"

definition ordered_nonneg :: "po_input \<Rightarrow> bool" where
  "ordered_nonneg d \<longleftrightarrow> (\<forall>l \<in> set (pc_lines d). 0 \<le> px_ordered l)"

lemma find_po_Some: "find_po co i s = Some p \<Longrightarrow> p \<in> set (db_pos s) \<and> po_id p = i \<and> po_company p = co"
  by (auto simp: find_po_def dest: find_Some_mem)

lemma orders_saved: "orders_ok co s \<Longrightarrow> db_pos u = db_pos s \<Longrightarrow> lines_ok (po_lines p) \<Longrightarrow> orders_ok co (save_po p u)"
  by (auto simp: orders_ok_def save_po_def update_row_def)

lemma orders_same: "orders_ok co s \<Longrightarrow> db_pos t = db_pos s \<Longrightarrow> orders_ok co t"
  by (simp add: orders_ok_def)

lemma lines_replaced:
  assumes "lines_ok ls" and "po_line_ok l'" and "pn_id l' = i"
  shows "lines_ok (update_row pn_id i (\<lambda>_. l') ls)"
proof -
  have "map pn_id (update_row pn_id i (\<lambda>_. l') ls) = map pn_id ls" using assms(3) by (auto simp: update_row_def)
  moreover have "list_all po_line_ok (update_row pn_id i (\<lambda>_. l') ls)"
    using assms by (auto simp: lines_ok_def list_all_iff update_row_def)
  ultimately show ?thesis using assms(1) by (simp add: lines_ok_def)
qed

lemma po_numbers_differ:
  "ACCT_GRNI \<noteq> ACCT_INVENTORY" "ACCT_GRNI \<noteq> ACCT_COGS" "ACCT_INVENTORY \<noteq> ACCT_COGS" "ACCT_AP \<noteq> ACCT_GRNI"
  by (simp_all add: ACCT_AP_def ACCT_COGS_def ACCT_GRNI_def ACCT_INVENTORY_def)

context decimal_lib
begin

lemma computed_lines_ok:
  assumes "\<forall>l \<in> set ls. 0 \<le> px_ordered l"
  shows "lines_ok (ot_lines (computeLines D n ls))"
proof -
  have "ot_lines (computeLines D n ls) = map (po_line_of D n) (enumerate 0 ls)"
    by (simp add: computeLines_def case_prod_unfold Let_def)
  moreover have "map pn_id (map (po_line_of D n) (enumerate 0 ls)) = map ((+) n) (map fst (enumerate 0 ls))"
    by (simp only: map_map comp_def po_line_of_def case_prod_unfold po_line.select_convs)
  moreover have "distinct (map ((+) n) (map fst (enumerate 0 ls)))" by (simp add: distinct_map)
  moreover have "po_line_ok (po_line_of D n x)" if "x \<in> set (enumerate 0 ls)" for x
    using assms snd_enumerate [OF that] by (cases x) (auto simp: po_line_of_def po_line_ok_def fixed_grid fixed_nonneg)
  ultimately show ?thesis by (simp add: lines_ok_def list_all_iff)
qed

lemma received_line_ok:
  assumes "po_line_ok l" and "0 \<le> q" and "q \<le> pn_ordered l" and "pn_billed l \<le> q" and "money a"
  shows "po_line_ok (l\<lparr>pn_received := d_fixed D 4 q\<rparr>)" and "po_line_ok (l\<lparr>pn_received := d_fixed D 4 q, pn_grniAccrued := a\<rparr>)"
  using assms by (auto simp: po_line_ok_def fixed_grid fixed_le_grid fixed_ge_grid)

lemma billed_line_ok:
  assumes "po_line_ok l"
  shows "po_line_ok (billed_po_line D l)"
    and "0 < unbilled l \<Longrightarrow> billed_po_line D l = l\<lparr>pn_billed := pn_received l,
      pn_grniCleared := (if pn_item l \<noteq> None then pn_grniAccrued l else pn_grniCleared l)\<rparr>"
proof -
  show e: "billed_po_line D l = l\<lparr>pn_billed := pn_received l,
      pn_grniCleared := (if pn_item l \<noteq> None then pn_grniAccrued l else pn_grniCleared l)\<rparr>" if "0 < unbilled l"
    using that assms by (simp add: billed_po_line_def unbilled_def po_line_ok_def fixed_id)
  show "po_line_ok (billed_po_line D l)"
  proof (cases "0 < unbilled l")
    case True
    then show ?thesis using assms by (auto simp: e po_line_ok_def)
  qed (use assms in \<open>simp add: billed_po_line_def\<close>)
qed

lemma released_line_ok:
  assumes "po_line_ok l" and "0 \<le> toDecimal (bn_quantity bl)"
  shows "po_line_ok (released_line D bl l)"
proof -
  have "d_fixed D 4 (max (pn_billed l - toDecimal (bn_quantity bl)) 0) \<le> pn_billed l"
    by (rule fixed_le_grid) (use assms in \<open>auto simp: po_line_ok_def\<close>)
  moreover have "0 \<le> d_fixed D 4 (max (pn_billed l - toDecimal (bn_quantity bl)) 0)" by (rule fixed_nonneg) simp
  ultimately show ?thesis
    using assms(1) by (auto simp: released_line_def po_line_ok_def fixed_grid split: option.split)
qed

end

section \<open>What a receipt gathers\<close>

definition grni_open :: "po_line list \<Rightarrow> rat" where
  "grni_open ls = (\<Sum>l\<leftarrow>ls. pn_grniAccrued l - pn_grniCleared l)"

definition moved_value :: "nat \<Rightarrow> movement list \<Rightarrow> rat" where
  "moved_value co ms = (\<Sum>m\<leftarrow>ms. if mv_company m = co then mv_value m else 0)"

text \<open>
  The amounts gathered so far: they cancel, the goods-received amount is what the lines accrued since the start, and the
  stock amount what the movements recorded.
\<close>

definition gathered :: "nat \<Rightarrow> po_line list \<Rightarrow> 'a trade_db_scheme \<Rightarrow> net_amounts \<times> po_line list \<times> 'a trade_db_scheme \<Rightarrow> bool" where
  "gathered co ls0 s = (\<lambda>(net, ls, u).
     lines_ok ls \<and> map pn_id ls = map pn_id ls0 \<and> distinct (map fst net) \<and> fst ` set net \<subseteq> {ACCT_INVENTORY, ACCT_GRNI, ACCT_COGS}
     \<and> (\<forall>n. money (at0 net n)) \<and> at0 net ACCT_INVENTORY + at0 net ACCT_GRNI + at0 net ACCT_COGS = 0
     \<and> - at0 net ACCT_GRNI = grni_open ls - grni_open ls0
     \<and> (\<exists>its ms. u = s\<lparr>db_items := its, db_movements := db_movements s @ ms\<rparr> \<and> moved_value co ms = at0 net ACCT_INVENTORY))"

lemma gathered_start: "lines_ok ls \<Longrightarrow> gathered co ls s ([], ls, s)"
  by (cases s) (auto simp: gathered_def moved_value_def)

lemma gathered_step:
  assumes g: "gathered co ls0 s (net, ls, u)" and l: "row_with pn_id i ls = Some l" and l': "pn_id l' = i" "po_line_ok l'"
    and opened: "pn_grniAccrued l' - pn_grniCleared l' = pn_grniAccrued l - pn_grniCleared l + y"
    and m: "money x" "money y" and v: "u' = u\<lparr>db_items := its, db_movements := db_movements u @ ms\<rparr>" "moved_value co ms = x"
    and net': "distinct (map fst net')" "fst ` set net' \<subseteq> {ACCT_INVENTORY, ACCT_GRNI, ACCT_COGS}"
      "\<And>n. at0 net' n = at0 net n + (if n = ACCT_INVENTORY then x else 0) + (if n = ACCT_GRNI then - y else 0) + (if n = ACCT_COGS then y - x else 0)"
  shows "gathered co ls0 s (net', update_row pn_id i (\<lambda>_. l') ls, u')"
proof -
  have ok: "lines_ok ls" using g by (simp add: gathered_def)
  have mem: "l \<in> set ls" "pn_id l = i" using row_with_Some [OF l] by simp_all
  have d: "distinct (map pn_id ls)" using ok by (simp add: lines_ok_def)
  have ids: "map pn_id (update_row pn_id i (\<lambda>_. l') ls) = map pn_id ls" using l'(1) by (auto simp: update_row_def)
  have "grni_open (update_row pn_id i (\<lambda>_. l') ls) = grni_open ls + y"
    using sum_replaced [OF d mem(1), of "\<lambda>l. pn_grniAccrued l - pn_grniCleared l" l'] mem(2) opened by (simp add: grni_open_def)
  moreover have "money (at0 net' n)" for n
    using g m unfolding net'(3) by (auto simp: gathered_def intro!: on_grid_add on_grid_diff intro: on_grid_minus)
  moreover obtain its0 ms0 where u: "u = s\<lparr>db_items := its0, db_movements := db_movements s @ ms0\<rparr>"
    and v0: "moved_value co ms0 = at0 net ACCT_INVENTORY"
    using g by (auto simp: gathered_def)
  have "u' = s\<lparr>db_items := its, db_movements := db_movements s @ (ms0 @ ms)\<rparr>
      \<and> moved_value co (ms0 @ ms) = at0 net' ACCT_INVENTORY"
    using v v0 po_numbers_differ by (simp add: u net'(3) moved_value_def)
  then have "\<exists>its ms. u' = s\<lparr>db_items := its, db_movements := db_movements s @ ms\<rparr> \<and> moved_value co ms = at0 net' ACCT_INVENTORY"
    by blast
  ultimately show ?thesis
    using g lines_replaced [OF ok l'(2,1)] ids net'(1,2) po_numbers_differ
    by (simp add: gathered_def net'(3))
qed

context posting_env
begin

lemma saved_stock:
  assumes "save_stock E co user p delta impact it s = Inr u" and m: "money impact"
  obtains its ms where "u = s\<lparr>db_items := its, db_movements := db_movements s @ ms\<rparr>" and "moved_value co ms = impact"
  using assms fixed_id [OF m]
  by (auto simp: save_stock_def throw_if_Inr recordInventoryMovement_def receipt_movement_def moved_value_def intro!: that)

lemma landed_money: "money (landed_cost (dec E) nt q l)"
  by (simp add: landed_cost_def round4_def Let_def fixed_grid on_grid_add)

lemma reversal_money: "po_line_ok l \<Longrightarrow> money x \<Longrightarrow> money (grni_reversal x l)"
  by (auto simp: grni_reversal_def po_line_ok_def min_def max_def on_grid_diff)

lemma receive_line_gathers:
  assumes run: "receive_line E co user p nt (net, ls, u) (i, q) = Inr r" and g: "gathered co ls0 s (net, ls, u)"
  shows "gathered co ls0 s r"
proof -
  from run obtain l where l: "row_with pn_id i ls = Some l" and q: "0 \<le> q" "q \<le> pn_ordered l" "pn_billed l \<le> q"
    and rest: "(case pn_item l of
          None \<Rightarrow> Inr (net, update_row pn_id i (\<lambda>_. l\<lparr>pn_received := d_fixed (dec E) 4 q\<rparr>) ls, u)
        | Some j \<Rightarrow>
            if q - pn_received l = 0 then Inr (net, update_row pn_id i (\<lambda>_. l\<lparr>pn_received := d_fixed (dec E) 4 q\<rparr>) ls, u)
            else some_or (find (\<lambda>it. it_id it = j \<and> it_company it = co) (db_items u)) (BadRequest ''ITEM_NOT_FOUND'') (\<lambda>it.
                 bindE (receive_goods E co user p nt (q - pn_received l) (l\<lparr>pn_received := d_fixed (dec E) 4 q\<rparr>) it (net, u)) (\<lambda>(net', l2, s1).
                 Inr (net', update_row pn_id i (\<lambda>_. l2) ls, s1)))) = Inr r"
    by (auto simp: receive_line_def result_simps Let_def not_less)
  have ok: "lines_ok ls" using g by (simp add: gathered_def)
  have mem: "l \<in> set ls" "pn_id l = i" using row_with_Some [OF l] by simp_all
  then have lo: "po_line_ok l" using ok by (auto simp: lines_ok_def list_all_iff)
  define l1 where "l1 = l\<lparr>pn_received := d_fixed (dec E) 4 q\<rparr>"
  note keep = received_line_ok [OF lo q]
  have l1: "po_line_ok l1" "pn_id l1 = i" using keep(1) [OF on_grid_0] mem by (simp_all add: l1_def)
  show ?thesis
  proof (cases "pn_item l = None \<or> q - pn_received l = 0")
    case True
    then have r: "r = (net, update_row pn_id i (\<lambda>_. l1) ls, u)" using rest by (auto simp: l1_def split: option.splits)
    have "gathered co ls0 s (net, update_row pn_id i (\<lambda>_. l1) ls, u)"
      by (rule gathered_step [OF g l l1(2,1), where x = 0 and y = 0 and ms = "[]" and its = "db_items u"])
        (use g in \<open>simp_all add: l1_def gathered_def moved_value_def\<close>)
    then show ?thesis using r by simp
  next
    case False
    then obtain it net' l2 u' where goods: "receive_goods E co user p nt (q - pn_received l) l1 it (net, u) = Inr (net', l2, u')"
      and r: "r = (net', update_row pn_id i (\<lambda>_. l2) ls, u')"
      using rest by (auto simp: l1_def result_simps)
    define landed where "landed = landed_cost (dec E) nt \<bar>q - pn_received l\<bar> l1"
    have ml: "money landed" by (simp add: landed_def landed_money)
    have ma: "money (pn_grniAccrued l1)" "money (pn_grniAccrued l1 + x)" if "money x" for x
      using l1(1) that by (auto simp: po_line_ok_def on_grid_add)
    have acc: "accrued_line (dec E) x l1 = l\<lparr>pn_received := d_fixed (dec E) 4 q, pn_grniAccrued := pn_grniAccrued l + x\<rparr>" if "money x" for x
      using fixed_id [OF ma(2) [OF that]] by (simp add: accrued_line_def l1_def)
    have accok: "pn_id (accrued_line (dec E) x l1) = i" "po_line_ok (accrued_line (dec E) x l1)" if "money x" for x
      using acc [OF that] keep(2) [OF ma(2) [OF that]] mem by (simp_all add: l1_def)
    have op: "pn_grniAccrued (accrued_line (dec E) x l1) - pn_grniCleared (accrued_line (dec E) x l1)
        = pn_grniAccrued l - pn_grniCleared l + x" if "money x" for x
      by (simp add: acc [OF that])
    have dk: "distinct (map fst net)" "fst ` set net \<subseteq> {ACCT_INVENTORY, ACCT_GRNI, ACCT_COGS}" using g by (simp_all add: gathered_def)
    show ?thesis
    proof (cases "0 < q - pn_received l")
      case True
      then have st: "save_stock E co user p (q - pn_received l) landed (stocked_item (dec E) (q - pn_received l) landed it) u = Inr u'"
        and n: "net' = add_at ACCT_GRNI (- landed) (add_at ACCT_INVENTORY landed net)" and l2: "l2 = accrued_line (dec E) landed l1"
        using goods by (auto simp: receive_goods_def result_simps Let_def landed_def)
      obtain its ms where v: "u' = u\<lparr>db_items := its, db_movements := db_movements u @ ms\<rparr>" "moved_value co ms = landed"
        using saved_stock [OF st ml] .
      show ?thesis
        unfolding r
        by (rule gathered_step [OF g l _ _ _ ml ml v])
          (use dk ml in \<open>auto simp: l2 accok op n at0_add_at dom_add_at distinct_add_at\<close>)
    next
      case neg: False
      define sv where "sv = round4 (dec E) (d_prec (dec E) (- (q - pn_received l) * it_unitCost it))"
      define rv where "rv = grni_reversal landed l1"
      have msv: "money sv" "money (- sv)" by (simp_all add: sv_def round4_def fixed_grid on_grid_minus)
      have mrv: "money rv" "money (- rv)" using reversal_money [OF l1(1) ml] by (simp_all add: rv_def on_grid_minus)
      obtain it' where st: "save_stock E co user p (q - pn_received l) (- sv) it' u = Inr u'"
        and n: "net' = add_at ACCT_COGS (sv - rv) (add_at ACCT_GRNI rv (add_at ACCT_INVENTORY (- sv) net))"
        and l2: "l2 = accrued_line (dec E) (- rv) l1"
        using goods neg by (auto simp: receive_goods_def result_simps Let_def landed_def sv_def rv_def)
      obtain its ms where v: "u' = u\<lparr>db_items := its, db_movements := db_movements u @ ms\<rparr>" "moved_value co ms = - sv"
        using saved_stock [OF st msv(2)] .
      show ?thesis
        unfolding r
        by (rule gathered_step [OF g l _ _ _ msv(2) mrv(2) v])
          (use dk mrv in \<open>auto simp: l2 accok op n at0_add_at dom_add_at distinct_add_at\<close>)
    qed
  qed
qed

lemma receive_lines_gather:
  assumes run: "foldE (receive_line E co user p nt) ([], ls, s) received = Inr r" and "lines_ok ls"
  shows "gathered co ls s r"
  using run
proof (rule foldE_invariant [where P = "gathered co ls s"])
  show "gathered co ls s ([], ls, s)" by (rule gathered_start [OF assms(2)])
  show "gathered co ls s y" if "gathered co ls s x" "receive_line E co user p nt x c = Inr y" for x c y
    using that receive_line_gathers [of co user p nt "fst x" "fst (snd x)" "snd (snd x)" "fst c" "snd c" y ls s] by simp
qed

end

section \<open>What a receipt posts\<close>

definition grni_liability :: "nat \<Rightarrow> 'a ledger_db_scheme \<Rightarrow> bool" where
  "grni_liability co s \<longleftrightarrow> (\<forall>a. by_number s co ACCT_GRNI = Some a \<longrightarrow> acc_type a = Liability)"

lemma getOrCreate_found:
  assumes run: "getOrCreateSystemAccount co n s = Inr (a, t)"
  shows "by_number t co n = Some a" and "acc_balance a = balance_of s co n"
    and "n = ACCT_GRNI \<Longrightarrow> grni_liability co s \<Longrightarrow> acc_type a = Liability"
proof -
  have "by_number t co n = Some a \<and> acc_balance a = balance_of s co n
      \<and> (n = ACCT_GRNI \<longrightarrow> grni_liability co s \<longrightarrow> acc_type a = Liability)"
  proof (cases "by_number s co n")
    case None
    have "some_or (find (\<lambda>d. as_number d = n) SYSTEM_ACCOUNT_DEFS) (NotFound ''ACCOUNT_NOT_FOUND'')
        (\<lambda>d. Inr (new_account s co d None None 0, save_account (new_account s co d None None 0) s)) = Inr (a, t)"
      using run unfolding getOrCreateSystemAccount_def None Let_def by simp
    then obtain d where d: "find (\<lambda>d. as_number d = n) SYSTEM_ACCOUNT_DEFS = Some d"
      and at: "a = new_account s co d None None 0" "t = save_account a s"
      unfolding some_or_Inr by blast
    have "acc_number a = n" "acc_company a = co" "acc_balance a = 0" "acc_type a = as_type d"
      using find_Some_mem [OF d] by (simp_all add: at new_account_def)
    moreover have "find P (xs @ [x]) = Some x" if "find P xs = None" "P x" for P xs and x :: account
      using that by (induction xs) (auto split: if_splits)
    ultimately have "by_number t co n = Some a" using None by (simp add: at(2) by_number_def save_account_def)
    moreover have "as_type d = Liability" if "n = ACCT_GRNI"
      using d that unfolding SYSTEM_ACCOUNT_DEFS_def ACCT_OPENING_BALANCE_EQUITY_def ACCT_GRNI_def by auto
    ultimately show ?thesis using \<open>acc_balance a = 0\<close> \<open>acc_type a = as_type d\<close> None by (simp add: balance_of_def)
  next
    case (Some b)
    have eq: "a = b \<and> t = s \<or> a = b\<lparr>acc_active := True\<rparr> \<and> t = s\<lparr>db_accounts := update_row acc_id (acc_id b) (\<lambda>a. a\<lparr>acc_active := True\<rparr>) (db_accounts s)\<rparr>"
      using run unfolding getOrCreateSystemAccount_def Some by (auto split: if_splits)
    then have "by_number t co n = Some a"
      using Some by (auto simp: by_number_def update_row_def find_map if_distrib cong: if_cong)
    then show ?thesis using eq Some by (auto simp: balance_of_def grni_liability_def)
  qed
  then show "by_number t co n = Some a" and "acc_balance a = balance_of s co n"
    and "n = ACCT_GRNI \<Longrightarrow> grni_liability co s \<Longrightarrow> acc_type a = Liability" by simp_all
qed

lemma getOrCreate_balances:
  assumes run: "getOrCreateSystemAccount co n s = Inr (a, t)"
  shows "balance_of t co' k = balance_of s co' k"
proof (cases "by_number s co n")
  case None
  have "some_or (find (\<lambda>d. as_number d = n) SYSTEM_ACCOUNT_DEFS) (NotFound ''ACCOUNT_NOT_FOUND'')
      (\<lambda>d. Inr (new_account s co d None None 0, save_account (new_account s co d None None 0) s)) = Inr (a, t)"
    using run unfolding getOrCreateSystemAccount_def None Let_def by simp
  then obtain d where at: "a = new_account s co d None None 0" "t = save_account a s"
    unfolding some_or_Inr by blast
  have "find P (xs @ [x]) = (case find P xs of None \<Rightarrow> if P x then Some x else None | Some y \<Rightarrow> Some y)" for P xs and x :: account
    by (induction xs) auto
  then show ?thesis
    by (auto simp: at balance_of_def by_number_def save_account_def new_account_def split: option.split)
next
  case (Some b)
  have "t = s \<or> t = s\<lparr>db_accounts := update_row acc_id (acc_id b) (\<lambda>a. a\<lparr>acc_active := True\<rparr>) (db_accounts s)\<rparr>"
    using run unfolding getOrCreateSystemAccount_def Some by (auto split: if_splits)
  then show ?thesis
    by (auto simp: balance_of_def by_number_def update_row_def find_map if_distrib cong: if_cong split: option.split if_splits)
qed

lemma signedDelta_add: "signedDelta t (x + y) 0 = signedDelta t x 0 + signedDelta t y 0"
  by (simp add: signedDelta_def)

lemma tiny_money: "money x \<Longrightarrow> \<bar>x\<bar> < MONEY_TOLERANCE \<Longrightarrow> x = 0"
  by (rule on_grid_gap [where n = 4]) (simp_all add: MONEY_TOLERANCE_def)

definition posted_amount :: "net_amounts \<Rightarrow> string \<Rightarrow> rat" where
  "posted_amount net n = (\<Sum>(k, x)\<leftarrow>net. if k = n then x else 0)"

lemma posted_absent: "n \<notin> fst ` set net \<Longrightarrow> posted_amount net n = 0"
  by (induction net) (auto simp: posted_amount_def)

lemma posted_at0: "distinct (map fst net) \<Longrightarrow> posted_amount net n = at0 net n"
proof (induction net)
  case (Cons x net)
  then show ?case
    using posted_absent [of "fst x" net] by (cases x) (auto simp: posted_amount_def at0_def)
qed (simp add: posted_amount_def)

lemma posted_sum:
  assumes "fst ` set net \<subseteq> {ACCT_INVENTORY, ACCT_GRNI, ACCT_COGS}"
  shows "(\<Sum>(k, x)\<leftarrow>net. x) = posted_amount net ACCT_INVENTORY + posted_amount net ACCT_GRNI + posted_amount net ACCT_COGS"
  using assms po_numbers_differ by (induction net) (auto simp: posted_amount_def)

lemma all_or_two_posted:
  assumes "(\<Sum>(k, x)\<leftarrow>net. x) = 0" and "length (filter (\<lambda>(k :: string, x :: rat). x \<noteq> 0) net) < 2"
  shows "posted_amount net n = 0"
proof -
  have s: "(\<Sum>(k, x)\<leftarrow>net. x) = (\<Sum>(k, x)\<leftarrow>filter (\<lambda>(k, x). x \<noteq> 0) net. x)" for net :: net_amounts
    by (induction net) auto
  have "filter (\<lambda>(k, x). x \<noteq> 0) net = []"
  proof (cases "filter (\<lambda>(k, x). x \<noteq> 0) net")
    case (Cons y ys)
    then have "filter (\<lambda>(k, x). x \<noteq> 0) net = [y]" using assms(2) by simp
    then have "snd y = 0" using assms(1) s [of net] by (cases y) simp
    moreover have "snd y \<noteq> 0" using Cons by (metis (mono_tags, lifting) case_prod_beta filter_eq_ConsD)
    ultimately show ?thesis by simp
  qed simp
  then have "\<forall>(k, x) \<in> set net. x = 0" by (auto simp: filter_empty_conv)
  then show ?thesis by (induction net) (auto simp: posted_amount_def)
qed

context posting_env
begin

lemma receipt_line_step:
  assumes run: "receipt_entry_line (dec E) co num (ls, s) (n, x) = Inr (ls', t)" and ok: "ledger_ok s" and m: "money x"
    and n: "n \<noteq> ACCT_AP"
  shows "same_books co s t" and "balance_of t co k = balance_of s co k" and "grni_liability co s \<Longrightarrow> grni_liability co t"
    and "k \<noteq> n \<Longrightarrow> by_number s co k = Some b \<Longrightarrow> by_number t co k = Some b"
    and "db_companies t = db_companies s"
    and "x = 0 \<and> ls' = ls \<and> t = s \<or> (x \<noteq> 0 \<and> (\<exists>a d. by_number t co n = Some a \<and> ls' = ls @ [d] \<and>
          (\<forall>g. input_effect (dec E) [d] g = (if acc_id a = acc_id g then signedDelta (acc_type g) x 0 else 0))))"
proof -
  consider (tiny) "x = 0" "ls' = ls" "t = s"
    | (line) a where "x \<noteq> 0" "(if n = ACCT_GRNI then getOrCreateSystemAccount co ACCT_GRNI s
                 else map_sum id (\<lambda>a. (a, s)) (getByNumberOrFail s co n)) = Inr (a, t)"
        "ls' = ls @ [post_line (acc_id a) (Some (receipt_description num n))
                 (if 0 < x then d_fixed (dec E) 4 x else 0) (if x < 0 then d_fixed (dec E) 4 (- x) else 0)]"
  proof (cases "\<bar>x\<bar> < MONEY_TOLERANCE")
    case True
    then show thesis using run tiny_money [OF m True] that(1) by (simp add: receipt_entry_line_def)
  next
    case False
    then have "x \<noteq> 0" by (auto simp: MONEY_TOLERANCE_def)
    then show thesis using run False that(2) by (auto simp: receipt_entry_line_def bindE_Inr)
  qed
  then have "same_books co s t \<and> (\<forall>k. balance_of t co k = balance_of s co k) \<and> (grni_liability co s \<longrightarrow> grni_liability co t)
    \<and> (\<forall>k b. k \<noteq> n \<longrightarrow> by_number s co k = Some b \<longrightarrow> by_number t co k = Some b) \<and> db_companies t = db_companies s
    \<and> (x = 0 \<and> ls' = ls \<and> t = s \<or> (x \<noteq> 0 \<and> (\<exists>a d. by_number t co n = Some a \<and> ls' = ls @ [d] \<and>
          (\<forall>g. input_effect (dec E) [d] g = (if acc_id a = acc_id g then signedDelta (acc_type g) x 0 else 0)))))"
  proof cases
    case tiny
    then show ?thesis using ok by (simp add: same_books_refl)
  next
    case line
    have eff: "input_effect (dec E) [post_line (acc_id a) (Some (receipt_description num n))
                 (if 0 < x then d_fixed (dec E) 4 x else 0) (if x < 0 then d_fixed (dec E) 4 (- x) else 0)] g
        = (if acc_id a = acc_id g then signedDelta (acc_type g) x 0 else 0)" for g
      using fixed_id [OF m] fixed_id [OF on_grid_minus [OF m]] line(1) by (auto simp: input_effect_single signedDelta_def)
    show ?thesis
    proof (cases "n = ACCT_GRNI")
      case True
      then have g: "getOrCreateSystemAccount co ACCT_GRNI s = Inr (a, t)" using line(2) by simp
      note f = getOrCreate_found [OF g]
      note k = getOrCreateSystemAccount_keeps [OF g ok]
      have "same_books co s t" using system_account_books [OF g ok] po_numbers_differ(4) by blast
      moreover have oth: "by_number t co k = Some b" if "k \<noteq> ACCT_GRNI" "by_number s co k = Some b" for k b
        using getOrCreate_other(1) [OF g ok that(2,1)] .
      moreover have "balance_of t co k = balance_of s co k" for k
        using getOrCreate_balances [OF g] by simp
      moreover have "grni_liability co t" if "grni_liability co s"
        using f(1) f(3) [OF refl that] by (simp add: grni_liability_def)
      ultimately show ?thesis using line(1,3) eff f(1) k(9) True by blast
    next
      case False
      then have "by_number s co n = Some a" "t = s" using line(2) by (auto simp: map_sum_Inr getByNumber_Inr)
      then show ?thesis using ok line(1,3) eff by (auto simp: same_books_refl)
    qed
  qed
  then show "same_books co s t" and "balance_of t co k = balance_of s co k" and "grni_liability co s \<Longrightarrow> grni_liability co t"
    and "k \<noteq> n \<Longrightarrow> by_number s co k = Some b \<Longrightarrow> by_number t co k = Some b"
    and "db_companies t = db_companies s"
    and "x = 0 \<and> ls' = ls \<and> t = s \<or> (x \<noteq> 0 \<and> (\<exists>a d. by_number t co n = Some a \<and> ls' = ls @ [d] \<and>
          (\<forall>g. input_effect (dec E) [d] g = (if acc_id a = acc_id g then signedDelta (acc_type g) x 0 else 0))))"
    by blast+
qed

lemma receipt_lines:
  assumes "foldE (receipt_entry_line (dec E) co num) (ls, s) net = Inr (ls', t)" and "ledger_ok s" and "distinct (map fst net)"
    and "\<forall>(n, x) \<in> set net. money x \<and> n \<noteq> ACCT_AP"
  shows "same_books co s t \<and> balance_of t co k = balance_of s co k \<and> (grni_liability co s \<longrightarrow> grni_liability co t)
    \<and> (k \<notin> fst ` set net \<longrightarrow> (\<forall>b. by_number s co k = Some b \<longrightarrow> by_number t co k = Some b))
    \<and> length ls' = length ls + length (filter (\<lambda>(n, x). x \<noteq> 0) net)
    \<and> (\<forall>g. by_number t co k = Some g \<longrightarrow> input_effect (dec E) ls' g = input_effect (dec E) ls g + signedDelta (acc_type g) (posted_amount net k) 0)
    \<and> (posted_amount net k \<noteq> 0 \<longrightarrow> by_number t co k \<noteq> None)"
  using assms
proof (induction net arbitrary: ls s k)
  case Nil
  then show ?case by (auto simp: same_books_refl posted_amount_def signedDelta_def)
next
  case (Cons y net)
  obtain n x where y: "y = (n, x)" by (cases y)
  from Cons.prems(1) obtain ls1 u where one: "receipt_entry_line (dec E) co num (ls, s) (n, x) = Inr (ls1, u)"
    and rest: "foldE (receipt_entry_line (dec E) co num) (ls1, u) net = Inr (ls', t)"
    by (auto simp: y bindE_Inr)
  have m: "money x" and ne: "n \<noteq> ACCT_AP" using Cons.prems(4) by (simp_all add: y)
  note st = receipt_line_step [OF one Cons.prems(2) m ne]
  have lu: "ledger_ok u" using st(1) by (simp add: same_books_def)
  have IH: "same_books co u t \<and> balance_of t co k = balance_of u co k \<and> (grni_liability co u \<longrightarrow> grni_liability co t)
    \<and> (k \<notin> fst ` set net \<longrightarrow> (\<forall>b. by_number u co k = Some b \<longrightarrow> by_number t co k = Some b))
    \<and> length ls' = length ls1 + length (filter (\<lambda>(n, x). x \<noteq> 0) net)
    \<and> (\<forall>g. by_number t co k = Some g \<longrightarrow> input_effect (dec E) ls' g = input_effect (dec E) ls1 g + signedDelta (acc_type g) (posted_amount net k) 0)
    \<and> (posted_amount net k \<noteq> 0 \<longrightarrow> by_number t co k \<noteq> None)" for k
    by (rule Cons.IH [OF rest lu]) (use Cons.prems(3,4) in auto)
  have lt: "ledger_ok t" using IH by (simp add: same_books_def)
  have nn: "n \<notin> fst ` set net" using Cons.prems(3) by (simp add: y)
  have pz: "posted_amount net n = 0" by (rule posted_absent [OF nn])
  have pc: "posted_amount ((n, x) # net) k = (if k = n then x else 0) + posted_amount net k" for x k by (simp add: posted_amount_def)
  have books: "same_books co s t" using st(1) IH same_books_trans by blast
  show ?case
  proof (cases "x = 0")
    case True
    then have "ls1 = ls" "u = s" using st(6) by auto
    then show ?thesis using IH [of k] books True by (auto simp: y pc)
  next
    case False
    then obtain a d where a: "by_number u co n = Some a" and ls1: "ls1 = ls @ [d]"
      and eff: "\<And>g. input_effect (dec E) [d] g = (if acc_id a = acc_id g then signedDelta (acc_type g) x 0 else 0)"
      using st(6) by auto
    have at: "by_number t co n = Some a" using IH [of n] nn a by blast
    have "input_effect (dec E) [d] g = signedDelta (acc_type g) (if k = n then x else 0) 0" if "by_number t co k = Some g" for g
    proof (cases "k = n")
      case True
      then show ?thesis using that at eff by simp
    next
      case False
      then show ?thesis using by_number_ids [OF lt that at] eff by (auto simp: signedDelta_def)
    qed
    then have "input_effect (dec E) ls' g = input_effect (dec E) ls g + signedDelta (acc_type g) (posted_amount ((n, x) # net) k) 0"
      if "by_number t co k = Some g" for g
      using IH [of k] that by (simp add: ls1 input_effect_append pc signedDelta_add)
    then show ?thesis
      using IH [of k] st(2-4) books False at ls1 by (auto simp: y pc)
  qed
qed

lemma post_receipt_moves:
  assumes run: "post_receipt E co user p net s = Inr t" and ok: "ledger_ok s" and d: "distinct (map fst net)"
    and k: "fst ` set net \<subseteq> {ACCT_INVENTORY, ACCT_GRNI, ACCT_COGS}" and m: "\<forall>n. money (at0 net n)"
    and z: "at0 net ACCT_INVENTORY + at0 net ACCT_GRNI + at0 net ACCT_COGS = 0"
  shows "moves_payable co 0 s t" and "grni_liability co s \<Longrightarrow> grni_liability co t"
    and "by_number t co n = Some g \<Longrightarrow> balance_of t co n = balance_of s co n + signedDelta (acc_type g) (at0 net n) 0"
    and "at0 net n \<noteq> 0 \<Longrightarrow> by_number t co n \<noteq> None"
proof -
  from run obtain ls s1 where f: "foldE (receipt_entry_line (dec E) co (po_number p)) ([], s) net = Inr (ls, s1)"
    and rest: "(if length ls < 2 then Inr s1
     else map_sum id snd (createEntry E s1
       \<lparr>pi_company = co, pi_date = today E, pi_memo = Some (''Goods received'' @ dash_text @ ''PO '' @ po_number p),
        pi_createdBy = user, pi_lines = number_lines ls, pi_posted = True, pi_sourceType = Some ''po_receipt'',
        pi_sourceId = Some (po_id p), pi_reversalOf = None\<rparr>)) = Inr t"
    by (auto simp: post_receipt_def bindE_Inr)
  have "\<forall>(n, x) \<in> set net. money x \<and> n \<noteq> ACCT_AP"
  proof -
    have "at0 net n = x" if "(n, x) \<in> set net" for n x using d that by (simp add: at0_def)
    then have "money x" if "(n, x) \<in> set net" for n x using m that by metis
    moreover have "n \<noteq> ACCT_AP" if "(n, x) \<in> set net" for n x
      using k that payable_numbers by force
    ultimately show ?thesis by auto
  qed
  note rl = receipt_lines [OF f ok d this]
  have books: "same_books co s s1" and l1: "ledger_ok s1" using rl by (simp_all add: same_books_def)
  have "moves_payable co 0 s t \<and> (grni_liability co s \<longrightarrow> grni_liability co t) \<and>
      (\<forall>n g. by_number t co n = Some g \<longrightarrow> balance_of t co n = balance_of s co n + signedDelta (acc_type g) (at0 net n) 0) \<and>
      (\<forall>n. at0 net n \<noteq> 0 \<longrightarrow> by_number t co n \<noteq> None)"
  proof (cases "length ls < 2")
    case True
    then have t: "t = s1" using rest by simp
    have "at0 net n = 0" for n
      using all_or_two_posted [of net n] posted_sum [OF k] z posted_at0 [OF d] True rl by simp
    then show ?thesis using rl books by (auto simp: t signedDelta_def moves_payable_def same_books_def)
  next
    case False
    then obtain e where ce: "createEntry E s1
       \<lparr>pi_company = co, pi_date = today E, pi_memo = Some (''Goods received'' @ dash_text @ ''PO '' @ po_number p),
        pi_createdBy = user, pi_lines = number_lines ls, pi_posted = True, pi_sourceType = Some ''po_receipt'',
        pi_sourceId = Some (po_id p), pi_reversalOf = None\<rparr> = Inr (e, t)"
      using rest by (auto simp: map_sum_Inr)
    have eff: "input_effect (dec E) ls g = signedDelta (acc_type g) (at0 net n) 0" if "by_number s1 co n = Some g" for n g
      using rl that posted_at0 [OF d] by (simp add: input_effect_def)
    have "ACCT_AP \<notin> fst ` set net" using k payable_numbers by auto
    then have ap0: "at0 net ACCT_AP = 0" using posted_absent posted_at0 [OF d] by metis
    have "moves_payable co 0 s t"
    proof (rule moves_payableI(1) [OF ce books])
      show "input_effect (dec E) (pi_lines \<lparr>pi_company = co, pi_date = today E, pi_memo = Some (''Goods received'' @ dash_text @ ''PO '' @ po_number p),
        pi_createdBy = user, pi_lines = number_lines ls, pi_posted = True, pi_sourceType = Some ''po_receipt'',
        pi_sourceId = Some (po_id p), pi_reversalOf = None\<rparr>) ap = 0" if "by_number s co ACCT_AP = Some ap" for ap
        using eff [of ACCT_AP ap] books that ap0 by (auto simp: same_books_def input_effect_numbered signedDelta_def)
    qed simp
    moreover have pb: "by_number t co n = map_option (\<lambda>a. a\<lparr>acc_balance := acc_balance a + input_effect (dec E) ls a\<rparr>) (by_number s1 co n)" for n
      using posted_balances [OF ce l1, of co n] by (simp add: input_effect_numbered)
    have "balance_of t co n = balance_of s co n + signedDelta (acc_type g) (at0 net n) 0" if g: "by_number t co n = Some g" for n g
    proof -
      obtain a where a: "by_number s1 co n = Some a" "g = a\<lparr>acc_balance := acc_balance a + input_effect (dec E) ls a\<rparr>"
        using pb [of n] g by (cases "by_number s1 co n") auto
      have "acc_balance a = balance_of s co n" using rl [of n] a(1) by (simp add: balance_of_def)
      then show ?thesis using a eff [OF a(1)] g by (simp add: balance_of_def)
    qed
    moreover have "grni_liability co t" if "grni_liability co s"
    proof -
      have "grni_liability co s1" using conjunct1 [OF conjunct2 [OF conjunct2 [OF rl]]] that by blast
      then have one: "acc_type a = Liability" if "by_number s1 co ACCT_GRNI = Some a" for a using that by (simp add: grni_liability_def)
      have "acc_type g = Liability" if "by_number t co ACCT_GRNI = Some g" for g
        using that one unfolding pb [of ACCT_GRNI] by (cases "by_number s1 co ACCT_GRNI") auto
      then show ?thesis by (simp add: grni_liability_def)
    qed
    moreover have "by_number t co n \<noteq> None" if "at0 net n \<noteq> 0" for n
      using rl [of n] that unfolding pb [of n] posted_at0 [OF d] by simp
    ultimately show ?thesis by blast
  qed
  then show "moves_payable co 0 s t" and "grni_liability co s \<Longrightarrow> grni_liability co t"
    and "by_number t co n = Some g \<Longrightarrow> balance_of t co n = balance_of s co n + signedDelta (acc_type g) (at0 net n) 0"
    and "at0 net n \<noteq> 0 \<Longrightarrow> by_number t co n \<noteq> None" by blast+
qed

end

end
