(* ===== verification/OrderSteps.thy ===== *)
theory OrderSteps
  imports OrderLaws
begin

text \<open>
  What each operation of the purchase side leaves alone: the orders, the proofs of payment and the links between bills and
  orders, for the operations on bills and credits; the payables, for the operations on orders.
\<close>

section \<open>The tables beside the books\<close>

definition linked_ok :: "bill_line list \<Rightarrow> bool" where
  "linked_ok ls \<longleftrightarrow> (\<forall>l \<in> set ls. 0 \<le> toDecimal (bn_quantity l))"

definition links_ok :: "'a purchase_db_scheme \<Rightarrow> bool" where
  "links_ok s \<longleftrightarrow> (\<forall>b \<in> set (db_bills s). linked_ok (bi_lines b))"

definition side_kept :: "'a purchase_db_scheme \<Rightarrow> 'a purchase_db_scheme \<Rightarrow> bool" where
  "side_kept s t \<longleftrightarrow> db_pos t = db_pos s \<and> db_proofs t = db_proofs s \<and> db_fresh s \<le> db_fresh t \<and> (links_ok s \<longrightarrow> links_ok t)"

lemma side_refl [simp]: "side_kept s s"
  by (simp add: side_kept_def)

lemma side_trans: "side_kept s u \<Longrightarrow> side_kept u t \<Longrightarrow> side_kept s t"
  by (simp add: side_kept_def)

lemma side_books:
  fixes s t :: "'a purchase_db_scheme"
  assumes "ledger_db.more t = ledger_db.more s" and "db_fresh s \<le> db_fresh t"
  shows "side_kept s t" and "db_bills t = db_bills s" and "db_vendorCredits t = db_vendorCredits s" and "db_vendors t = db_vendors s"
  using assms trade_more(9,14) [OF assms(1)] purchase_more [OF trade_more(14) [OF assms(1)]] by (simp_all add: side_kept_def links_ok_def)

lemma entry_side: "createEntry E s inp = Inr (e, t) \<Longrightarrow> side_kept s t"
  by (rule side_books) (auto dest: createEntry_frame)

lemma account_side:
  assumes "getOrCreateSystemAccount co n s = Inr (a, t)"
  shows "side_kept s t" and "db_bills t = db_bills s"
proof -
  have "ledger_db.more t = ledger_db.more s \<and> db_fresh s \<le> db_fresh t"
    using assms unfolding getOrCreateSystemAccount_def
    by (auto simp: some_or_Inr save_account_def Let_def split: option.splits if_splits)
  then show "side_kept s t" "db_bills t = db_bills s" by (auto intro: side_books)
qed

lemma links_saved: "links_ok s \<Longrightarrow> linked_ok (bi_lines b) \<Longrightarrow> links_ok (save_bill b s)"
  by (auto simp: links_ok_def save_bill_def update_row_def)

lemma save_bill_side: "linked_ok (bi_lines b) \<Longrightarrow> side_kept s (save_bill b s)"
  using links_saved by (auto simp: side_kept_def save_bill_def)

lemma stored_bill_side:
  assumes "b \<in> set (db_bills s)" and "bi_lines b' = bi_lines b"
  shows "side_kept s (save_bill b' s)"
proof -
  have "links_ok s \<Longrightarrow> linked_ok (bi_lines b')" using assms by (simp add: links_ok_def)
  then show ?thesis using links_saved [of s b'] by (simp add: side_kept_def) (simp add: save_bill_def)
qed

lemma vendor_side [simp]: "side_kept s (add_vendor_balance D co k x t) = side_kept s t"
  by (simp add: side_kept_def add_vendor_balance_def links_ok_def)

lemma credit_side [simp]: "side_kept s (save_vendor_credit c t) = side_kept s t"
  by (simp add: side_kept_def save_vendor_credit_def links_ok_def)

text \<open>A payment marks its proof as used; nothing else touches a proof.\<close>

definition spent :: "nat \<Rightarrow> 'a purchase_db_scheme \<Rightarrow> bool" where
  "spent i s \<longleftrightarrow> i < db_fresh s \<and> (\<forall>f \<in> set (db_proofs s). pf_id f = i \<longrightarrow> pf_consumedBy f \<noteq> None)"

definition pay_side :: "'a purchase_db_scheme \<Rightarrow> 'a purchase_db_scheme \<Rightarrow> bool" where
  "pay_side s t \<longleftrightarrow> db_pos t = db_pos s \<and> db_fresh s \<le> db_fresh t \<and> (links_ok s \<longrightarrow> links_ok t) \<and> (\<forall>i. spent i s \<longrightarrow> spent i t)"

lemma side_pay: "side_kept s t \<Longrightarrow> pay_side s t"
  by (auto simp: side_kept_def pay_side_def spent_def)

lemma pay_side_trans: "pay_side s u \<Longrightarrow> pay_side u t \<Longrightarrow> pay_side s t"
  by (simp add: pay_side_def)

lemma spent_refused: "spent (pb_proof d) s \<Longrightarrow> bill_payInTransaction E co user d s \<noteq> Inr (p, t)"
  by (auto simp: spent_def bill_payInTransaction_def claim_proof_def result_simps Let_def dest!: find_Some_mem)

section \<open>Operations on bills and credits\<close>

lemma journal_side:
  assumes run: "createJournalEntryForBill E b user s = Inr (b', t)" and l: "links_ok s \<Longrightarrow> linked_ok (bi_lines b)"
  shows "side_kept s t"
proof -
  from run obtain tx s1 e t1 inp where "input_tax_lines (dec E) (bi_company b) (bi_number b) (reclaims_input_tax (bi_company b) s)
      (foldl (\<lambda>t l. t + bn_taxAmount l) 0 (bi_lines b)) s = Inr (tx, s1)"
    and ce: "createEntry E s1 inp = Inr (e, t1)" and t: "t = save_bill b' t1" "b' = b\<lparr>bi_entry := Some (je_id e)\<rparr>"
    by (auto simp: createJournalEntryForBill_def result_simps Let_def)
  then have "side_kept s s1" by (auto simp: input_tax_lines_def result_simps split: if_splits dest: account_side)
  then have "side_kept s t1" using entry_side [OF ce] side_trans by blast
  moreover have "links_ok t1 \<Longrightarrow> links_ok s \<Longrightarrow> links_ok t" using links_saved [of t1 b'] l t by simp
  ultimately show ?thesis by (auto simp: side_kept_def t save_bill_def)
qed

lemma computed_unlinked: "linked_ok (bt_lines (bill_computeTotals D ls))"
  by (auto simp: linked_ok_def bill_computeTotals_def case_prod_unfold bill_line_of_def Let_def toDecimal_def)

lemma checked_unlinked: "checked_totals D co inputs s = Inr tot \<Longrightarrow> linked_ok (bt_lines tot)"
  by (auto simp: checked_totals_def result_simps Let_def computed_unlinked)

lemma linked_lines:
  assumes "linked_ok ls" and "\<forall>k \<in> set links. \<forall>x. k = Some x \<longrightarrow> 0 \<le> lk_quantity x"
  shows "linked_ok (map (linked_line links) (enumerate 0 ls))"
proof -
  have "0 \<le> toDecimal (bn_quantity (linked_line links x))" if "x \<in> set (enumerate 0 ls)" for x
    using assms snd_enumerate [OF that] nth_mem [of "fst x" links]
    by (cases x) (fastforce simp: linked_ok_def linked_line_def toDecimal_def split: option.split)
  then show ?thesis by (simp add: linked_ok_def)
qed

context posting_env
begin

lemma create_bill_side:
  assumes run: "bill_createInTransaction E co user d links s = Inr (b', t)"
    and lk: "\<forall>k \<in> set links. \<forall>x. k = Some x \<longrightarrow> 0 \<le> lk_quantity x"
  shows "side_kept s t"
proof -
  from run obtain number s1 tot where n: "bill_number_for co d s = Inr (number, s1)"
    and ct: "checked_totals (dec E) co (bc_lines d) s1 = Inr tot"
    and rest: "(if bi_status (new_bill co d number tot links s1) = BS_draft
        then Inr (new_bill co d number tot links s1,
          s1\<lparr>db_bills := db_bills s1 @ [new_bill co d number tot links s1], db_fresh := Suc (db_fresh s1)\<rparr>)
        else bindE (createJournalEntryForBill E (new_bill co d number tot links s1) user
          (s1\<lparr>db_bills := db_bills s1 @ [new_bill co d number tot links s1], db_fresh := Suc (db_fresh s1)\<rparr>)) (\<lambda>(b', s3).
             Inr (b', add_vendor_balance (dec E) co (bc_vendor d) (bi_total (new_bill co d number tot links s1)) s3))) = Inr (b', t)"
    by (auto simp: bill_createInTransaction_def result_simps Let_def split del: if_split)
  define b where "b = new_bill co d number tot links s1"
  define s2 where "s2 = s1\<lparr>db_bills := db_bills s1 @ [b], db_fresh := Suc (db_fresh s1)\<rparr>"
  have lines: "linked_ok (bi_lines b)" using linked_lines [OF checked_unlinked [OF ct] lk] by (simp add: b_def new_bill_def)
  obtain q where "s1 = s\<lparr>db_sequences := q\<rparr>" using bill_number_frame [OF n] by blast
  then have s2: "side_kept s s2" using lines by (auto simp: side_kept_def s2_def links_ok_def)
  show ?thesis
  proof (cases "bi_status b = BS_draft")
    case True
    then show ?thesis using rest s2 by (auto simp: b_def s2_def)
  next
    case False
    then obtain s3 where j: "createJournalEntryForBill E b user s2 = Inr (b', s3)" and t: "t = add_vendor_balance (dec E) co (bc_vendor d) (bi_total b) s3"
      using rest by (auto simp: b_def s2_def result_simps)
    show ?thesis using side_trans [OF s2 journal_side [OF j]] lines by (simp add: t)
  qed
qed

lemma update_bill_side:
  assumes run: "bill_updateInTransaction E co i u s = Inr (b2, t)"
  shows "side_kept s t"
proof -
  from run obtain b where f: "find_bill co i s = Some b"
    and b2: "(case bu_lines u of
                 None \<Rightarrow> Inr (edited_bill u b)
               | Some lines \<Rightarrow> bindE (checked_totals (dec E) co lines s) (\<lambda>tot.
                   Inr ((edited_bill u b)\<lparr>bi_subtotal := bt_subtotal tot, bi_taxAmount := bt_taxAmount tot, bi_total := bt_total tot,
                           bi_balance := bt_total tot, bi_lines := bt_lines tot\<rparr>))) = Inr b2"
    and t: "t = save_bill b2 s"
    by (auto simp: bill_updateInTransaction_def result_simps Let_def)
  show ?thesis
  proof (cases "bu_lines u")
    case None
    then have "bi_lines b2 = bi_lines b" using b2 by (auto simp: edited_bill_def)
    then show ?thesis unfolding t using find_bill_Some [OF f] by (intro stored_bill_side) auto
  next
    case (Some ls)
    then have "linked_ok (bi_lines b2)" using b2 checked_unlinked by (auto simp: result_simps)
    then show ?thesis unfolding t by (rule save_bill_side)
  qed
qed

lemma post_bill_side:
  assumes run: "bill_post E co i user s = Inr (b2, t)"
  shows "side_kept s t"
proof -
  from run obtain b s3 where f: "find_bill co i s = Some b"
    and ce: "createJournalEntryForBill E (b\<lparr>bi_status := BS_open\<rparr>) user (save_bill (b\<lparr>bi_status := BS_open\<rparr>) s) = Inr (b2, s3)"
    and t: "t = add_vendor_balance (dec E) co (bi_vendor b) (bi_total b) s3"
    by (auto simp: bill_post_def transaction_Inr result_simps Let_def)
  note b = find_bill_Some [OF f]
  have s1: "side_kept s (save_bill (b\<lparr>bi_status := BS_open\<rparr>) s)" using b by (intro stored_bill_side) auto
  have "b\<lparr>bi_status := BS_open\<rparr> \<in> set (db_bills (save_bill (b\<lparr>bi_status := BS_open\<rparr>) s))"
    using b by (force simp: save_bill_def update_row_def)
  then have "links_ok (save_bill (b\<lparr>bi_status := BS_open\<rparr>) s) \<Longrightarrow> linked_ok (bi_lines (b\<lparr>bi_status := BS_open\<rparr>))"
    by (simp only: links_ok_def)
  then show ?thesis using side_trans [OF s1 journal_side [OF ce]] by (simp add: t)
qed

lemma delete_bill_side:
  assumes run: "bill_deleteInTransaction E co i user s = Inr (u, t)"
  obtains b s2 where "find_bill co i s = Some b" and "side_kept s s2" and "\<not> 0 < bi_amountPaid b"
    and "t = (releasePurchaseOrderBilling (dec E) co b s2)\<lparr>db_bills := filter (\<lambda>w. bi_id w \<noteq> i) (db_bills s2)\<rparr>"
proof -
  from run obtain b s2 where f: "find_bill co i s = Some b" and p: "\<not> 0 < bi_amountPaid b"
    and rev: "(case bi_entry b of None \<Rightarrow> Inr s
            | Some e \<Rightarrow> bindE (mirror_entry E co user (''Delete bill '' @ bi_number b) ''bill_void'' (bi_id b) e (today E) s) (\<lambda>s1.
                Inr (add_vendor_balance (dec E) co (bi_vendor b) (- bi_total b) s1))) = Inr s2"
    and t: "t = (releasePurchaseOrderBilling (dec E) co b s2)\<lparr>db_bills := filter (\<lambda>w. bi_id w \<noteq> i)
       (db_bills (releasePurchaseOrderBilling (dec E) co b s2))\<rparr>"
    by (auto simp: bill_deleteInTransaction_def result_simps Let_def isPositive_def)
  obtain ps where ps: "releasePurchaseOrderBilling (dec E) co b s2 = s2\<lparr>db_pos := ps\<rparr>" using release_frame by blast
  have mirror: "side_kept s s1" if "mirror_entry E co user memo st sid n date s = Inr s1" for memo st sid n date s1
    using that by (auto simp: mirror_entry_def Let_def map_sum_Inr result_simps split: option.splits if_splits dest: entry_side)
  have "side_kept s s2" using rev mirror by (auto simp: result_simps split: option.splits)
  then show thesis using that f p t ps by simp
qed

lemma pay_one_side: "pay_one_bill D co k p (apps, u) x = Inr (apps', u') \<Longrightarrow> side_kept u u'"
  by (cases x) (auto simp: pay_one_bill_def result_simps intro!: stored_bill_side
      dest!: find_bill_Some simp: paid_bill_def Let_def)

lemma pay_bills_side:
  assumes run: "bill_payInTransaction E co user d s = Inr (p', t)" and fr: "\<forall>f \<in> set (db_proofs s). pf_id f < db_fresh s"
  shows "pay_side s t" and "spent (pb_proof d) t" and "map pf_id (db_proofs t) = map pf_id (db_proofs s)"
proof -
  define paid where "paid = foldl (\<lambda>t (_, x). t + x) 0 (pb_applications d)"
  from run obtain pf apps s2 s3 inp e s4 where
    c: "claim_proof co (pb_proof d) s = Inr pf"
    and fold: "foldE (pay_one_bill (dec E) co (pb_vendor d) (db_fresh s))
        ([], s\<lparr>db_billPayments := db_billPayments s @ [new_bill_payment (dec E) co d paid pf s], db_fresh := Suc (db_fresh s),
               db_proofs := update_row pf_id (pf_id pf) (\<lambda>f. f\<lparr>pf_consumedBy := Some (db_fresh s)\<rparr>) (db_proofs s)\<rparr>)
        (pb_applications d) = Inr (apps, s2)"
    and s3: "s3 = add_vendor_balance (dec E) co (pb_vendor d) (- paid) (s2\<lparr>db_billApplications := db_billApplications s2 @ apps\<rparr>)"
    and ce: "createEntry E s3 inp = Inr (e, s4)"
    and t: "t = s4\<lparr>db_billPayments := update_row bp_id (db_fresh s) (\<lambda>_. p') (db_billPayments s4)\<rparr>"
    unfolding paid_def by (auto simp: bill_payInTransaction_def result_simps Let_def)
  define s1 where "s1 = s\<lparr>db_billPayments := db_billPayments s @ [new_bill_payment (dec E) co d paid pf s], db_fresh := Suc (db_fresh s),
               db_proofs := update_row pf_id (pf_id pf) (\<lambda>f. f\<lparr>pf_consumedBy := Some (db_fresh s)\<rparr>) (db_proofs s)\<rparr>"
  have pf: "pf \<in> set (db_proofs s)" "pf_id pf = pb_proof d"
    using c by (auto simp: claim_proof_def result_simps dest: find_Some_mem)
  let ?P = "\<lambda>(_ :: bill_application list, u). side_kept s1 u"
  from fold [folded s1_def] have "?P (apps, s2)"
  proof (rule foldE_invariant)
    show "?P y" if "?P x" "pay_one_bill (dec E) co (pb_vendor d) (db_fresh s) x c = Inr y" for x c y
      using that by (cases x; cases y) (auto intro: side_trans pay_one_side)
  qed simp
  then have s12: "side_kept s1 s2" by simp
  have "side_kept s2 s3" by (simp add: s3) (simp add: side_kept_def links_ok_def)
  moreover have "side_kept s3 s4" by (rule entry_side [OF ce])
  moreover have "side_kept s4 t" by (simp add: t side_kept_def links_ok_def)
  ultimately have side: "side_kept s1 t" using s12 side_trans by blast
  have "pay_side s s1" by (auto simp: pay_side_def s1_def links_ok_def spent_def update_row_def)
  then show "pay_side s t" using side_pay [OF side] pay_side_trans by blast
  have "spent (pb_proof d) s1" using pf fr by (auto simp: spent_def s1_def update_row_def)
  then show "spent (pb_proof d) t" using side by (auto simp: spent_def side_kept_def)
  show "map pf_id (db_proofs t) = map pf_id (db_proofs s)"
    using side by (simp add: side_kept_def s1_def update_row_def)
qed

lemma use_credit_side: "applyVendorCredit D co i billId amt expected s = Inr (r, t) \<Longrightarrow> side_kept s t"
  by (cases r) (auto simp: applyVendorCredit_def applyCredit_def result_simps Let_def intro!: stored_bill_side
      dest!: find_bill_Some simp: credited_bill_def)

lemma settle_side:
  assumes run: "bill_settleInTransaction E co user d s = Inr (r, t)" and fr: "\<forall>f \<in> set (db_proofs s). pf_id f < db_fresh s"
  shows "pay_side s t" and "map pf_id (db_proofs t) = map pf_id (db_proofs s)"
proof -
  from run obtain used s1 p where f: "foldE (settle_credit E co (sbi_vendor d)) ([], s) (sbi_credits d) = Inr (used, s1)"
    and cash: "settle_cash_leg E co user d s1 = Inr (p, t)"
    by (auto simp: bill_settleInTransaction_def result_simps Let_def)
  let ?P = "\<lambda>(_ :: settled_vendor_credit list, u). side_kept s u"
  from f have "?P (used, s1)"
  proof (rule foldE_invariant)
    show "?P y" if "?P x" "settle_credit E co (sbi_vendor d) x c = Inr y" for x c y
      using that by (cases x; cases y) (auto simp: settle_credit_def result_simps intro: side_trans use_credit_side)
  qed simp
  then have s1: "side_kept s s1" by simp
  have "pay_side s1 t \<and> map pf_id (db_proofs t) = map pf_id (db_proofs s1)"
  proof (cases "p = None")
    case True
    then show ?thesis using cash by (auto simp: settle_cash_leg_def map_sum_Inr side_pay split: option.splits if_splits)
  next
    case False
    have "\<forall>f \<in> set (db_proofs s1). pf_id f < db_fresh s1" using fr s1 by (fastforce simp: side_kept_def)
    then show ?thesis using cash False pay_bills_side
      by (auto simp: settle_cash_leg_def map_sum_Inr split: option.splits if_splits)
  qed
  then show "pay_side s t" and "map pf_id (db_proofs t) = map pf_id (db_proofs s)"
    using s1 side_pay [OF s1] pay_side_trans by (auto simp: side_kept_def)
qed

lemma relieve_side: "relieveReturnedStock D co c reverse s = Inr t \<Longrightarrow> side_kept s t"
  by (rule relieve_frame) (auto simp: side_kept_def links_ok_def)

lemma tax_side: "credited_tax co tax s = Inr (taxes, t) \<Longrightarrow> side_kept s t"
  by (auto simp: credited_tax_def result_simps split: if_splits dest: account_side)

lemma create_credit_side:
  assumes run: "vendor_credit_create E co user d s = Inr (c', t)"
  shows "side_kept s t"
proof -
  from run obtain iv cogs c number s1 s2 taxes s3 inp e s4 where
    n: "\<exists>year. nextDocumentNumber (vendor_credit_numbers co s) co VC year s = Inr (number, s1)"
    and st: "relieveReturnedStock (dec E) co c False (s1\<lparr>db_vendorCredits := db_vendorCredits s1 @ [c], db_fresh := Suc (db_fresh s1)\<rparr>) = Inr s2"
    and tx: "credited_tax co (vc_taxAmount c) s2 = Inr (taxes, s3)"
    and ce: "createEntry E s3 inp = Inr (e, s4)"
    and t: "t = add_vendor_balance (dec E) co (vd_vendor d) (- vc_total c) (save_vendor_credit c' s4)"
    by (simp add: vendor_credit_create_def transaction_Inr result_simps Let_def) blast
  obtain q where s1: "s1 = s\<lparr>db_sequences := q\<rparr>" using n nextDocumentNumber_frame by blast
  have "side_kept s (s1\<lparr>db_vendorCredits := db_vendorCredits s1 @ [c], db_fresh := Suc (db_fresh s1)\<rparr>)"
    by (simp add: s1 side_kept_def links_ok_def)
  then have "side_kept s s4" using relieve_side [OF st] tax_side [OF tx] entry_side [OF ce] side_trans by blast
  then show ?thesis by (simp add: t)
qed

lemma void_credit_side:
  assumes run: "vendor_credit_void E co i user s = Inr (c', t)"
  shows "side_kept s t"
proof -
  from run obtain c s1 s2 where
    rev: "(case vc_entry c of None \<Rightarrow> Inr s | Some e \<Rightarrow> reverse_vendor_credit E co user c e s) = Inr s1"
    and st2: "relieveReturnedStock (dec E) co c True s1 = Inr s2"
    and t: "t = save_vendor_credit c' (add_vendor_balance (dec E) co (vc_vendor c) (vc_total c) s2)"
    by (auto simp: vendor_credit_void_def transaction_Inr result_simps Let_def)
  have "side_kept s s1"
    using rev by (auto simp: reverse_vendor_credit_def result_simps map_sum_Inr split: option.splits intro: side_trans tax_side entry_side)
  then show ?thesis using relieve_side [OF st2] side_trans by (simp add: t)
qed

lemma delete_credit_side: "vendor_credit_delete E co i user s = Inr (u, t) \<Longrightarrow> side_kept s t"
  by (auto simp: vendor_credit_delete_def result_simps map_sum_Inr split: if_splits dest!: void_credit_side)
    (auto simp: side_kept_def links_ok_def)

end

end
