(* ===== verification/OrderKeeps.thy ===== *)
theory OrderKeeps
  imports OrderSteps
begin

text \<open>
  The operations on orders keep the payables and the quantities of every line.
\<close>

definition purchases_ok :: "nat \<Rightarrow> 'a purchase_db_scheme \<Rightarrow> bool" where
  "purchases_ok co s \<longleftrightarrow> payables_ok co s \<and> orders_ok co s \<and> links_ok s \<and> (\<forall>f \<in> set (db_proofs s). pf_id f < db_fresh s)"

lemma payables_frame:
  assumes ok: "payables_ok co s" and "ledger_ok t" and "db_accounts t = db_accounts s" and "db_entries t = db_entries s"
    and "db_vendors t = db_vendors s" and "db_bills t = db_bills s" and "db_vendorCredits t = db_vendorCredits s"
    and "db_fresh s \<le> db_fresh t"
  shows "payables_ok co t"
proof (rule payables_step [where x = 0 and k = 0, OF ok assms(2)])
  have tab: "keyed bi_id (db_bills s) (db_fresh s)" "keyed vc_id (db_vendorCredits s) (db_fresh s)" using ok by (simp_all add: payables_ok_def)
  show "keyed bi_id (db_bills t) (db_fresh t)" "keyed vc_id (db_vendorCredits t) (db_fresh t)"
    using keyed_later [OF tab(1)] keyed_later [OF tab(2)] assms by simp_all
qed (use assms in \<open>simp_all add: by_number_def vendors_stay billed_to_def credited_to_def\<close>)

lemma payables_moved:
  assumes ok: "payables_ok co s" and mv: "moves_payable co 0 s t"
  shows "payables_ok co t"
proof (rule payables_step [where x = 0 and k = 0, OF ok])
  note m = moves_payableD [OF mv]
  have tab: "keyed bi_id (db_bills s) (db_fresh s)" "keyed vc_id (db_vendorCredits s) (db_fresh s)" using ok by (simp_all add: payables_ok_def)
  show "keyed bi_id (db_bills t) (db_fresh t)" "keyed vc_id (db_vendorCredits t) (db_fresh t)"
    using keyed_later [OF tab(1)] keyed_later [OF tab(2)] m by simp_all
  show "by_number t co ACCT_AP = Some (a\<lparr>acc_balance := acc_balance a + 0\<rparr>)" if "by_number s co ACCT_AP = Some a" for a
    using m(2) [OF that] .
qed (use moves_payableD [OF mv] in \<open>simp_all add: vendors_stay billed_to_def credited_to_def\<close>)

lemma same_books_moved: "same_books co s t \<Longrightarrow> moves_payable co 0 s t"
  by (auto simp: same_books_def moves_payable_def)

text \<open>What keeps everything, given what it does to the orders.\<close>

lemma purchases_side:
  assumes "purchases_ok co s" and "payables_ok co t" and "side_kept s t"
  shows "purchases_ok co t"
proof -
  have "pf_id f < db_fresh t" if "f \<in> set (db_proofs t)" for f
    using that assms(1,3) by (auto simp: purchases_ok_def side_kept_def intro: less_le_trans)
  then show ?thesis using assms by (simp add: purchases_ok_def side_kept_def orders_ok_def)
qed

lemma purchases_pay:
  assumes "purchases_ok co s" and "payables_ok co t" and "pay_side s t" and "map pf_id (db_proofs t) = map pf_id (db_proofs s)"
  shows "purchases_ok co t"
proof -
  have "pf_id ` set (db_proofs t) = pf_id ` set (db_proofs s)" using arg_cong [OF assms(4), of set] by simp
  moreover have "\<forall>i \<in> pf_id ` set (db_proofs s). i < db_fresh t"
    using assms(1,3) by (fastforce simp: purchases_ok_def pay_side_def)
  ultimately have "\<forall>f \<in> set (db_proofs t). pf_id f < db_fresh t" by blast
  then show ?thesis using assms(1-3) by (simp add: purchases_ok_def pay_side_def orders_ok_def)
qed

lemma orders_replaced:
  assumes ok: "purchases_ok co s" and l: "ledger_ok t" and "lines_ok (po_lines p)"
    and "db_accounts t = db_accounts s" and "db_entries t = db_entries s"
    and "db_vendors t = db_vendors s" and "db_bills t = db_bills s" and "db_vendorCredits t = db_vendorCredits s"
    and "db_fresh s \<le> db_fresh t" and "db_proofs t = db_proofs s" and "db_pos t = update_row po_id i (\<lambda>_. p) (db_pos s)"
  shows "purchases_ok co t"
proof -
  have "payables_ok co t" by (rule payables_frame [where s = s]) (use assms in \<open>simp_all add: purchases_ok_def\<close>)
  moreover have "orders_ok co t" using ok assms(3,11) by (auto simp: purchases_ok_def orders_ok_def update_row_def)
  moreover have "pf_id f < db_fresh t" if "f \<in> set (db_proofs t)" for f
    using that ok assms(9,10) by (auto simp: purchases_ok_def intro: less_le_trans)
  ultimately show ?thesis using ok assms(7) by (simp add: purchases_ok_def links_ok_def)
qed

lemma purchases_parts:
  "purchases_ok co s \<Longrightarrow> find_po co i s = Some p \<Longrightarrow> lines_ok (po_lines p)"
  "purchases_ok co s \<Longrightarrow> ledger_ok s"
  by (auto simp: purchases_ok_def orders_ok_def payables_ok_def dest: find_po_Some)

lemma po_create_keeps:
  assumes D: "decimal_lib D" and run: "po_create D co un d s = Inr (p, t)" and ok: "purchases_ok co s" and q: "ordered_nonneg d"
  shows "purchases_ok co t"
proof -
  from run obtain number s1 where n: "\<exists>year. nextDocumentNumber (po_numbers co s) co PO year s = Inr (number, s1)"
    and p: "p = new_po D co d number s1" and t: "t = s1\<lparr>db_pos := db_pos s1 @ [p], db_fresh := db_fresh s1 + 1 + length (pc_lines d)\<rparr>"
    by (simp add: po_create_def transaction_Inr result_simps Let_def) blast
  obtain qs where s1: "s1 = s\<lparr>db_sequences := qs\<rparr>" using n nextDocumentNumber_frame by blast
  have l: "ledger_ok t" using purchases_parts(2) [OF ok] by (rule ledger_ok_same [rotated -1]) (simp_all add: t s1)
  have "payables_ok co t" by (rule payables_frame [where s = s, OF _ l]) (use ok in \<open>simp_all add: purchases_ok_def t s1\<close>)
  moreover have "lines_ok (po_lines p)"
    using decimal_lib.computed_lines_ok [OF D] q by (simp add: p new_po_def Let_def ordered_nonneg_def)
  ultimately show ?thesis using ok by (auto simp: purchases_ok_def orders_ok_def links_ok_def t s1)
qed

lemma po_update_keeps:
  assumes D: "decimal_lib D" and run: "po_update D co i d s = Inr (p', t)" and ok: "purchases_ok co s" and q: "ordered_nonneg d"
  shows "purchases_ok co t"
proof -
  from run have l: "po_lines p' = ot_lines (computeLines D (db_fresh s) (pc_lines d))"
    and t: "t = (save_po p' s)\<lparr>db_fresh := db_fresh s + length (pc_lines d)\<rparr>"
    by (auto simp: po_update_def transaction_Inr result_simps Let_def)
  have "ledger_ok t" using purchases_parts(2) [OF ok] by (rule ledger_ok_same [rotated -1]) (simp_all add: t save_po_def)
  then show ?thesis
    by (rule orders_replaced [OF ok, where p = p' and i = "po_id p'"])
      (use decimal_lib.computed_lines_ok [OF D] q in \<open>simp_all add: l t save_po_def ordered_nonneg_def\<close>)
qed

lemma po_delete_keeps:
  assumes run: "po_delete co i s = Inr (u, t)" and ok: "purchases_ok co s"
  shows "purchases_ok co t"
proof -
  from run obtain ps where t: "t = s\<lparr>db_pos := ps\<rparr>" "set ps \<subseteq> set (db_pos s)"
    by (auto simp: po_delete_def transaction_Inr result_simps)
  have l: "ledger_ok t" using purchases_parts(2) [OF ok] by (rule ledger_ok_same [rotated -1]) (simp_all add: t)
  have "payables_ok co t" by (rule payables_frame [where s = s, OF _ l]) (use ok in \<open>simp_all add: purchases_ok_def t\<close>)
  then show ?thesis using ok t(2) by (auto simp: purchases_ok_def orders_ok_def links_ok_def t(1))
qed

lemma po_status_keeps:
  assumes run: "po_updateStatus co i target s = Inr (u, t)" and ok: "purchases_ok co s"
  shows "purchases_ok co t"
proof -
  from run obtain p where f: "find_po co i s = Some p" and t: "t = s \<or> (\<exists>st. t = save_po (p\<lparr>po_status := st\<rparr>) s)"
    by (auto simp: po_updateStatus_def transaction_Inr result_simps split: if_splits)
  from t show ?thesis
  proof
    assume "\<exists>st. t = save_po (p\<lparr>po_status := st\<rparr>) s"
    then obtain st where t: "t = save_po (p\<lparr>po_status := st\<rparr>) s" by blast
    have "ledger_ok t" using purchases_parts(2) [OF ok] by (rule ledger_ok_same [rotated -1]) (simp_all add: t save_po_def)
    then show ?thesis
      by (rule orders_replaced [OF ok, where p = "p\<lparr>po_status := st\<rparr>" and i = "po_id p"])
        (use purchases_parts(1) [OF ok f] in \<open>simp_all add: t save_po_def\<close>)
  qed (use ok in simp)
qed

lemma related_left: "list_all2 P xs ys \<Longrightarrow> x \<in> set xs \<Longrightarrow> \<exists>y \<in> set ys. P x y"
  by (induction rule: list_all2_induct) auto

definition order_avoids :: "nat \<Rightarrow> nat \<Rightarrow> po_bill_input \<Rightarrow> string \<Rightarrow> 'a purchase_db_scheme \<Rightarrow> bool" where
  "order_avoids co i d n s \<longleftrightarrow> (\<forall>p a. find_po co i s = Some p \<longrightarrow> by_number s co n = Some a \<longrightarrow>
     pq_defaultAccount d \<noteq> Some (acc_id a) \<and> (\<forall>l \<in> set (po_lines p). pn_account l \<noteq> Some (acc_id a)))"

lemma po_bill_lines:
  assumes "foldE (po_bill_line D g da) acc ls = Inr billed"
  shows "\<exists>new. billed = acc @ new \<and> map (\<lambda>x. (lk_line (snd x), lk_quantity (snd x), lk_grni (snd x))) new
      = map (\<lambda>l. (pn_id l, d_fixed D 4 (unbilled l), if pn_item l \<noteq> None then Some (d_fixed D 4 (pn_grniAccrued l - pn_grniCleared l)) else None))
          (filter (\<lambda>l. 0 < unbilled l) ls)
    \<and> list_all2 (\<lambda>x l. bx_account (fst x) = (if pn_item l \<noteq> None then Some g else case pn_account l of None \<Rightarrow> da | Some a \<Rightarrow> Some a)
          \<and> bx_account (fst x) \<noteq> None) new (filter (\<lambda>l. 0 < unbilled l) ls)"
  using assms
proof (induction ls arbitrary: acc)
  case (Cons l ls)
  from Cons.prems obtain acc1 where one: "po_bill_line D g da acc l = Inr acc1" and rest: "foldE (po_bill_line D g da) acc1 ls = Inr billed"
    by (auto simp: bindE_Inr)
  show ?case
  proof (cases "0 < unbilled l")
    case False
    then have "acc1 = acc" using one by (simp add: po_bill_line_def)
    then show ?thesis using Cons.IH [OF rest] False by simp
  next
    case True
    then obtain a where a: "(if pn_item l \<noteq> None then Some g else case pn_account l of None \<Rightarrow> da | Some a \<Rightarrow> Some a) = Some a"
      and acc1: "acc1 = acc @ [(\<lparr>bx_account = Some a, bx_description = pn_description l,
                 bx_amount = Some (d_fixed D 4 (round4 D (d_prec D (unbilled l * pn_unitCost l)))), bx_quantity = None,
                 bx_unitPrice = None, bx_taxRate = Some (pn_taxRate l)\<rparr>,
               \<lparr>lk_line = pn_id l, lk_quantity = d_fixed D 4 (unbilled l),
                lk_grni = (if pn_item l \<noteq> None then Some (d_fixed D 4 (pn_grniAccrued l - pn_grniCleared l)) else None)\<rparr>)]"
      using one unfolding po_bill_line_def by (auto simp: some_or_Inr)
    obtain new where "billed = acc1 @ new" "map (\<lambda>x. (lk_line (snd x), lk_quantity (snd x), lk_grni (snd x))) new
      = map (\<lambda>l. (pn_id l, d_fixed D 4 (unbilled l), if pn_item l \<noteq> None then Some (d_fixed D 4 (pn_grniAccrued l - pn_grniCleared l)) else None))
          (filter (\<lambda>l. 0 < unbilled l) ls)"
      "list_all2 (\<lambda>x l. bx_account (fst x) = (if pn_item l \<noteq> None then Some g else case pn_account l of None \<Rightarrow> da | Some a \<Rightarrow> Some a)
          \<and> bx_account (fst x) \<noteq> None) new (filter (\<lambda>l. 0 < unbilled l) ls)"
      using Cons.IH [OF rest] by blast
    then show ?thesis using True a by (intro exI [of _ "drop (length acc) billed"]) (simp add: acc1)
  qed
qed simp

context posting_env
begin

lemma po_receive_Inr:
  assumes run: "po_receive E co user i received s = Inr (u, t)" and ok: "purchases_ok co s"
  obtains p net ls s1 s2 where "find_po co i s = Some p" and "gathered co (po_lines p) s (net, ls, s1)"
    and "post_receipt E co user p net s1 = Inr s2" and "ledger_ok s1"
    and "t = save_po (p\<lparr>po_lines := ls, po_status := deriveStatus False ls\<rparr>) s2"
proof -
  from run obtain p net ls s1 s2 where f: "find_po co i s = Some p"
    and fold: "foldE (receive_line E co user p (reclaims_input_tax co s)) ([], po_lines p, s) received = Inr (net, ls, s1)"
    and pr: "post_receipt E co user p net s1 = Inr s2"
    and t: "t = save_po (p\<lparr>po_lines := ls, po_status := deriveStatus False ls\<rparr>) s2"
    by (auto simp: po_receive_def transaction_Inr result_simps)
  have g: "gathered co (po_lines p) s (net, ls, s1)"
    by (rule receive_lines_gather [OF fold purchases_parts(1) [OF ok f]])
  then have "ledger_ok s1" using purchases_parts(2) [OF ok]
    by (auto simp: gathered_def intro!: ledger_ok_same [of _ s])
  then show thesis using that f g pr t by blast
qed

lemma po_receive_keeps:
  assumes run: "po_receive E co user i received s = Inr (u, t)" and ok: "purchases_ok co s"
  shows "purchases_ok co t"
proof -
  obtain p net ls s1 s2 where f: "find_po co i s = Some p" and g: "gathered co (po_lines p) s (net, ls, s1)"
    and pr: "post_receipt E co user p net s1 = Inr s2" and l1: "ledger_ok s1"
    and t: "t = save_po (p\<lparr>po_lines := ls, po_status := deriveStatus False ls\<rparr>) s2"
    using run ok by (rule po_receive_Inr)
  obtain its ms where s1: "s1 = s\<lparr>db_items := its, db_movements := db_movements s @ ms\<rparr>" using g by (auto simp: gathered_def)
  have net: "distinct (map fst net)" "fst ` set net \<subseteq> {ACCT_INVENTORY, ACCT_GRNI, ACCT_COGS}" "\<forall>n. money (at0 net n)"
    "at0 net ACCT_INVENTORY + at0 net ACCT_GRNI + at0 net ACCT_COGS = 0" "lines_ok ls"
    using g by (simp_all add: gathered_def)
  have pay1: "payables_ok co s1" by (rule payables_frame [where s = s, OF _ l1]) (use ok in \<open>simp_all add: purchases_ok_def s1\<close>)
  have pos: "db_pos s1 = db_pos s" "db_bills s1 = db_bills s" "db_proofs s1 = db_proofs s" "db_fresh s1 = db_fresh s" by (simp_all add: s1)
  have ok1: "purchases_ok co s1" using ok pay1 unfolding purchases_ok_def orders_ok_def links_ok_def pos by blast
  have mv: "moves_payable co 0 s1 s2" by (rule post_receipt_moves(1) [OF pr l1 net(1-4)])
  have m: "trade_db.more s2 = trade_db.more s1" and fr: "db_fresh s1 \<le> db_fresh s2" using mv by (simp_all only: moves_payable_def)
  have "side_kept s1 s2" using fr purchase_more [OF m] unfolding side_kept_def links_ok_def by metis
  then have "purchases_ok co s2" by (rule purchases_side [OF ok1 payables_moved [OF pay1 mv]])
  moreover from this have "ledger_ok t"
    by (intro ledger_ok_same [OF _ _ _ _ purchases_parts(2)]) (simp_all add: t save_po_def)
  ultimately show ?thesis
    by (rule orders_replaced [where p = "p\<lparr>po_lines := ls, po_status := deriveStatus False ls\<rparr>" and i = "po_id p"])
      (use net(5) in \<open>simp_all add: t save_po_def\<close>)
qed

lemma po_bill_Inr:
  assumes run: "po_createBill E co user i d s = Inr (b, t)"
  obtains p grni s1 s2 billed bd dd where "find_po co i s = Some p" and "getOrCreateSystemAccount co ACCT_GRNI s = Inr (grni, s1)"
    and "foldE (po_bill_line (dec E) (acc_id grni) (pq_defaultAccount d)) [] (po_lines p) = Inr billed" and "billed \<noteq> []"
    and "bill_createInTransaction E co user (po_bill_input_of p d bd dd (map fst billed)) (map (\<lambda>x. Some (snd x)) billed) s1 = Inr (b, s2)"
    and "t = save_po (p\<lparr>po_lines := map (billed_po_line (dec E)) (po_lines p),
           po_status := deriveStatus False (map (billed_po_line (dec E)) (po_lines p))\<rparr>) s2"
  using run by (fastforce simp: po_createBill_def transaction_Inr result_simps Let_def intro: that)

lemma po_bill_avoids:
  assumes f: "foldE (po_bill_line D g da) [] ls = Inr billed" and "g \<noteq> acc_id a" and "da \<noteq> Some (acc_id a)"
    and "\<forall>l \<in> set ls. pn_account l \<noteq> Some (acc_id a)" and "x \<in> set billed"
  shows "bx_account (fst x) \<noteq> Some (acc_id a)"
proof -
  have "list_all2 (\<lambda>x l. bx_account (fst x) = (if pn_item l \<noteq> None then Some g else case pn_account l of None \<Rightarrow> da | Some a \<Rightarrow> Some a)
          \<and> bx_account (fst x) \<noteq> None) billed (filter (\<lambda>l. 0 < unbilled l) ls)"
    using po_bill_lines [OF f] by auto
  then obtain l where "l \<in> set ls" "bx_account (fst x) = (if pn_item l \<noteq> None then Some g else case pn_account l of None \<Rightarrow> da | Some a \<Rightarrow> Some a)"
    using related_left [OF _ assms(5)] by fastforce
  then show ?thesis using assms(2-4) by (auto split: option.splits)
qed

lemma po_bill_links:
  assumes fold: "foldE (po_bill_line (dec E) g da) [] ls = Inr billed"
  shows "\<forall>k \<in> set (map (\<lambda>x. Some (snd x)) billed). \<forall>x. k = Some x \<longrightarrow> 0 \<le> lk_quantity x"
proof -
  have "lk_quantity (snd x) \<in> (\<lambda>l. d_fixed (dec E) 4 (unbilled l)) ` {l. 0 < unbilled l}" if "x \<in> set billed" for x
  proof -
    have "map (\<lambda>x. (lk_line (snd x), lk_quantity (snd x), lk_grni (snd x))) billed
      = map (\<lambda>l. (pn_id l, d_fixed (dec E) 4 (unbilled l), if pn_item l \<noteq> None then Some (d_fixed (dec E) 4 (pn_grniAccrued l - pn_grniCleared l)) else None))
          (filter (\<lambda>l. 0 < unbilled l) ls)"
      using po_bill_lines [OF fold] by auto
    from arg_cong [OF this, of "\<lambda>xs. fst ` snd ` set xs"] that show ?thesis by (fastforce simp: image_image)
  qed
  then show "\<forall>k \<in> set (map (\<lambda>x. Some (snd x)) billed). \<forall>x. k = Some x \<longrightarrow> 0 \<le> lk_quantity x"
    by (fastforce simp: fixed_nonneg)
qed

lemma po_bill_keeps:
  assumes run: "po_createBill E co user i d s = Inr (b, t)" and ok: "purchases_ok co s" and av: "order_avoids co i d ACCT_AP s"
  shows "purchases_ok co t"
proof -
  obtain p grni s1 s2 billed bd dd where f: "find_po co i s = Some p" and g: "getOrCreateSystemAccount co ACCT_GRNI s = Inr (grni, s1)"
    and fold: "foldE (po_bill_line (dec E) (acc_id grni) (pq_defaultAccount d)) [] (po_lines p) = Inr billed"
    and bc: "bill_createInTransaction E co user (po_bill_input_of p d bd dd (map fst billed)) (map (\<lambda>x. Some (snd x)) billed) s1 = Inr (b, s2)"
    and t: "t = save_po (p\<lparr>po_lines := map (billed_po_line (dec E)) (po_lines p),
           po_status := deriveStatus False (map (billed_po_line (dec E)) (po_lines p))\<rparr>) s2"
    using run by (rule po_bill_Inr)
  have l: "ledger_ok s" using purchases_parts(2) [OF ok] .
  note sb = system_account_books [OF g l payable_numbers(3)]
  have ok1: "purchases_ok co s1"
    by (rule purchases_side [OF ok payables_moved [OF _ same_books_moved [OF sb(1)]] account_side(1) [OF g]]) (use ok in \<open>simp add: purchases_ok_def\<close>)
  obtain ap where ap: "by_number s co ACCT_AP = Some ap" using ok by (auto simp: purchases_ok_def elim: payables_account)
  have "bx_account (fst x) \<noteq> Some (acc_id ap)" if "x \<in> set billed" for x
    by (rule po_bill_avoids [OF fold sb(2) [OF ap] _ _ that]) (use av f ap in \<open>auto simp: order_avoids_def\<close>)
  moreover have "by_number s1 co ACCT_AP = Some ap" using sb(1) ap by (simp add: same_books_def)
  ultimately have "input_avoids co (bc_lines (po_bill_input_of p d bd dd (map fst billed))) s1"
    by (auto simp: input_avoids_def po_bill_input_of_def)
  moreover have "payables_ok co s1" using ok1 by (simp add: purchases_ok_def)
  ultimately have pay: "payables_ok co s2" using create_bill_keeps [OF bc] by blast
  from create_bill_side [OF bc po_bill_links [OF fold]] have side: "side_kept s1 s2" .
  have ok2: "purchases_ok co s2" by (rule purchases_side [OF ok1 pay side])
  have lo: "lines_ok (map (billed_po_line (dec E)) (po_lines p))"
  proof -
    have "pn_id (billed_po_line (dec E) l) = pn_id l" for l by (simp add: billed_po_line_def)
    then show ?thesis using purchases_parts(1) [OF ok f] billed_line_ok(1) by (auto simp: lines_ok_def list_all_iff comp_def)
  qed
  have "ledger_ok t" using purchases_parts(2) [OF ok2] by (rule ledger_ok_same [rotated -1]) (simp_all add: t save_po_def)
  then show ?thesis
    by (rule orders_replaced [OF ok2, where p = "p\<lparr>po_lines := map (billed_po_line (dec E)) (po_lines p),
           po_status := deriveStatus False (map (billed_po_line (dec E)) (po_lines p))\<rparr>" and i = "po_id p"])
      (use lo in \<open>simp_all add: t save_po_def\<close>)
qed

lemma bill_delete_keeps:
  assumes run: "bill_deleteInTransaction E co i user s = Inr (u, t)" and ok: "purchases_ok co s"
  shows "purchases_ok co t"
proof -
  have pay: "payables_ok co t" using delete_bill_keeps [OF run] ok by (simp add: purchases_ok_def)
  obtain b s2 where f: "find_bill co i s = Some b" and side: "side_kept s s2"
    and t: "t = (releasePurchaseOrderBilling (dec E) co b s2)\<lparr>db_bills := filter (\<lambda>w. bi_id w \<noteq> i) (db_bills s2)\<rparr>"
    using delete_bill_side [OF run] by metis
  have lk: "linked_ok (bi_lines b)" using ok find_bill_Some [OF f] by (auto simp: purchases_ok_def links_ok_def)
  have rel: "lines_ok (foldl (\<lambda>ls bl. case bn_poLine bl of None \<Rightarrow> ls
                       | Some i \<Rightarrow> update_row pn_id i (released_line (dec E) bl) ls) ls bls)"
    if "lines_ok ls" "linked_ok bls" for ls bls
    using that
  proof (induction bls arbitrary: ls)
    case (Cons bl bls)
    have "lines_ok (update_row pn_id j (released_line (dec E) bl) ls)" for j
    proof -
      have "pn_id (released_line (dec E) bl l) = pn_id l" for l by (simp add: released_line_def)
      then have "map pn_id (update_row pn_id j (released_line (dec E) bl) ls) = map pn_id ls" by (auto simp: update_row_def)
      moreover have "po_line_ok (released_line (dec E) bl l)" if "l \<in> set ls" for l
        using Cons.prems that by (intro released_line_ok) (auto simp: lines_ok_def list_all_iff linked_ok_def)
      then have "list_all po_line_ok (update_row pn_id j (released_line (dec E) bl) ls)"
        using Cons.prems(1) by (auto simp: lines_ok_def list_all_iff update_row_def)
      ultimately show ?thesis using Cons.prems(1) by (simp add: lines_ok_def)
    qed
    then show ?case using Cons by (auto simp: linked_ok_def split: option.split)
  qed simp
  have pos: "db_pos s2 = db_pos s" using side by (simp add: side_kept_def)
  have "orders_ok co (releasePurchaseOrderBilling (dec E) co b s2)"
  proof (cases "Option.bind (bi_po b) (\<lambda>p. find_po co p s2)")
    case None
    then show ?thesis using ok pos by (simp add: releasePurchaseOrderBilling_def purchases_ok_def orders_ok_def)
  next
    case (Some p)
    then have "p \<in> set (db_pos s)" "po_company p = co" using pos by (auto simp: bind_eq_Some_conv dest: find_po_Some)
    then have "lines_ok (po_lines p)" using ok by (simp add: purchases_ok_def orders_ok_def)
    note rl = rel [OF this lk]
    have "orders_ok co s2" using ok pos by (simp add: purchases_ok_def orders_ok_def)
    then have "orders_ok co (save_po q s2)" if "po_lines q = foldl (\<lambda>ls bl. case bn_poLine bl of None \<Rightarrow> ls
                       | Some i \<Rightarrow> update_row pn_id i (released_line (dec E) bl) ls) (po_lines p) (bi_lines b)" for q
      by (rule orders_saved) (simp_all add: rl that)
    then show ?thesis by (simp add: releasePurchaseOrderBilling_def Some Let_def)
  qed
  moreover obtain ps where ps: "releasePurchaseOrderBilling (dec E) co b s2 = s2\<lparr>db_pos := ps\<rparr>" using release_frame by blast
  moreover have "pf_id x < db_fresh s2" if "x \<in> set (db_proofs s2)" for x
    using that side ok by (auto simp: side_kept_def purchases_ok_def intro: less_le_trans)
  moreover have "links_ok s2" using side ok by (simp add: side_kept_def purchases_ok_def)
  ultimately show ?thesis using pay by (auto simp: purchases_ok_def t links_ok_def orders_ok_def)
qed

end

end
