(* ===== verification/ReceiptLaws.thy ===== *)
theory ReceiptLaws
  imports OrderKeeps
begin

text \<open>
  What receiving and billing an order move in the books: account 2050 follows what the lines of the order have accrued and
  not cleared, and stock the values of its movements.
\<close>

definition account_typed :: "nat \<Rightarrow> string \<Rightarrow> acct_type \<Rightarrow> 'a ledger_db_scheme \<Rightarrow> bool" where
  "account_typed co n ty s \<longleftrightarrow> (\<forall>a. by_number s co n = Some a \<longrightarrow> acc_type a = ty)"

definition grni_of :: "nat \<Rightarrow> nat \<Rightarrow> 'a purchase_db_scheme \<Rightarrow> rat" where
  "grni_of co i s = (case find_po co i s of None \<Rightarrow> 0 | Some p \<Rightarrow> grni_open (po_lines p))"

lemma find_saved_po:
  assumes "find_po co i s = Some p" and "db_pos u = db_pos s" and "po_id q = i" and "po_company q = co"
  shows "find_po co i (save_po q u) = Some q"
proof -
  have "find (\<lambda>p. po_id p = i \<and> po_company p = co) (update_row po_id i (\<lambda>_. q) ps) = Some q"
    if "find (\<lambda>p. po_id p = i \<and> po_company p = co) ps = Some p" for ps
    using that assms(3,4) by (induction ps) (auto simp: update_row_def split: if_splits)
  then show ?thesis using assms by (simp add: find_po_def save_po_def)
qed

text \<open>What a receipt posts makes no account disappear, and moves no stock.\<close>

lemma account_kept:
  assumes "getOrCreateSystemAccount co n s = Inr (a, t)"
  shows "ledger_db.more t = ledger_db.more s" and "by_number s co' m \<noteq> None \<Longrightarrow> by_number t co' m \<noteq> None"
proof -
  have re: "by_number (s\<lparr>db_accounts := update_row acc_id j (acc_active_update (\<lambda>_. True)) (db_accounts s)\<rparr>) co' m \<noteq> None"
    if "by_number s co' m \<noteq> None" for j
    using that by (auto simp: by_number_def update_row_def find_map if_distrib cong: if_cong)
  have "ledger_db.more t = ledger_db.more s \<and> (by_number s co' m \<noteq> None \<longrightarrow> by_number t co' m \<noteq> None)"
  proof (cases "by_number s co n")
    case None
    then obtain a' where "t = save_account a' s"
      using assms unfolding getOrCreateSystemAccount_def None by (auto simp: some_or_Inr Let_def)
    then show ?thesis by (auto simp: save_account_def by_number_None)
  next
    case (Some b)
    then show ?thesis using assms re unfolding getOrCreateSystemAccount_def by (auto split: if_splits)
  qed
  then show "ledger_db.more t = ledger_db.more s" and "by_number s co' m \<noteq> None \<Longrightarrow> by_number t co' m \<noteq> None" by simp_all
qed

lemma receipt_lines_kept:
  assumes "foldE (receipt_entry_line D co num) (ls, s) net = Inr (ls', t)"
  shows "ledger_db.more t = ledger_db.more s \<and> (by_number s co m \<noteq> None \<longrightarrow> by_number t co m \<noteq> None)"
proof -
  let ?P = "\<lambda>(_ :: posting_line list, u). ledger_db.more u = ledger_db.more s \<and> (by_number s co m \<noteq> None \<longrightarrow> by_number u co m \<noteq> None)"
  from assms have "?P (ls', t)"
  proof (rule foldE_invariant)
    show "?P y" if "?P x" "receipt_entry_line D co num x c = Inr y" for x c y
      using that account_kept
      by (cases x; cases y; cases c) (fastforce simp: receipt_entry_line_def result_simps split: if_splits)
  qed simp
  then show ?thesis by simp
qed

lemma post_receipt_kept:
  assumes "post_receipt E co user p net s = Inr t"
  shows "ledger_db.more t = ledger_db.more s"
proof -
  from assms obtain ls s1 where f: "foldE (receipt_entry_line (dec E) co (po_number p)) ([], s) net = Inr (ls, s1)"
    and "t = s1 \<or> (\<exists>inp e. createEntry E s1 inp = Inr (e, t))"
    by (auto simp: post_receipt_def bindE_Inr map_sum_Inr split: if_splits)
  then show ?thesis using receipt_lines_kept [OF f] by (auto dest: createEntry_frame)
qed

lemma post_receipt_movements:
  "post_receipt E co user p net s = Inr t \<Longrightarrow> db_movements t = db_movements s"
  by (rule trade_more(4) [OF post_receipt_kept])

lemma post_receipt_accounts:
  assumes "post_receipt E co user p net s = Inr t" and "by_number s co m \<noteq> None"
  shows "by_number t co m \<noteq> None"
proof -
  from assms(1) obtain ls s1 where f: "foldE (receipt_entry_line (dec E) co (po_number p)) ([], s) net = Inr (ls, s1)"
    and "t = s1 \<or> (\<exists>inp e. createEntry E s1 inp = Inr (e, t))"
    by (auto simp: post_receipt_def bindE_Inr map_sum_Inr split: if_splits)
  moreover have "by_number t co m \<noteq> None" if "createEntry E s1 inp = Inr (e, t)" "by_number s1 co m \<noteq> None" for inp e
  proof -
    note h = that
    have "chart_row ` set (db_accounts t) = chart_row ` set (db_accounts s1)"
      using arg_cong [OF createEntry_chart [OF that(1)], of set] by simp
    moreover obtain a where a: "a \<in> set (db_accounts s1)" "acc_company a = co" "acc_number a = m"
      using h(2) by (auto simp: by_number_None)
    ultimately obtain b where "b \<in> set (db_accounts t)" "chart_row b = chart_row a" by (metis (no_types, lifting) image_iff)
    then show ?thesis using a by (auto simp: by_number_None chart_row_def)
  qed
  ultimately show ?thesis using receipt_lines_kept [OF f, of m] assms(2) by blast
qed

context posting_env
begin

section \<open>Receiving\<close>

lemma receipt_balances:
  assumes run: "po_receive E co user i received s = Inr (u, t)" and ok: "purchases_ok co s"
    and ty: "account_typed co ACCT_GRNI Liability t" "account_typed co ACCT_INVENTORY Asset t"
  shows "balance_of t co ACCT_GRNI - balance_of s co ACCT_GRNI = grni_of co i t - grni_of co i s"
    and "\<exists>ms. db_movements t = db_movements s @ ms \<and> balance_of t co ACCT_INVENTORY - balance_of s co ACCT_INVENTORY = moved_value co ms"
proof -
  obtain p net ls s1 s2 where f: "find_po co i s = Some p" and g: "gathered co (po_lines p) s (net, ls, s1)"
    and pr: "post_receipt E co user p net s1 = Inr s2" and l1: "ledger_ok s1"
    and t: "t = save_po (p\<lparr>po_lines := ls, po_status := deriveStatus False ls\<rparr>) s2"
    using run ok by (rule po_receive_Inr)
  obtain its ms where s1: "s1 = s\<lparr>db_items := its, db_movements := db_movements s @ ms\<rparr>" and mv: "moved_value co ms = at0 net ACCT_INVENTORY"
    using g by (auto simp: gathered_def)
  have net: "distinct (map fst net)" "fst ` set net \<subseteq> {ACCT_INVENTORY, ACCT_GRNI, ACCT_COGS}" "\<forall>n. money (at0 net n)"
    "at0 net ACCT_INVENTORY + at0 net ACCT_GRNI + at0 net ACCT_COGS = 0" "- at0 net ACCT_GRNI = grni_open ls - grni_open (po_lines p)"
    using g by (simp_all add: gathered_def)
  note pm = post_receipt_moves [OF pr l1 net(1-4)]
  have moved: "balance_of t co n - balance_of s co n = signedDelta ty (at0 net n) 0" if "account_typed co n ty t" for n ty
  proof (cases "by_number t co n")
    case None
    then have "by_number s2 co n = None" by (simp add: t by_number_def save_po_def)
    moreover from this have "at0 net n = 0" using pm(4) by blast
    moreover have "by_number s co n = None"
    proof (rule ccontr)
      assume "by_number s co n \<noteq> None"
      then have "by_number s1 co n \<noteq> None" by (simp add: s1 by_number_def)
      then show False using post_receipt_accounts [OF pr] \<open>by_number s2 co n = None\<close> by blast
    qed
    ultimately show ?thesis using None by (simp add: balance_of_def signedDelta_def)
  next
    case (Some a)
    then have "by_number s2 co n = Some a" by (simp add: t by_number_def save_po_def)
    from pm(3) [OF this] have "balance_of s2 co n = balance_of s1 co n + signedDelta ty (at0 net n) 0"
      using that Some by (simp add: account_typed_def)
    then show ?thesis by (simp add: t s1 balance_of_def by_number_def save_po_def)
  qed
  have "db_pos s2 = db_pos s"
    using moves_payableD(6) [OF pm(1)] by (simp add: s1)
  then have "find_po co i t = Some (p\<lparr>po_lines := ls, po_status := deriveStatus False ls\<rparr>)"
    unfolding t using find_po_Some [OF f] by (intro find_saved_po [OF f]) simp_all
  then show "balance_of t co ACCT_GRNI - balance_of s co ACCT_GRNI = grni_of co i t - grni_of co i s"
    using moved [OF ty(1)] net(5) f by (simp add: grni_of_def signedDelta_def)
  have "db_movements s2 = db_movements s1" using post_receipt_movements [OF pr] .
  then show "\<exists>ms. db_movements t = db_movements s @ ms \<and> balance_of t co ACCT_INVENTORY - balance_of s co ACCT_INVENTORY = moved_value co ms"
    using moved [OF ty(2)] mv by (intro exI [of _ ms]) (simp add: t save_po_def s1 signedDelta_def)
qed

section \<open>Billing\<close>

lemma grni_numbers: "ACCT_GRNI \<noteq> ACCT_INPUT_TAX" "ACCT_GRNI \<noteq> ACCT_AP"
  by (simp_all add: ACCT_GRNI_def ACCT_INPUT_TAX_def ACCT_AP_def)

lemma journal_grni:
  assumes run: "createJournalEntryForBill E b user s = Inr (b', t)" and ok: "ledger_ok s"
    and g: "by_number s (bi_company b) ACCT_GRNI = Some g"
  shows "by_number t (bi_company b) ACCT_GRNI = Some (g\<lparr>acc_balance := acc_balance g
      + input_effect (dec E) (map (bill_line_debit (dec E) (reclaims_input_tax (bi_company b) s)) (bi_lines b)) g\<rparr>)"
proof -
  let ?co = "bi_company b" and ?reclaim = "reclaims_input_tax (bi_company b) s"
  from run obtain ap vl tx s1 e t1 where
    ap: "by_number s ?co ACCT_AP = Some ap"
    and vl: "variance_lines (dec E) ?co (bi_number b) (bill_variance ?reclaim (bi_lines b)) s = Inr vl"
    and tx: "input_tax_lines (dec E) ?co (bi_number b) ?reclaim (foldl (\<lambda>t l. t + bn_taxAmount l) 0 (bi_lines b)) s = Inr (tx, s1)"
    and ce: "createEntry E s1
          \<lparr>pi_company = ?co, pi_date = bi_date b, pi_memo = Some (''Bill '' @ bi_number b), pi_createdBy = user,
           pi_lines = number_lines (map (bill_line_debit (dec E) ?reclaim) (bi_lines b) @ vl @ tx
             @ [post_line (acc_id ap) (Some (''Bill '' @ bi_number b)) 0 (bi_total b)]),
           pi_posted = True, pi_sourceType = Some ''bill'', pi_sourceId = Some (bi_id b), pi_reversalOf = None\<rparr> = Inr (e, t1)"
    and t: "t = save_bill b' t1"
    by (auto simp: createJournalEntryForBill_def result_simps Let_def getByNumber_Inr)
  have "pl_account l \<noteq> acc_id g" if "l \<in> set vl" for l
    using vl that by_number_ids [OF ok g _ po_numbers_differ(2)]
    by (auto simp: variance_lines_def result_simps post_line_def getByNumber_Inr split: if_splits)
  then have v0: "input_effect (dec E) vl g = 0" by (rule input_effect_absent)
  have a0: "acc_id ap \<noteq> acc_id g" using by_number_ids [OF ok g ap grni_numbers(2)] by simp
  have "by_number s1 ?co ACCT_GRNI = Some g \<and> ledger_ok s1 \<and> input_effect (dec E) tx g = 0"
  proof (cases "?reclaim \<and> 0 < foldl (\<lambda>t l. t + bn_taxAmount l) 0 (bi_lines b)")
    case True
    then obtain a d x where o1: "getOrCreateSystemAccount ?co ACCT_INPUT_TAX s = Inr (a, s1)" and "tx = [post_line (acc_id a) d x 0]"
      using tx unfolding input_tax_lines_def if_P [OF True] by (auto simp: result_simps)
    then show ?thesis
      using getOrCreate_other [OF o1 ok g grni_numbers(1)] getOrCreateSystemAccount_keeps(1) [OF o1 ok] by (simp add: input_effect_single)
  next
    case False
    then show ?thesis using tx ok g unfolding input_tax_lines_def if_not_P [OF False] by (auto simp: input_effect_def)
  qed
  then show ?thesis
    using posted_balances [OF ce, of ?co ACCT_GRNI] v0 a0
    by (simp add: t by_number_def save_bill_def input_effect_numbered input_effect_append input_effect_single)
qed

end

lemma checked_accounts:
  assumes "checked_totals D co inputs s = Inr tot"
  shows "list_all2 (\<lambda>bl x. \<forall>a. bx_account x = Some a \<longrightarrow> bn_account bl = a) (bt_lines tot) inputs"
  using assms
  by (auto simp: checked_totals_def result_simps Let_def bill_computeTotals_def case_prod_unfold list_all2_conv_all_nth
      nth_enumerate_eq bill_line_of_def resolve_line_def)

text \<open>The bill of an order has one line for each line with something to bill, in order.\<close>

definition bills_line :: "nat \<Rightarrow> nat option \<Rightarrow> decimal_js \<Rightarrow> bill_line \<Rightarrow> po_line \<Rightarrow> bool" where
  "bills_line g da D bl l \<longleftrightarrow> bn_poLine bl = Some (pn_id l) \<and> bn_quantity bl = Some (d_fixed D 4 (unbilled l))
     \<and> bn_grni bl = (if pn_item l \<noteq> None then Some (d_fixed D 4 (pn_grniAccrued l - pn_grniCleared l)) else None)
     \<and> Some (bn_account bl) = (if pn_item l \<noteq> None then Some g else case pn_account l of None \<Rightarrow> da | Some a \<Rightarrow> Some a)"

lemma order_bill_lines:
  assumes f: "foldE (po_bill_line D g da) [] ls = Inr billed" and ct: "checked_totals D co (map fst billed) s = Inr tot"
  shows "list_all2 (bills_line g da D) (map (linked_line (map (\<lambda>x. Some (snd x)) billed)) (enumerate 0 (bt_lines tot)))
     (filter (\<lambda>l. 0 < unbilled l) ls)"
proof -
  let ?us = "filter (\<lambda>l. 0 < unbilled l) ls"
  have m: "map (\<lambda>x. (lk_line (snd x), lk_quantity (snd x), lk_grni (snd x))) billed
      = map (\<lambda>l. (pn_id l, d_fixed D 4 (unbilled l), if pn_item l \<noteq> None then Some (d_fixed D 4 (pn_grniAccrued l - pn_grniCleared l)) else None)) ?us"
    and a: "list_all2 (\<lambda>x l. bx_account (fst x) = (if pn_item l \<noteq> None then Some g else case pn_account l of None \<Rightarrow> da | Some a \<Rightarrow> Some a)
          \<and> bx_account (fst x) \<noteq> None) billed ?us"
    using po_bill_lines [OF f] by auto
  have len: "length billed = length ?us" using a by (rule list_all2_lengthD)
  have c: "list_all2 (\<lambda>bl x. \<forall>a. bx_account x = Some a \<longrightarrow> bn_account bl = a) (bt_lines tot) (map fst billed)"
    using ct by (rule checked_accounts)
  then have len': "length (bt_lines tot) = length billed" by (auto dest: list_all2_lengthD)
  have "bills_line g da D (linked_line (map (\<lambda>x. Some (snd x)) billed) (i, bt_lines tot ! i)) (?us ! i)" if i: "i < length billed" for i
  proof -
    have q: "(lk_line (snd (billed ! i)), lk_quantity (snd (billed ! i)), lk_grni (snd (billed ! i)))
        = (pn_id (?us ! i), d_fixed D 4 (unbilled (?us ! i)),
           if pn_item (?us ! i) \<noteq> None then Some (d_fixed D 4 (pn_grniAccrued (?us ! i) - pn_grniCleared (?us ! i))) else None)"
      using arg_cong [OF m, of "\<lambda>xs. xs ! i"] i len by simp
    note ai = list_all2_nthD [OF a i]
    then obtain acc where acc1: "bx_account (fst (billed ! i)) = Some acc" by blast
    then have acc: "bx_account (fst (billed ! i)) = Some acc"
      "(if pn_item (?us ! i) \<noteq> None then Some g else case pn_account (?us ! i) of None \<Rightarrow> da | Some a \<Rightarrow> Some a) = Some acc"
      using conjunct1 [OF ai] by simp_all
    have "bn_account (bt_lines tot ! i) = acc" using list_all2_nthD [OF c, of i] i len' acc(1) by simp
    then show ?thesis
      using q acc(2) i by (simp add: bills_line_def linked_line_def)
  qed
  then show ?thesis using len len' by (simp add: list_all2_conv_all_nth nth_enumerate_eq)
qed

context decimal_lib
begin

lemma order_bill_effect:
  assumes "list_all2 (bills_line (acc_id g) da D) bls us" and "acc_type g = Liability"
    and "\<forall>l \<in> set us. po_line_ok l \<and> pn_account l \<noteq> Some (acc_id g)" and "da \<noteq> Some (acc_id g)"
  shows "input_effect D (map (bill_line_debit D reclaim) bls) g
     = - (\<Sum>l\<leftarrow>us. if pn_item l \<noteq> None then pn_grniAccrued l - pn_grniCleared l else 0)"
  using assms
proof (induction rule: list_all2_induct)
  case Nil
  then show ?case by (simp add: input_effect_def)
next
  case (Cons bl bls l us)
  have "input_effect D [bill_line_debit D reclaim bl] g = - (if pn_item l \<noteq> None then pn_grniAccrued l - pn_grniCleared l else 0)"
  proof (cases "pn_item l = None")
    case True
    then have "bn_account bl \<noteq> acc_id g" using Cons.hyps(1) Cons.prems(2,3) by (auto simp: bills_line_def split: option.splits)
    then show ?thesis using True by (simp add: bill_line_debit_def input_effect_single)
  next
    case False
    have "money (pn_grniAccrued l - pn_grniCleared l)" using Cons.prems(2) by (simp add: po_line_ok_def on_grid_diff)
    from fixed_id [OF this] show ?thesis
      using Cons.hyps(1) Cons.prems(1) False by (auto simp: bills_line_def bill_line_debit_def input_effect_single signedDelta_def)
  qed
  then show ?case
    using Cons input_effect_append [of D "[bill_line_debit D reclaim bl]" "map (bill_line_debit D reclaim) bls" g] by simp
qed

lemma billed_open:
  assumes "lines_ok ls"
  shows "grni_open (map (billed_po_line D) ls) = grni_open ls
     - (\<Sum>l\<leftarrow>filter (\<lambda>l. 0 < unbilled l) ls. if pn_item l \<noteq> None then pn_grniAccrued l - pn_grniCleared l else 0)"
proof -
  have "\<forall>l \<in> set ls. po_line_ok l" using assms by (simp add: lines_ok_def list_all_iff)
  then show ?thesis
  proof (induction ls)
    case (Cons l ls)
    have ok: "po_line_ok l" using Cons.prems by simp
    show ?case
    proof (cases "0 < unbilled l")
      case True
      then show ?thesis using Cons billed_line_ok(2) [OF ok True] by (simp add: grni_open_def)
    next
      case False
      then show ?thesis using Cons by (simp add: grni_open_def billed_po_line_def)
    qed
  qed (simp add: grni_open_def)
qed

end

text \<open>What billing an order does to account 2050, to the order and to the lines of the bill.\<close>

context posting_env
begin

lemma order_bill_balances:
  assumes run: "po_createBill E co user i d s = Inr (b, t)" and ok: "purchases_ok co s"
    and gs: "by_number s co ACCT_GRNI = Some gs" "acc_type gs = Liability" and av: "order_avoids co i d ACCT_GRNI s"
  shows "balance_of t co ACCT_GRNI - balance_of s co ACCT_GRNI = grni_of co i t - grni_of co i s"
    and "\<exists>p g. find_po co i s = Some p \<and> find_po co i t = Some (p\<lparr>po_lines := map (billed_po_line (dec E)) (po_lines p),
           po_status := deriveStatus False (map (billed_po_line (dec E)) (po_lines p))\<rparr>)
      \<and> list_all2 (bills_line g (pq_defaultAccount d) (dec E)) (bi_lines b) (filter (\<lambda>l. 0 < unbilled l) (po_lines p))
      \<and> bi_vendor b = po_vendor p \<and> bi_po b = Some i \<and> bi_lines b \<noteq> []"
proof -
  obtain p grni s1 s2 billed bd dd where f: "find_po co i s = Some p" and g: "getOrCreateSystemAccount co ACCT_GRNI s = Inr (grni, s1)"
    and fold: "foldE (po_bill_line (dec E) (acc_id grni) (pq_defaultAccount d)) [] (po_lines p) = Inr billed" and ne: "billed \<noteq> []"
    and bc: "bill_createInTransaction E co user (po_bill_input_of p d bd dd (map fst billed)) (map (\<lambda>x. Some (snd x)) billed) s1 = Inr (b, s2)"
    and t: "t = save_po (p\<lparr>po_lines := map (billed_po_line (dec E)) (po_lines p),
           po_status := deriveStatus False (map (billed_po_line (dec E)) (po_lines p))\<rparr>) s2"
    using run by (rule po_bill_Inr)
  let ?d = "po_bill_input_of p d bd dd (map fst billed)" and ?links = "map (\<lambda>x. Some (snd x)) billed"
  let ?us = "filter (\<lambda>l. 0 < unbilled l) (po_lines p)"
  note p = find_po_Some [OF f]
  have l: "ledger_ok s" using purchases_parts(2) [OF ok] .
  have l1: "ledger_ok s1" using getOrCreateSystemAccount_keeps(1) [OF g l] .
  have lo: "lines_ok (po_lines p)" using purchases_parts(1) [OF ok f] .
  note gf = getOrCreate_found [OF g]
  have "acc_id grni = acc_id gs \<and> acc_type grni = acc_type gs"
    using g unfolding getOrCreateSystemAccount_def gs(1) by (auto split: if_splits)
  then have gl: "acc_type grni = Liability" and gi: "acc_id grni = acc_id gs" using gs(2) by simp_all
  from bc obtain number u tot where n: "bill_number_for co ?d s1 = Inr (number, u)"
    and ct: "checked_totals (dec E) co (map fst billed) u = Inr tot"
    and rest: "bindE (createJournalEntryForBill E (new_bill co ?d number tot ?links u) user
          (u\<lparr>db_bills := db_bills u @ [new_bill co ?d number tot ?links u], db_fresh := Suc (db_fresh u)\<rparr>)) (\<lambda>(b', s3).
             Inr (b', add_vendor_balance (dec E) co (bc_vendor ?d) (bi_total (new_bill co ?d number tot ?links u)) s3)) = Inr (b, s2)"
    by (auto simp: bill_createInTransaction_def result_simps Let_def po_bill_input_of_def new_bill_def)
  define b0 where "b0 = new_bill co ?d number tot ?links u"
  define v where "v = u\<lparr>db_bills := db_bills u @ [b0], db_fresh := Suc (db_fresh u)\<rparr>"
  obtain s3 where j: "createJournalEntryForBill E b0 user v = Inr (b, s3)"
    and s2: "s2 = add_vendor_balance (dec E) co (bc_vendor ?d) (bi_total b0) s3"
    using rest by (auto simp: b0_def v_def result_simps)
  obtain q where u: "u = s1\<lparr>db_sequences := q\<rparr>" using bill_number_frame [OF n] by blast
  have lv: "ledger_ok v" using l1 by (rule ledger_ok_same [rotated -1]) (simp_all add: v_def u)
  have gv: "by_number v co ACCT_GRNI = Some grni" using gf(1) by (simp add: v_def u by_number_def)
  have b0: "bi_company b0 = co" "bi_vendor b0 = po_vendor p" "bi_po b0 = Some (po_id p)"
    "bi_lines b0 = map (linked_line ?links) (enumerate 0 (bt_lines tot))"
    by (simp_all add: b0_def new_bill_def po_bill_input_of_def)
  have bb: "bi_lines b = bi_lines b0" "bi_vendor b = bi_vendor b0" "bi_po b = bi_po b0"
    using j by (auto simp: createJournalEntryForBill_def result_simps Let_def)
  have rel: "list_all2 (bills_line (acc_id grni) (pq_defaultAccount d) (dec E)) (bi_lines b) ?us"
    unfolding bb b0 by (rule order_bill_lines [OF fold ct])
  have nog: "pq_defaultAccount d \<noteq> Some (acc_id grni) \<and> (\<forall>l \<in> set (po_lines p). pn_account l \<noteq> Some (acc_id grni))"
    using av f gs(1) unfolding gi by (simp add: order_avoids_def)
  have eff: "input_effect (dec E) (map (bill_line_debit (dec E) (reclaims_input_tax co v)) (bi_lines b0)) grni
     = - (\<Sum>l\<leftarrow>?us. if pn_item l \<noteq> None then pn_grniAccrued l - pn_grniCleared l else 0)"
    by (rule order_bill_effect [OF rel [unfolded bb(1)] gl]) (use nog lo in \<open>auto simp: lines_ok_def list_all_iff\<close>)
  have "by_number s3 co ACCT_GRNI = Some (grni\<lparr>acc_balance := acc_balance grni
      - (\<Sum>l\<leftarrow>?us. if pn_item l \<noteq> None then pn_grniAccrued l - pn_grniCleared l else 0)\<rparr>)"
    using journal_grni [OF j lv] gv eff by (simp add: b0)
  then have bal: "balance_of t co ACCT_GRNI = balance_of s co ACCT_GRNI
      - (\<Sum>l\<leftarrow>?us. if pn_item l \<noteq> None then pn_grniAccrued l - pn_grniCleared l else 0)"
    using gf(2) by (simp add: t s2 balance_of_def by_number_def save_po_def add_vendor_balance_def)
  have "side_kept s1 s2" by (rule create_bill_side [OF bc po_bill_links [OF fold]])
  then have "db_pos s2 = db_pos s" using account_side(1) [OF g] by (simp add: side_kept_def)
  then have ft: "find_po co i t = Some (p\<lparr>po_lines := map (billed_po_line (dec E)) (po_lines p),
           po_status := deriveStatus False (map (billed_po_line (dec E)) (po_lines p))\<rparr>)"
    unfolding t using p by (intro find_saved_po [OF f]) simp_all
  show "balance_of t co ACCT_GRNI - balance_of s co ACCT_GRNI = grni_of co i t - grni_of co i s"
    using bal ft f billed_open [OF lo] by (simp add: grni_of_def)
  have "length (bi_lines b) = length billed" using list_all2_lengthD [OF rel] po_bill_lines [OF fold] by (auto dest: list_all2_lengthD)
  then have "bi_lines b \<noteq> []" using ne by auto
  then show "\<exists>p g. find_po co i s = Some p \<and> find_po co i t = Some (p\<lparr>po_lines := map (billed_po_line (dec E)) (po_lines p),
           po_status := deriveStatus False (map (billed_po_line (dec E)) (po_lines p))\<rparr>)
      \<and> list_all2 (bills_line g (pq_defaultAccount d) (dec E)) (bi_lines b) (filter (\<lambda>l. 0 < unbilled l) (po_lines p))
      \<and> bi_vendor b = po_vendor p \<and> bi_po b = Some i \<and> bi_lines b \<noteq> []"
    using f ft rel bb b0 p by auto
qed

end

end
