(* ===== verification/Purchases.thy ===== *)
theory Purchases
  imports ReceiptLaws
begin

text \<open>
  The purchase side of a company as a whole: the steps its orders, bills and vendor credits take, and what holds after any
  run of them. The arithmetic is one and the same in every step, and the day may differ.
\<close>

section \<open>The steps\<close>

inductive purchase_step :: "decimal_js \<Rightarrow> nat \<Rightarrow> 'a purchase_db_scheme \<Rightarrow> 'a purchase_db_scheme \<Rightarrow> bool"
  for D :: decimal_js and co :: nat where
  entered: "dec E = D \<Longrightarrow> bill_create E co user d s = Inr (b, t) \<Longrightarrow> input_avoids co (bc_lines d) s \<Longrightarrow> purchase_step D co s t"
| edited: "dec E = D \<Longrightarrow> bill_update E co i u s = Inr (b, t) \<Longrightarrow> \<forall>ls. bu_lines u = Some ls \<longrightarrow> input_avoids co ls s \<Longrightarrow>
    purchase_step D co s t"
| posted: "dec E = D \<Longrightarrow> bill_post E co i user s = Inr (b, t) \<Longrightarrow> purchase_step D co s t"
| paid: "dec E = D \<Longrightarrow> bill_pay E co user pd s = Inr (p, t) \<Longrightarrow> \<forall>(i, x) \<in> set (pb_applications pd). money x \<Longrightarrow>
    purchase_step D co s t"
| removed: "dec E = D \<Longrightarrow> bill_delete E co i user s = Inr (x, t) \<Longrightarrow> purchase_step D co s t"
| settled: "dec E = D \<Longrightarrow> bill_settle E co user sd s = Inr (r, t) \<Longrightarrow> \<forall>c \<in> set (sbi_credits sd). money (vu_amount c) \<Longrightarrow>
    \<forall>(i, x) \<in> set (cash_applications sd). money x \<Longrightarrow> purchase_step D co s t"
| credited: "dec E = D \<Longrightarrow> vendor_credit_create E co user cd s = Inr (c, t) \<Longrightarrow> credit_avoids co (vd_lines cd) s \<Longrightarrow>
    purchase_step D co s t"
| used: "dec E = D \<Longrightarrow> applyToBill E co i j amt s = Inr (c, t) \<Longrightarrow> money amt \<Longrightarrow> purchase_step D co s t"
| voided: "dec E = D \<Longrightarrow> vendor_credit_void E co i user s = Inr (c, t) \<Longrightarrow> purchase_step D co s t"
| dropped: "dec E = D \<Longrightarrow> vendor_credit_delete E co i user s = Inr (x, t) \<Longrightarrow> purchase_step D co s t"
| uploaded: "createPaymentProof put co user mime name sz s = (f, t) \<Longrightarrow> purchase_step D co s t"
| ordered: "po_create D co un od s = Inr (p, t) \<Longrightarrow> ordered_nonneg od \<Longrightarrow> purchase_step D co s t"
| reordered: "po_update D co i od s = Inr (p, t) \<Longrightarrow> ordered_nonneg od \<Longrightarrow> purchase_step D co s t"
| unordered: "po_delete co i s = Inr (x, t) \<Longrightarrow> purchase_step D co s t"
| moved: "po_updateStatus co i target s = Inr (x, t) \<Longrightarrow> purchase_step D co s t"
| received: "dec E = D \<Longrightarrow> po_receive E co user i rs s = Inr (x, t) \<Longrightarrow> purchase_step D co s t"
| billed: "dec E = D \<Longrightarrow> po_createBill E co user i qd s = Inr (b, t) \<Longrightarrow> order_avoids co i qd ACCT_AP s \<Longrightarrow> purchase_step D co s t"

text \<open>A company starts buying with a chart of accounts and vendors that are owed nothing.\<close>

definition opening_purchases :: "nat \<Rightarrow> 'a purchase_db_scheme \<Rightarrow> bool" where
  "opening_purchases co s \<longleftrightarrow>
     ledger_ok s \<and> db_bills s = [] \<and> db_vendorCredits s = [] \<and> db_pos s = [] \<and> distinct (map ve_id (db_vendors s))
     \<and> (\<forall>v \<in> set (db_vendors s). ve_companyId v = co \<longrightarrow> ve_balance v = 0) \<and> (\<forall>f \<in> set (db_proofs s). pf_id f < db_fresh s)
     \<and> (\<exists>ap. by_number s co ACCT_AP = Some ap \<and> acc_type ap = Liability \<and> acc_balance ap = 0)"

inductive purchase_reachable :: "decimal_js \<Rightarrow> nat \<Rightarrow> 'a purchase_db_scheme \<Rightarrow> bool"
  for D :: decimal_js and co :: nat where
  start: "opening_purchases co s \<Longrightarrow> purchase_reachable D co s"
| step: "purchase_reachable D co s \<Longrightarrow> purchase_step D co s t \<Longrightarrow> purchase_reachable D co t"

lemma opening_ok:
  assumes "opening_purchases co s"
  shows "purchases_ok co s"
proof -
  have "vendor_total co vs = 0" if "\<forall>v \<in> set vs. ve_companyId v = co \<longrightarrow> ve_balance v = 0" for vs
    using that by (induction vs) (auto simp: vendor_total_def)
  then show ?thesis
    using assms by (auto simp: opening_purchases_def purchases_ok_def payables_ok_def orders_ok_def links_ok_def keyed_def
        vendors_total_def billed_to_def credited_to_def)
qed

text \<open>A step keeps everything, and a proof once spent stays spent.\<close>

definition step_ok :: "nat \<Rightarrow> 'a purchase_db_scheme \<Rightarrow> 'a purchase_db_scheme \<Rightarrow> bool" where
  "step_ok co s t \<longleftrightarrow> purchases_ok co t \<and> (\<forall>i. spent i s \<longrightarrow> spent i t)"

lemma step_side: "purchases_ok co s \<Longrightarrow> payables_ok co t \<Longrightarrow> side_kept s t \<Longrightarrow> step_ok co s t"
  using purchases_side [of co s t] side_pay [of s t] by (simp add: step_ok_def pay_side_def)

lemma step_pay:
  "purchases_ok co s \<Longrightarrow> payables_ok co t \<Longrightarrow> pay_side s t \<Longrightarrow> map pf_id (db_proofs t) = map pf_id (db_proofs s) \<Longrightarrow> step_ok co s t"
  using purchases_pay [of co s t] by (simp add: step_ok_def pay_side_def)

lemma step_proofs: "purchases_ok co t \<Longrightarrow> db_proofs t = db_proofs s \<Longrightarrow> db_fresh s \<le> db_fresh t \<Longrightarrow> step_ok co s t"
  by (auto simp: step_ok_def spent_def)

lemma upload_keeps:
  assumes run: "createPaymentProof put co user mime name sz s = (f, t)" and ok: "purchases_ok co s"
  shows "step_ok co s t"
proof -
  obtain ps where t: "t = s\<lparr>db_fresh := Suc (db_fresh s), db_proofs := db_proofs s @ [ps]\<rparr>" "pf_id ps = db_fresh s"
  proof -
    have "db_fresh s \<notin> pf_id ` set (db_proofs s)" using ok by (auto simp: purchases_ok_def)
    then have u: "update_row pf_id (db_fresh s) h (db_proofs s @ [r]) = db_proofs s @ [h r]" if "pf_id r = db_fresh s" for h r
      using that update_row_absent [of "db_fresh s" pf_id "db_proofs s" h] by (simp add: update_row_def)
    have "t = s\<lparr>db_fresh := Suc (db_fresh s), db_proofs := db_proofs s @ [last (db_proofs t)]\<rparr> \<and> pf_id (last (db_proofs t)) = db_fresh s"
    proof (cases "put (db_fresh s)")
      case (Inl e)
      then show ?thesis using run by (auto simp: createPaymentProof_def Let_def)
    next
      case (Inr r)
      then show ?thesis using run by (cases r) (auto simp: createPaymentProof_def Let_def u)
    qed
    then show thesis using that by blast
  qed
  have l: "ledger_ok t" using purchases_parts(2) [OF ok] by (rule ledger_ok_same [rotated -1]) (simp_all add: t)
  have "payables_ok co t" by (rule payables_frame [where s = s, OF _ l]) (use ok in \<open>simp_all add: purchases_ok_def t\<close>)
  then show ?thesis using ok t(2) by (auto simp: step_ok_def purchases_ok_def orders_ok_def links_ok_def spent_def t(1) less_Suc_eq)
qed

lemma purchase_env: "decimal_lib D \<Longrightarrow> dec E = D \<Longrightarrow> posting_env E"
  by (simp add: posting_env_def)

context posting_env
begin

lemma receive_step:
  assumes run: "po_receive E co user i received s = Inr (u, t)" and ok: "purchases_ok co s"
  shows "step_ok co s t"
proof (rule step_proofs [OF po_receive_keeps [OF run ok]])
  obtain p net ls s1 s2 where g: "gathered co (po_lines p) s (net, ls, s1)" and pr: "post_receipt E co user p net s1 = Inr s2"
    and l1: "ledger_ok s1" and t: "t = save_po (p\<lparr>po_lines := ls, po_status := deriveStatus False ls\<rparr>) s2"
    using run ok by (rule po_receive_Inr)
  obtain its ms where s1: "s1 = s\<lparr>db_items := its, db_movements := ms\<rparr>" using g by (auto simp: gathered_def)
  have net: "distinct (map fst net)" "fst ` set net \<subseteq> {ACCT_INVENTORY, ACCT_GRNI, ACCT_COGS}" "\<forall>n. money (at0 net n)"
    "at0 net ACCT_INVENTORY + at0 net ACCT_GRNI + at0 net ACCT_COGS = 0" using g by (simp_all add: gathered_def)
  note mv = post_receipt_moves(1) [OF pr l1 net]
  then have m: "trade_db.more s2 = trade_db.more s1" by (simp add: moves_payable_def)
  show "db_proofs t = db_proofs s" using purchase_more(4) [OF m] by (simp add: t save_po_def s1)
  show "db_fresh s \<le> db_fresh t" using moves_payableD(7) [OF mv] by (simp add: t save_po_def s1)
qed

lemma order_bill_step:
  assumes run: "po_createBill E co user i d s = Inr (b, t)" and ok: "purchases_ok co s" and av: "order_avoids co i d ACCT_AP s"
  shows "step_ok co s t"
proof (rule step_proofs [OF po_bill_keeps [OF run ok av]])
  obtain p grni s1 s2 billed bd dd where g: "getOrCreateSystemAccount co ACCT_GRNI s = Inr (grni, s1)"
    and fold: "foldE (po_bill_line (dec E) (acc_id grni) (pq_defaultAccount d)) [] (po_lines p) = Inr billed"
    and bc: "bill_createInTransaction E co user (po_bill_input_of p d bd dd (map fst billed)) (map (\<lambda>x. Some (snd x)) billed) s1 = Inr (b, s2)"
    and t: "t = save_po (p\<lparr>po_lines := map (billed_po_line (dec E)) (po_lines p),
           po_status := deriveStatus False (map (billed_po_line (dec E)) (po_lines p))\<rparr>) s2"
    using run by (rule po_bill_Inr)
  have "side_kept s s2" using account_side(1) [OF g] create_bill_side [OF bc po_bill_links [OF fold]] side_trans by blast
  then show "db_proofs t = db_proofs s" "db_fresh s \<le> db_fresh t" by (simp_all add: t save_po_def side_kept_def)
qed

lemma delete_bill_step:
  assumes run: "bill_deleteInTransaction E co i user s = Inr (u, t)" and ok: "purchases_ok co s"
  shows "step_ok co s t"
proof (rule step_proofs [OF bill_delete_keeps [OF run ok]])
  obtain b s2 where side: "side_kept s s2"
    and t: "t = (releasePurchaseOrderBilling (dec E) co b s2)\<lparr>db_bills := filter (\<lambda>w. bi_id w \<noteq> i) (db_bills s2)\<rparr>"
    using delete_bill_side [OF run] by metis
  obtain ps where ps: "releasePurchaseOrderBilling (dec E) co b s2 = s2\<lparr>db_pos := ps\<rparr>" using release_frame by blast
  show "db_proofs t = db_proofs s" "db_fresh s \<le> db_fresh t" using side by (simp_all add: t ps side_kept_def)
qed

end

lemma keeps_purchases:
  assumes D: "decimal_lib D" and st: "purchase_step D co s t" and ok: "purchases_ok co s"
  shows "step_ok co s t"
proof -
  have pay: "payables_ok co s" and fr: "\<forall>f \<in> set (db_proofs s). pf_id f < db_fresh s" using ok by (simp_all add: purchases_ok_def)
  note side = step_side [OF ok] and env = purchase_env [OF D]
  from st show ?thesis
  proof cases
    case (entered E user d b)
    then have run: "bill_createInTransaction E co user d [] s = Inr (b, t)" by (simp add: bill_create_def transaction_Inr)
    show ?thesis
      by (rule side [OF posting_env.create_bill_keeps [OF env [OF entered(1)] run pay entered(3)]])
        (rule posting_env.create_bill_side [OF env [OF entered(1)] run], simp)
  next
    case (edited E i u b)
    then have run: "bill_updateInTransaction E co i u s = Inr (b, t)" by (simp add: bill_update_def transaction_Inr)
    show ?thesis by (rule side [OF posting_env.update_bill_keeps [OF env [OF edited(1)] run pay edited(3)]
          posting_env.update_bill_side [OF env [OF edited(1)] run]])
  next
    case (posted E i user b)
    show ?thesis by (rule side [OF posting_env.post_bill_keeps [OF env [OF posted(1)] posted(2) pay]
          posting_env.post_bill_side [OF env [OF posted(1)] posted(2)]])
  next
    case (paid E user pd p)
    then have run: "bill_payInTransaction E co user pd s = Inr (p, t)" by (simp add: bill_pay_def transaction_Inr)
    note ps = posting_env.pay_bills_side [OF env [OF paid(1)] run fr]
    show ?thesis by (rule step_pay [OF ok posting_env.pay_bills_keeps [OF env [OF paid(1)] run pay paid(3)] ps(1,3)])
  next
    case (removed E i user x)
    then have "bill_deleteInTransaction E co i user s = Inr (x, t)" by (simp add: bill_delete_def transaction_Inr)
    then show ?thesis using posting_env.delete_bill_step [OF env [OF removed(1)]] ok by blast
  next
    case (settled E user sd r)
    then have run: "bill_settleInTransaction E co user sd s = Inr (r, t)" by (simp add: bill_settle_def transaction_Inr)
    note ps = posting_env.settle_side [OF env [OF settled(1)] run fr]
    show ?thesis by (rule step_pay [OF ok posting_env.settle_bills_keeps [OF env [OF settled(1)] run pay settled(3,4)] ps])
  next
    case (credited E user cd c)
    show ?thesis by (rule side [OF posting_env.create_credit_keeps [OF env [OF credited(1)] credited(2) pay credited(3)]
          posting_env.create_credit_side [OF env [OF credited(1)] credited(2)]])
  next
    case (used E i j amt c)
    then obtain r where run: "applyVendorCredit (dec E) co i j amt None s = Inr (r, t)"
      by (auto simp: applyToBill_def transaction_Inr map_sum_Inr)
    show ?thesis by (rule side [OF posting_env.use_credit_keeps [OF env [OF used(1)] run pay used(3)]
          posting_env.use_credit_side [OF env [OF used(1)] run]])
  next
    case (voided E i user c)
    show ?thesis by (rule side [OF posting_env.void_credit_keeps(1) [OF env [OF voided(1)] voided(2) pay]
          posting_env.void_credit_side [OF env [OF voided(1)] voided(2)]])
  next
    case (dropped E i user x)
    show ?thesis by (rule side [OF posting_env.delete_credit_keeps [OF env [OF dropped(1)] dropped(2) pay]
          posting_env.delete_credit_side [OF env [OF dropped(1)] dropped(2)]])
  next
    case (uploaded put user mime name sz f)
    then show ?thesis using ok by (rule upload_keeps)
  next
    case (ordered un od p)
    obtain number s1 where "\<exists>year. nextDocumentNumber (po_numbers co s) co PO year s = Inr (number, s1)"
      and t: "t = s1\<lparr>db_pos := db_pos s1 @ [p], db_fresh := db_fresh s1 + 1 + length (pc_lines od)\<rparr>"
      using ordered(1) by (simp add: po_create_def transaction_Inr result_simps Let_def) blast
    then obtain qs where "s1 = s\<lparr>db_sequences := qs\<rparr>" using nextDocumentNumber_frame by blast
    then have "db_proofs t = db_proofs s \<and> db_fresh s \<le> db_fresh t" by (simp add: t)
    then show ?thesis using po_create_keeps [OF D ordered(1) ok ordered(2)] step_proofs by blast
  next
    case (reordered i od p)
    have t: "t = (save_po p s)\<lparr>db_fresh := db_fresh s + length (pc_lines od)\<rparr>"
      using reordered(1) by (auto simp: po_update_def transaction_Inr result_simps Let_def)
    have "db_proofs t = db_proofs s \<and> db_fresh s \<le> db_fresh t" by (simp add: t save_po_def)
    then show ?thesis using po_update_keeps [OF D reordered(1) ok reordered(2)] step_proofs by blast
  next
    case (unordered i x)
    then have "db_proofs t = db_proofs s \<and> db_fresh s \<le> db_fresh t" by (auto simp: po_delete_def transaction_Inr result_simps)
    then show ?thesis using po_delete_keeps [OF unordered ok] step_proofs by blast
  next
    case (moved i target x)
    then obtain p where "t = s \<or> (\<exists>st. t = save_po (p\<lparr>po_status := st\<rparr>) s)"
      by (auto simp: po_updateStatus_def transaction_Inr result_simps split: if_splits)
    then have "db_proofs t = db_proofs s \<and> db_fresh s \<le> db_fresh t" by (auto simp: save_po_def)
    then show ?thesis using po_status_keeps [OF moved ok] step_proofs by blast
  next
    case (received E user i rs x)
    then show ?thesis using posting_env.receive_step [OF env [OF received(1)]] ok by blast
  next
    case (billed E user i qd b)
    then show ?thesis using posting_env.order_bill_step [OF env [OF billed(1)]] ok by blast
  qed
qed

lemma reachable_purchases:
  assumes "decimal_lib D" and "purchase_reachable D co s"
  shows "purchases_ok co s"
  using assms(2)
proof induction
  case (step s t)
  then show ?case using keeps_purchases [OF assms(1) step.hyps(2)] by (simp add: step_ok_def)
qed (rule opening_ok)

lemma run_purchases:
  assumes "decimal_lib D" and "(purchase_step D co)\<^sup>*\<^sup>* s t" and "purchases_ok co s"
  shows "step_ok co s t"
  using assms(2)
proof (induction rule: rtranclp_induct)
  case base
  then show ?case using assms(3) by (simp add: step_ok_def)
next
  case (step t u)
  then show ?case using keeps_purchases [OF assms(1) step.hyps(2)] by (auto simp: step_ok_def)
qed

end
