(* ===== verification/PurchaseProps.thy ===== *)
theory PurchaseProps
  imports Purchases SalesProps BooksProps
begin

text \<open>
  What the purchase side promises: that the payables agree, bills and orders stay within their totals, a proof of payment
  counts once, receiving and billing move the account for goods received by what the order accrued, and an open bill can
  be paid off.
\<close>

section \<open>An office that buys\<close>

definition demo_vendor :: vendor where
  "demo_vendor =
     \<lparr>ve_id = 3, ve_companyId = 7, ve_code = None, ve_companyName = [], ve_contactPerson = None, ve_email = None, ve_address = None,
      ve_paymentTerms = [], ve_taxId = None, ve_expenseAccount = None, ve_balance = 0, ve_active = True, ve_notes = None,
      ve_whatsapp = cu_whatsapp demo_customer\<rparr>"

definition demo_office :: purchase_db where
  "demo_office =
     \<lparr>db_companies = [], db_accounts = [shop_account 10 ''2000'' Liability, shop_account 11 ''5000'' Expense,
        (shop_account 12 ''1000'' Asset)\<lparr>acc_subType := ''Cash''\<rparr>, shop_account 13 ''1200'' Asset],
      db_entries = [], db_gl = [], db_fresh = 30, db_sequences = [], db_customers = [], db_vendors = [demo_vendor], db_profiles = [],
      db_items = [demo_item], db_movements = [], db_invoices = [], db_payments = [], db_applications = [], db_orders = [],
      db_deliveries = [], db_memos = [], db_audit = [], db_bills = [], db_billPayments = [], db_billApplications = [],
      db_proofs = map (\<lambda>i. \<lparr>pf_id = i, pf_company = 7, pf_storageKey = [], pf_url = [], pf_mimeType = [], pf_originalName = [],
        pf_size = 1, pf_uploadedBy = 1, pf_consumedBy = None\<rparr>) [20, 21],
      db_vendorCredits = [], db_pos = []\<rparr>"

definition demo_order :: po_input where
  "demo_order =
     \<lparr>pc_vendor = 3, pc_orderDate = ''2025-03-01'', pc_expectedDate = None, pc_notes = None,
      pc_lines = [\<lparr>px_description = [], px_ordered = 5, px_unitCost = 20, px_taxRate = Some 10, px_kind = None, px_item = Some 4,
                    px_account = None\<rparr>,
                  \<lparr>px_description = [], px_ordered = 1, px_unitCost = 50, px_taxRate = None, px_kind = None, px_item = None,
                    px_account = Some 11\<rparr>]\<rparr>"

definition office_ordered :: purchase_db where
  "office_ordered = state_after (po_create decimal_half_up 7 False demo_order demo_office) demo_office"

definition office_sent :: purchase_db where
  "office_sent = state_after (po_updateStatus 7 30 PS_sent office_ordered) demo_office"

definition office_stocked :: purchase_db where
  "office_stocked = state_after (po_receive demo_env 7 1 30 [(31, 3), (32, 1)] office_sent) demo_office"

definition demo_bill_input :: po_bill_input where
  "demo_bill_input = \<lparr>pq_number = Some ''V1'', pq_date = Some ''2025-03-05'', pq_dueDate = Some ''2025-03-31'', pq_defaultAccount = None\<rparr>"

definition office_billed :: purchase_db where
  "office_billed = state_after (po_createBill demo_env 7 1 30 demo_bill_input office_stocked) demo_office"

definition demo_payment :: "nat \<Rightarrow> rat \<Rightarrow> bill_payment_input" where
  "demo_payment i x = \<lparr>pb_vendor = 3, pb_date = ''2025-03-08'', pb_method = [], pb_bank = 12, pb_reference = None, pb_proof = 20,
     pb_applications = [(i, x)]\<rparr>"

definition office_paid :: purchase_db where
  "office_paid = state_after (bill_pay demo_env 7 1 (demo_payment 35 100) office_billed) demo_office"

type_synonym office_facts =
  "(rat \<times> rat \<times> rat) \<times> ((nat \<times> acct_type) option \<times> (nat \<times> acct_type) option \<times> acct_type option)
   \<times> (rat \<times> rat \<times> nat) list \<times> (nat \<times> (rat \<times> rat \<times> rat \<times> nat option) list) list \<times> bool"

text \<open>An account to pay from, the payables account, a proof not used yet, an open period, and every bill posted.\<close>

definition office_can_pay :: "purchase_db \<Rightarrow> bool" where
  "office_can_pay s \<longleftrightarrow>
     list_ex (\<lambda>a. acc_id a = 12 \<and> acc_company a = 7 \<and> \<not> isl (assertMoneyAccount a)) (db_accounts s)
     \<and> (case by_number s 7 ACCT_AP of None \<Rightarrow> False | Some a \<Rightarrow> acc_active a) \<and> \<not> isl (claim_proof 7 21 s)
     \<and> \<not> isl (assertPeriodOpen s 7 ''2025-03-09'') \<and> list_all (\<lambda>b. bi_entry b \<noteq> None \<and> bi_status b \<noteq> BS_void) (db_bills s)"

definition office_view :: "purchase_db \<Rightarrow> office_facts" where
  "office_view s =
     ((balance_of s 7 ACCT_AP, balance_of s 7 ACCT_GRNI, grni_of 7 30 s),
      (map_option (\<lambda>a. (acc_id a, acc_type a)) (by_number s 7 ACCT_AP), map_option (\<lambda>a. (acc_id a, acc_type a)) (by_number s 7 ACCT_GRNI),
       map_option acc_type (by_number s 7 ACCT_INVENTORY)),
      map (\<lambda>b. (bi_total b, bi_amountPaid b, bi_company b)) (db_bills s),
      map (\<lambda>p. (po_company p, map (\<lambda>l. (pn_billed l, pn_received l, pn_ordered l, pn_account l)) (po_lines p))) (db_pos s), office_can_pay s)"

text \<open>The whole run, evaluated once; what the witnesses need of each state is read off it.\<close>

definition office_run :: "(office_facts \<times> office_facts \<times> office_facts \<times> office_facts) result" where
  "office_run =
     bindE (po_create decimal_half_up 7 False demo_order demo_office) (\<lambda>(_, s1).
     bindE (po_updateStatus 7 30 PS_sent s1) (\<lambda>(_, s2).
     bindE (po_receive demo_env 7 1 30 [(31, 3), (32, 1)] s2) (\<lambda>(_, s3).
     bindE (po_createBill demo_env 7 1 30 demo_bill_input s3) (\<lambda>(_, s4).
     bindE (bill_pay demo_env 7 1 (demo_payment 35 100) s4) (\<lambda>(_, s5).
     Inr (office_view s2, office_view s3, office_view s4, office_view s5))))))"

lemma office_run_is:
  "office_run = Inr
     (((0, 0, 0), (Some (10, Liability), None, Some Asset), [], [(7, [(0, 0, 5, None), (0, 0, 1, Some 11)])], True),
      ((0, 66, 66), (Some (10, Liability), Some (33, Liability), Some Asset), [], [(7, [(0, 3, 5, None), (0, 1, 1, Some 11)])], True),
      ((116, 0, 0), (Some (10, Liability), Some (33, Liability), Some Asset), [(116, 0, 7)], [(7, [(3, 3, 5, None), (1, 1, 1, Some 11)])], True),
      ((16, 0, 0), (Some (10, Liability), Some (33, Liability), Some Asset), [(116, 100, 7)], [(7, [(3, 3, 5, None), (1, 1, 1, Some 11)])], True))"
  by code_simp

lemma office_runs:
  shows "\<exists>p. po_create decimal_half_up 7 False demo_order demo_office = Inr (p, office_ordered)"
    and "\<exists>p. po_updateStatus 7 30 PS_sent office_ordered = Inr (p, office_sent)"
    and "\<exists>p. po_receive demo_env 7 1 30 [(31, 3), (32, 1)] office_sent = Inr (p, office_stocked)"
    and "\<exists>p. po_createBill demo_env 7 1 30 demo_bill_input office_stocked = Inr (p, office_billed)"
    and "\<exists>p. bill_pay demo_env 7 1 (demo_payment 35 100) office_billed = Inr (p, office_paid)"
    and "office_run = Inr (office_view office_sent, office_view office_stocked, office_view office_billed, office_view office_paid)"
proof -
  obtain x1 s1 x2 s2 x3 s3 x4 s4 x5 s5 where r:
    "po_create decimal_half_up 7 False demo_order demo_office = Inr (x1, s1)" "po_updateStatus 7 30 PS_sent s1 = Inr (x2, s2)"
    "po_receive demo_env 7 1 30 [(31, 3), (32, 1)] s2 = Inr (x3, s3)" "po_createBill demo_env 7 1 30 demo_bill_input s3 = Inr (x4, s4)"
    "bill_pay demo_env 7 1 (demo_payment 35 100) s4 = Inr (x5, s5)"
    using office_run_is unfolding office_run_def bindE_Inr by (auto simp: bindE_Inr)
  have e1: "office_ordered = s1" unfolding office_ordered_def r(1) state_after_def by simp
  have e2: "office_sent = s2" unfolding office_sent_def e1 r(2) state_after_def by simp
  have e3: "office_stocked = s3" unfolding office_stocked_def e2 r(3) state_after_def by simp
  have e4: "office_billed = s4" unfolding office_billed_def e3 r(4) state_after_def by simp
  have e5: "office_paid = s5" unfolding office_paid_def e4 r(5) state_after_def by simp
  show "\<exists>p. po_create decimal_half_up 7 False demo_order demo_office = Inr (p, office_ordered)"
    "\<exists>p. po_updateStatus 7 30 PS_sent office_ordered = Inr (p, office_sent)"
    "\<exists>p. po_receive demo_env 7 1 30 [(31, 3), (32, 1)] office_sent = Inr (p, office_stocked)"
    "\<exists>p. po_createBill demo_env 7 1 30 demo_bill_input office_stocked = Inr (p, office_billed)"
    "\<exists>p. bill_pay demo_env 7 1 (demo_payment 35 100) office_billed = Inr (p, office_paid)"
    "office_run = Inr (office_view office_sent, office_view office_stocked, office_view office_billed, office_view office_paid)"
    unfolding e1 e2 e3 e4 e5 office_run_def by (simp_all only: bindE_simps prod.case r) blast+
qed

lemmas office_views = trans [OF sym [OF office_runs(6)] office_run_is]

lemma office_facts:
  shows "balance_of office_paid 7 ACCT_AP = 16" and "balance_of office_sent 7 ACCT_GRNI = 0" and "grni_of 7 30 office_sent = 0"
    and "grni_of 7 30 office_stocked = 66" and "grni_of 7 30 office_billed = 0"
    and "map_option (\<lambda>a. (acc_id a, acc_type a)) (by_number office_stocked 7 ACCT_AP) = Some (10, Liability)"
    and "map_option (\<lambda>a. (acc_id a, acc_type a)) (by_number office_stocked 7 ACCT_GRNI) = Some (33, Liability)"
    and "map_option acc_type (by_number office_stocked 7 ACCT_INVENTORY) = Some Asset"
    and "map (\<lambda>b. (bi_total b, bi_amountPaid b, bi_company b)) (db_bills office_paid) = [(116, 100, 7)]"
    and "map (\<lambda>p. (po_company p, map (\<lambda>l. (pn_billed l, pn_received l, pn_ordered l, pn_account l)) (po_lines p))) (db_pos office_stocked)
      = [(7, [(0, 3, 5, None), (0, 1, 1, Some 11)])]"
    and "map (\<lambda>p. (po_company p, map (\<lambda>l. (pn_billed l, pn_received l, pn_ordered l, pn_account l)) (po_lines p))) (db_pos office_billed)
      = [(7, [(3, 3, 5, None), (1, 1, 1, Some 11)])]"
    and "office_can_pay office_paid"
  using office_views unfolding office_view_def by blast+

lemma office_opening: "opening_purchases 7 demo_office"
proof -
  have "ledger_ok demo_office"
    by (simp add: demo_office_def shop_account_def ledger_ok_def accounts_ok_def entries_ok_def
        balance_ok_def account_sum_def last_balance_def refs_in_sequence_def company_entries_def posted_lines_def)
  then show ?thesis
    by (simp add: opening_purchases_def demo_office_def demo_vendor_def shop_account_def by_number_def ACCT_AP_def)
qed

lemma office_avoids: "order_avoids 7 30 demo_bill_input ACCT_AP office_stocked" "order_avoids 7 30 demo_bill_input ACCT_GRNI office_stocked"
  using office_facts(6,7,10) by (auto simp: order_avoids_def demo_bill_input_def map_eq_Cons_conv dest!: find_po_Some)

lemma office_reachable:
  "purchase_reachable decimal_half_up 7 office_sent" "purchase_reachable decimal_half_up 7 office_stocked"
  "purchase_reachable decimal_half_up 7 office_billed" "purchase_reachable decimal_half_up 7 office_paid"
proof -
  have a: "purchase_reachable decimal_half_up 7 demo_office" by (rule purchase_reachable.start [OF office_opening])
  obtain p where "po_create decimal_half_up 7 False demo_order demo_office = Inr (p, office_ordered)"
    using office_runs(1) by blast
  then have "purchase_step decimal_half_up 7 demo_office office_ordered"
    by (rule purchase_step.ordered) (simp add: ordered_nonneg_def demo_order_def)
  then have b: "purchase_reachable decimal_half_up 7 office_ordered" using a purchase_reachable.step by blast
  obtain x where "po_updateStatus 7 30 PS_sent office_ordered = Inr (x, office_sent)"
    using office_runs(2) by blast
  then have "purchase_step decimal_half_up 7 office_ordered office_sent" by (rule purchase_step.moved)
  then show c: "purchase_reachable decimal_half_up 7 office_sent" using b purchase_reachable.step by blast
  obtain y where "po_receive demo_env 7 1 30 [(31, 3), (32, 1)] office_sent = Inr (y, office_stocked)"
    using office_runs(3) by blast
  then have "purchase_step decimal_half_up 7 office_sent office_stocked" by (rule purchase_step.received [rotated]) simp
  then show d: "purchase_reachable decimal_half_up 7 office_stocked" using c purchase_reachable.step by blast
  obtain z where run: "po_createBill demo_env 7 1 30 demo_bill_input office_stocked = Inr (z, office_billed)"
    using office_runs(4) by blast
  have "order_avoids 7 30 demo_bill_input ACCT_AP office_stocked" by (rule office_avoids(1))
  with run have "purchase_step decimal_half_up 7 office_stocked office_billed" by (rule purchase_step.billed [rotated]) simp
  then show e: "purchase_reachable decimal_half_up 7 office_billed" using d purchase_reachable.step by blast
  obtain w where "bill_pay demo_env 7 1 (demo_payment 35 100) office_billed = Inr (w, office_paid)"
    using office_runs(5) by blast
  then have "purchase_step decimal_half_up 7 office_billed office_paid"
    by (rule purchase_step.paid [rotated]) (simp_all add: demo_payment_def on_grid_numeral)
  then show "purchase_reachable decimal_half_up 7 office_paid" using e purchase_reachable.step by blast
qed

section \<open>The payables\<close>





section \<open>Proofs of payment\<close>

text \<open>
  C36: a proof of payment pays once. Once a payment has gone through on an uploaded proof, no later payment of the company on
  the same proof does, whatever happens in between and whatever bills, account and user it names.
\<close>

theorem proof_pays_once:
  assumes "decimal_lib D" and "purchase_reachable D co s" and "dec E = D" and "bill_pay E co user d s = Inr (p, t)"
    and "\<forall>(i, x) \<in> set (pb_applications d). money x" and "(purchase_step D co)\<^sup>*\<^sup>* t u" and "pb_proof d' = pb_proof d"
  shows "bill_pay E' co user' d' u \<noteq> Inr (p', v)"
proof -
  have ok: "purchases_ok co s" by (rule reachable_purchases [OF assms(1,2)])
  have run: "bill_payInTransaction E co user d s = Inr (p, t)" using assms(4) by (simp add: bill_pay_def transaction_Inr)
  have "spent (pb_proof d) t"
    by (rule posting_env.pay_bills_side(2) [OF purchase_env [OF assms(1,3)] run]) (use ok in \<open>simp add: purchases_ok_def\<close>)
  moreover have "purchases_ok co t"
    using keeps_purchases [OF assms(1) purchase_step.paid [OF assms(3,4,5)] ok] by (simp add: step_ok_def)
  ultimately have "spent (pb_proof d') u"
    using run_purchases [OF assms(1,6)] assms(7) by (simp add: step_ok_def)
  then show ?thesis by (auto simp: bill_pay_def transaction_Inr spent_refused)
qed

theorem proof_pays_once_witness: "isl (bill_pay demo_env 7 2 (demo_payment 35 16) office_paid)"
proof -
  obtain w where "bill_pay demo_env 7 1 (demo_payment 35 100) office_billed = Inr (w, office_paid)"
    using office_runs(5) by blast
  then have "bill_pay demo_env 7 2 (demo_payment 35 16) office_paid \<noteq> Inr (p', v)" for p' v
    by (rule proof_pays_once [OF half_up.decimal_lib_axioms office_reachable(3) dec_demo_env, where u = office_paid])
      (simp_all add: demo_payment_def on_grid_numeral)
  then show ?thesis by (cases "bill_pay demo_env 7 2 (demo_payment 35 16) office_paid") auto
qed

section \<open>Orders\<close>

text \<open>
  C37: no line of an order is billed past what was received, or received past what was ordered. In any state the purchase side
  reaches, with orders written for quantities that are not negative, every line of every order of the company has
  0 <= billed <= received <= ordered, through receipts and their corrections, billing, and the deletion of bills.
\<close>

theorem order_quantities:
  assumes "decimal_lib D" and "purchase_reachable D co s" and "p \<in> set (db_pos s)" and "po_company p = co" and "l \<in> set (po_lines p)"
  shows "0 \<le> pn_billed l \<and> pn_billed l \<le> pn_received l \<and> pn_received l \<le> pn_ordered l"
  using reachable_purchases [OF assms(1,2)] assms(3-5)
  by (auto simp: purchases_ok_def orders_ok_def lines_ok_def list_all_iff po_line_ok_def)

theorem order_quantities_witness:
  "\<exists>p \<in> set (db_pos office_billed). \<exists>l \<in> set (po_lines p). pn_billed l = 3 \<and> pn_ordered l = 5 \<and> pn_billed l \<le> pn_ordered l"
proof -
  obtain p l k where p: "db_pos office_billed = [p]" "po_company p = 7" "po_lines p = [l, k]" "pn_billed l = 3" "pn_ordered l = 5"
    using office_facts(11) by (auto simp: map_eq_Cons_conv)
  then show ?thesis
    using order_quantities [OF half_up.decimal_lib_axioms office_reachable(3), of p l] by (intro bexI [of _ p] bexI [of _ l]) auto
qed

text \<open>
  C38: a receipt moves the books by exactly what it records. Whatever lines are received or corrected, account 2050 (goods
  received, not yet billed) moves by the change in what the lines of the order have accrued and not cleared, and account 1200
  by the values of the stock movements the receipt writes; when the amounts cancel, nothing is posted and nothing moves.
\<close>

theorem receipt_follows_order:
  assumes "decimal_lib (dec E)" and "purchase_reachable (dec E) co s" and "po_receive E co user i received s = Inr (u, t)"
    and "account_typed co ACCT_GRNI Liability t" and "account_typed co ACCT_INVENTORY Asset t"
  shows "balance_of t co ACCT_GRNI - balance_of s co ACCT_GRNI = grni_of co i t - grni_of co i s
    \<and> (\<exists>ms. db_movements t = db_movements s @ ms \<and> balance_of t co ACCT_INVENTORY - balance_of s co ACCT_INVENTORY = moved_value co ms)"
  using posting_env.receipt_balances [OF purchase_env [OF assms(1) refl] assms(3) reachable_purchases [OF assms(1,2)] assms(4,5)] by blast

theorem receipt_follows_order_witness: "balance_of office_stocked 7 ACCT_GRNI = 66"
proof -
  obtain y where run: "po_receive demo_env 7 1 30 [(31, 3), (32, 1)] office_sent = Inr (y, office_stocked)"
    using office_runs(3) by blast
  have ty: "account_typed 7 ACCT_GRNI Liability office_stocked" "account_typed 7 ACCT_INVENTORY Asset office_stocked"
    using office_facts(7,8) by (auto simp: account_typed_def)
  have "decimal_lib (dec demo_env)" "purchase_reachable (dec demo_env) 7 office_sent"
    using half_up.decimal_lib_axioms office_reachable(1) by simp_all
  from receipt_follows_order [OF this run ty] show ?thesis using office_facts(2-4) by simp
qed

text \<open>
  C39: a bill raised from an order bills what was received and not yet billed, and clears what those receipts accrued. The bill
  has one line for each line of the order with something to bill, for that quantity, on account 2050 when it is stock;
  afterwards every line of the order is billed for all that was received, its stock lines have cleared all they accrued, and
  account 2050 has moved by the change in what the order has accrued and not cleared.
\<close>

theorem order_billed_exactly:
  assumes "decimal_lib (dec E)" and "purchase_reachable (dec E) co s" and "po_createBill E co user i d s = Inr (b, t)"
    and "by_number s co ACCT_GRNI = Some g" and "acc_type g = Liability" and "order_avoids co i d ACCT_GRNI s"
  shows "balance_of t co ACCT_GRNI - balance_of s co ACCT_GRNI = grni_of co i t - grni_of co i s
    \<and> (\<exists>p p'. find_po co i s = Some p \<and> find_po co i t = Some p' \<and> bi_lines b \<noteq> []
        \<and> map bn_quantity (bi_lines b) = map (\<lambda>l. Some (pn_received l - pn_billed l)) (filter (\<lambda>l. 0 < unbilled l) (po_lines p))
        \<and> list_all2 (\<lambda>l l'. pn_billed l' = pn_received l \<and> (pn_item l \<noteq> None \<and> 0 < unbilled l \<longrightarrow> pn_grniCleared l' = pn_grniAccrued l))
            (po_lines p) (po_lines p'))"
proof -
  have ok: "purchases_ok co s" by (rule reachable_purchases [OF assms(1,2)])
  note ob = posting_env.order_bill_balances [OF purchase_env [OF assms(1) refl] assms(3) ok assms(4-6)]
  obtain p h where p: "find_po co i s = Some p" "bi_lines b \<noteq> []"
    and t: "find_po co i t = Some (p\<lparr>po_lines := map (billed_po_line (dec E)) (po_lines p),
           po_status := deriveStatus False (map (billed_po_line (dec E)) (po_lines p))\<rparr>)"
    and rel: "list_all2 (bills_line h (pq_defaultAccount d) (dec E)) (bi_lines b) (filter (\<lambda>l. 0 < unbilled l) (po_lines p))"
    using ob(2) by blast
  have lo: "\<forall>l \<in> set (po_lines p). po_line_ok l"
    using purchases_parts(1) [OF ok p(1)] by (simp add: lines_ok_def list_all_iff)
  have q: "d_fixed (dec E) 4 (unbilled l) = pn_received l - pn_billed l" if "l \<in> set (po_lines p)" for l
    using lo that by (simp add: unbilled_def po_line_ok_def decimal_lib.fixed_id [OF assms(1)] on_grid_diff)
  have "map bn_quantity bs = map (\<lambda>l. Some (d_fixed (dec E) 4 (unbilled l))) ls"
    if "list_all2 (bills_line h (pq_defaultAccount d) (dec E)) bs ls" for bs ls
    using that by (induction rule: list_all2_induct) (simp_all add: bills_line_def)
  from this [OF rel] have "map bn_quantity (bi_lines b) = map (\<lambda>l. Some (pn_received l - pn_billed l)) (filter (\<lambda>l. 0 < unbilled l) (po_lines p))"
    using q by (simp cong: map_cong)
  moreover have "pn_billed (billed_po_line (dec E) l) = pn_received l
      \<and> (pn_item l \<noteq> None \<and> 0 < unbilled l \<longrightarrow> pn_grniCleared (billed_po_line (dec E) l) = pn_grniAccrued l)" if "l \<in> set (po_lines p)" for l
  proof (cases "0 < unbilled l")
    case True
    then show ?thesis using decimal_lib.billed_line_ok(2) [OF assms(1) lo [rule_format, OF that] True] by simp
  next
    case False
    then have "pn_billed l = pn_received l" using lo that by (auto simp: unbilled_def po_line_ok_def)
    then show ?thesis using False by (simp add: billed_po_line_def)
  qed
  ultimately show ?thesis using ob(1) p t by (simp add: list_all2_map2 list.rel_refl_strong)
qed

theorem order_billed_exactly_witness: "balance_of office_billed 7 ACCT_GRNI - balance_of office_stocked 7 ACCT_GRNI = -66"
proof -
  obtain z where run: "po_createBill demo_env 7 1 30 demo_bill_input office_stocked = Inr (z, office_billed)"
    using office_runs(4) by blast
  obtain g where g: "by_number office_stocked 7 ACCT_GRNI = Some g" "acc_type g = Liability" using office_facts(7) by auto
  have "decimal_lib (dec demo_env)" "purchase_reachable (dec demo_env) 7 office_stocked"
    using half_up.decimal_lib_axioms office_reachable(2) by simp_all
  from order_billed_exactly [OF this run g office_avoids(2)] show ?thesis using office_facts(4,5) by simp
qed

section \<open>Paying a bill off\<close>

definition pays_off :: "bill \<Rightarrow> nat \<Rightarrow> nat \<Rightarrow> date \<Rightarrow> bill_payment_input" where
  "pays_off b bank f day =
     \<lparr>pb_vendor = bi_vendor b, pb_date = day, pb_method = ''bank_transfer'', pb_bank = bank, pb_reference = None, pb_proof = f,
      pb_applications = [(bi_id b, bi_balance b)]\<rparr>"

lemma find_keyed: "distinct (map key xs) \<Longrightarrow> y \<in> set xs \<Longrightarrow> key y = k \<Longrightarrow> P y \<Longrightarrow> find (\<lambda>x. key x = k \<and> P x) xs = Some y"
  by (induction xs) (auto simp: rev_image_eqI)

text \<open>
  C40: a bill can always be paid off. In any state the purchase side reaches, a posted bill of the company with something open
  is paid by one payment of its balance on any cash or bank account in use, with any proof not used before, in an open period:
  the request succeeds and commits, the bill is paid with nothing open, and account 2000 has fallen by the balance.
\<close>

theorem open_bill_payable:
  assumes "decimal_lib (dec E)" and "purchase_reachable (dec E) co s" and b: "b \<in> set (db_bills s)" "bi_company b = co"
    and "bi_entry b \<noteq> None" and "bi_status b \<noteq> BS_void" and pos: "0 < bi_balance b"
    and ap: "by_number s co ACCT_AP = Some ap" "acc_active ap"
    and bank: "bank \<in> set (db_accounts s)" "acc_company bank = co" "assertMoneyAccount bank = Inr ()"
    and pf: "claim_proof co f s = Inr pf" and open': "assertPeriodOpen s co day = Inr ()"
  shows "\<exists>p t b'. bill_pay E co user (pays_off b (acc_id bank) f day) s = Inr (p, t) \<and> find_bill co (bi_id b) t = Some b' \<and> bi_balance b' = 0
    \<and> bi_status b' = BS_paid \<and> balance_of t co ACCT_AP = balance_of s co ACCT_AP - bi_balance b"
proof -
  define d where "d = pays_off b (acc_id bank) f day"
  have ok: "payables_ok co s" using reachable_purchases [OF assms(1,2)] by (simp add: purchases_ok_def)
  have l: "ledger_ok s" using ok by (rule payables_ledger)
  have row: "bill_row_ok s ap b" and at: "acc_type ap = Liability"
    using payables_account [OF ok] b ap(1) by (metis option.inject)+
  then have bo: "money (bi_total b)" "money (bi_amountPaid b)" "bi_balance b = bi_total b - bi_amountPaid b" "bi_status b \<noteq> BS_draft"
    and v: "find_vendor co (bi_vendor b) s \<noteq> None" using b assms(5) by (auto simp: bill_row_ok_def)
  have mb: "money (bi_balance b)" using bo by (simp add: on_grid_diff)
  have fx: "d_fixed (dec E) 4 (bi_balance b) = bi_balance b" "d_fixed (dec E) 4 (bi_total b) = bi_total b" "d_fixed (dec E) 4 0 = 0"
    using decimal_lib.fixed_id [OF assms(1)] mb bo(1) by simp_all
  obtain ve where ve: "find_vendor co (bi_vendor b) s = Some ve" using v by blast
  have dist: "distinct (map bi_id (db_bills s))" using ok by (simp add: payables_ok_def keyed_def)
  have fb: "find_bill co (bi_id b) s = Some b"
    unfolding find_bill_def using b dist by (intro find_keyed) auto
  have fk: "find (\<lambda>a. acc_id a = acc_id bank \<and> acc_company a = co) (db_accounts s) = Some bank"
    using bank ledger_ok_ids [OF l] by (intro find_keyed) auto
  define p where "p = new_bill_payment (dec E) co d (bi_balance b) pf s"
  define s1 where "s1 = s\<lparr>db_billPayments := db_billPayments s @ [p], db_fresh := Suc (db_fresh s),
     db_proofs := update_row pf_id (pf_id pf) (\<lambda>f. f\<lparr>pf_consumedBy := Some (db_fresh s)\<rparr>) (db_proofs s)\<rparr>"
  define s2 where "s2 = save_bill (paid_bill (dec E) (bi_balance b) b) s1"
  define s3 where "s3 = add_vendor_balance (dec E) co (bi_vendor b) (- bi_balance b)
     (s2\<lparr>db_billApplications := db_billApplications s2 @ [\<lparr>ba_payment = db_fresh s, ba_bill = bi_id b, ba_amount = bi_balance b\<rparr>]\<rparr>)"
  define inp where "inp = \<lparr>pi_company = co, pi_date = day, pi_memo = Some (''Bill payment to '' @ ve_companyName ve), pi_createdBy = user,
                 pi_lines = number_lines [post_line (acc_id ap) None (bi_balance b) 0, post_line (acc_id bank) None 0 (bi_balance b)],
                 pi_posted = True, pi_sourceType = Some ''bill_payment'', pi_sourceId = Some (db_fresh s), pi_reversalOf = None\<rparr>"
  have same: "db_accounts s3 = db_accounts s" "db_entries s3 = db_entries s" "db_gl s3 = db_gl s" "db_companies s3 = db_companies s"
    by (simp_all add: s3_def s2_def s1_def add_vendor_balance_def save_bill_def)
  have l3: "ledger_ok s3" using l by (rule ledger_ok_same [rotated -1]) (simp_all add: same, simp add: s3_def s2_def s1_def add_vendor_balance_def save_bill_def)
  have one: "pay_one_bill (dec E) co (bi_vendor b) (db_fresh s) ([], s1) (bi_id b, bi_balance b)
      = Inr ([\<lparr>ba_payment = db_fresh s, ba_bill = bi_id b, ba_amount = bi_balance b\<rparr>], s2)"
  proof -
    have "find_bill co (bi_id b) s1 = Some b" using fb by (simp add: s1_def find_bill_def)
    then show ?thesis using pos bo(4) assms(6) by (simp add: pay_one_bill_def isPositive_def fx s2_def)
  qed
  have apm: "ap \<in> set (db_accounts s)" "acc_company ap = co" using by_number_Some [OF ap(1)] by simp_all
  have am: "acc_active bank" using bank(3) by (auto simp: assertMoneyAccount_def result_simps)
  have nl: "pi_lines inp = [(post_line (acc_id ap) None (bi_balance b) 0)\<lparr>pl_order := Some 0\<rparr>,
      (post_line (acc_id bank) None 0 (bi_balance b))\<lparr>pl_order := Some 1\<rparr>]"
    by (simp add: inp_def number_lines_def)
  have "\<exists>r. createEntry E s3 inp = Inr r"
    unfolding entry_accepted [OF assms(1) l3] nl
    using pos fx apm bank(1,2) am ap(2) open' by (auto simp: inp_def post_line_def line_valid_def same assertPeriodOpen_def moneyEquals_def MONEY_TOLERANCE_def)
  then obtain e s4 where ce: "createEntry E s3 inp = Inr (e, s4)" by auto
  define t where "t = s4\<lparr>db_billPayments := update_row bp_id (db_fresh s) (\<lambda>_. p\<lparr>bp_entry := Some (je_id e)\<rparr>) (db_billPayments s4)\<rparr>"
  have run: "bill_payInTransaction E co user d s = Inr (p\<lparr>bp_entry := Some (je_id e)\<rparr>, t)"
  proof -
    have "by_number s3 co ACCT_AP = Some ap" using ap(1) by (simp add: by_number_def same)
    then have g: "getByNumberOrFail s3 co ACCT_AP = Inr ap" using ap(2) by (simp add: getByNumber_Inr)
    show ?thesis
      using g ce [unfolded inp_def] ve fk bank(3) pf one
      by (simp add: bill_payInTransaction_def d_def pays_off_def p_def [unfolded d_def pays_off_def, symmetric] s1_def [symmetric] s3_def [symmetric] fx
          t_def [symmetric])
  qed
  have je: "je_lines e = stored_lines (dec E) 0 (pi_lines inp)" by (rule createEntry_Inr(7) [OF ce])
  have "entry_balanced e" by (simp add: entry_balanced_def je nl post_line_def fx)
  then have bal: "assert_entries_balanced s t"
    using createEntry_frame [OF ce] by (auto simp: assert_entries_balanced_def t_def same)
  have bills: "db_bills t = update_row bi_id (bi_id b) (\<lambda>_. paid_bill (dec E) (bi_balance b) b) (db_bills s)"
    using side_books(2) [of s4 s3] createEntry_frame [OF ce]
    by (simp add: t_def s3_def s2_def s1_def add_vendor_balance_def save_bill_def paid_bill_def Let_def)
  have idb: "bi_id (paid_bill (dec E) (bi_balance b) b) = bi_id b" "bi_company (paid_bill (dec E) (bi_balance b) b) = co"
    using b by (simp_all add: paid_bill_def Let_def)
  have "find_bill co (bi_id b) t = Some (paid_bill (dec E) (bi_balance b) b)"
  proof -
    have "find (\<lambda>x. bi_id x = bi_id b \<and> bi_company x = co) (update_row bi_id (bi_id b) (\<lambda>_. paid_bill (dec E) (bi_balance b) b) bs)
        = Some (paid_bill (dec E) (bi_balance b) b)" if "b \<in> set bs" for bs
      using that idb b(2) by (induction bs) (auto simp: update_row_def)
    then show ?thesis using b(1) by (simp add: find_bill_def bills)
  qed
  moreover have "bi_balance (paid_bill (dec E) (bi_balance b) b) = 0" "bi_status (paid_bill (dec E) (bi_balance b) b) = BS_paid"
    using bo fx
    by (simp_all add: paid_bill_def Let_def moneyEquals_def MONEY_TOLERANCE_def)
  moreover have "balance_of t co ACCT_AP = balance_of s co ACCT_AP - bi_balance b"
  proof -
    have "acc_type bank = Asset" using bank(3) by (auto simp: assertMoneyAccount_def result_simps)
    then have "bank \<noteq> ap" using at by auto
    then have other: "acc_id bank \<noteq> acc_id ap"
      using bank(1) apm(1) ledger_ok_ids [OF l] unfolding distinct_map by (meson inj_onD)
    have "input_effect (dec E) (pi_lines inp) ap = - bi_balance b"
      using other at fx by (simp add: nl input_effect_def post_line_def signedDelta_def fx)
    then show ?thesis
      using posting_env.posted_balances [OF purchase_env [OF assms(1) refl] ce l3, of co ACCT_AP] ap(1)
      by (simp add: inp_def balance_of_def t_def by_number_def same)
  qed
  ultimately show ?thesis using run bal unfolding d_def by (auto simp: bill_pay_def transaction_Inr)
qed

theorem open_bill_payable_witness:
  "\<exists>b \<in> set (db_bills office_paid). \<exists>d p t. bi_balance b = 16 \<and> bill_pay demo_env 7 1 d office_paid = Inr (p, t) \<and> balance_of t 7 ACCT_AP = 0"
proof -
  obtain b where b: "db_bills office_paid = [b]" "bi_total b = 116" "bi_amountPaid b = 100" "bi_company b = 7"
    using office_facts(9) by (auto simp: map_eq_Cons_conv)
  have lib: "decimal_lib (dec demo_env)" and reach: "purchase_reachable (dec demo_env) 7 office_paid"
    using half_up.decimal_lib_axioms office_reachable(4) by simp_all
  have "payables_ok 7 office_paid" using reachable_purchases [OF lib reach] by (simp add: purchases_ok_def)
  then have bal: "bi_balance b = 16" using b payables_account by (fastforce simp: bill_row_ok_def)
  have pay: "office_can_pay office_paid" by (rule office_facts(12))
  have not_isl: "\<not> isl r \<longleftrightarrow> (\<exists>y. r = Inr y)" for r :: "'r result" by (cases r) simp_all
  from pay obtain bank ap pf where k: "bank \<in> set (db_accounts office_paid)" "acc_company bank = 7" "assertMoneyAccount bank = Inr ()"
    and ap: "by_number office_paid 7 ACCT_AP = Some ap" "acc_active ap" and pf: "claim_proof 7 21 office_paid = Inr pf"
    and op: "assertPeriodOpen office_paid 7 ''2025-03-09'' = Inr ()" and st: "bi_entry b \<noteq> None" "bi_status b \<noteq> BS_void"
    using b(1) unfolding office_can_pay_def list_ex_iff by (auto split: option.splits simp: not_isl) 
  show ?thesis
    using open_bill_payable [OF lib reach _ b(4) st _ ap k pf op, of 1] b(1) bal office_facts(1) by fastforce
qed

end
