(* ===== verification/Spec2Isabelle.thy ===== *)
theory Spec2Isabelle
  imports BooksProps Aging Documents Companies SalesProps InvoiceTotals StockFlow DeliveryCollection PurchaseProps
begin

text \<open>
  The books of FinMatrix.
\<close>

end
